(* ===== verification/Go_Prelude.thy ===== *)
theory Go_Prelude
  imports Complex_Main "HOL-Library.Sublist" "HOL-Library.Char_ord" "HOL-Library.List_Lexorder"
begin

text \<open>
  Shared ground of the development: the Go values the other theories are written over, the
  standard library functions the sources call on them, the collections of simplification rules
  of the development and the generic lemmas on lists and maps.

  Strings are Go strings, that is lists of bytes (\<^typ>\<open>char\<close> is a byte). Go's \<open>int\<close> and
  \<open>int64\<close> are \<^typ>\<open>int\<close>; where a sum or a product of values that come from outside the program
  is formed, it is wrapped to 64 bits by \<open>i64\<close>. A \<open>time.Time\<close> is the number of nanoseconds
  since Go's zero time, so the zero value (\<open>IsZero\<close>) is \<open>0\<close>; a \<open>time.Duration\<close> is a number of
  nanoseconds. A finite \<open>float64\<close> is the rational number it denotes: comparisons are exact,
  and sums and products are taken without the rounding of the machine.
\<close>

section \<open>Collections\<close>

named_theorems go_string \<open>facts about the string functions of the Go standard library\<close>
named_theorems budget_simps \<open>field-wise effect of the operations of the budget tracker\<close>
named_theorems frame_simps \<open>what an operation leaves unchanged\<close>

section \<open>64-bit integers\<close>

definition i64 :: "int \<Rightarrow> int" where
  "i64 x = (x + 2 ^ 63) mod 2 ^ 64 - 2 ^ 63"

definition in_i64 :: "int \<Rightarrow> bool" where
  "in_i64 x \<longleftrightarrow> - (2 ^ 63) \<le> x \<and> x < 2 ^ 63"

lemma in_i64_i64 [simp]: "in_i64 (i64 x)"
proof -
  have "0 \<le> (x + 2 ^ 63) mod 2 ^ 64" "(x + 2 ^ 63) mod 2 ^ 64 < (2 ^ 64 :: int)"
    by simp_all
  then show ?thesis by (simp add: in_i64_def i64_def)
qed

lemma i64_id [simp]: "in_i64 x \<Longrightarrow> i64 x = x"
  by (simp add: in_i64_def i64_def)

lemma i64_i64 [simp]: "i64 (i64 x) = i64 x"
  by simp

lemma i64_add_left [simp]: "i64 (i64 x + y) = i64 (x + y)"
proof -
  have "((x + 2 ^ 63) mod 2 ^ 64 - 2 ^ 63 + y + 2 ^ 63) mod 2 ^ 64
        = ((x + 2 ^ 63) mod 2 ^ 64 + y) mod (2 ^ 64 :: int)"
    by (simp add: algebra_simps)
  also have "\<dots> = (x + y + 2 ^ 63) mod 2 ^ 64"
    by (simp add: mod_simps algebra_simps)
  finally show ?thesis by (simp add: i64_def)
qed

lemma i64_add_right [simp]: "i64 (x + i64 y) = i64 (x + y)"
  using i64_add_left [of y x] by (simp add: add.commute)

lemma i64_0 [simp]: "i64 0 = 0"
  by (simp add: i64_def)

lemma in_i64_0 [simp]: "in_i64 0"
  by (simp add: in_i64_def)

lemma in_i64_between: "in_i64 a \<Longrightarrow> in_i64 b \<Longrightarrow> a \<le> x \<Longrightarrow> x \<le> b \<Longrightarrow> in_i64 x"
  by (simp add: in_i64_def)

section \<open>Time\<close>

type_synonym gotime = int      \<comment> \<open>nanoseconds since the zero time; \<open>0\<close> is \<open>time.Time{}\<close>\<close>
type_synonym duration = int    \<comment> \<open>\<open>time.Duration\<close>, nanoseconds\<close>

abbreviation (input) time_is_zero :: "gotime \<Rightarrow> bool" where
  "time_is_zero t \<equiv> t = 0"

definition time_second :: duration where
  "time_second = 1000000000"

definition time_millisecond :: duration where
  "time_millisecond = 1000000"

section \<open>Strings\<close>

abbreviation quote_char :: char where "quote_char \<equiv> CHR 0x22"
abbreviation backslash :: char where "backslash \<equiv> CHR 0x5C"
abbreviation newline :: char where "newline \<equiv> CHR 0x0A"

text \<open>\<open>strings.HasPrefix\<close>, \<open>strings.Contains\<close>, \<open>strings.Join\<close>.\<close>

abbreviation has_prefix :: "string \<Rightarrow> string \<Rightarrow> bool" where
  "has_prefix s p \<equiv> prefix p s"

fun strings_contains :: "string \<Rightarrow> string \<Rightarrow> bool" where
  "strings_contains [] sub = (sub = [])"
| "strings_contains (c # cs) sub = (prefix sub (c # cs) \<or> strings_contains cs sub)"

lemma strings_contains_iff: "strings_contains s sub \<longleftrightarrow> sublist sub s"
  by (induction s) (auto simp: sublist_Cons_right)

fun strings_join :: "string list \<Rightarrow> string \<Rightarrow> string" where
  "strings_join [] sep = []"
| "strings_join [x] sep = x"
| "strings_join (x # xs) sep = x @ sep @ strings_join xs sep"

text \<open>\<open>strings.Split\<close> and \<open>strings.SplitN(s, sep, 2)\<close> for a separator of one byte.\<close>

fun strings_split :: "char \<Rightarrow> string \<Rightarrow> string list" where
  "strings_split sep [] = [[]]"
| "strings_split sep (c # s) =
     (if c = sep then [] # strings_split sep s
      else (case strings_split sep s of [] \<Rightarrow> [[c]] | p # ps \<Rightarrow> (c # p) # ps))"

definition strings_split2 :: "char \<Rightarrow> string \<Rightarrow> string \<times> string option" where
  "strings_split2 sep s = (case dropWhile (\<lambda>c. c \<noteq> sep) s of
       [] \<Rightarrow> (s, None)
     | _ # rest \<Rightarrow> (takeWhile (\<lambda>c. c \<noteq> sep) s, Some rest))"

lemma strings_split_nonempty [simp]: "strings_split sep s \<noteq> []"
  by (induction s) (auto split: list.splits)

text \<open>
  \<open>strings.TrimSpace\<close> removes the white space of Unicode from both ends. In UTF-8 each of these
  code points is one of the byte sequences below.
\<close>

definition space_seqs :: "string list" where
  "space_seqs =
     [[CHR 0x09], [CHR 0x0A], [CHR 0x0B], [CHR 0x0C], [CHR 0x0D], [CHR 0x20],
      [CHR 0xC2, CHR 0x85], [CHR 0xC2, CHR 0xA0], [CHR 0xE1, CHR 0x9A, CHR 0x80],
      [CHR 0xE2, CHR 0x80, CHR 0x80], [CHR 0xE2, CHR 0x80, CHR 0x81],
      [CHR 0xE2, CHR 0x80, CHR 0x82], [CHR 0xE2, CHR 0x80, CHR 0x83],
      [CHR 0xE2, CHR 0x80, CHR 0x84], [CHR 0xE2, CHR 0x80, CHR 0x85],
      [CHR 0xE2, CHR 0x80, CHR 0x86], [CHR 0xE2, CHR 0x80, CHR 0x87],
      [CHR 0xE2, CHR 0x80, CHR 0x88], [CHR 0xE2, CHR 0x80, CHR 0x89],
      [CHR 0xE2, CHR 0x80, CHR 0x8A], [CHR 0xE2, CHR 0x80, CHR 0xA8],
      [CHR 0xE2, CHR 0x80, CHR 0xA9], [CHR 0xE2, CHR 0x80, CHR 0xAF],
      [CHR 0xE2, CHR 0x81, CHR 0x9F], [CHR 0xE3, CHR 0x80, CHR 0x80]]"

definition leading_space :: "string list \<Rightarrow> string \<Rightarrow> nat" where
  "leading_space seqs s =
     (case find (\<lambda>p. prefix p s) seqs of None \<Rightarrow> 0 | Some p \<Rightarrow> length p)"

function trim_left_seqs :: "string list \<Rightarrow> string \<Rightarrow> string" where
  "trim_left_seqs seqs s =
     (let n = leading_space seqs s in
      if n = 0 \<or> s = [] then s else trim_left_seqs seqs (drop n s))"
  by pat_completeness auto
termination
  by (relation "measure (\<lambda>(seqs, s). length s)") (auto simp: Let_def)

declare trim_left_seqs.simps [simp del]

definition trim_space :: "string \<Rightarrow> string" where
  "trim_space s =
     rev (trim_left_seqs (map rev space_seqs) (rev (trim_left_seqs space_seqs s)))"

lemma trim_left_seqs_suffix: "suffix (trim_left_seqs seqs s) s"
proof (induction seqs s rule: trim_left_seqs.induct)
  case (1 seqs s)
  show ?case
  proof (cases "leading_space seqs s = 0 \<or> s = []")
    case True
    then show ?thesis by (simp add: trim_left_seqs.simps [of seqs s])
  next
    case False
    then have "suffix (trim_left_seqs seqs (drop (leading_space seqs s) s))
                      (drop (leading_space seqs s) s)"
      using "1.IH" by simp
    then have "suffix (trim_left_seqs seqs (drop (leading_space seqs s) s)) s"
      using suffix_drop suffix_order.trans by blast
    with False show ?thesis
      by (subst trim_left_seqs.simps) (simp add: Let_def)
  qed
qed

lemma trim_space_Nil [simp]: "trim_space [] = []"
  by (simp add: trim_space_def trim_left_seqs.simps leading_space_def Let_def)

lemma trim_space_sublist: "\<exists>a b. s = a @ trim_space s @ b"
proof -
  obtain a where a: "s = a @ trim_left_seqs space_seqs s"
    using trim_left_seqs_suffix [of space_seqs s] by (auto simp: suffix_def)
  let ?t = "trim_left_seqs space_seqs s"
  obtain b where "rev ?t = b @ trim_left_seqs (map rev space_seqs) (rev ?t)"
    using trim_left_seqs_suffix [of "map rev space_seqs" "rev ?t"] by (auto simp: suffix_def)
  then have "?t = trim_space s @ rev b"
    unfolding trim_space_def by (metis rev_append rev_rev_ident)
  with a show ?thesis by metis
qed

lemma length_trim_space: "length (trim_space s) \<le> length s"
  using trim_space_sublist [of s] by (metis length_append le_add1 le_add2 le_trans)

lemma leading_space_0: "s \<noteq> [] \<Longrightarrow> hd s \<notin> hd ` set seqs \<Longrightarrow> [] \<notin> set seqs \<Longrightarrow> leading_space seqs s = 0"
proof -
  assume s: "s \<noteq> []" "hd s \<notin> hd ` set seqs" "[] \<notin> set seqs"
  have "\<not> prefix p s" if "p \<in> set seqs" for p
    using s that by (cases p; cases s) (auto simp: image_iff)
  then have "find (\<lambda>p. prefix p s) seqs = None" by (simp add: find_None_iff)
  then show ?thesis by (simp add: leading_space_def)
qed

text \<open>A string is not trimmed when its ends are no part of white space.\<close>

lemma trim_space_id:
  assumes "s \<noteq> []" "hd s \<notin> hd ` set space_seqs" "last s \<notin> last ` set space_seqs"
  shows "trim_space s = s"
proof -
  have "trim_left_seqs space_seqs s = s"
    using leading_space_0 [OF assms(1,2)] by (subst trim_left_seqs.simps) (simp add: Let_def space_seqs_def)
  moreover have "hd (rev s) \<notin> hd ` set (map rev space_seqs)"
    using assms(1,3) by (auto simp: hd_rev image_image)
  then have "trim_left_seqs (map rev space_seqs) (rev s) = rev s"
    using leading_space_0 [of "rev s" "map rev space_seqs"] assms(1)
    by (subst trim_left_seqs.simps) (simp add: Let_def space_seqs_def)
  ultimately show ?thesis by (simp add: trim_space_def)
qed

text \<open>\<open>strconv.Itoa\<close>.\<close>

definition digit_char :: "nat \<Rightarrow> char" where
  "digit_char d = char_of (48 + d)"

fun nat_dec :: "nat \<Rightarrow> string" where
  "nat_dec n = (if n < 10 then [digit_char n] else nat_dec (n div 10) @ [digit_char (n mod 10)])"

declare nat_dec.simps [simp del]

definition itoa :: "int \<Rightarrow> string" where
  "itoa n = (if n < 0 then CHR ''-'' # nat_dec (nat (- n)) else nat_dec (nat n))"

lemma digit_char_inj: "d < 10 \<Longrightarrow> e < 10 \<Longrightarrow> digit_char d = digit_char e \<Longrightarrow> d = e"
  using char_of_eq_iff [of "48 + d" "digit_char e"]
  by (auto simp: digit_char_def of_char_of)

lemma nat_dec_nonempty [simp]: "nat_dec n \<noteq> []"
  by (subst nat_dec.simps) simp

lemma nat_dec_inj: "nat_dec m = nat_dec n \<Longrightarrow> m = n"
proof (induction m arbitrary: n rule: nat_dec.induct)
  case (1 m)
  note eq = "1.prems"
  show ?case
  proof (cases "m < 10"; cases "n < 10")
    assume "m < 10" "n < 10"
    with eq show ?thesis by (auto simp: nat_dec.simps intro: digit_char_inj)
  next
    assume "m < 10" "\<not> n < 10"
    with eq show ?thesis
      using nat_dec_nonempty [of "n div 10"]
      by (simp add: nat_dec.simps [of m] nat_dec.simps [of n])
  next
    assume "\<not> m < 10" "n < 10"
    with eq show ?thesis
      using nat_dec_nonempty [of "m div 10"]
      by (simp add: nat_dec.simps [of m] nat_dec.simps [of n])
  next
    assume m: "\<not> m < 10" and n: "\<not> n < 10"
    with eq have "nat_dec (m div 10) = nat_dec (n div 10)"
      and d: "digit_char (m mod 10) = digit_char (n mod 10)"
      by (simp_all add: nat_dec.simps [of m] nat_dec.simps [of n])
    then have "m div 10 = n div 10" using "1.IH" m by blast
    moreover have "m mod 10 = n mod 10"
      using d by (auto intro: digit_char_inj)
    ultimately show ?thesis by (metis div_mult_mod_eq)
  qed
qed

text \<open>
  \<open>strconv.Quote\<close>: a double-quoted Go string literal. Bytes from \<open>0x80\<close> on are copied, which is
  what \<open>Quote\<close> does for printable UTF-8 text.
\<close>

definition hex_char :: "nat \<Rightarrow> char" where
  "hex_char d = (if d < 10 then char_of (48 + d) else char_of (87 + d))"

definition hex_byte :: "char \<Rightarrow> string" where
  "hex_byte c = [hex_char (of_char c div 16), hex_char (of_char c mod 16)]"

definition quote_byte :: "char \<Rightarrow> string" where
  "quote_byte c =
     (if c = quote_char \<or> c = backslash then [backslash, c]
      else if c = CHR 0x07 then [backslash, CHR ''a'']
      else if c = CHR 0x08 then [backslash, CHR ''b'']
      else if c = CHR 0x0C then [backslash, CHR ''f'']
      else if c = CHR 0x0A then [backslash, CHR ''n'']
      else if c = CHR 0x0D then [backslash, CHR ''r'']
      else if c = CHR 0x09 then [backslash, CHR ''t'']
      else if c = CHR 0x0B then [backslash, CHR ''v'']
      else if (of_char c :: nat) < 32 \<or> c = CHR 0x7F then [backslash, CHR ''x''] @ hex_byte c
      else [c])"

definition strconv_quote :: "string \<Rightarrow> string" where
  "strconv_quote s = [quote_char] @ concat (map quote_byte s) @ [quote_char]"

section \<open>Lists and maps\<close>

lemma takeWhile_dropWhile_length:
  "length (takeWhile P xs) + length (dropWhile P xs) = length xs"
  by (metis length_append takeWhile_dropWhile_id)

lemma sum_list_update_nth:
  fixes f :: "'a \<Rightarrow> nat"
  assumes "i < length xs"
  shows "sum_list (map f (xs[i := y])) + f (xs ! i) = sum_list (map f xs) + f y"
  using assms
proof (induction xs arbitrary: i)
  case (Cons a xs)
  then show ?case by (cases i) auto
qed simp

end
