(* ===== verification/Core_Types.thy ===== *)
theory Core_Types
  imports Go_Prelude
begin

text \<open>
  The data of the root package: messages and tool calls (\<open>message.go\<close>), usage, requests,
  responses and stream chunks (\<open>model.go\<close>), the error values (\<open>errors.go\<close> and the error types
  of the subpackages they wrap), the spans of a trace (\<open>trace.go\<close>), the result of a run
  (\<open>run.go\<close>) and the events (\<open>events.go\<close>).

  Go's string-typed enumerations (\<open>Role\<close>, \<open>StopReason\<close>, \<open>SpanKind\<close>, \<open>ToolChoice\<close>) stay strings,
  with abbreviations for the declared constants: any other string is a legal value too.
\<close>

section \<open>Messages (message.go)\<close>

type_synonym raw_message = string     \<comment> \<open>\<open>json.RawMessage\<close>\<close>

abbreviation RoleSystem :: string where "RoleSystem \<equiv> ''system''"
abbreviation RoleUser :: string where "RoleUser \<equiv> ''user''"
abbreviation RoleAssistant :: string where "RoleAssistant \<equiv> ''assistant''"
abbreviation RoleTool :: string where "RoleTool \<equiv> ''tool''"

record tool_call =
  tcID :: string
  tcName :: string
  tcArguments :: raw_message

record message =
  msgRole :: string
  msgText :: string
  msgReasoning :: string
  msgToolCalls :: "tool_call list"
  msgToolCallID :: string
  msgName :: string

definition SystemMessage :: "string \<Rightarrow> message" where
  "SystemMessage text = \<lparr>msgRole = RoleSystem, msgText = text, msgReasoning = [],
     msgToolCalls = [], msgToolCallID = [], msgName = []\<rparr>"

definition UserMessage :: "string \<Rightarrow> message" where
  "UserMessage text = \<lparr>msgRole = RoleUser, msgText = text, msgReasoning = [],
     msgToolCalls = [], msgToolCallID = [], msgName = []\<rparr>"

definition AssistantMessage :: "string \<Rightarrow> message" where
  "AssistantMessage text = \<lparr>msgRole = RoleAssistant, msgText = text, msgReasoning = [],
     msgToolCalls = [], msgToolCallID = [], msgName = []\<rparr>"

definition toolResultMessage :: "string \<Rightarrow> string \<Rightarrow> string \<Rightarrow> message" where
  "toolResultMessage callID name content = \<lparr>msgRole = RoleTool, msgText = content,
     msgReasoning = [], msgToolCalls = [], msgToolCallID = callID, msgName = name\<rparr>"

section \<open>Usage (model.go)\<close>

record usage =
  InputTokens :: int
  OutputTokens :: int
  TotalTokens :: int
  CostUSD :: rat
  CachedInputTokens :: int
  ReasoningTokens :: int

definition usage_zero :: usage where
  "usage_zero = \<lparr>InputTokens = 0, OutputTokens = 0, TotalTokens = 0, CostUSD = 0,
     CachedInputTokens = 0, ReasoningTokens = 0\<rparr>"

definition usage_add :: "usage \<Rightarrow> usage \<Rightarrow> usage" where
  "usage_add u o' = \<lparr>InputTokens = i64 (InputTokens u + InputTokens o'),
     OutputTokens = i64 (OutputTokens u + OutputTokens o'),
     TotalTokens = i64 (TotalTokens u + TotalTokens o'),
     CostUSD = CostUSD u + CostUSD o',
     CachedInputTokens = i64 (CachedInputTokens u + CachedInputTokens o'),
     ReasoningTokens = i64 (ReasoningTokens u + ReasoningTokens o')\<rparr>"

definition usage_in_range :: "usage \<Rightarrow> bool" where
  "usage_in_range u \<longleftrightarrow> in_i64 (InputTokens u) \<and> in_i64 (OutputTokens u) \<and>
     in_i64 (TotalTokens u) \<and> in_i64 (CachedInputTokens u) \<and> in_i64 (ReasoningTokens u)"

lemma usage_add_assoc: "usage_add (usage_add a b) c = usage_add a (usage_add b c)"
  by (simp add: usage_add_def algebra_simps)

lemma usage_add_commute: "usage_add a b = usage_add b a"
  by (simp add: usage_add_def algebra_simps)

lemma usage_in_range_add [simp]: "usage_in_range (usage_add a b)"
  by (simp add: usage_add_def usage_in_range_def)

lemma usage_in_range_zero [simp]: "usage_in_range usage_zero"
  by (simp add: usage_zero_def usage_in_range_def)

lemma usage_add_zero [simp]:
  "usage_in_range u \<Longrightarrow> usage_add usage_zero u = u"
  "usage_in_range u \<Longrightarrow> usage_add u usage_zero = u"
  by (simp_all add: usage_add_def usage_zero_def usage_in_range_def)

lemma TotalTokens_add [simp]: "TotalTokens (usage_add a b) = i64 (TotalTokens a + TotalTokens b)"
  by (simp add: usage_add_def)

lemma CostUSD_add [simp]: "CostUSD (usage_add a b) = CostUSD a + CostUSD b"
  by (simp add: usage_add_def)

lemma usage_zero_fields [simp]: "TotalTokens usage_zero = 0" "CostUSD usage_zero = 0"
  by (simp_all add: usage_zero_def)

text \<open>The usage accumulated over a list of model calls.\<close>

fun usage_sum :: "usage list \<Rightarrow> usage" where
  "usage_sum [] = usage_zero"
| "usage_sum (u # us) = usage_add u (usage_sum us)"

lemma usage_in_range_sum [simp]: "usage_in_range (usage_sum us)"
  by (cases us) auto

lemma usage_sum_append: "usage_sum (us @ vs) = usage_add (usage_sum us) (usage_sum vs)"
  by (induction us) (simp_all add: usage_add_assoc)

lemma usage_foldl:
  "usage_in_range u \<Longrightarrow> foldl usage_add u us = usage_add u (usage_sum us)"
  by (induction us arbitrary: u) (simp_all add: usage_add_assoc)

section \<open>Requests and responses (model.go)\<close>

abbreviation StopReasonStop :: string where "StopReasonStop \<equiv> ''stop''"
abbreviation StopReasonToolCalls :: string where "StopReasonToolCalls \<equiv> ''tool_calls''"
abbreviation StopReasonLength :: string where "StopReasonLength \<equiv> ''length''"
abbreviation StopReasonContentFilter :: string where "StopReasonContentFilter \<equiv> ''content_filter''"
abbreviation StopReasonBudget :: string where "StopReasonBudget \<equiv> ''budget''"
abbreviation StopReasonMaxSteps :: string where "StopReasonMaxSteps \<equiv> ''max_steps''"
abbreviation StopReasonCanceled :: string where "StopReasonCanceled \<equiv> ''canceled''"
abbreviation StopReasonError :: string where "StopReasonError \<equiv> ''error''"

record response_format =
  rfName :: string
  rfSchema :: raw_message
  rfStrict :: bool

record tool_def =
  tdName :: string
  tdDescription :: string
  tdParameters :: raw_message

record request =
  rqModel :: string
  rqMessages :: "message list"
  rqTools :: "tool_def list"
  rqToolChoice :: string
  rqResponseFormat :: "response_format option"
  rqTemperature :: "rat option"
  rqMaxTokens :: int
  rqStop :: "string list"
  rqReasoningEffort :: string
  rqReasoningMaxTokens :: int
  rqPreviousResponseID :: string

record response =
  rspMessage :: message
  rspUsage :: usage
  rspStopReason :: string
  rspModel :: string
  rspID :: string
  rspRaw :: raw_message

record stream_chunk =
  skTextDelta :: string
  skReasoningDelta :: string
  skToolCall :: "tool_call option"
  skUsage :: "usage option"
  skFinal :: "response option"

section \<open>Errors (errors.go)\<close>

text \<open>
  The error values of the program. \<open>ErrText\<close> is \<open>errors.New\<close> and \<open>fmt.Errorf\<close> without \<open>%w\<close>;
  \<open>ErrWrap p e\<close> is \<open>fmt.Errorf("p%w", e)\<close>, the only form of wrapping the sources use. The
  context errors, the validation error of \<open>schema\<close> and the API error of \<open>openai\<close> are included,
  since the run loop carries them.
\<close>

datatype goerr =
    ErrText string
  | ErrWrap string goerr
  | ErrNoModel
  | ErrBudgetExceeded
  | BudgetError string string            \<comment> \<open>Limit, Detail\<close>
  | ToolError string goerr               \<comment> \<open>Tool, Err\<close>
  | FatalToolError goerr                 \<comment> \<open>\<open>fatalToolError\<close>\<close>
  | OutputValidationError goerr string   \<comment> \<open>Err, Raw\<close>
  | ContextCanceled
  | ContextDeadlineExceeded
  | ValidationError string string        \<comment> \<open>\<open>schema.ValidationError\<close>: Path, Msg\<close>
  | APIError int string string string    \<comment> \<open>\<open>openai.APIError\<close>: StatusCode, Type, Message, Raw\<close>

fun Error :: "goerr \<Rightarrow> string" where
  "Error (ErrText s) = s"
| "Error (ErrWrap p e) = p @ Error e"
| "Error ErrNoModel = ''rimeno: no model configured''"
| "Error ErrBudgetExceeded = ''rimeno: budget exceeded''"
| "Error (BudgetError limit detail) = ''rimeno: budget exceeded ('' @ limit @ ''): '' @ detail"
| "Error (ToolError tool e) = ''rimeno: tool '' @ strconv_quote tool @ '': '' @ Error e"
| "Error (FatalToolError e) = ''rimeno: fatal tool error: '' @ Error e"
| "Error (OutputValidationError e raw) = ''rimeno: output failed schema validation: '' @ Error e"
| "Error ContextCanceled = ''context canceled''"
| "Error ContextDeadlineExceeded = ''context deadline exceeded''"
| "Error (ValidationError path msg) =
     (if path = [] then ''schema: '' @ msg else ''schema: '' @ path @ '': '' @ msg)"
| "Error (APIError status typ msg raw) = ''openai: http '' @ itoa status @ '': '' @ msg"

fun Unwrap :: "goerr \<Rightarrow> goerr option" where
  "Unwrap (ErrWrap p e) = Some e"
| "Unwrap (ToolError tool e) = Some e"
| "Unwrap (FatalToolError e) = Some e"
| "Unwrap (OutputValidationError e raw) = Some e"
| "Unwrap _ = None"

lemma size_Unwrap: "Unwrap e = Some e' \<Longrightarrow> size e' < size e"
  by (cases e) auto

text \<open>\<open>errors.As\<close>: the first error of the chain that the target accepts.\<close>

function errors_as :: "(goerr \<Rightarrow> 'a option) \<Rightarrow> goerr \<Rightarrow> 'a option" where
  "errors_as target e =
     (case target e of
        Some x \<Rightarrow> Some x
      | None \<Rightarrow> (case Unwrap e of None \<Rightarrow> None | Some e' \<Rightarrow> errors_as target e'))"
  by pat_completeness auto
termination
  by (relation "measure (\<lambda>(target, e). size e)") (auto simp: size_Unwrap)

declare errors_as.simps [simp del]

definition errors_is :: "(goerr \<Rightarrow> bool) \<Rightarrow> goerr \<Rightarrow> bool" where
  "errors_is p e \<longleftrightarrow> errors_as (\<lambda>x. if p x then Some x else None) e \<noteq> None"

text \<open>\<open>BudgetError.Is\<close>: every budget error matches the sentinel.\<close>

definition is_budget_exceeded :: "goerr \<Rightarrow> bool" where
  "is_budget_exceeded e \<longleftrightarrow>
     errors_is (\<lambda>x. case x of ErrBudgetExceeded \<Rightarrow> True | BudgetError _ _ \<Rightarrow> True | _ \<Rightarrow> False) e"

definition Fatal :: "goerr option \<Rightarrow> goerr option" where
  "Fatal err = (case err of None \<Rightarrow> None | Some e \<Rightarrow> Some (FatalToolError e))"

definition isFatal :: "goerr \<Rightarrow> goerr option" where
  "isFatal err = errors_as (\<lambda>e. case e of FatalToolError inner \<Rightarrow> Some inner | _ \<Rightarrow> None) err"

lemma isFatal_simps [simp]:
  "isFatal (FatalToolError e) = Some e"
  "isFatal (ErrWrap p e) = isFatal e"
  "isFatal (ToolError t e) = isFatal e"
  "isFatal (OutputValidationError e r) = isFatal e"
  "isFatal (ErrText s) = None"
  "isFatal ContextCanceled = None"
  "isFatal ContextDeadlineExceeded = None"
  "isFatal (BudgetError l d) = None"
  by (simp_all add: isFatal_def errors_as.simps [of _ "FatalToolError e"]
      errors_as.simps [of _ "ErrWrap p e"] errors_as.simps [of _ "ToolError t e"]
      errors_as.simps [of _ "OutputValidationError e r"] errors_as.simps [of _ "ErrText s"]
      errors_as.simps [of _ ContextCanceled] errors_as.simps [of _ ContextDeadlineExceeded]
      errors_as.simps [of _ "BudgetError l d"])

section \<open>Values of type any\<close>

text \<open>
  A Go value of type \<open>any\<close> as the run loop treats it: the cases \<open>marshalToolResult\<close> tells
  apart, and any other value as what \<open>json.Marshal\<close> and the verb \<open>%v\<close> make of it.
\<close>

datatype goany =
    AnyNil
  | AnyString string
  | AnyBytes string
  | AnyRawMessage raw_message
  | AnyValue "goerr + string" string     \<comment> \<open>\<open>json.Marshal(v)\<close>, \<open>fmt.Sprintf("%v", v)\<close>\<close>

section \<open>Spans (trace.go) and results (run.go)\<close>

type_synonym addr = nat     \<comment> \<open>a pointer to a span: its index in the store of spans\<close>

abbreviation SpanRun :: string where "SpanRun \<equiv> ''run''"
abbreviation SpanStep :: string where "SpanStep \<equiv> ''step''"
abbreviation SpanModel :: string where "SpanModel \<equiv> ''model''"
abbreviation SpanTool :: string where "SpanTool \<equiv> ''tool''"
abbreviation SpanCompaction :: string where "SpanCompaction \<equiv> ''compaction''"

datatype attr = AttrInt int | AttrBool bool

record span =
  spID :: string
  spKind :: string
  spName :: string
  spStart :: gotime
  spEnd :: gotime
  spUsage :: usage
  spModel :: string
  spTool :: string
  spStopReason :: string
  spError :: string
  spAttrs :: "string \<rightharpoonup> attr"
  spChildren :: "addr list"

record result =
  resText :: string
  resOutput :: goany
  resMessages :: "message list"
  resUsage :: usage
  resSteps :: nat
  resStopReason :: string
  resTrace :: addr

section \<open>Events (events.go)\<close>

record event_base =
  ebAgent :: string
  ebTime :: gotime

datatype event =
    RunStartedEvent event_base
  | StepStartedEvent event_base nat
  | ModelResponseEvent event_base usage string string
  | UsageUpdatedEvent event_base usage
  | ToolCallStartedEvent event_base tool_call
  | ToolCallFinishedEvent event_base tool_call string "goerr option"
  | CompactionStartedEvent event_base nat int
  | CompactionFinishedEvent event_base nat
  | SubAgentStartedEvent event_base string
  | SubAgentFinishedEvent event_base string usage
  | TextDeltaEvent event_base string
  | ReasoningDeltaEvent event_base string
  | RunFinishedEvent event_base result
  | ErrorEvent event_base goerr

fun EventKind :: "event \<Rightarrow> string" where
  "EventKind (RunStartedEvent _) = ''run_started''"
| "EventKind (StepStartedEvent _ _) = ''step_started''"
| "EventKind (ModelResponseEvent _ _ _ _) = ''model_response''"
| "EventKind (UsageUpdatedEvent _ _) = ''usage_updated''"
| "EventKind (ToolCallStartedEvent _ _) = ''tool_call_started''"
| "EventKind (ToolCallFinishedEvent _ _ _ _) = ''tool_call_finished''"
| "EventKind (CompactionStartedEvent _ _ _) = ''compaction_started''"
| "EventKind (CompactionFinishedEvent _ _) = ''compaction_finished''"
| "EventKind (SubAgentStartedEvent _ _) = ''subagent_started''"
| "EventKind (SubAgentFinishedEvent _ _ _) = ''subagent_finished''"
| "EventKind (TextDeltaEvent _ _) = ''text_delta''"
| "EventKind (ReasoningDeltaEvent _ _) = ''reasoning_delta''"
| "EventKind (RunFinishedEvent _ _) = ''run_finished''"
| "EventKind (ErrorEvent _ _) = ''error''"

end
