(* ===== verification/Go_Runtime.thy ===== *)
theory Go_Runtime
  imports Core_Types "HOL-Library.State_Monad"
begin

text \<open>
  Effects. A stateful Go function is a computation of the state monad over \<open>'w st\<close>: the world
  outside the program (any type \<open>'w\<close>), the store of trace spans, and the log of the events that
  reached a handler. What the program asks of the outside -- the clock, the random source, the
  state of a context, the goroutine that runs next -- are the functions of an environment
  \<open>'w env\<close>; nothing is assumed of them, so a theorem for every environment covers every
  timing, cancellation and interleaving. \<open>post m s Q\<close> says that \<open>m\<close>, started in \<open>s\<close>, ends in
  a value and a state that satisfy \<open>Q\<close>; its rules let a proof run a computation symbolically.
\<close>

section \<open>The state and the environment\<close>

record 'w st =
  stWorld :: 'w
  stHeap :: "span list"
  stEvents :: "event list"

text \<open>
  A context by how it was derived. \<open>CtxWithCancel c k\<close> carries the span under which the fan-out
  or the workflow that created it runs, so that two cancellable contexts are not confused.
\<close>

datatype ctx = CtxBackground | CtxWithDeadline ctx gotime | CtxWithCancel ctx addr

record 'w env =
  envNow :: "'w \<Rightarrow> gotime \<times> 'w"
  envRand8 :: "'w \<Rightarrow> string option \<times> 'w"
  envCtxErr :: "ctx \<Rightarrow> 'w \<Rightarrow> goerr option \<times> 'w"
  envCancel :: "ctx \<Rightarrow> 'w \<Rightarrow> 'w"
  envPick :: "nat \<Rightarrow> 'w \<Rightarrow> nat \<times> 'w"
  envTaskArgs :: "raw_message \<Rightarrow> goerr + string"     \<comment> \<open>\<open>json.Unmarshal\<close> into \<open>agentToolArgs\<close>\<close>

definition on_world :: "('w \<Rightarrow> 'a \<times> 'w) \<Rightarrow> ('w st, 'a) state" where
  "on_world f = State (\<lambda>s. case f (stWorld s) of (v, w) \<Rightarrow> (v, s\<lparr>stWorld := w\<rparr>))"

definition modify :: "('s \<Rightarrow> 's) \<Rightarrow> ('s, unit) state" where
  "modify f = State (\<lambda>s. ((), f s))"

definition gets :: "('s \<Rightarrow> 'a) \<Rightarrow> ('s, 'a) state" where
  "gets f = State (\<lambda>s. (f s, s))"

definition time_now :: "'w env \<Rightarrow> ('w st, gotime) state" where
  "time_now E = on_world (envNow E)"

definition ctx_Err :: "'w env \<Rightarrow> ctx \<Rightarrow> ('w st, goerr option) state" where
  "ctx_Err E c = on_world (envCtxErr E c)"

definition ctx_cancel :: "'w env \<Rightarrow> ctx \<Rightarrow> ('w st, unit) state" where
  "ctx_cancel E c = on_world (\<lambda>w. ((), envCancel E c w))"

section \<open>Events (Agent.emit, Agent.base)\<close>

type_synonym 'w handler = "(event \<Rightarrow> 'w \<Rightarrow> 'w) option"     \<comment> \<open>\<open>Config.OnEvent\<close>\<close>

definition deliver :: "'w handler \<Rightarrow> event \<Rightarrow> ('w st, unit) state" where
  "deliver h e = (case h of
       None \<Rightarrow> State_Monad.return ()
     | Some f \<Rightarrow> modify (\<lambda>s. s\<lparr>stWorld := f e (stWorld s), stEvents := stEvents s @ [e]\<rparr>))"

text \<open>
  \<open>a.emit(XEvent{a.base(), ...})\<close>: the clock is read for the event base, then the event goes to
  the handler, if there is one.
\<close>

definition emit :: "'w env \<Rightarrow> string \<Rightarrow> 'w handler \<Rightarrow> (event_base \<Rightarrow> event) \<Rightarrow> ('w st, unit) state" where
  "emit E name h mk = do {
     t \<leftarrow> time_now E;
     deliver h (mk \<lparr>ebAgent = name, ebTime = t\<rparr>)
   }"

section \<open>Identifiers (util.go)\<close>

definition newID :: "'w env \<Rightarrow> ('w st, string) state" where
  "newID E = do {
     b \<leftarrow> on_world (envRand8 E);
     State_Monad.return (case b of
         None \<Rightarrow> ''0000000000000000''
       | Some bytes \<Rightarrow> concat (map hex_byte bytes))
   }"

section \<open>Running computations\<close>

definition post :: "('s, 'a) state \<Rightarrow> 's \<Rightarrow> ('a \<Rightarrow> 's \<Rightarrow> bool) \<Rightarrow> bool" where
  "post m s Q \<longleftrightarrow> (case run_state m s of (v, t) \<Rightarrow> Q v t)"

lemma run_state_on_world [simp]:
  "run_state (on_world f) s = (case f (stWorld s) of (v, w) \<Rightarrow> (v, s\<lparr>stWorld := w\<rparr>))"
  by (simp add: on_world_def)

lemma run_state_modify [simp]: "run_state (modify f) s = ((), f s)"
  by (simp add: modify_def)

lemma run_state_gets [simp]: "run_state (gets f) s = (f s, s)"
  by (simp add: gets_def)

lemma post_bind [simp]: "post (State_Monad.bind m f) s Q \<longleftrightarrow> post m s (\<lambda>v t. post (f v) t Q)"
  by (simp add: post_def split: prod.splits)

lemma post_return [simp]: "post (State_Monad.return v) s Q \<longleftrightarrow> Q v s"
  by (simp add: post_def)

lemma post_modify [simp]: "post (modify f) s Q \<longleftrightarrow> Q () (f s)"
  by (simp add: post_def)

lemma post_gets [simp]: "post (gets f) s Q \<longleftrightarrow> Q (f s) s"
  by (simp add: post_def)

lemma post_on_world:
  "post (on_world f) s Q \<longleftrightarrow> Q (fst (f (stWorld s))) (s\<lparr>stWorld := snd (f (stWorld s))\<rparr>)"
  by (simp add: post_def split: prod.splits)

lemma postI: "(\<And>v t. run_state m s = (v, t) \<Longrightarrow> Q v t) \<Longrightarrow> post m s Q"
  by (simp add: post_def split: prod.splits)

lemma postD: "post m s Q \<Longrightarrow> run_state m s = (v, t) \<Longrightarrow> Q v t"
  by (simp add: post_def)

lemma post_mono: "post m s P \<Longrightarrow> (\<And>v t. P v t \<Longrightarrow> Q v t) \<Longrightarrow> post m s Q"
  by (simp add: post_def split: prod.splits)

lemma post_conj: "post m s P \<Longrightarrow> post m s Q \<Longrightarrow> post m s (\<lambda>v t. P v t \<and> Q v t)"
  by (simp add: post_def split: prod.splits)

lemma post_run_state: "post m s Q \<Longrightarrow> Q (fst (run_state m s)) (snd (run_state m s))"
  by (simp add: post_def split: prod.splits)

lemma post_iff: "post m s Q \<longleftrightarrow> Q (fst (run_state m s)) (snd (run_state m s))"
  by (simp add: post_def split: prod.splits)

lemma post_True [simp]: "post m s (\<lambda>v t. True)"
  by (simp add: post_def split: prod.splits)

lemma post_const [simp]: "post m s (\<lambda>v t. P) \<longleftrightarrow> P"
  by (simp add: post_def split: prod.splits)

text \<open>Case splits inside a computation.\<close>

lemma post_if: "post (if b then m else n) s Q \<longleftrightarrow> (b \<longrightarrow> post m s Q) \<and> (\<not> b \<longrightarrow> post n s Q)"
  by simp

lemma post_case_option:
  "post (case x of None \<Rightarrow> m | Some v \<Rightarrow> f v) s Q \<longleftrightarrow>
     (x = None \<longrightarrow> post m s Q) \<and> (\<forall>v. x = Some v \<longrightarrow> post (f v) s Q)"
  by (cases x) auto

lemma post_case_sum:
  "post (case x of Inl a \<Rightarrow> m a | Inr b \<Rightarrow> n b) s Q \<longleftrightarrow>
     (\<forall>a. x = Inl a \<longrightarrow> post (m a) s Q) \<and> (\<forall>b. x = Inr b \<longrightarrow> post (n b) s Q)"
  by (cases x) auto

lemma post_case_prod: "post (case x of (a, b) \<Rightarrow> f a b) s Q \<longleftrightarrow> post (f (fst x) (snd x)) s Q"
  by (cases x) auto

lemmas post_splits = post_if post_case_option post_case_sum post_case_prod

section \<open>What the primitives leave alone\<close>

text \<open>
  \<open>heap_same m\<close>: the computation does not touch the store of spans. External calls, clock reads
  and event handlers are of this kind.
\<close>

definition heap_same :: "('w st, 'a) state \<Rightarrow> bool" where
  "heap_same m \<longleftrightarrow> (\<forall>s. stHeap (snd (run_state m s)) = stHeap s)"

lemma heap_same_on_world [intro, simp]: "heap_same (on_world f)"
  by (auto simp: heap_same_def split: prod.splits)

lemma heap_same_return [intro, simp]: "heap_same (State_Monad.return v)"
  by (simp add: heap_same_def)

lemma heap_same_bind [intro]: "heap_same m \<Longrightarrow> (\<And>v. heap_same (f v)) \<Longrightarrow> heap_same (State_Monad.bind m f)"
  by (simp add: heap_same_def split: prod.splits) (metis snd_conv)

lemma heap_same_time_now [intro, simp]: "heap_same (time_now E)"
  by (simp add: time_now_def)

lemma heap_same_ctx_Err [intro, simp]: "heap_same (ctx_Err E c)"
  by (simp add: ctx_Err_def)

lemma heap_same_ctx_cancel [intro, simp]: "heap_same (ctx_cancel E c)"
  by (simp add: ctx_cancel_def)

lemma heap_same_deliver [intro, simp]: "heap_same (deliver h e)"
  by (auto simp: heap_same_def deliver_def split: option.splits)

lemma heap_same_emit [intro, simp]: "heap_same (emit E n h mk)"
  by (auto simp: emit_def)

lemma heap_same_newID [intro, simp]: "heap_same (newID E)"
  by (auto simp: newID_def)

end
