(* ===== verification/Budget.thy ===== *)
theory Budget
  imports Go_Runtime
begin

text \<open>
  \<open>budget.go\<close>: the budget of a run, the tracker that enforces it, and the reservation of a part
  of it for every subagent in flight. The tracker's operations hold its mutex, so each is one
  atomic step; \<open>fanout_step\<close> interleaves them freely, and the locale \<open>reservation_ledger\<close>
  proves once, for tokens and for cost, what the reservations guarantee.
\<close>

section \<open>Budget and tracker\<close>

record budget =
  MaxTotalTokens :: int
  MaxCostUSD :: rat
  MaxToolCalls :: int
  Timeout :: duration
  Deadline :: gotime

definition budget_zero :: budget where
  "budget_zero = \<lparr>MaxTotalTokens = 0, MaxCostUSD = 0, MaxToolCalls = 0, Timeout = 0, Deadline = 0\<rparr>"

record tracker =
  btB :: budget
  btUsed :: usage
  btToolCalls :: int
  btDeadline :: gotime
  btReservedTokens :: int
  btReservedCost :: rat
  btToolErrors :: "string \<Rightarrow> nat"      \<comment> \<open>\<open>map[string]int\<close>, absent keys read as 0\<close>

definition newBudgetTracker :: "gotime \<Rightarrow> budget \<Rightarrow> tracker" where
  "newBudgetTracker now b =
     (let d0 = (if \<not> time_is_zero (Deadline b) then Deadline b else 0);
          d1 = (if Timeout b > 0 \<and> (time_is_zero d0 \<or> now + Timeout b < d0)
                then now + Timeout b else d0)
      in \<lparr>btB = b, btUsed = usage_zero, btToolCalls = 0, btDeadline = d1,
          btReservedTokens = 0, btReservedCost = 0, btToolErrors = (\<lambda>_. 0)\<rparr>)"

definition addUsage :: "tracker \<Rightarrow> usage \<Rightarrow> tracker" where
  "addUsage t u = t\<lparr>btUsed := usage_add (btUsed t) u\<rparr>"

definition incToolCall :: "tracker \<Rightarrow> tracker" where
  "incToolCall t = t\<lparr>btToolCalls := btToolCalls t + 1\<rparr>"

definition check :: "gotime \<Rightarrow> tracker \<Rightarrow> goerr option" where
  "check now t =
     (if \<not> time_is_zero (btDeadline t) \<and> now > btDeadline t
      then Some (BudgetError ''deadline'' ''wall-clock deadline exceeded'')
      else if MaxTotalTokens (btB t) > 0 \<and> TotalTokens (btUsed t) \<ge> MaxTotalTokens (btB t)
      then Some (BudgetError ''total_tokens'' ''token budget exhausted'')
      else if MaxCostUSD (btB t) > 0 \<and> CostUSD (btUsed t) \<ge> MaxCostUSD (btB t)
      then Some (BudgetError ''cost'' ''cost budget exhausted'')
      else if MaxToolCalls (btB t) > 0 \<and> btToolCalls t \<ge> MaxToolCalls (btB t)
      then Some (BudgetError ''tool_calls'' ''tool-call budget exhausted'')
      else None)"

text \<open>
  \<open>childBudget\<close>, block by block: the state of the function is the child's budget, the grant, the
  tracker and the flag \<open>exhausted\<close>.
\<close>

definition childTokens :: "tracker \<Rightarrow> budget \<Rightarrow> budget \<Rightarrow> budget \<times> budget \<times> tracker \<times> bool" where
  "childTokens t out grant =
     (if MaxTotalTokens (btB t) > 0 then
        (let rem = i64 (i64 (MaxTotalTokens (btB t) - TotalTokens (btUsed t)) - btReservedTokens t) in
         if rem \<le> 0 then (out, grant, t, True)
         else
           (let out' = (if MaxTotalTokens out = 0 \<or> MaxTotalTokens out > rem
                        then out\<lparr>MaxTotalTokens := rem\<rparr> else out);
                grant' = grant\<lparr>MaxTotalTokens := MaxTotalTokens out'\<rparr>
            in (out', grant',
                t\<lparr>btReservedTokens := i64 (btReservedTokens t + MaxTotalTokens grant')\<rparr>, False)))
      else (out, grant, t, False))"

definition childCost :: "tracker \<Rightarrow> budget \<Rightarrow> budget \<Rightarrow> budget \<times> budget \<times> tracker \<times> bool" where
  "childCost t out grant =
     (if MaxCostUSD (btB t) > 0 then
        (let rem = MaxCostUSD (btB t) - CostUSD (btUsed t) - btReservedCost t in
         if rem \<le> 0 then (out, grant, t, True)
         else
           (let out' = (if MaxCostUSD out = 0 \<or> MaxCostUSD out > rem
                        then out\<lparr>MaxCostUSD := rem\<rparr> else out);
                grant' = grant\<lparr>MaxCostUSD := MaxCostUSD out'\<rparr>
            in (out', grant',
                t\<lparr>btReservedCost := btReservedCost t + MaxCostUSD grant'\<rparr>, False)))
      else (out, grant, t, False))"

definition childDeadline :: "gotime \<Rightarrow> tracker \<Rightarrow> bool \<Rightarrow> budget \<Rightarrow> budget" where
  "childDeadline now t exhausted out =
     (let out' = (if \<not> time_is_zero (btDeadline t) \<and>
                     (time_is_zero (Deadline out) \<or> btDeadline t < Deadline out)
                  then out\<lparr>Deadline := btDeadline t\<rparr> else out)
      in if exhausted then out'\<lparr>Deadline := now - time_second\<rparr> else out')"

definition childBudget :: "gotime \<Rightarrow> tracker \<Rightarrow> budget \<Rightarrow> budget \<times> budget \<times> tracker" where
  "childBudget now t requested =
     (let (out1, grant1, t1, ex1) = childTokens t requested budget_zero;
          (out2, grant2, t2, ex2) = childCost t1 out1 grant1
      in (childDeadline now t2 (ex1 \<or> ex2) out2, grant2, t2))"

definition settleChild :: "tracker \<Rightarrow> budget \<Rightarrow> usage \<Rightarrow> tracker" where
  "settleChild t grant actual =
     (let rt = i64 (btReservedTokens t - MaxTotalTokens grant);
          rc = btReservedCost t - MaxCostUSD grant
      in t\<lparr>btUsed := usage_add (btUsed t) actual,
           btReservedTokens := (if rt < 0 then 0 else rt),
           btReservedCost := (if rc < 0 then 0 else rc)\<rparr>)"

definition noteToolError :: "tracker \<Rightarrow> string \<Rightarrow> tracker" where
  "noteToolError t name = t\<lparr>btToolErrors := (btToolErrors t)(name := Suc (btToolErrors t name))\<rparr>"

definition toolErrorCount :: "tracker \<Rightarrow> string \<Rightarrow> nat" where
  "toolErrorCount t name = btToolErrors t name"

section \<open>Field-wise effect of the operations\<close>

lemma addUsage_fields [budget_simps, simp]:
  "btB (addUsage t u) = btB t"
  "btUsed (addUsage t u) = usage_add (btUsed t) u"
  "btToolCalls (addUsage t u) = btToolCalls t"
  "btDeadline (addUsage t u) = btDeadline t"
  "btReservedTokens (addUsage t u) = btReservedTokens t"
  "btReservedCost (addUsage t u) = btReservedCost t"
  "btToolErrors (addUsage t u) = btToolErrors t"
  by (simp_all add: addUsage_def)

lemma incToolCall_fields [budget_simps, simp]:
  "btB (incToolCall t) = btB t"
  "btUsed (incToolCall t) = btUsed t"
  "btToolCalls (incToolCall t) = btToolCalls t + 1"
  "btDeadline (incToolCall t) = btDeadline t"
  "btReservedTokens (incToolCall t) = btReservedTokens t"
  "btReservedCost (incToolCall t) = btReservedCost t"
  "btToolErrors (incToolCall t) = btToolErrors t"
  by (simp_all add: incToolCall_def)

lemma noteToolError_fields [budget_simps, simp]:
  "btB (noteToolError t n) = btB t"
  "btUsed (noteToolError t n) = btUsed t"
  "btToolCalls (noteToolError t n) = btToolCalls t"
  "btDeadline (noteToolError t n) = btDeadline t"
  "btReservedTokens (noteToolError t n) = btReservedTokens t"
  "btReservedCost (noteToolError t n) = btReservedCost t"
  "btToolErrors (noteToolError t n) = (btToolErrors t)(n := Suc (btToolErrors t n))"
  by (simp_all add: noteToolError_def)

lemma settleChild_fields [budget_simps, simp]:
  "btB (settleChild t g u) = btB t"
  "btUsed (settleChild t g u) = usage_add (btUsed t) u"
  "btToolCalls (settleChild t g u) = btToolCalls t"
  "btDeadline (settleChild t g u) = btDeadline t"
  "btToolErrors (settleChild t g u) = btToolErrors t"
  by (simp_all add: settleChild_def Let_def)

lemma newBudgetTracker_fields [budget_simps, simp]:
  "btB (newBudgetTracker now b) = b"
  "btUsed (newBudgetTracker now b) = usage_zero"
  "btToolCalls (newBudgetTracker now b) = 0"
  "btReservedTokens (newBudgetTracker now b) = 0"
  "btReservedCost (newBudgetTracker now b) = 0"
  "btToolErrors (newBudgetTracker now b) = (\<lambda>_. 0)"
  by (simp_all add: newBudgetTracker_def Let_def)

lemma childTokens_frame:
  "childTokens t out g = (out', g', t', ex) \<Longrightarrow>
     btB t' = btB t \<and> btUsed t' = btUsed t \<and> btToolCalls t' = btToolCalls t \<and>
     btDeadline t' = btDeadline t \<and> btReservedCost t' = btReservedCost t \<and>
     btToolErrors t' = btToolErrors t \<and> MaxCostUSD g' = MaxCostUSD g \<and>
     MaxCostUSD out' = MaxCostUSD out \<and> MaxToolCalls out' = MaxToolCalls out \<and>
     Timeout out' = Timeout out \<and> Deadline out' = Deadline out"
  by (auto simp: childTokens_def Let_def split: if_splits)

lemma childCost_frame:
  "childCost t out g = (out', g', t', ex) \<Longrightarrow>
     btB t' = btB t \<and> btUsed t' = btUsed t \<and> btToolCalls t' = btToolCalls t \<and>
     btDeadline t' = btDeadline t \<and> btReservedTokens t' = btReservedTokens t \<and>
     btToolErrors t' = btToolErrors t \<and> MaxTotalTokens g' = MaxTotalTokens g \<and>
     MaxTotalTokens out' = MaxTotalTokens out \<and> MaxToolCalls out' = MaxToolCalls out \<and>
     Timeout out' = Timeout out \<and> Deadline out' = Deadline out"
  by (auto simp: childCost_def Let_def split: if_splits)

lemma childDeadline_fields [simp]:
  "MaxTotalTokens (childDeadline now t ex out) = MaxTotalTokens out"
  "MaxCostUSD (childDeadline now t ex out) = MaxCostUSD out"
  "MaxToolCalls (childDeadline now t ex out) = MaxToolCalls out"
  by (simp_all add: childDeadline_def Let_def)

lemma childBudget_cases:
  assumes "childBudget now t req = (child, grant, t')"
  obtains out1 g1 t1 ex1 out2 ex2
  where "childTokens t req budget_zero = (out1, g1, t1, ex1)"
    and "childCost t1 out1 g1 = (out2, grant, t', ex2)"
    and "child = childDeadline now t' (ex1 \<or> ex2) out2"
  using assms by (auto simp: childBudget_def Let_def split: prod.splits)

lemma childBudget_frame:
  "childBudget now t req = (child, grant, t') \<Longrightarrow>
     btB t' = btB t \<and> btUsed t' = btUsed t \<and> btToolCalls t' = btToolCalls t \<and>
     btDeadline t' = btDeadline t \<and> btToolErrors t' = btToolErrors t"
  by (auto elim!: childBudget_cases dest!: childTokens_frame childCost_frame)

section \<open>The deadline\<close>

lemma newBudgetTracker_deadline_le:
  assumes "btDeadline (newBudgetTracker now b) \<noteq> 0"
  shows "Deadline b \<noteq> 0 \<Longrightarrow> btDeadline (newBudgetTracker now b) \<le> Deadline b"
    and "Timeout b > 0 \<Longrightarrow> btDeadline (newBudgetTracker now b) \<le> now + Timeout b"
  using assms by (auto simp: newBudgetTracker_def Let_def split: if_splits)

section \<open>Reservations\<close>

definition tokens_ok :: "tracker \<Rightarrow> bool" where
  "tokens_ok t \<longleftrightarrow> in_i64 (MaxTotalTokens (btB t)) \<and> in_i64 (TotalTokens (btUsed t)) \<and>
     0 \<le> TotalTokens (btUsed t) \<and> 0 \<le> btReservedTokens t \<and>
     btReservedTokens t \<le> max 0 (MaxTotalTokens (btB t))"

lemma tokens_ok_in_range:
  "tokens_ok t \<Longrightarrow> in_i64 (btReservedTokens t)"
  by (auto simp: tokens_ok_def in_i64_def)

lemma childTokens_rem:
  assumes "tokens_ok t" "MaxTotalTokens (btB t) > 0"
  shows "i64 (i64 (MaxTotalTokens (btB t) - TotalTokens (btUsed t)) - btReservedTokens t)
         = MaxTotalTokens (btB t) - TotalTokens (btUsed t) - btReservedTokens t"
proof -
  have "in_i64 (MaxTotalTokens (btB t) - TotalTokens (btUsed t))"
    and "in_i64 (MaxTotalTokens (btB t) - TotalTokens (btUsed t) - btReservedTokens t)"
    using assms by (auto simp: tokens_ok_def in_i64_def)
  then show ?thesis by simp
qed

lemma childTokens_reserves:
  assumes ok: "tokens_ok t" and req: "0 \<le> MaxTotalTokens out" and g0: "MaxTotalTokens g = 0"
    and call: "childTokens t out g = (out', g', t', ex)"
  shows "0 \<le> MaxTotalTokens g'"
    and "btReservedTokens t' = btReservedTokens t + MaxTotalTokens g'"
    and "MaxTotalTokens g' = 0 \<or>
           TotalTokens (btUsed t) + btReservedTokens t' \<le> MaxTotalTokens (btB t)"
    and "tokens_ok t'"
proof -
  let ?rem = "MaxTotalTokens (btB t) - TotalTokens (btUsed t) - btReservedTokens t"
  consider (off) "MaxTotalTokens (btB t) \<le> 0" "t' = t" "g' = g"
    | (none) "MaxTotalTokens (btB t) > 0" "?rem \<le> 0" "t' = t" "g' = g"
    | (some) "MaxTotalTokens (btB t) > 0" "?rem > 0" "0 < MaxTotalTokens g'"
        "MaxTotalTokens g' \<le> ?rem"
        "t' = t\<lparr>btReservedTokens := i64 (btReservedTokens t + MaxTotalTokens g')\<rparr>"
    using call req childTokens_rem [OF ok]
    by (auto simp: childTokens_def Let_def split: if_splits)
  then have *: "0 \<le> MaxTotalTokens g' \<and>
      btReservedTokens t' = btReservedTokens t + MaxTotalTokens g' \<and>
      (MaxTotalTokens g' = 0 \<or>
         TotalTokens (btUsed t) + btReservedTokens t' \<le> MaxTotalTokens (btB t)) \<and> tokens_ok t'"
  proof cases
    case off
    then show ?thesis using ok g0 by simp
  next
    case none
    then show ?thesis using ok g0 by simp
  next
    case some
    then have "in_i64 (btReservedTokens t + MaxTotalTokens g')"
      using ok by (auto simp: tokens_ok_def in_i64_def)
    with some ok show ?thesis by (auto simp: tokens_ok_def)
  qed
  then show "0 \<le> MaxTotalTokens g'"
    and "btReservedTokens t' = btReservedTokens t + MaxTotalTokens g'"
    and "MaxTotalTokens g' = 0 \<or>
           TotalTokens (btUsed t) + btReservedTokens t' \<le> MaxTotalTokens (btB t)"
    and "tokens_ok t'"
    by blast+
qed

lemma childCost_reserves:
  assumes req: "0 \<le> MaxCostUSD out" and g0: "MaxCostUSD g = 0"
    and call: "childCost t out g = (out', g', t', ex)"
  shows "0 \<le> MaxCostUSD g'"
    and "btReservedCost t' = btReservedCost t + MaxCostUSD g'"
    and "MaxCostUSD g' = 0 \<or> CostUSD (btUsed t) + btReservedCost t' \<le> MaxCostUSD (btB t)"
  using assms by (auto simp: childCost_def Let_def split: if_splits)

lemma tokens_ok_transfer:
  "tokens_ok t \<Longrightarrow> btB t' = btB t \<Longrightarrow> btUsed t' = btUsed t \<Longrightarrow>
     btReservedTokens t' = btReservedTokens t \<Longrightarrow> tokens_ok t'"
  by (simp add: tokens_ok_def)

lemma childBudget_tokens:
  assumes ok: "tokens_ok t" and req: "0 \<le> MaxTotalTokens req"
    and call: "childBudget now t req = (child, grant, t')"
  shows "0 \<le> MaxTotalTokens grant"
    and "btReservedTokens t' = btReservedTokens t + MaxTotalTokens grant"
    and "MaxTotalTokens grant = 0 \<or>
           TotalTokens (btUsed t) + btReservedTokens t' \<le> MaxTotalTokens (btB t)"
    and "tokens_ok t'"
proof -
  from call obtain out1 g1 t1 ex1 out2 ex2
    where c1: "childTokens t req budget_zero = (out1, g1, t1, ex1)"
      and c2: "childCost t1 out1 g1 = (out2, grant, t', ex2)"
    by (rule childBudget_cases)
  have z: "MaxTotalTokens budget_zero = 0" by (simp add: budget_zero_def)
  note r = childTokens_reserves [OF ok req z c1]
  note f1 = childTokens_frame [OF c1] and f2 = childCost_frame [OF c2]
  show "0 \<le> MaxTotalTokens grant" using r f2 by simp
  show "btReservedTokens t' = btReservedTokens t + MaxTotalTokens grant" using r f2 by simp
  show "MaxTotalTokens grant = 0 \<or>
           TotalTokens (btUsed t) + btReservedTokens t' \<le> MaxTotalTokens (btB t)"
    using r f2 by simp
  show "tokens_ok t'" using r(4) f2 by (auto intro: tokens_ok_transfer)
qed

lemma childBudget_cost:
  assumes req: "0 \<le> MaxCostUSD req"
    and call: "childBudget now t req = (child, grant, t')"
  shows "0 \<le> MaxCostUSD grant"
    and "btReservedCost t' = btReservedCost t + MaxCostUSD grant"
    and "MaxCostUSD grant = 0 \<or>
           CostUSD (btUsed t) + btReservedCost t' \<le> MaxCostUSD (btB t)"
proof -
  from call obtain out1 g1 t1 ex1 out2 ex2
    where c1: "childTokens t req budget_zero = (out1, g1, t1, ex1)"
      and c2: "childCost t1 out1 g1 = (out2, grant, t', ex2)"
    by (rule childBudget_cases)
  note f1 = childTokens_frame [OF c1]
  have "MaxCostUSD g1 = 0" "0 \<le> MaxCostUSD out1" using f1 req by (simp_all add: budget_zero_def)
  note r = childCost_reserves [OF this(2,1) c2]
  show "0 \<le> MaxCostUSD grant" using r by simp
  show "btReservedCost t' = btReservedCost t + MaxCostUSD grant" using r f1 by simp
  show "MaxCostUSD grant = 0 \<or>
           CostUSD (btUsed t) + btReservedCost t' \<le> MaxCostUSD (btB t)"
    using r f1 by simp
qed

section \<open>An exhausted budget stops the child\<close>

definition exhausted :: "tracker \<Rightarrow> bool" where
  "exhausted t \<longleftrightarrow>
     (MaxTotalTokens (btB t) > 0 \<and>
        MaxTotalTokens (btB t) \<le> TotalTokens (btUsed t) + btReservedTokens t) \<or>
     (MaxCostUSD (btB t) > 0 \<and>
        MaxCostUSD (btB t) \<le> CostUSD (btUsed t) + btReservedCost t)"

lemma childTokens_flag:
  "tokens_ok t \<Longrightarrow> childTokens t out g = (out', g', t', ex) \<Longrightarrow>
     ex \<longleftrightarrow> MaxTotalTokens (btB t) > 0 \<and>
            MaxTotalTokens (btB t) \<le> TotalTokens (btUsed t) + btReservedTokens t"
  by (auto simp: childTokens_def childTokens_rem Let_def split: if_splits)

lemma childCost_flag:
  "childCost t out g = (out', g', t', ex) \<Longrightarrow>
     ex \<longleftrightarrow> MaxCostUSD (btB t) > 0 \<and>
            MaxCostUSD (btB t) \<le> CostUSD (btUsed t) + btReservedCost t"
  by (auto simp: childCost_def Let_def split: if_splits)

lemma childBudget_deadline:
  assumes ok: "tokens_ok t" and call: "childBudget now t req = (child, grant, t')"
  shows "Deadline child =
     (if exhausted t then now - time_second
      else if btDeadline t \<noteq> 0 \<and> (Deadline req = 0 \<or> btDeadline t < Deadline req)
      then btDeadline t else Deadline req)"
proof -
  from call obtain out1 g1 t1 ex1 out2 ex2
    where c1: "childTokens t req budget_zero = (out1, g1, t1, ex1)"
      and c2: "childCost t1 out1 g1 = (out2, grant, t', ex2)"
      and ch: "child = childDeadline now t' (ex1 \<or> ex2) out2"
    by (rule childBudget_cases)
  note f1 = childTokens_frame [OF c1] and f2 = childCost_frame [OF c2]
  have "(ex1 \<or> ex2) = exhausted t"
    using childTokens_flag [OF ok c1] childCost_flag [OF c2] f1 by (simp add: exhausted_def)
  then show ?thesis
    using ch f1 f2 by (simp add: childDeadline_def Let_def)
qed

end
