(* ===== verification/Trace.thy ===== *)
theory Trace
  imports Go_Runtime "HOL-Library.Multiset"
begin

text \<open>
  \<open>trace.go\<close>. Spans are shared, mutable objects: the run loop keeps pointers to the root, the
  step and the call spans while it appends children to them. The model keeps all spans in one
  store, \<open>stHeap\<close>; a pointer is an index, a new span goes to the end of the store, and the
  fields are updated in place. \<open>Summary\<close>, \<open>JSONL\<close> walk the tree below a root. \<open>grows_tree\<close> is
  the discipline of the run loop: whatever a run adds to the store is one tree.
\<close>

section \<open>Building spans\<close>

definition new_span :: "string \<Rightarrow> string \<Rightarrow> string \<Rightarrow> gotime \<Rightarrow> span" where
  "new_span ident kind name start = \<lparr>spID = ident, spKind = kind, spName = name, spStart = start,
     spEnd = 0, spUsage = usage_zero, spModel = [], spTool = [], spStopReason = [], spError = [],
     spAttrs = Map.empty, spChildren = []\<rparr>"

definition span_modify :: "addr \<Rightarrow> (span \<Rightarrow> span) \<Rightarrow> ('w st, unit) state" where
  "span_modify a f = modify (\<lambda>s. s\<lparr>stHeap := (stHeap s)[a := f (stHeap s ! a)]\<rparr>)"

definition span_alloc :: "span \<Rightarrow> ('w st, addr) state" where
  "span_alloc sp = do {
     a \<leftarrow> gets (\<lambda>s. length (stHeap s));
     _ \<leftarrow> modify (\<lambda>s. s\<lparr>stHeap := stHeap s @ [sp]\<rparr>);
     State_Monad.return a
   }"

definition newTrace :: "'w env \<Rightarrow> string \<Rightarrow> ('w st, addr) state" where
  "newTrace E name = do {
     ident \<leftarrow> newID E;
     t \<leftarrow> time_now E;
     span_alloc (new_span ident SpanRun name t)
   }"

definition trace_child :: "'w env \<Rightarrow> addr \<Rightarrow> string \<Rightarrow> string \<Rightarrow> ('w st, addr) state" where
  "trace_child E parent kind name = do {
     ident \<leftarrow> newID E;
     t \<leftarrow> time_now E;
     a \<leftarrow> span_alloc (new_span ident kind name t);
     _ \<leftarrow> span_modify parent (\<lambda>p. p\<lparr>spChildren := spChildren p @ [a]\<rparr>);
     State_Monad.return a
   }"

definition graft :: "addr \<Rightarrow> addr \<Rightarrow> ('w st, unit) state" where
  "graft parent sub = span_modify parent (\<lambda>p. p\<lparr>spChildren := spChildren p @ [sub]\<rparr>)"

definition span_end :: "'w env \<Rightarrow> addr \<Rightarrow> ('w st, unit) state" where
  "span_end E a = do {
     e \<leftarrow> gets (\<lambda>s. spEnd (stHeap s ! a));
     if time_is_zero e then do {
       t \<leftarrow> time_now E;
       span_modify a (\<lambda>sp. sp\<lparr>spEnd := t\<rparr>)
     } else State_Monad.return ()
   }"

definition span_duration :: "span \<Rightarrow> duration" where
  "span_duration sp = (if time_is_zero (spEnd sp) then 0 else spEnd sp - spStart sp)"

section \<open>The tree below a span\<close>

datatype span_tree = SpanNode (node_span: span) (node_children: "span_tree list")

text \<open>
  Children are allocated after their parent (\<open>heap_ordered\<close>), so following the pointers ends;
  the filter only makes the definition total.
\<close>

function span_tree_of :: "span list \<Rightarrow> addr \<Rightarrow> span_tree" where
  "span_tree_of h a = SpanNode (h ! a)
     (map (span_tree_of h) (filter (\<lambda>c. a < c \<and> c < length h) (spChildren (h ! a))))"
  by pat_completeness auto
termination
  by (relation "measure (\<lambda>(h, a). length h - a)") auto

declare span_tree_of.simps [simp del]

fun preorder :: "nat \<Rightarrow> span_tree \<Rightarrow> (span \<times> nat) list" where
  "preorder d (SpanNode sp cs) = (sp, d) # concat (map (preorder (Suc d)) cs)"

section \<open>Summary\<close>

record tool_stat =
  tsCalls :: nat
  tsErrors :: nat
  tsTotalDuration :: duration

record summary =
  smWallclock :: duration
  smSteps :: nat
  smModelCalls :: nat
  smToolCalls :: nat
  smCompactions :: nat
  smSubagents :: nat
  smUsage :: usage
  smToolBreakdown :: "string \<rightharpoonup> tool_stat"

definition tool_stat_zero :: tool_stat where
  "tool_stat_zero = \<lparr>tsCalls = 0, tsErrors = 0, tsTotalDuration = 0\<rparr>"

definition tool_stat_add :: "tool_stat \<Rightarrow> span \<Rightarrow> tool_stat" where
  "tool_stat_add st sp = \<lparr>tsCalls = tsCalls st + 1,
     tsErrors = (if spError sp \<noteq> [] then tsErrors st + 1 else tsErrors st),
     tsTotalDuration = tsTotalDuration st + span_duration sp\<rparr>"

definition summary_visit :: "summary \<Rightarrow> span \<times> nat \<Rightarrow> summary" where
  "summary_visit s x = (case x of (sp, depth) \<Rightarrow>
     if spKind sp = SpanStep then s\<lparr>smSteps := smSteps s + 1\<rparr>
     else if spKind sp = SpanModel then
       s\<lparr>smModelCalls := smModelCalls s + 1, smUsage := usage_add (smUsage s) (spUsage sp)\<rparr>
     else if spKind sp = SpanTool then
       s\<lparr>smToolCalls := smToolCalls s + 1,
         smToolBreakdown := (smToolBreakdown s)(spTool sp \<mapsto>
           tool_stat_add (case smToolBreakdown s (spTool sp) of
               None \<Rightarrow> tool_stat_zero | Some st \<Rightarrow> st) sp)\<rparr>
     else if spKind sp = SpanCompaction then s\<lparr>smCompactions := smCompactions s + 1\<rparr>
     else if spKind sp = SpanRun then
       (if depth > 0 then s\<lparr>smSubagents := smSubagents s + 1\<rparr> else s)
     else s)"

fun summary_walk :: "nat \<Rightarrow> summary \<Rightarrow> span_tree \<Rightarrow> summary" where
  "summary_walk depth s (SpanNode sp cs) =
     foldl (summary_walk (Suc depth)) (summary_visit s (sp, depth)) cs"

definition summary_zero :: summary where
  "summary_zero = \<lparr>smWallclock = 0, smSteps = 0, smModelCalls = 0, smToolCalls = 0,
     smCompactions = 0, smSubagents = 0, smUsage = usage_zero, smToolBreakdown = Map.empty\<rparr>"

definition Summary :: "span_tree \<Rightarrow> summary" where
  "Summary rt =
     summary_walk 0 (summary_zero\<lparr>smWallclock := span_duration (node_span rt)\<rparr>) rt"

section \<open>JSONL\<close>

record flat_span =
  fsID :: string
  fsParentID :: string
  fsDepth :: nat
  fsKind :: string
  fsName :: string
  fsStart :: gotime
  fsEnd :: gotime
  fsDurationMS :: int
  fsUsage :: usage
  fsModel :: string
  fsTool :: string
  fsStopReason :: string
  fsError :: string

text \<open>\<open>Duration.Milliseconds\<close> divides and truncates towards zero.\<close>

definition duration_milliseconds :: "duration \<Rightarrow> int" where
  "duration_milliseconds d = sgn d * (\<bar>d\<bar> div time_millisecond)"

definition flatten_span :: "span option \<Rightarrow> nat \<Rightarrow> span \<Rightarrow> flat_span" where
  "flatten_span parent depth sp = \<lparr>fsID = spID sp,
     fsParentID = (case parent of None \<Rightarrow> [] | Some p \<Rightarrow> spID p), fsDepth = depth,
     fsKind = spKind sp, fsName = spName sp, fsStart = spStart sp, fsEnd = spEnd sp,
     fsDurationMS = duration_milliseconds (span_duration sp), fsUsage = spUsage sp,
     fsModel = spModel sp, fsTool = spTool sp, fsStopReason = spStopReason sp,
     fsError = spError sp\<rparr>"

text \<open>
  The records \<open>JSONL\<close> marshals, in order; \<open>marshal\<close> is \<open>json.Marshal\<close> on one of them. The first
  marshalling error ends the walk.
\<close>

fun jsonl_walk :: "span option \<Rightarrow> nat \<Rightarrow> span_tree \<Rightarrow> flat_span list" where
  "jsonl_walk parent depth (SpanNode sp cs) =
     flatten_span parent depth sp # concat (map (jsonl_walk (Some sp) (Suc depth)) cs)"

fun jsonl_lines :: "(flat_span \<Rightarrow> goerr + string) \<Rightarrow> flat_span list \<Rightarrow> goerr + string" where
  "jsonl_lines marshal [] = Inr []"
| "jsonl_lines marshal (r # rs) = (case marshal r of
       Inl e \<Rightarrow> Inl e
     | Inr line \<Rightarrow> (case jsonl_lines marshal rs of
           Inl e \<Rightarrow> Inl e
         | Inr rest \<Rightarrow> Inr (line @ newline # rest)))"

definition JSONL :: "(flat_span \<Rightarrow> goerr + string) \<Rightarrow> span_tree \<Rightarrow> goerr + string" where
  "JSONL marshal rt = jsonl_lines marshal (jsonl_walk None 0 rt)"

text \<open>\<open>Trace.WriteTo\<close>: nothing is written when a span does not marshal.\<close>

definition trace_WriteTo ::
  "(flat_span \<Rightarrow> goerr + string) \<Rightarrow> (string \<Rightarrow> 'w \<Rightarrow> (int \<times> goerr option) \<times> 'w) \<Rightarrow> span_tree \<Rightarrow> 'w \<Rightarrow> (int \<times> goerr option) \<times> 'w" where
  "trace_WriteTo marshal write rt w = (case JSONL marshal rt of
       Inl err \<Rightarrow> ((0, Some err), w)
     | Inr b \<Rightarrow> write b w)"

section \<open>Summary counts the spans of the tree\<close>

lemma foldl_concat: "foldl f s (concat xss) = foldl (\<lambda>s xs. foldl f s xs) s xss"
  by (induction xss arbitrary: s) simp_all

lemma summary_walk_preorder: "summary_walk d s t = foldl summary_visit s (preorder d t)"
proof (induction t arbitrary: d s)
  case (SpanNode sp cs)
  have "foldl (summary_walk (Suc d)) s' cs
        = foldl (\<lambda>s t. foldl summary_visit s (preorder (Suc d) t)) s' cs" for s'
    using SpanNode.IH by (intro foldl_cong) auto
  then show ?case by (simp add: foldl_concat foldl_map)
qed

definition spans_of_kind :: "string \<Rightarrow> (span \<times> nat) list \<Rightarrow> span list" where
  "spans_of_kind k xs = filter (\<lambda>sp. spKind sp = k) (map fst xs)"

lemma spans_of_kind_simps [simp]:
  "spans_of_kind k [] = []"
  "spans_of_kind k (x # xs) = (if spKind (fst x) = k then [fst x] else []) @ spans_of_kind k xs"
  "spans_of_kind k (xs @ ys) = spans_of_kind k xs @ spans_of_kind k ys"
  by (simp_all add: spans_of_kind_def)

lemma visit_counts:
  "smSteps (foldl summary_visit s xs) = smSteps s + length (spans_of_kind SpanStep xs)"
  "smModelCalls (foldl summary_visit s xs) = smModelCalls s + length (spans_of_kind SpanModel xs)"
  "smToolCalls (foldl summary_visit s xs) = smToolCalls s + length (spans_of_kind SpanTool xs)"
  "smCompactions (foldl summary_visit s xs)
     = smCompactions s + length (spans_of_kind SpanCompaction xs)"
  "smSubagents (foldl summary_visit s xs)
     = smSubagents s + length (filter (\<lambda>(sp, d). spKind sp = SpanRun \<and> d > 0) xs)"
  by (induction xs arbitrary: s) (simp_all add: summary_visit_def split: prod.splits)

lemma visit_usage:
  "usage_in_range (smUsage s) \<Longrightarrow> smUsage (foldl summary_visit s xs)
     = usage_add (smUsage s) (usage_sum (map spUsage (spans_of_kind SpanModel xs)))"
  by (induction xs arbitrary: s)
    (auto simp: summary_visit_def usage_add_assoc split: prod.splits)

definition breakdown_calls :: "(string \<rightharpoonup> tool_stat) \<Rightarrow> string \<Rightarrow> nat" where
  "breakdown_calls m k = (case m k of None \<Rightarrow> 0 | Some st \<Rightarrow> tsCalls st)"

definition breakdown_errors :: "(string \<rightharpoonup> tool_stat) \<Rightarrow> string \<Rightarrow> nat" where
  "breakdown_errors m k = (case m k of None \<Rightarrow> 0 | Some st \<Rightarrow> tsErrors st)"

lemma visit_breakdown:
  "breakdown_calls (smToolBreakdown (foldl summary_visit s xs)) k
     = breakdown_calls (smToolBreakdown s) k
       + length (filter (\<lambda>sp. spTool sp = k) (spans_of_kind SpanTool xs))"
  "breakdown_errors (smToolBreakdown (foldl summary_visit s xs)) k
     = breakdown_errors (smToolBreakdown s) k
       + length (filter (\<lambda>sp. spTool sp = k \<and> spError sp \<noteq> []) (spans_of_kind SpanTool xs))"
  by (induction xs arbitrary: s)
    (auto simp: summary_visit_def breakdown_calls_def breakdown_errors_def tool_stat_add_def
      tool_stat_zero_def split: prod.splits option.splits)

lemma jsonl_walk_preorder:
  "map (\<lambda>r. (fsID r, fsDepth r)) (jsonl_walk p d t) = map (\<lambda>(sp, d). (spID sp, d)) (preorder d t)"
proof (induction t arbitrary: d p)
  case (SpanNode sp cs)
  have "map (\<lambda>r. (fsID r, fsDepth r)) (concat (map (jsonl_walk (Some sp) (Suc d)) cs))
        = map (\<lambda>(sp, d). (spID sp, d)) (concat (map (preorder (Suc d)) cs))"
    using SpanNode.IH by (induction cs) auto
  then show ?case by (simp add: flatten_span_def)
qed

end
