(* ===== verification/Trace_Store.thy ===== *)
theory Trace_Store
  imports Trace
begin

text \<open>
  The store of spans as the run loop uses it. \<open>run_tree r h0 h\<close>: the spans from \<open>r\<close> on are one
  tree with root \<open>r\<close> -- every later span has exactly one parent among them, allocated before
  it -- and the spans before \<open>r\<close> are the store \<open>h0\<close> the run started from. Every operation of
  \<open>trace.go\<close> keeps it, and under it \<open>Summary\<close> sees each span of the run exactly once.
\<close>

definition edges_from :: "addr \<Rightarrow> span list \<Rightarrow> addr multiset" where
  "edges_from r h = mset (concat (map spChildren (drop r h)))"

definition run_tree :: "addr \<Rightarrow> span list \<Rightarrow> span list \<Rightarrow> bool" where
  "run_tree r h0 h \<longleftrightarrow> length h0 = r \<and> take r h = h0 \<and> r < length h \<and>
     (\<forall>a c. r \<le> a \<longrightarrow> a < length h \<longrightarrow> c \<in> set (spChildren (h ! a)) \<longrightarrow> a < c \<and> c < length h) \<and>
     edges_from r h = mset [Suc r..<length h]"

lemma run_treeD:
  assumes "run_tree r h0 h"
  shows "length h0 = r" "take r h = h0" "r < length h" "edges_from r h = mset [Suc r..<length h]"
    "\<lbrakk>r \<le> a; a < length h; c \<in> set (spChildren (h ! a))\<rbrakk> \<Longrightarrow> a < c \<and> c < length h"
  using assms unfolding run_tree_def by blast+

lemma run_treeI:
  assumes "length h0 = r" "take r h = h0" "r < length h" "edges_from r h = mset [Suc r..<length h]"
    "\<And>a c. \<lbrakk>r \<le> a; a < length h; c \<in> set (spChildren (h ! a))\<rbrakk> \<Longrightarrow> a < c \<and> c < length h"
  shows "run_tree r h0 h"
  using assms unfolding run_tree_def by blast

section \<open>Updates in place\<close>

lemma drop_update: "r \<le> a \<Longrightarrow> drop r (h[a := x]) = (drop r h)[a - r := x]"
  by (simp add: drop_update_swap)

lemma concat_map_update:
  "i < length xs \<Longrightarrow> mset (concat (map f (xs[i := x]))) + mset (f (xs ! i))
     = mset (concat (map f xs)) + mset (f x)"
proof (induction xs arbitrary: i)
  case (Cons y ys)
  then show ?case by (cases i) (auto simp: ac_simps)
qed simp

lemma edges_update:
  assumes "r \<le> a" "a < length h"
  shows "edges_from r (h[a := x]) + mset (spChildren (h ! a)) = edges_from r h + mset (spChildren x)"
  using assms concat_map_update [of "a - r" "drop r h" spChildren x]
  by (simp add: edges_from_def drop_update)

lemma edges_append: "r \<le> length h \<Longrightarrow> edges_from r (h @ xs) = edges_from r h + mset (concat (map spChildren xs))"
  by (simp add: edges_from_def)

lemma run_tree_update:
  assumes t: "run_tree r h0 h" and a: "r \<le> a" "a < length h" and c: "spChildren x = spChildren (h ! a)"
  shows "run_tree r h0 (h[a := x])"
proof (rule run_treeI)
  have ch: "spChildren (h[a := x] ! b) = spChildren (h ! b)" if "b < length h" for b
    using that a c by (cases "b = a") auto
  show "edges_from r (h[a := x]) = mset [Suc r..<length (h[a := x])]"
    using edges_update [OF a, of x] c run_treeD(4) [OF t] by simp
  show "b < d \<and> d < length (h[a := x])"
    if "r \<le> b" "b < length (h[a := x])" "d \<in> set (spChildren (h[a := x] ! b))" for b d
    using run_treeD(5) [OF t, of b d] that ch [of b] by simp
qed (use run_treeD(1-3) [OF t] a in simp_all)

lemma run_tree_add_child:
  assumes t: "run_tree r h0 h" and sub: "run_tree (length h) h h'" and p: "r \<le> p" "p < length h"
  shows "run_tree r h0 (h'[p := (h' ! p)\<lparr>spChildren := spChildren (h' ! p) @ [length h]\<rparr>])"
    (is "run_tree r h0 ?h")
proof -
  let ?n = "length h"
  have pre: "take ?n h' = h" and n: "?n < length h'" and r: "r < ?n"
    using run_treeD(1-3) [OF t] run_treeD(1-3) [OF sub] by auto
  then have old: "h' ! b = h ! b" if "b < ?n" for b
    using that by (metis nth_take)
  have split: "h' = h @ drop ?n h'" using pre by (metis append_take_drop_id)
  have "edges_from r h' = edges_from r h + edges_from ?n h'"
    by (subst split) (use r in \<open>simp add: edges_append edges_from_def\<close>)
  also have "\<dots> = mset [Suc r..<?n] + mset [Suc ?n..<length h']"
    using run_treeD(4) [OF t] run_treeD(4) [OF sub] by simp
  finally have "edges_from r ?h = mset [Suc r..<?n] + mset [Suc ?n..<length h'] + {#?n#}"
    using edges_update [of r p h' "(h' ! p)\<lparr>spChildren := spChildren (h' ! p) @ [?n]\<rparr>"] p n by simp
  moreover have "[Suc r..<length h'] = [Suc r..<?n] @ ?n # [Suc ?n..<length h']"
    using r n upt_add_eq_append [of "Suc r" ?n "length h' - ?n"] upt_conv_Cons [of ?n "length h'"]
    by simp
  ultimately have e: "edges_from r ?h = mset [Suc r..<length h']" by simp
  have ord: "a < c \<and> c < length h'"
    if a: "r \<le> a" "a < length h'" and c: "c \<in> set (spChildren (?h ! a))" for a c
  proof (cases "a < ?n")
    case True
    then have "c \<in> set (spChildren (h ! a)) \<or> c = ?n \<and> a = p"
      using c p n old by (cases "a = p") auto
    then show ?thesis using run_treeD(5) [OF t, of a c] True a n p by auto
  next
    case False
    then have "?h ! a = h' ! a" using p by simp
    then show ?thesis using run_treeD(5) [OF sub, of a c] False a c by auto
  qed
  have "take r ?h = take r h'" using p by simp
  also have "\<dots> = take r (take ?n h')" using r by (simp add: min_def)
  also have "\<dots> = take r h" by (simp add: pre)
  finally have "take r ?h = h0" using run_treeD(2) [OF t] by simp
  then show ?thesis
  proof (rule run_treeI [OF run_treeD(1) [OF t]])
    show "r < length ?h" using r n by simp
    show "edges_from r ?h = mset [Suc r..<length ?h]" using e by simp
    show "a < c \<and> c < length ?h"
      if "r \<le> a" "a < length ?h" "c \<in> set (spChildren (?h ! a))" for a c
      using ord [of a c] that by (simp only: length_list_update)
  qed
qed

lemma run_tree_leaf: "spChildren x = [] \<Longrightarrow> run_tree (length h) h (h @ [x])"
  by (rule run_treeI) (simp_all add: edges_from_def nth_append split: if_splits)

section \<open>The operations of trace.go\<close>

lemma post_heap_same:
  "heap_same m \<Longrightarrow> (\<And>v t. stHeap t = stHeap s \<Longrightarrow> Q v t) \<Longrightarrow> post m s Q"
  by (auto simp: heap_same_def intro!: postI) (metis snd_conv)

lemma post_newTrace:
  "post (newTrace E name) s (\<lambda>a t. a = length (stHeap s) \<and> run_tree a (stHeap s) (stHeap t) \<and>
     length (stHeap t) = Suc a)"
  unfolding newTrace_def post_bind
  apply (rule post_heap_same, simp, rule post_heap_same, simp)
  by (simp add: span_alloc_def run_tree_leaf new_span_def)

lemma post_trace_child:
  assumes t: "run_tree r h0 (stHeap s)" and p: "r \<le> p" "p < length (stHeap s)"
  shows "post (trace_child E p kind name) s (\<lambda>a u. a = length (stHeap s) \<and>
     run_tree r h0 (stHeap u) \<and> length (stHeap u) = Suc (length (stHeap s)))"
proof -
  have "run_tree r h0 ((h @ [x])[p := ((h @ [x]) ! p)
          \<lparr>spChildren := spChildren ((h @ [x]) ! p) @ [length h]\<rparr>])"
    if "h = stHeap s" "spChildren x = []" for h x
    using run_tree_add_child [OF t run_tree_leaf [OF that(2)] p] that by simp
  then show ?thesis
    unfolding trace_child_def post_bind
    apply (intro post_heap_same [OF heap_same_newID] post_heap_same [OF heap_same_time_now])
    by (simp add: span_alloc_def span_modify_def new_span_def)
qed

lemma post_span_modify:
  assumes "run_tree r h0 (stHeap s)" "r \<le> a" "a < length (stHeap s)"
    and "\<And>sp. spChildren (f sp) = spChildren sp"
  shows "post (span_modify a f) s (\<lambda>_ u. run_tree r h0 (stHeap u) \<and>
     length (stHeap u) = length (stHeap s) \<and> stHeap u = (stHeap s)[a := f (stHeap s ! a)])"
  using assms by (simp add: span_modify_def run_tree_update)

lemma post_span_end:
  assumes "run_tree r h0 (stHeap s)" "r \<le> a" "a < length (stHeap s)"
  shows "post (span_end E a) s (\<lambda>_ u. run_tree r h0 (stHeap u) \<and>
     length (stHeap u) = length (stHeap s) \<and>
     (\<exists>t. stHeap u = (stHeap s)[a := (stHeap s ! a)\<lparr>spEnd := t\<rparr>]))"
proof (cases "spEnd (stHeap s ! a) = 0")
  case True
  then show ?thesis
    unfolding span_end_def post_bind post_gets
    apply (simp add: True)
    apply (rule post_heap_same [OF heap_same_time_now])
    using assms by (auto simp: span_modify_def run_tree_update)
next
  case False
  have "stHeap s = (stHeap s)[a := (stHeap s ! a)\<lparr>spEnd := spEnd (stHeap s ! a)\<rparr>]"
    by simp
  then have "\<exists>t. stHeap s = (stHeap s)[a := (stHeap s ! a)\<lparr>spEnd := t\<rparr>]"
    by (rule exI)
  then show ?thesis using assms False by (simp add: span_end_def)
qed

lemma post_graft:
  assumes "run_tree r h0 h" "run_tree (length h) h (stHeap s)" "r \<le> p" "p < length h"
  shows "post (graft p (length h)) s (\<lambda>_ u. run_tree r h0 (stHeap u) \<and>
     length (stHeap u) = length (stHeap s))"
  using run_tree_add_child [OF assms] by (simp add: graft_def span_modify_def)

section \<open>Every span of the run is seen once\<close>

function preorder_addrs :: "span list \<Rightarrow> addr \<Rightarrow> addr list" where
  "preorder_addrs h a = a # concat
     (map (preorder_addrs h) (filter (\<lambda>c. a < c \<and> c < length h) (spChildren (h ! a))))"
  by pat_completeness auto
termination
  by (relation "measure (\<lambda>(h, a). length h - a)") auto

declare preorder_addrs.simps [simp del]

lemma preorder_addrs_spans:
  "map fst (preorder d (span_tree_of h a)) = map ((!) h) (preorder_addrs h a)"
proof (induction h a arbitrary: d rule: preorder_addrs.induct)
  case (1 h a)
  let ?cs = "filter (\<lambda>c. a < c \<and> c < length h) (spChildren (h ! a))"
  have "map fst (concat (map (preorder (Suc d)) (map (span_tree_of h) cs)))
        = map ((!) h) (concat (map (preorder_addrs h) cs))" if "set cs \<subseteq> set ?cs" for cs
    using that 1 by (induction cs) auto
  from this [of ?cs] show ?case
    by (simp add: span_tree_of.simps [of h a] preorder_addrs.simps [of h a])
qed

lemma preorder_addrs_ge: "b \<in> set (preorder_addrs h a) \<Longrightarrow> a \<le> b"
proof (induction h a rule: preorder_addrs.induct)
  case (1 h a)
  then show ?case by (auto simp: preorder_addrs.simps [of h a]) (meson less_or_eq_imp_le order_trans)
qed

lemma preorder_addrs_lt: "a < length h \<Longrightarrow> b \<in> set (preorder_addrs h a) \<Longrightarrow> b < length h"
proof (induction h a rule: preorder_addrs.induct)
  case (1 h a)
  then show ?case by (auto simp: preorder_addrs.simps [of h a])
qed

definition mult :: "span list \<Rightarrow> addr \<Rightarrow> addr \<Rightarrow> nat" where
  "mult h a x = count (mset (filter (\<lambda>c. a < c \<and> c < length h) (spChildren (h ! a)))) x"

lemma count_preorder:
  assumes "a < length h"
  shows "count (mset (preorder_addrs h a)) x = (if x = a then 1 else 0) +
     (\<Sum>p<length h. count (mset (preorder_addrs h a)) p * mult h p x)"
  using assms
proof (induction h a rule: preorder_addrs.induct)
  case (1 h a)
  let ?cs = "filter (\<lambda>c. a < c \<and> c < length h) (spChildren (h ! a))"
  let ?C = "\<lambda>cs y. count (mset (concat (map (preorder_addrs h) cs))) y"
  have sub: "?C cs x = count (mset cs) x + (\<Sum>p<length h. ?C cs p * mult h p x)"
    if "set cs \<subseteq> set ?cs" for cs
    using that
  proof (induction cs)
    case (Cons c cs)
    then have c: "c \<in> set ?cs" "c < length h" by auto
    have "count (mset (preorder_addrs h c)) x = (if x = c then 1 else 0) +
       (\<Sum>p<length h. count (mset (preorder_addrs h c)) p * mult h p x)"
      using "1.IH" c by blast
    with Cons show ?case by (simp add: sum.distrib add_mult_distrib)
  qed simp
  have unfold: "count (mset (preorder_addrs h a)) y = (if y = a then 1 else 0) + ?C ?cs y" for y
    by (simp add: preorder_addrs.simps [of h a])
  have "(\<Sum>p<length h. (if p = a then 1 else 0) * mult h p x) = mult h a x"
    using "1.prems" by (simp add: if_distrib [of "\<lambda>z. z * _"] sum.delta cong: if_cong)
  then have "(\<Sum>p<length h. count (mset (preorder_addrs h a)) p * mult h p x)
      = mult h a x + (\<Sum>p<length h. ?C ?cs p * mult h p x)"
    by (simp add: unfold add_mult_distrib sum.distrib)
  then show ?case using sub [of ?cs] by (simp add: unfold mult_def)
qed

lemma count_concat_map:
  "count (mset (concat (map f xs))) x = (\<Sum>i<length xs. count (mset (f (xs ! i))) x)"
proof (induction xs rule: rev_induct)
  case (snoc y ys)
  have "(\<Sum>i<length ys. count (mset (f ((ys @ [y]) ! i))) x) = (\<Sum>i<length ys. count (mset (f (ys ! i))) x)"
    by (intro sum.cong) (auto simp: nth_append)
  with snoc show ?case by simp
qed simp

lemma run_tree_mult:
  assumes t: "run_tree r h0 h"
  shows "(\<Sum>p\<in>{r..<length h}. mult h p x) = (if r < x \<and> x < length h then 1 else 0)"
proof -
  have m: "mult h p x = count (mset (spChildren (h ! p))) x" if "p \<in> {r..<length h}" for p
  proof -
    have "filter (\<lambda>c. p < c \<and> c < length h) (spChildren (h ! p)) = spChildren (h ! p)"
      using run_treeD(5) [OF t, of p] that by (intro filter_True) auto
    then show ?thesis by (simp add: mult_def)
  qed
  have "count (edges_from r h) x = (\<Sum>i<length h - r. count (mset (spChildren (h ! (r + i)))) x)"
    using run_treeD(3) [OF t] unfolding edges_from_def count_concat_map by simp
  also have "\<dots> = (\<Sum>p\<in>{r..<length h}. count (mset (spChildren (h ! p))) x)"
    by (rule sum.reindex_bij_witness [where i = "\<lambda>p. p - r" and j = "\<lambda>i. r + i"]) auto
  also have "\<dots> = (\<Sum>p\<in>{r..<length h}. mult h p x)"
    using m by simp
  finally have "(\<Sum>p\<in>{r..<length h}. mult h p x) = count (mset [Suc r..<length h]) x"
    using run_treeD(4) [OF t] by simp
  moreover have "count (mset [Suc r..<length h]) x = (if r < x \<and> x < length h then 1 else 0)"
    by (simp add: count_mset_set' flip: mset_set_upto_eq_mset_upto)
  ultimately show ?thesis by simp
qed

lemma run_tree_preorder:
  assumes t: "run_tree r h0 h"
  shows "mset (preorder_addrs h r) = mset [r..<length h]"
proof (rule multiset_eqI)
  let ?c = "\<lambda>x. count (mset (preorder_addrs h r)) x"
  have r: "r < length h" using run_treeD(3) [OF t] .
  have below: "?c p = 0" if "p < r" for p
    using that preorder_addrs_ge [of p h r] by (auto simp: count_mset_0_iff)
  have split: "{..<length h} = {..<r} \<union> {r..<length h}" using r by auto
  have eq: "?c x = (if x = r then 1 else 0) + (\<Sum>p\<in>{r..<length h}. ?c p * mult h p x)" for x
    using count_preorder [OF r, of x] below
    by (simp add: split sum.union_disjoint ivl_disj_int)
  have one: "x < length h \<Longrightarrow> r \<le> x \<Longrightarrow> ?c x = 1" for x
  proof (induction x rule: less_induct)
    case (less x)
    show ?case
    proof (cases "x = r")
      case True
      have "(\<Sum>p\<in>{r..<length h}. ?c p * mult h p x) = 0"
        using True by (auto simp: mult_def count_mset_0_iff)
      then show ?thesis using eq [of x] True by simp
    next
      case False
      have "(\<Sum>p\<in>{r..<length h}. ?c p * mult h p x) = (\<Sum>p\<in>{r..<length h}. mult h p x)"
      proof (rule sum.cong)
        fix p assume p: "p \<in> {r..<length h}"
        show "?c p * mult h p x = mult h p x"
        proof (cases "p < x")
          case True
          then show ?thesis using less.IH [of p] p by simp
        next
          case False
          then have "mult h p x = 0" by (auto simp: mult_def count_mset_0_iff)
          then show ?thesis by simp
        qed
      qed simp
      then show ?thesis using eq [of x] False run_tree_mult [OF t, of x] less.prems by simp
    qed
  qed
  fix x
  show "?c x = count (mset [r..<length h]) x"
  proof (cases "x \<in> {r..<length h}")
    case True
    then show ?thesis using one by (simp add: count_mset_set'  flip: mset_set_upto_eq_mset_upto)
  next
    case False
    then have "?c x = 0"
      using preorder_addrs_ge [of x h r] preorder_addrs_lt [OF r, of x] by (auto simp: count_mset_0_iff)
    then show ?thesis using False by (auto simp: count_mset_0_iff)
  qed
qed

lemma run_tree_spans:
  assumes "run_tree r h0 h"
  shows "mset (map fst (preorder 0 (span_tree_of h r))) = mset (drop r h)"
proof -
  have "mset (map ((!) h) (preorder_addrs h r)) = image_mset ((!) h) (mset [r..<length h])"
    using run_tree_preorder [OF assms] by simp
  also have "\<dots> = mset (map ((!) h) [r..<length h])" by simp
  also have "map ((!) h) [r..<length h] = drop r h"
    by (rule nth_equalityI) auto
  finally show ?thesis by (simp add: preorder_addrs_spans)
qed

end
