(* ===== verification/Agent.thy ===== *)
theory Agent
  imports Budget Trace_Store
begin

text \<open>
  The agent: what it is configured with (\<open>agent.go\<close>, \<open>model.go\<close>, \<open>tool.go\<close>, \<open>output.go\<close>,
  \<open>tokenizer.go\<close>), its sessions (\<open>session.go\<close>) and their snapshots (\<open>persistence.go\<close>).

  Go interfaces become records of functions. Code behind them (a provider, a user's tool, an
  approval hook) is a parameter: a function on the world \<open>'w\<close>. An optional interface that a
  value may implement (\<open>StreamingModel\<close>, \<open>ResponseThreader\<close>) is an option field.
\<close>

section \<open>Models (model.go)\<close>

text \<open>
  A stream is the sequence of its \<open>Recv\<close> calls up to \<open>io.EOF\<close>: each call acts on the world and
  yields a chunk or an error. The list is finite: a stream is taken to end.
\<close>

record 'w model_stream =
  strmRecv :: "('w \<Rightarrow> (goerr + stream_chunk) \<times> 'w) list"
  strmClose :: "'w \<Rightarrow> 'w"

record 'w model =
  mdlID :: string
  mdlGenerate :: "ctx \<Rightarrow> request \<Rightarrow> 'w \<Rightarrow> (goerr + response) \<times> 'w"
  mdlStream :: "(ctx \<Rightarrow> request \<Rightarrow> 'w \<Rightarrow> (goerr + 'w model_stream) \<times> 'w) option"
  mdlThreadsResponses :: "bool option"
  mdlThreadingUnsupported :: "(goerr \<Rightarrow> bool) option"

definition supportsResponseThreading :: "'w model \<Rightarrow> bool" where
  "supportsResponseThreading m = (case mdlThreadsResponses m of None \<Rightarrow> False | Some b \<Rightarrow> b)"

definition threadingUnsupported :: "'w model \<Rightarrow> goerr \<Rightarrow> bool" where
  "threadingUnsupported m err =
     (case mdlThreadingUnsupported m of None \<Rightarrow> False | Some f \<Rightarrow> f err)"

section \<open>Tools (tool.go, subagent.go)\<close>

text \<open>
  \<open>Invoke\<close> returns a value, returns an error or panics; the text of a panic is what \<open>%v\<close> prints.
\<close>

datatype tool_outcome = ToolReturns goany | ToolFails goerr | ToolPanics string

text \<open>
  What \<open>invokeSub\<close> needs of a subagent: its name, its configured budget and
  \<open>NewSession().runWith\<close>.
\<close>

record 'w subagent =
  subName :: string
  subBudget :: budget
  subRun :: "ctx \<Rightarrow> message \<Rightarrow> budget \<Rightarrow> ('w st, result \<times> goerr option) state"

text \<open>The type switch of \<open>invokeOne\<close>: a tool is a \<open>subagentInvoker\<close> or it is invoked.\<close>

datatype 'w tool_impl =
    ToolFunc "ctx \<Rightarrow> raw_message \<Rightarrow> 'w \<Rightarrow> tool_outcome \<times> 'w"
  | ToolAgent "'w subagent"

record 'w tool =
  tlName :: string
  tlDescription :: string
  tlSchema :: raw_message
  tlImpl :: "'w tool_impl"

text \<open>
  \<open>NewTool\<close>: the arguments are unmarshalled into the input type unless they are empty or
  \<open>null\<close>. \<open>zero\<close> is the zero value of \<open>In\<close>, \<open>unmarshal\<close> is \<open>json.Unmarshal\<close> into a fresh one.
\<close>

definition typedTool_Invoke ::
  "string \<Rightarrow> 'i \<Rightarrow> (raw_message \<Rightarrow> goerr + 'i) \<Rightarrow> (ctx \<Rightarrow> 'i \<Rightarrow> 'w \<Rightarrow> tool_outcome \<times> 'w) \<Rightarrow>
     ctx \<Rightarrow> raw_message \<Rightarrow> 'w \<Rightarrow> tool_outcome \<times> 'w" where
  "typedTool_Invoke name zero unmarshal fn c args w =
     (if args \<noteq> [] \<and> args \<noteq> ''null'' then
        (case unmarshal args of
           Inl err \<Rightarrow> (ToolFails (ToolError name (ErrWrap ''invalid arguments: '' err)), w)
         | Inr v \<Rightarrow> fn c v w)
      else fn c zero w)"

text \<open>The schema of the input type; where it cannot be derived, \<open>NewTool\<close> panics (\<open>Inl\<close>).\<close>

definition NewTool ::
  "goerr + raw_message \<Rightarrow> 'i \<Rightarrow> (raw_message \<Rightarrow> goerr + 'i) \<Rightarrow> string \<Rightarrow> string \<Rightarrow>
     (ctx \<Rightarrow> 'i \<Rightarrow> 'w \<Rightarrow> tool_outcome \<times> 'w) \<Rightarrow> string + 'w tool" where
  "NewTool sch zero unmarshal name description fn =
     (case sch of
        Inl err \<Rightarrow> Inl (''rimeno.NewTool('' @ strconv_quote name @ ''): cannot derive schema: '' @ Error err)
      | Inr s \<Rightarrow> Inr \<lparr>tlName = name, tlDescription = description, tlSchema = s,
          tlImpl = ToolFunc (typedTool_Invoke name zero unmarshal fn)\<rparr>)"

definition RawTool ::
  "string \<Rightarrow> string \<Rightarrow> raw_message \<Rightarrow> (ctx \<Rightarrow> raw_message \<Rightarrow> 'w \<Rightarrow> tool_outcome \<times> 'w) \<Rightarrow> 'w tool" where
  "RawTool name description params fn = \<lparr>tlName = name, tlDescription = description,
     tlSchema = params, tlImpl = ToolFunc (\<lambda>c args. fn c args)\<rparr>"

fun marshalToolResult :: "goany \<Rightarrow> string" where
  "marshalToolResult AnyNil = []"
| "marshalToolResult (AnyString x) = x"
| "marshalToolResult (AnyBytes x) = x"
| "marshalToolResult (AnyRawMessage x) = x"
| "marshalToolResult (AnyValue js v) = (case js of Inl err \<Rightarrow> v | Inr b \<Rightarrow> b)"

section \<open>Structured output (output.go)\<close>

record output_spec =
  osName :: string
  osSchema :: raw_message
  osStrict :: bool
  osValidate :: "(string \<Rightarrow> goerr option) option"
  osDecode :: "(string \<Rightarrow> goerr + goany) option"

type_synonym output_option = "output_spec \<Rightarrow> output_spec"

text \<open>
  \<open>validate\<close> is \<open>schema.Validate\<close>, modelled in its own theory and passed in here; \<open>unmarshal\<close>
  is \<open>json.Unmarshal\<close> into a fresh \<open>T\<close>.
\<close>

definition OutputOf ::
  "(raw_message \<Rightarrow> string \<Rightarrow> goerr option) \<Rightarrow> string \<Rightarrow> raw_message \<Rightarrow> (string \<Rightarrow> goerr + goany) \<Rightarrow> output_spec" where
  "OutputOf validate name sch unmarshal = \<lparr>osName = name, osSchema = sch, osStrict = True,
     osValidate = Some (validate sch),
     osDecode = Some (\<lambda>b. case unmarshal b of Inl err \<Rightarrow> Inl err | Inr v \<Rightarrow> Inr v)\<rparr>"

definition OutputFromSchema ::
  "(raw_message \<Rightarrow> string \<Rightarrow> goerr option) \<Rightarrow> string \<Rightarrow> raw_message \<Rightarrow> output_option list \<Rightarrow> output_spec" where
  "OutputFromSchema validate name sch opts = foldl (\<lambda>spec opt. opt spec)
     \<lparr>osName = name, osSchema = sch, osStrict = True, osValidate = Some (validate sch),
      osDecode = Some (\<lambda>b. Inr (AnyRawMessage b))\<rparr> opts"

definition Lax :: output_option where
  "Lax = (\<lambda>s. s\<lparr>osStrict := False\<rparr>)"

definition DecodeInto :: "(string \<Rightarrow> goerr + goany) \<Rightarrow> output_option" where
  "DecodeInto decode = (\<lambda>s. s\<lparr>osDecode := Some decode\<rparr>)"

section \<open>Configuration and agent (agent.go)\<close>

record 'w compactor =
  cmpShouldCompact :: "message list \<Rightarrow> int \<Rightarrow> 'w \<Rightarrow> bool \<times> 'w"
  cmpCompact :: "ctx \<Rightarrow> message list \<Rightarrow> 'w \<Rightarrow> (message list \<times> goerr option) \<times> 'w"

abbreviation (input) ApprovalAllow :: int where "ApprovalAllow \<equiv> 0"
abbreviation (input) ApprovalDeny :: int where "ApprovalDeny \<equiv> 1"

record 'w approval_request =
  arAgentName :: string
  arCall :: tool_call
  arTool :: "'w tool"

type_synonym 'w approval_func =
  "ctx \<Rightarrow> 'w approval_request \<Rightarrow> 'w \<Rightarrow> (int \<times> string) \<times> 'w"

record 'w config =
  cfgModel :: "'w model option"
  cfgInstructions :: string
  cfgTools :: "'w tool option list"
  cfgOutput :: "output_spec option"
  cfgOutputRepairAttempts :: int
  cfgBudget :: budget
  cfgMaxSteps :: int
  cfgCompactor :: "'w compactor option"
  cfgTokenizer :: "(string \<Rightarrow> int) option"
  cfgApprove :: "'w approval_func option"
  cfgOnEvent :: "'w handler"
  cfgTemperature :: "rat option"
  cfgMaxTokens :: int
  cfgReasoningEffort :: string
  cfgReasoningMaxTokens :: int
  cfgResponsesThreading :: bool
  cfgToolChoice :: string
  cfgParallelTools :: bool
  cfgMaxParallelTools :: int
  cfgMaxToolErrors :: int
  cfgStream :: bool
  cfgName :: string

record 'w agent =
  agModel :: "'w model"
  agInstructions :: string
  agTools :: "string \<rightharpoonup> 'w tool"
  agToolDefs :: "tool_def list"
  agOutput :: "output_spec option"
  agOutputRepairs :: int
  agBudget :: budget
  agMaxSteps :: int
  agCompactor :: "'w compactor option"
  agTokenizer :: "(string \<Rightarrow> int) option"
  agApprove :: "'w approval_func option"
  agOnEvent :: "'w handler"
  agTemperature :: "rat option"
  agMaxTokens :: int
  agReasoningEffort :: string
  agReasoningMaxTokens :: int
  agResponsesThreading :: bool
  agToolChoice :: string
  agParallelTools :: bool
  agMaxParallelTools :: int
  agMaxToolErrors :: int
  agStream :: bool
  agName :: string

definition DefaultMaxSteps :: int where
  "DefaultMaxSteps = 32"

definition tool_def_of :: "'w tool \<Rightarrow> tool_def" where
  "tool_def_of t = \<lparr>tdName = tlName t, tdDescription = tlDescription t, tdParameters = tlSchema t\<rparr>"

text \<open>The loop of \<open>New\<close> over \<open>cfg.Tools\<close>.\<close>

fun add_tools :: "(string \<rightharpoonup> 'w tool) \<Rightarrow> tool_def list \<Rightarrow> 'w tool option list \<Rightarrow>
    goerr + (string \<rightharpoonup> 'w tool) \<times> tool_def list" where
  "add_tools tools defs [] = Inr (tools, defs)"
| "add_tools tools defs (None # ts) = Inl (ErrText ''rimeno: nil tool in Config.Tools'')"
| "add_tools tools defs (Some t # ts) =
     (if tools (tlName t) \<noteq> None
      then Inl (ErrText (''rimeno: duplicate tool name '' @ strconv_quote (tlName t)))
      else add_tools (tools(tlName t \<mapsto> t)) (defs @ [tool_def_of t]) ts)"

definition New :: "'w config \<Rightarrow> goerr + 'w agent" where
  "New cfg = (case cfgModel cfg of
       None \<Rightarrow> Inl ErrNoModel
     | Some m \<Rightarrow> (case add_tools Map.empty [] (cfgTools cfg) of
           Inl err \<Rightarrow> Inl err
         | Inr (tools, defs) \<Rightarrow> Inr
            \<lparr>agModel = m, agInstructions = cfgInstructions cfg, agTools = tools,
             agToolDefs = defs, agOutput = cfgOutput cfg,
             agOutputRepairs = (if cfgOutput cfg \<noteq> None \<and> cfgOutputRepairAttempts cfg = 0
                                then 1 else cfgOutputRepairAttempts cfg),
             agBudget = cfgBudget cfg,
             agMaxSteps = (if cfgMaxSteps cfg = 0 then DefaultMaxSteps else cfgMaxSteps cfg),
             agCompactor = cfgCompactor cfg, agTokenizer = cfgTokenizer cfg,
             agApprove = cfgApprove cfg, agOnEvent = cfgOnEvent cfg,
             agTemperature = cfgTemperature cfg, agMaxTokens = cfgMaxTokens cfg,
             agReasoningEffort = cfgReasoningEffort cfg,
             agReasoningMaxTokens = cfgReasoningMaxTokens cfg,
             agResponsesThreading = cfgResponsesThreading cfg,
             agToolChoice = cfgToolChoice cfg, agParallelTools = cfgParallelTools cfg,
             agMaxParallelTools = cfgMaxParallelTools cfg,
             agMaxToolErrors = cfgMaxToolErrors cfg, agStream = cfgStream cfg,
             agName = (if cfgName cfg = [] then ''agent'' else cfgName cfg)\<rparr>))"

definition maxParallel :: "'w agent \<Rightarrow> int" where
  "maxParallel a = (if agMaxParallelTools a > 0 then agMaxParallelTools a else 8)"

text \<open>\<open>a.emit(XEvent{a.base(), ...})\<close>.\<close>

definition agent_emit :: "'w env \<Rightarrow> 'w agent \<Rightarrow> (event_base \<Rightarrow> event) \<Rightarrow> ('w st, unit) state" where
  "agent_emit E a mk = emit E (agName a) (agOnEvent a) mk"

section \<open>Token estimates (compaction.go, tokenizer.go)\<close>

definition message_chars :: "message \<Rightarrow> int" where
  "message_chars m = int (length (msgText m)) +
     sum_list (map (\<lambda>tc. int (length (tcName tc)) + int (length (tcArguments tc))) (msgToolCalls m))"

definition EstimateTokens :: "message list \<Rightarrow> int" where
  "EstimateTokens msgs = sum_list (map message_chars msgs) div 4 + int (length msgs) * 3"

definition count_message :: "(string \<Rightarrow> int) \<Rightarrow> message \<Rightarrow> int" where
  "count_message tk m = tk (msgText m) +
     sum_list (map (\<lambda>tc. tk (tcName tc) + tk (tcArguments tc)) (msgToolCalls m)) + 3"

definition estimateTokens :: "'w agent \<Rightarrow> message list \<Rightarrow> int" where
  "estimateTokens a msgs = (case agTokenizer a of
       None \<Rightarrow> EstimateTokens msgs
     | Some tk \<Rightarrow> i64 (sum_list (map (count_message tk) msgs)))"

section \<open>Sessions (session.go)\<close>

record session =
  ssHistory :: "message list"
  ssUsage :: usage
  ssTraces :: "addr list"
  ssLastResponseID :: string
  ssThreadSentIdx :: nat
  ssThreadingDisabled :: bool

definition NewSession :: "'w agent \<Rightarrow> session" where
  "NewSession a = \<lparr>ssHistory = (if agInstructions a \<noteq> [] then [SystemMessage (agInstructions a)] else []),
     ssUsage = usage_zero, ssTraces = [], ssLastResponseID = [], ssThreadSentIdx = 0,
     ssThreadingDisabled = False\<rparr>"

definition sess_append :: "session \<Rightarrow> message list \<Rightarrow> session" where
  "sess_append s ms = s\<lparr>ssHistory := ssHistory s @ ms\<rparr>"

definition Messages :: "session \<Rightarrow> message list" where
  "Messages s = ssHistory s"

definition session_Usage :: "session \<Rightarrow> usage" where
  "session_Usage s = ssUsage s"

definition Traces :: "session \<Rightarrow> addr list" where
  "Traces s = ssTraces s"

section \<open>Requests (run.go)\<close>

definition threadingActive :: "'w agent \<Rightarrow> session \<Rightarrow> bool" where
  "threadingActive a s \<longleftrightarrow> \<not> ssThreadingDisabled s \<and> agResponsesThreading a \<and>
     supportsResponseThreading (agModel a)"

definition buildRequest :: "'w agent \<Rightarrow> message list \<Rightarrow> request" where
  "buildRequest a history = \<lparr>rqModel = mdlID (agModel a), rqMessages = history,
     rqTools = agToolDefs a, rqToolChoice = agToolChoice a,
     rqResponseFormat = (case agOutput a of None \<Rightarrow> None
        | Some o' \<Rightarrow> Some \<lparr>rfName = osName o', rfSchema = osSchema o', rfStrict = osStrict o'\<rparr>),
     rqTemperature = agTemperature a, rqMaxTokens = agMaxTokens a, rqStop = [],
     rqReasoningEffort = agReasoningEffort a, rqReasoningMaxTokens = agReasoningMaxTokens a,
     rqPreviousResponseID = []\<rparr>"

definition buildRequestLocked :: "'w agent \<Rightarrow> session \<Rightarrow> request" where
  "buildRequestLocked a s =
     (if threadingActive a s \<and> ssLastResponseID s \<noteq> [] \<and> ssThreadSentIdx s \<le> length (ssHistory s)
      then (buildRequest a (drop (ssThreadSentIdx s) (ssHistory s)))
             \<lparr>rqPreviousResponseID := ssLastResponseID s\<rparr>
      else buildRequest a (ssHistory s))"

section \<open>Snapshots (persistence.go)\<close>

record session_state =
  stateVersion :: int
  stateMessages :: "message list"
  stateUsage :: usage

definition currentStateVersion :: int where
  "currentStateVersion = 1"

definition Snapshot :: "session \<Rightarrow> session_state" where
  "Snapshot s = \<lparr>stateVersion = currentStateVersion, stateMessages = ssHistory s, stateUsage = ssUsage s\<rparr>"

definition ResumeSession :: "session_state \<Rightarrow> session" where
  "ResumeSession state = \<lparr>ssHistory = stateMessages state, ssUsage = stateUsage state,
     ssTraces = [], ssLastResponseID = [], ssThreadSentIdx = 0, ssThreadingDisabled = False\<rparr>"

text \<open>
  \<open>WriteTo\<close> and \<open>LoadSessionState\<close>: \<open>marshal\<close> is \<open>json.MarshalIndent\<close>, \<open>write\<close> the writer
  (bytes taken and an error), \<open>decode\<close> is \<open>json.NewDecoder(r).Decode\<close> on the bytes of the reader.
\<close>

definition WriteTo ::
  "(session_state \<Rightarrow> goerr + string) \<Rightarrow> (string \<Rightarrow> nat \<times> goerr option) \<Rightarrow> session_state \<Rightarrow> nat \<times> goerr option" where
  "WriteTo marshal write s = (case marshal s of Inl err \<Rightarrow> (0, Some err) | Inr b \<Rightarrow> write b)"

definition LoadSessionState :: "(string \<Rightarrow> goerr + session_state) \<Rightarrow> string \<Rightarrow> goerr + session_state" where
  "LoadSessionState decode r = (case decode r of Inl err \<Rightarrow> Inl err | Inr st \<Rightarrow> Inr st)"

section \<open>What New guarantees\<close>

lemma add_tools_Inr:
  "add_tools tools defs ts = Inr (tools', defs') \<Longrightarrow>
     (\<exists>us. ts = map Some us \<and> defs' = defs @ map tool_def_of us \<and>
       distinct (map tlName us) \<and> (\<forall>u\<in>set us. tools (tlName u) = None) \<and>
       tools' = tools ++ map_of (map (\<lambda>u. (tlName u, u)) us))"
proof (induction tools defs ts rule: add_tools.induct)
  case (1 tools defs)
  then show ?case by simp
next
  case (2 tools defs ts)
  then show ?case by simp
next
  case (3 tools defs t ts)
  have fresh: "tools (tlName t) = None"
    and call: "add_tools (tools(tlName t \<mapsto> t)) (defs @ [tool_def_of t]) ts = Inr (tools', defs')"
    using "3.prems" by (simp_all split: if_splits)
  obtain us where us: "ts = map Some us" "defs' = (defs @ [tool_def_of t]) @ map tool_def_of us"
      "distinct (map tlName us)" "\<forall>u\<in>set us. (tools(tlName t \<mapsto> t)) (tlName u) = None"
      "tools' = tools(tlName t \<mapsto> t) ++ map_of (map (\<lambda>u. (tlName u, u)) us)"
    using "3.IH" [OF _ call] fresh by blast
  have other: "\<forall>u\<in>set us. tlName u \<noteq> tlName t \<and> tools (tlName u) = None"
    using us(4) by (auto split: if_splits)
  then have "map_of (map (\<lambda>u. (tlName u, u)) us) (tlName t) = None"
    by (auto simp: map_of_eq_None_iff)
  then have "tools' = tools ++ map_of (map (\<lambda>u. (tlName u, u)) (t # us))"
    using us(5) by (auto simp: fun_eq_iff map_add_def split: option.splits)
  moreover have "tlName t \<notin> tlName ` set us" using other by force
  then have "distinct (map tlName (t # us))" using us(3) by simp
  ultimately show ?case
    using us(1,2) fresh other
    by (intro exI [of _ "t # us"] conjI) (simp, simp, assumption, simp, assumption)
qed

lemma add_tools_complete:
  "distinct (map tlName us) \<Longrightarrow> \<forall>u\<in>set us. tools (tlName u) = None \<Longrightarrow>
     \<exists>r. add_tools tools defs (map Some us) = Inr r"
proof (induction us arbitrary: tools defs)
  case (Cons u us)
  then have "tlName u \<notin> tlName ` set us" "\<forall>v\<in>set us. tools (tlName v) = None" by simp_all
  then have "(tools(tlName u \<mapsto> u)) (tlName v) = None" if "v \<in> set us" for v
    using that by (metis fun_upd_other image_eqI)
  with Cons.IH [of "tools(tlName u \<mapsto> u)"] Cons.prems show ?case
    by (simp del: fun_upd_apply)
qed simp

end
