(* ===== verification/Budget_Fanout.thy ===== *)
theory Budget_Fanout
  imports Budget "HOL-Library.Multiset"
begin

text \<open>
  Concurrent subagents on one budget tracker. A fan-out is a tracker together with the grants
  that are out; its steps are the atomic operations of \<open>budget.go\<close> in any order. The locale
  \<open>reservation_ledger\<close> is the contract between the fan-out and a ledger: each step is neutral,
  reserves a grant that still fits the cap, or settles a grant. It is interpreted twice on the
  fan-out, for tokens and for cost.
\<close>

section \<open>The contract\<close>

locale reservation_ledger =
  fixes step :: "'s \<Rightarrow> 's \<Rightarrow> bool"
    and ok :: "'s \<Rightarrow> bool"
    and cap :: "'s \<Rightarrow> 'n::linordered_idom"
    and used :: "'s \<Rightarrow> 'n"
    and reserved :: "'s \<Rightarrow> 'n"
    and over :: "'s \<Rightarrow> 'n"
    and grants :: "'s \<Rightarrow> 'n multiset"
  assumes step_ok: "ok s \<Longrightarrow> step s t \<Longrightarrow> reserved s = \<Sum>\<^sub># (grants s) \<Longrightarrow>
      \<forall>g\<in>#grants s. 0 \<le> g \<Longrightarrow> ok t"
    and step_cap: "ok s \<Longrightarrow> step s t \<Longrightarrow> cap t = cap s"
    and step_kind: "ok s \<Longrightarrow> step s t \<Longrightarrow> reserved s = \<Sum>\<^sub># (grants s) \<Longrightarrow>
      \<forall>g\<in>#grants s. 0 \<le> g \<Longrightarrow>
      (used t = used s \<and> reserved t = reserved s \<and> over t = over s \<and> grants t = grants s) \<or>
      (\<exists>g. 0 \<le> g \<and> used t = used s \<and> reserved t = reserved s + g \<and> over t = over s \<and>
           grants t = add_mset g (grants s) \<and> (g = 0 \<or> used t + reserved t \<le> cap t)) \<or>
      (\<exists>g a. g \<in># grants s \<and> used t = used s + a \<and> reserved t = reserved s - g \<and>
           over t = over s + max 0 (a - g) \<and> grants t = grants s - {#g#})"
begin

definition balanced :: "'n \<Rightarrow> 's \<Rightarrow> bool" where
  "balanced base s \<longleftrightarrow> ok s \<and> reserved s = \<Sum>\<^sub># (grants s) \<and> (\<forall>g\<in>#grants s. 0 \<le> g) \<and>
     used s + reserved s \<le> max (cap s) base + over s \<and> 0 \<le> over s"

lemma balanced_step:
  assumes "balanced base s" "step s t"
  shows "balanced base t"
proof -
  from assms have ok: "ok s" and sum: "reserved s = \<Sum>\<^sub># (grants s)"
    and pos: "\<forall>g\<in>#grants s. 0 \<le> g"
    and le: "used s + reserved s \<le> max (cap s) base + over s" and ov: "0 \<le> over s"
    by (auto simp: balanced_def)
  have okt: "ok t" and capt: "cap t = cap s"
    using step_ok [OF ok assms(2) sum pos] step_cap [OF ok assms(2)] by auto
  consider (neutral) "used t = used s" "reserved t = reserved s" "over t = over s"
      "grants t = grants s"
    | (reserve) g where "0 \<le> g" "used t = used s" "reserved t = reserved s + g" "over t = over s"
      "grants t = add_mset g (grants s)" "g = 0 \<or> used t + reserved t \<le> cap t"
    | (settle) g a where "g \<in># grants s" "used t = used s + a" "reserved t = reserved s - g"
      "over t = over s + max 0 (a - g)" "grants t = grants s - {#g#}"
    using step_kind [OF ok assms(2) sum pos] by blast
  then show ?thesis
  proof cases
    case neutral
    then show ?thesis using okt capt sum pos le ov by (simp add: balanced_def)
  next
    case reserve
    have "used t + reserved t \<le> max (cap t) base + over t"
    proof (cases "g = 0")
      case True
      then show ?thesis using reserve le capt by simp
    next
      case False
      then have "used t + reserved t \<le> max (cap t) base"
        using reserve by (simp add: le_max_iff_disj)
      then show ?thesis using reserve ov by (simp add: add_increasing2)
    qed
    then show ?thesis
      using okt reserve sum pos ov by (simp add: balanced_def add.commute)
  next
    case settle
    have "a - g \<le> max 0 (a - g)" by simp
    then have "used t + reserved t \<le> max (cap t) base + over t"
      using settle le capt by (simp add: algebra_simps)
    moreover have "\<forall>x\<in>#grants t. 0 \<le> x"
      using pos settle by (auto dest: in_diffD)
    moreover have "\<Sum>\<^sub># (grants s) = g + \<Sum>\<^sub># (grants t)"
      using settle by (metis insert_DiffM sum_mset.add_mset)
    moreover have "0 \<le> over t" using settle ov by (simp add: add_increasing2)
    ultimately show ?thesis
      using okt settle sum by (simp add: balanced_def algebra_simps)
  qed
qed

lemma balanced_steps: "step\<^sup>*\<^sup>* s t \<Longrightarrow> balanced base s \<Longrightarrow> balanced base t"
  by (induction rule: rtranclp_induct) (auto intro: balanced_step)

lemma steps_cap: "step\<^sup>*\<^sup>* s t \<Longrightarrow> balanced base s \<Longrightarrow> cap t = cap s"
proof (induction rule: rtranclp_induct)
  case (step y z)
  have "ok y" using balanced_steps [OF step(1) step.prems] by (simp add: balanced_def)
  then show ?case using step_cap step by metis
qed simp

lemma steps_bound:
  assumes "step\<^sup>*\<^sup>* s t" "ok s" "grants s = {#}" "reserved s = 0" "over s = 0"
  shows "used t + reserved t \<le> max (cap s) (used s) + over t"
    and "reserved t = \<Sum>\<^sub># (grants t)"
    and "ok t"
proof -
  have b: "balanced (used s) s" using assms(2-5) by (simp add: balanced_def)
  then have t: "balanced (used s) t" using balanced_steps [OF assms(1)] by blast
  show "used t + reserved t \<le> max (cap s) (used s) + over t"
    using t steps_cap [OF assms(1) b] by (simp add: balanced_def)
  show "reserved t = \<Sum>\<^sub># (grants t)" "ok t" using t by (simp_all add: balanced_def)
qed

end

section \<open>The fan-out\<close>

text \<open>
  \<open>foOverTokens\<close> and \<open>foOverCost\<close> only observe: by how much the settled children exceeded their
  grants (the slack a child has because it checks its budget between steps).
\<close>

record fanout =
  foTracker :: tracker
  foGrants :: "budget multiset"
  foOverTokens :: int
  foOverCost :: rat

definition fanout_start :: "tracker \<Rightarrow> fanout" where
  "fanout_start t = \<lparr>foTracker = t, foGrants = {#}, foOverTokens = 0, foOverCost = 0\<rparr>"

text \<open>What a child may report: token counts that are not negative and do not overflow the sum.\<close>

definition report_ok :: "tracker \<Rightarrow> usage \<Rightarrow> bool" where
  "report_ok t u \<longleftrightarrow> 0 \<le> TotalTokens u \<and> in_i64 (TotalTokens (btUsed t) + TotalTokens u)"

inductive fanout_step :: "fanout \<Rightarrow> fanout \<Rightarrow> bool" where
  reserve: "childBudget now (foTracker f) req = (child, grant, t) \<Longrightarrow>
     0 \<le> MaxTotalTokens req \<Longrightarrow> 0 \<le> MaxCostUSD req \<Longrightarrow>
     fanout_step f (f\<lparr>foTracker := t, foGrants := add_mset grant (foGrants f)\<rparr>)"
| settle: "grant \<in># foGrants f \<Longrightarrow> report_ok (foTracker f) actual \<Longrightarrow>
     fanout_step f (f\<lparr>foTracker := settleChild (foTracker f) grant actual,
        foGrants := foGrants f - {#grant#},
        foOverTokens := foOverTokens f + max 0 (TotalTokens actual - MaxTotalTokens grant),
        foOverCost := foOverCost f + max 0 (CostUSD actual - MaxCostUSD grant)\<rparr>)"
| tool_call: "fanout_step f (f\<lparr>foTracker := incToolCall (foTracker f)\<rparr>)"
| tool_error: "fanout_step f (f\<lparr>foTracker := noteToolError (foTracker f) name\<rparr>)"

inductive_cases fanout_stepE: "fanout_step f g"

lemma settle_tokens:
  assumes "tokens_ok t" "0 \<le> MaxTotalTokens g" "MaxTotalTokens g \<le> btReservedTokens t"
  shows "btReservedTokens (settleChild t g u) = btReservedTokens t - MaxTotalTokens g"
proof -
  have "in_i64 (btReservedTokens t - MaxTotalTokens g)"
    using assms tokens_ok_in_range [OF assms(1)] by (auto simp: in_i64_def)
  then show ?thesis using assms by (simp add: settleChild_def Let_def)
qed

lemma settle_cost:
  "0 \<le> MaxCostUSD g \<Longrightarrow> MaxCostUSD g \<le> btReservedCost t \<Longrightarrow>
     btReservedCost (settleChild t g u) = btReservedCost t - MaxCostUSD g"
  by (simp add: settleChild_def Let_def)

lemma settle_tokens_ok:
  assumes "tokens_ok t" "0 \<le> MaxTotalTokens g" "MaxTotalTokens g \<le> btReservedTokens t"
    "report_ok t u"
  shows "tokens_ok (settleChild t g u)"
  using assms settle_tokens [OF assms(1-3), of u]
  by (auto simp: tokens_ok_def report_ok_def)

lemma sum_mset_nonneg_all: "\<forall>y\<in>#M. 0 \<le> y \<Longrightarrow> 0 \<le> \<Sum>\<^sub># (M :: 'n::linordered_idom multiset)"
  by (induction M) auto

lemma member_le_sum_mset:
  "x \<in># M \<Longrightarrow> \<forall>y\<in>#M. 0 \<le> y \<Longrightarrow> x \<le> \<Sum>\<^sub># (M :: 'n::linordered_idom multiset)"
proof (induction M)
  case (add z M)
  then have "0 \<le> \<Sum>\<^sub># M" by (simp add: sum_mset_nonneg_all)
  with add show ?case by (auto simp: add_increasing add_increasing2)
qed simp

interpretation tok: reservation_ledger fanout_step
  "\<lambda>f. tokens_ok (foTracker f)"
  "\<lambda>f. MaxTotalTokens (btB (foTracker f))"
  "\<lambda>f. TotalTokens (btUsed (foTracker f))"
  "\<lambda>f. btReservedTokens (foTracker f)"
  foOverTokens
  "\<lambda>f. image_mset MaxTotalTokens (foGrants f)"
proof (unfold_locales, goal_cases)
  case (1 s t)
  have le: "0 \<le> MaxTotalTokens g \<and> MaxTotalTokens g \<le> btReservedTokens (foTracker s)"
    if "g \<in># foGrants s" for g
    using that 1(3,4) member_le_sum_mset [of "MaxTotalTokens g"] by auto
  from 1(2) show ?case
  proof cases
    case reserve
    with childBudget_tokens(4) [OF 1(1)] show ?thesis by simp
  next
    case settle
    with settle_tokens_ok [OF 1(1)] le show ?thesis by simp
  qed (use 1(1) in \<open>auto simp: tokens_ok_def\<close>)
next
  case (2 s t)
  from 2(2) show ?case
    by cases (auto dest: childBudget_frame)
next
  case (3 s t)
  have le: "0 \<le> MaxTotalTokens g \<and> MaxTotalTokens g \<le> btReservedTokens (foTracker s)"
    if "g \<in># foGrants s" for g
    using that 3(3,4) member_le_sum_mset [of "MaxTotalTokens g"] by auto
  from 3(2) show ?case
  proof cases
    case (reserve now req child grant t')
    note b = childBudget_tokens [OF 3(1) reserve(3,2)]
    show ?thesis
      using reserve(1) b childBudget_frame [OF reserve(2)]
      by (intro disjI2 disjI1 exI [of _ "MaxTotalTokens grant"]) auto
  next
    case (settle grant actual)
    have "btReservedTokens (foTracker t) =
            btReservedTokens (foTracker s) - MaxTotalTokens grant"
      using settle settle_tokens [OF 3(1)] le by simp
    moreover have "TotalTokens (btUsed (foTracker t)) =
            TotalTokens (btUsed (foTracker s)) + TotalTokens actual"
      using settle by (simp add: report_ok_def)
    ultimately show ?thesis
      using settle
      by (intro disjI2 exI [of _ "MaxTotalTokens grant"] exI [of _ "TotalTokens actual"])
        (auto simp: image_mset_Diff)
  qed auto
qed

interpretation cost: reservation_ledger fanout_step
  "\<lambda>f. True"
  "\<lambda>f. MaxCostUSD (btB (foTracker f))"
  "\<lambda>f. CostUSD (btUsed (foTracker f))"
  "\<lambda>f. btReservedCost (foTracker f)"
  foOverCost
  "\<lambda>f. image_mset MaxCostUSD (foGrants f)"
proof (unfold_locales, goal_cases)
  case (2 s t)
  from 2(2) show ?case
    by cases (auto dest: childBudget_frame)
next
  case (3 s t)
  have le: "0 \<le> MaxCostUSD g \<and> MaxCostUSD g \<le> btReservedCost (foTracker s)"
    if "g \<in># foGrants s" for g
    using that 3(3,4) member_le_sum_mset [of "MaxCostUSD g"] by auto
  from 3(2) show ?case
  proof cases
    case (reserve now req child grant t')
    note b = childBudget_cost [OF reserve(4,2)]
    show ?thesis
      using reserve(1) b childBudget_frame [OF reserve(2)]
      by (intro disjI2 disjI1 exI [of _ "MaxCostUSD grant"]) auto
  next
    case (settle grant actual)
    then show ?thesis
      using settle_cost le
      by (intro disjI2 exI [of _ "MaxCostUSD grant"] exI [of _ "CostUSD actual"])
        (auto simp: image_mset_Diff)
  qed auto
qed auto

section \<open>The bound\<close>

lemma fanout_start_fields [simp]:
  "foTracker (fanout_start t) = t" "foGrants (fanout_start t) = {#}"
  "foOverTokens (fanout_start t) = 0" "foOverCost (fanout_start t) = 0"
  by (simp_all add: fanout_start_def)

text \<open>
  C5: However subagents are started and settled, in any order and any number at a time, the tokens
  and the cost used plus those reserved stay within the parent's cap, up to what single
  children used beyond their grant (a child checks its budget between steps) and to what the
  parent had already used beyond its cap when the fan-out began; and the reservations held are
  exactly the grants that are still out.
\<close>

theorem fanout_stays_within_cap:
  assumes "fanout_step\<^sup>*\<^sup>* (fanout_start t) f" "tokens_ok t" "btReservedTokens t = 0" "btReservedCost t = 0"
  shows "TotalTokens (btUsed (foTracker f)) + btReservedTokens (foTracker f)
           \<le> max (MaxTotalTokens (btB t)) (TotalTokens (btUsed t)) + foOverTokens f \<and>
         CostUSD (btUsed (foTracker f)) + btReservedCost (foTracker f)
           \<le> max (MaxCostUSD (btB t)) (CostUSD (btUsed t)) + foOverCost f \<and>
         btReservedTokens (foTracker f) = \<Sum>\<^sub># (image_mset MaxTotalTokens (foGrants f)) \<and>
         btReservedCost (foTracker f) = \<Sum>\<^sub># (image_mset MaxCostUSD (foGrants f))"
  using tok.steps_bound [OF assms(1)] cost.steps_bound [OF assms(1)] assms(2-4) by simp

theorem fanout_stays_within_cap_witness:
  "\<exists>f. fanout_step\<^sup>*\<^sup>* (fanout_start (newBudgetTracker 0 (budget_zero\<lparr>MaxTotalTokens := 100\<rparr>))) f \<and>
     foGrants f \<noteq> {#} \<and>
     TotalTokens (btUsed (foTracker f)) + btReservedTokens (foTracker f) \<le> 100 + foOverTokens f"
proof -
  let ?t = "newBudgetTracker 0 (budget_zero\<lparr>MaxTotalTokens := 100\<rparr>)"
  obtain child grant t' where call: "childBudget 0 ?t (budget_zero\<lparr>MaxTotalTokens := 60\<rparr>) = (child, grant, t')"
    by (metis prod.collapse)
  let ?f = "(fanout_start ?t)\<lparr>foTracker := t', foGrants := add_mset grant (foGrants (fanout_start ?t))\<rparr>"
  have "fanout_step (fanout_start ?t) ?f"
    by (rule fanout_step.reserve [of 0 _ "budget_zero\<lparr>MaxTotalTokens := 60\<rparr>" child])
      (unfold fanout_start_fields call, simp_all add: budget_zero_def)
  then have steps: "fanout_step\<^sup>*\<^sup>* (fanout_start ?t) ?f" by blast
  have ok: "tokens_ok ?t" by (simp add: tokens_ok_def budget_zero_def in_i64_def)
  have "TotalTokens (btUsed (foTracker ?f)) + btReservedTokens (foTracker ?f) \<le> 100 + foOverTokens ?f"
    using fanout_stays_within_cap [OF steps ok] by (simp add: budget_zero_def)
  with steps show ?thesis by (intro exI [of _ ?f]) simp
qed

text \<open>
  A parent whose token or cost budget is fully committed hands a child a deadline that has
  passed, and the child's own check refuses it before its first model call.
\<close>

theorem exhausted_parent_stops_child:
  assumes "tokens_ok t" "exhausted t" "childBudget now t req = (child, grant, t')"
    and "time_second < now" "now \<le> later" "0 \<le> start"
  shows "check later (newBudgetTracker start child)
     = Some (BudgetError ''deadline'' ''wall-clock deadline exceeded'')"
proof -
  have d: "Deadline child = now - time_second"
    using childBudget_deadline [OF assms(1,3)] assms(2) by simp
  let ?bt = "newBudgetTracker start child"
  have z: "btDeadline ?bt \<noteq> 0"
    using d assms(4,6) by (auto simp: newBudgetTracker_def Let_def)
  have "btDeadline ?bt < later"
    using newBudgetTracker_deadline_le(1) [OF z] d assms(4,5) by (simp add: time_second_def)
  with z show ?thesis by (simp add: check_def)
qed

definition spent_tracker :: tracker where
  "spent_tracker = addUsage (newBudgetTracker 0 (budget_zero\<lparr>MaxTotalTokens := 100\<rparr>))
     (usage_zero\<lparr>TotalTokens := 100\<rparr>)"

theorem exhausted_parent_stops_child_witness:
  "exhausted spent_tracker \<and>
   check 3000000000 (newBudgetTracker 2000000000 (fst (childBudget 2000000000 spent_tracker budget_zero)))
     = Some (BudgetError ''deadline'' ''wall-clock deadline exceeded'')"
proof -
  have ok: "tokens_ok spent_tracker"
    by (simp add: spent_tracker_def tokens_ok_def budget_zero_def in_i64_def i64_def usage_zero_def)
  have ex: "exhausted spent_tracker"
    by (simp add: spent_tracker_def exhausted_def budget_zero_def i64_def usage_zero_def)
  show ?thesis
    using exhausted_parent_stops_child [OF ok ex, of 2000000000 budget_zero
        "fst (childBudget 2000000000 spent_tracker budget_zero)"
        "fst (snd (childBudget 2000000000 spent_tracker budget_zero))"
        "snd (snd (childBudget 2000000000 spent_tracker budget_zero))" 3000000000 2000000000] ex
    by (simp add: time_second_def)
qed

end
