(* ===== verification/Tool_Calls.thy ===== *)
theory Tool_Calls
  imports Agent Budget_Fanout
begin

text \<open>
  One turn's tool calls: \<open>safeInvoke\<close>, \<open>invokeOne\<close> and \<open>runToolCalls\<close> of \<open>run.go\<close>, \<open>parseTask\<close>
  and \<open>invokeSub\<close> of \<open>subagent.go\<close>. The sequential loop follows the code. For the parallel one,
  a goroutine is a sequence of phases, each with at most one access to the shared budget
  tracker; the scheduler \<open>envPick\<close> chooses among the goroutines that can move and the main
  goroutine, which starts the next one whenever the semaphore has room. A nested run of a
  subagent is one phase: siblings interleave before and after it, not inside it.
\<close>

section \<open>The tracker and the clock\<close>

definition bt_check :: "'w env \<Rightarrow> tracker \<Rightarrow> ('w st, goerr option) state" where
  "bt_check E bt = do {
     now \<leftarrow> (if time_is_zero (btDeadline bt) then State_Monad.return 0 else time_now E);
     State_Monad.return (check now bt)
   }"

definition bt_new :: "'w env \<Rightarrow> budget \<Rightarrow> ('w st, tracker) state" where
  "bt_new E b = do {
     now \<leftarrow> (if Timeout b > 0 then time_now E else State_Monad.return 0);
     State_Monad.return (newBudgetTracker now b)
   }"

definition child_exhausted :: "tracker \<Rightarrow> budget \<Rightarrow> bool" where
  "child_exhausted bt requested =
     (let (out1, grant1, t1, ex1) = childTokens bt requested budget_zero;
          (out2, grant2, t2, ex2) = childCost t1 out1 grant1
      in ex1 \<or> ex2)"

definition bt_childBudget :: "'w env \<Rightarrow> tracker \<Rightarrow> budget \<Rightarrow> ('w st, budget \<times> budget \<times> tracker) state" where
  "bt_childBudget E bt requested = do {
     now \<leftarrow> (if child_exhausted bt requested then time_now E else State_Monad.return 0);
     State_Monad.return (childBudget now bt requested)
   }"

section \<open>Subagents (subagent.go)\<close>

definition parseTask :: "'w env \<Rightarrow> raw_message \<Rightarrow> goerr + string" where
  "parseTask E args =
     (if args \<noteq> [] \<and> args \<noteq> ''null'' then envTaskArgs E args else Inr [])"

definition sub_emit :: "'w env \<Rightarrow> 'w handler \<Rightarrow> 'w subagent \<Rightarrow> (event_base \<Rightarrow> event) \<Rightarrow> ('w st, unit) state" where
  "sub_emit E h sub mk = emit E (subName sub) h mk"

text \<open>The nested run with its trace grafted under the span of the call.\<close>

definition sub_run_graft ::
  "'w env \<Rightarrow> 'w handler \<Rightarrow> 'w subagent \<Rightarrow> ctx \<Rightarrow> string \<Rightarrow> budget \<Rightarrow> addr \<Rightarrow> ('w st, result \<times> goerr option) state" where
  "sub_run_graft E h sub c task child sp = do {
     (res, runErr) \<leftarrow> subRun sub c (UserMessage task) child;
     _ \<leftarrow> span_modify (resTrace res) (\<lambda>x. x\<lparr>spName := subName sub @ '':subagent''\<rparr>);
     _ \<leftarrow> graft sp (resTrace res);
     _ \<leftarrow> sub_emit E h sub (\<lambda>b. SubAgentFinishedEvent b (subName sub) (resUsage res));
     State_Monad.return (res, runErr)
   }"

definition sub_outcome :: "result \<Rightarrow> goerr option \<Rightarrow> string \<times> bool" where
  "sub_outcome res runErr = (case runErr of
       Some err \<Rightarrow> (''subagent error: '' @ Error err, True)
     | None \<Rightarrow> (resText res, False))"

definition invokeSub ::
  "'w env \<Rightarrow> 'w handler \<Rightarrow> 'w subagent \<Rightarrow> ctx \<Rightarrow> raw_message \<Rightarrow> addr \<Rightarrow> tracker \<Rightarrow>
     ('w st, (string \<times> bool) \<times> tracker) state" where
  "invokeSub E h sub c args sp bt = (case parseTask E args of
       Inl err \<Rightarrow> State_Monad.return ((''error: '' @ Error err, True), bt)
     | Inr task \<Rightarrow> do {
         _ \<leftarrow> sub_emit E h sub (\<lambda>b. SubAgentStartedEvent b (subName sub));
         (child, grant, bt1) \<leftarrow> bt_childBudget E bt (subBudget sub);
         (res, runErr) \<leftarrow> sub_run_graft E h sub c task child sp;
         State_Monad.return (sub_outcome res runErr, settleChild bt1 grant (resUsage res))
       })"

section \<open>One call (run.go)\<close>

definition safeInvoke ::
  "string \<Rightarrow> (ctx \<Rightarrow> raw_message \<Rightarrow> 'w \<Rightarrow> tool_outcome \<times> 'w) \<Rightarrow> ctx \<Rightarrow> raw_message \<Rightarrow> ('w st, goerr + goany) state" where
  "safeInvoke name fn c args = do {
     r \<leftarrow> on_world (fn c args);
     State_Monad.return (case r of
         ToolReturns v \<Rightarrow> Inr v
       | ToolFails err \<Rightarrow> Inl err
       | ToolPanics p \<Rightarrow> Inl (ToolError name (ErrText (''panic: '' @ p))))
   }"

definition span_error :: "addr \<Rightarrow> string \<Rightarrow> ('w st, unit) state" where
  "span_error sp msg = span_modify sp (\<lambda>x. x\<lparr>spError := msg\<rparr>)"

text \<open>The three refusals of \<open>invokeOne\<close> end alike: the span, the event, the message.\<close>

definition refuse :: "'w env \<Rightarrow> 'w agent \<Rightarrow> tool_call \<Rightarrow> addr \<Rightarrow> string \<Rightarrow> ('w st, unit) state" where
  "refuse E a call sp msg = do {
     _ \<leftarrow> span_error sp msg;
     agent_emit E a (\<lambda>b. ToolCallFinishedEvent b call msg None)
   }"

definition unknown_msg :: "tool_call \<Rightarrow> string" where
  "unknown_msg call = ''error: unknown tool '' @ strconv_quote (tcName call)"

definition disabled_msg :: "'w agent \<Rightarrow> tool_call \<Rightarrow> string" where
  "disabled_msg a call = ''error: tool '' @ strconv_quote (tcName call) @ '' disabled after ''
     @ itoa (agMaxToolErrors a) @ '' failures in this run; do not call it again''"

definition denied_msg :: "string \<Rightarrow> string" where
  "denied_msg reason = (if reason \<noteq> [] then ''tool call denied by approver: '' @ reason
     else ''tool call denied by approver'')"

definition breaker_open :: "'w agent \<Rightarrow> tracker \<Rightarrow> string \<Rightarrow> bool" where
  "breaker_open a bt name \<longleftrightarrow>
     agMaxToolErrors a > 0 \<and> int (toolErrorCount bt name) \<ge> agMaxToolErrors a"

definition ask_approval :: "'w agent \<Rightarrow> ctx \<Rightarrow> tool_call \<Rightarrow> 'w tool \<Rightarrow> ('w st, int \<times> string) state" where
  "ask_approval a c call tool = (case agApprove a of
       None \<Rightarrow> State_Monad.return (ApprovalAllow, [])
     | Some f \<Rightarrow> on_world (f c \<lparr>arAgentName = agName a, arCall = call, arTool = tool\<rparr>))"

text \<open>After an invocation: the message for the model, the text of the span, the error of the event.\<close>

definition finish_call ::
  "'w env \<Rightarrow> 'w agent \<Rightarrow> tool_call \<Rightarrow> string \<Rightarrow> goerr option \<Rightarrow> ('w st, unit) state" where
  "finish_call E a call content err = agent_emit E a (\<lambda>b. ToolCallFinishedEvent b call content err)"

text \<open>The three parts of \<open>invokeOne\<close>, from the last to the first: the invocation itself, ...\<close>

definition invoke_tool ::
  "'w env \<Rightarrow> 'w agent \<Rightarrow> ctx \<Rightarrow> tool_call \<Rightarrow> addr \<Rightarrow> 'w tool \<Rightarrow> tracker \<Rightarrow>
     ('w st, (string \<times> goerr option) \<times> tracker) state" where
  "invoke_tool E a c call sp tool bt = (case tlImpl tool of
       ToolAgent sub \<Rightarrow> do {
         ((content, failed), bt1) \<leftarrow> invokeSub E (agOnEvent a) sub c (tcArguments call) sp bt;
         if failed then do {
           _ \<leftarrow> span_error sp content;
           _ \<leftarrow> finish_call E a call content None;
           State_Monad.return ((content, None), noteToolError bt1 (tcName call))
         } else do {
           _ \<leftarrow> finish_call E a call content None;
           State_Monad.return ((content, None), bt1)
         }
       }
     | ToolFunc fn \<Rightarrow> do {
         r \<leftarrow> safeInvoke (tlName tool) fn c (tcArguments call);
         (case r of
            Inl err \<Rightarrow> (case isFatal err of
                Some inner \<Rightarrow> do {
                  _ \<leftarrow> span_error sp (Error inner);
                  _ \<leftarrow> finish_call E a call (''fatal: '' @ Error inner) (Some err);
                  State_Monad.return ((''fatal error: '' @ Error inner, Some inner), bt)
                }
              | None \<Rightarrow> do {
                  _ \<leftarrow> span_error sp (Error err);
                  _ \<leftarrow> finish_call E a call (''error: '' @ Error err) (Some err);
                  State_Monad.return ((''error: '' @ Error err, None), noteToolError bt (tcName call))
                })
          | Inr v \<Rightarrow> do {
              _ \<leftarrow> finish_call E a call (marshalToolResult v) None;
              State_Monad.return ((marshalToolResult v, None), bt)
            })
       })"

text \<open>... the approval before it, ...\<close>

definition approve_invoke ::
  "'w env \<Rightarrow> 'w agent \<Rightarrow> ctx \<Rightarrow> tool_call \<Rightarrow> addr \<Rightarrow> 'w tool \<Rightarrow> tracker \<Rightarrow>
     ('w st, (string \<times> goerr option) \<times> tracker) state" where
  "approve_invoke E a c call sp tool bt = do {
     (dec, reason) \<leftarrow> ask_approval a c call tool;
     if dec = ApprovalDeny then do {
       _ \<leftarrow> refuse E a call sp (denied_msg reason);
       State_Monad.return ((denied_msg reason, None), bt)
     } else do {
       _ \<leftarrow> agent_emit E a (\<lambda>b. ToolCallStartedEvent b call);
       invoke_tool E a c call sp tool bt
     }
   }"

text \<open>... the lookup and the circuit breaker.\<close>

definition invokeOne ::
  "'w env \<Rightarrow> 'w agent \<Rightarrow> ctx \<Rightarrow> tool_call \<Rightarrow> addr \<Rightarrow> tracker \<Rightarrow>
     ('w st, (string \<times> goerr option) \<times> tracker) state" where
  "invokeOne E a c call sp bt = (case agTools a (tcName call) of
       None \<Rightarrow> do {
         _ \<leftarrow> refuse E a call sp (unknown_msg call);
         State_Monad.return ((unknown_msg call, None), bt)
       }
     | Some tool \<Rightarrow>
       if breaker_open a bt (tcName call) then do {
         _ \<leftarrow> refuse E a call sp (disabled_msg a call);
         State_Monad.return ((disabled_msg a call, None), bt)
       } else approve_invoke E a c call sp tool bt)"

section \<open>The sequential loop\<close>

definition open_tool_span :: "'w env \<Rightarrow> addr \<Rightarrow> tool_call \<Rightarrow> ('w st, addr) state" where
  "open_tool_span E parent call = do {
     sp \<leftarrow> trace_child E parent SpanTool (tcName call);
     _ \<leftarrow> span_modify sp (\<lambda>x. x\<lparr>spTool := tcName call\<rparr>);
     State_Monad.return sp
   }"

definition one_call ::
  "'w env \<Rightarrow> 'w agent \<Rightarrow> ctx \<Rightarrow> addr \<Rightarrow> tool_call \<Rightarrow> tracker \<Rightarrow>
     ('w st, (message \<times> goerr option) \<times> tracker) state" where
  "one_call E a c parent call bt = do {
     sp \<leftarrow> open_tool_span E parent call;
     ((content, fatal), bt') \<leftarrow> invokeOne E a c call sp (incToolCall bt);
     _ \<leftarrow> span_end E sp;
     State_Monad.return ((toolResultMessage (tcID call) (tcName call) content, fatal), bt')
   }"

fun seq_calls ::
  "'w env \<Rightarrow> 'w agent \<Rightarrow> ctx \<Rightarrow> addr \<Rightarrow> message list \<Rightarrow> tool_call list \<Rightarrow> tracker \<Rightarrow>
     ('w st, (message list \<times> goerr option) \<times> tracker) state" where
  "seq_calls E a c parent out [] bt = State_Monad.return ((out, None), bt)"
| "seq_calls E a c parent out (call # calls) bt = do {
     ((msg, fatal), bt') \<leftarrow> one_call E a c parent call bt;
     (case fatal of
        Some err \<Rightarrow> State_Monad.return ((out @ [msg], Some err), bt')
      | None \<Rightarrow> seq_calls E a c parent (out @ [msg]) calls bt')
   }"

section \<open>The parallel loop\<close>

datatype 'w phase =
    PhIdle                                            \<comment> \<open>not started by the main goroutine\<close>
  | PhStart
  | PhGate addr
  | PhApprove addr "'w tool"
  | PhInvoke addr "'w tool"
  | PhSub addr "'w subagent" string budget budget     \<comment> \<open>task, child budget, grant\<close>
  | PhSettle addr budget usage "string \<times> bool"
  | PhNote addr string string "goerr option"          \<comment> \<open>span error, content, error of the event\<close>
  | PhEnd addr string "goerr option"
  | PhDone message "goerr option"

fun call_step ::
  "'w env \<Rightarrow> 'w agent \<Rightarrow> ctx \<Rightarrow> addr \<Rightarrow> tool_call \<Rightarrow> 'w phase \<Rightarrow> tracker \<Rightarrow> ('w st, 'w phase \<times> tracker) state" where
  "call_step E a c parent call PhIdle bt = State_Monad.return (PhStart, bt)"
| "call_step E a c parent call PhStart bt = do {
     sp \<leftarrow> open_tool_span E parent call;
     State_Monad.return (PhGate sp, incToolCall bt)
   }"
| "call_step E a c parent call (PhGate sp) bt = (case agTools a (tcName call) of
       None \<Rightarrow> do {
         _ \<leftarrow> refuse E a call sp (unknown_msg call);
         State_Monad.return (PhEnd sp (unknown_msg call) None, bt)
       }
     | Some tool \<Rightarrow>
       if breaker_open a bt (tcName call) then do {
         _ \<leftarrow> refuse E a call sp (disabled_msg a call);
         State_Monad.return (PhEnd sp (disabled_msg a call) None, bt)
       } else State_Monad.return (PhApprove sp tool, bt))"
| "call_step E a c parent call (PhApprove sp tool) bt = do {
     (dec, reason) \<leftarrow> ask_approval a c call tool;
     if dec = ApprovalDeny then do {
       _ \<leftarrow> refuse E a call sp (denied_msg reason);
       State_Monad.return (PhEnd sp (denied_msg reason) None, bt)
     } else do {
       _ \<leftarrow> agent_emit E a (\<lambda>b. ToolCallStartedEvent b call);
       State_Monad.return (PhInvoke sp tool, bt)
     }
   }"
| "call_step E a c parent call (PhInvoke sp tool) bt = (case tlImpl tool of
       ToolAgent sub \<Rightarrow> (case parseTask E (tcArguments call) of
           Inl err \<Rightarrow> State_Monad.return
             (PhNote sp (''error: '' @ Error err) (''error: '' @ Error err) None, bt)
         | Inr task \<Rightarrow> do {
             _ \<leftarrow> sub_emit E (agOnEvent a) sub (\<lambda>b. SubAgentStartedEvent b (subName sub));
             (child, grant, bt1) \<leftarrow> bt_childBudget E bt (subBudget sub);
             State_Monad.return (PhSub sp sub task child grant, bt1)
           })
     | ToolFunc fn \<Rightarrow> do {
         r \<leftarrow> safeInvoke (tlName tool) fn c (tcArguments call);
         (case r of
            Inl err \<Rightarrow> (case isFatal err of
                Some inner \<Rightarrow> do {
                  _ \<leftarrow> span_error sp (Error inner);
                  _ \<leftarrow> finish_call E a call (''fatal: '' @ Error inner) (Some err);
                  State_Monad.return (PhEnd sp (''fatal error: '' @ Error inner) (Some inner), bt)
                }
              | None \<Rightarrow> State_Monad.return
                  (PhNote sp (Error err) (''error: '' @ Error err) (Some err), bt))
          | Inr v \<Rightarrow> do {
              _ \<leftarrow> finish_call E a call (marshalToolResult v) None;
              State_Monad.return (PhEnd sp (marshalToolResult v) None, bt)
            })
       })"
| "call_step E a c parent call (PhSub sp sub task child grant) bt = do {
     (res, runErr) \<leftarrow> sub_run_graft E (agOnEvent a) sub c task child sp;
     State_Monad.return (PhSettle sp grant (resUsage res) (sub_outcome res runErr), bt)
   }"
| "call_step E a c parent call (PhSettle sp grant used (content, failed)) bt =
     (let bt1 = settleChild bt grant used in
      if failed then State_Monad.return (PhNote sp content content None, bt1)
      else do {
        _ \<leftarrow> finish_call E a call content None;
        State_Monad.return (PhEnd sp content None, bt1)
      })"
| "call_step E a c parent call (PhNote sp serr content everr) bt = do {
     _ \<leftarrow> span_error sp serr;
     _ \<leftarrow> finish_call E a call content everr;
     State_Monad.return (PhEnd sp content None, noteToolError bt (tcName call))
   }"
| "call_step E a c parent call (PhEnd sp content fatal) bt = do {
     _ \<leftarrow> span_end E sp;
     _ \<leftarrow> (case fatal of None \<Rightarrow> State_Monad.return () | Some _ \<Rightarrow> ctx_cancel E c);
     State_Monad.return (PhDone (toolResultMessage (tcID call) (tcName call) content) fatal, bt)
   }"
| "call_step E a c parent call (PhDone msg fatal) bt = State_Monad.return (PhDone msg fatal, bt)"

fun phase_rank :: "'w phase \<Rightarrow> nat" where
  "phase_rank PhIdle = 9"
| "phase_rank PhStart = 8"
| "phase_rank (PhGate _) = 7"
| "phase_rank (PhApprove _ _) = 6"
| "phase_rank (PhInvoke _ _) = 5"
| "phase_rank (PhSub _ _ _ _ _) = 4"
| "phase_rank (PhSettle _ _ _ _) = 3"
| "phase_rank (PhNote _ _ _ _) = 2"
| "phase_rank (PhEnd _ _ _) = 1"
| "phase_rank (PhDone _ _) = 0"

definition running :: "'w phase \<Rightarrow> bool" where
  "running ph \<longleftrightarrow> 0 < phase_rank ph \<and> phase_rank ph < 9"

text \<open>
  Who can move: every running goroutine, and the main goroutine, which starts the first call
  that is not started once it gets a slot of the semaphore.
\<close>

definition enabled :: "int \<Rightarrow> 'w phase list \<Rightarrow> nat list" where
  "enabled slots ps = filter (\<lambda>i. running (ps ! i)) [0..<length ps] @
     (if int (length (filter running ps)) < slots
      then take 1 (filter (\<lambda>i. phase_rank (ps ! i) = 9) [0..<length ps]) else [])"

fun par_loop ::
  "'w env \<Rightarrow> 'w agent \<Rightarrow> ctx \<Rightarrow> addr \<Rightarrow> tool_call list \<Rightarrow> nat \<Rightarrow> 'w phase list \<Rightarrow> tracker \<Rightarrow>
     ('w st, 'w phase list \<times> tracker) state" where
  "par_loop E a c parent calls 0 ps bt = State_Monad.return (ps, bt)"
| "par_loop E a c parent calls (Suc n) ps bt =
     (let en = enabled (maxParallel a) ps in
      if en = [] then State_Monad.return (ps, bt)
      else do {
        k \<leftarrow> on_world (envPick E (length en));
        (let i = en ! (k mod length en) in do {
           (ph, bt') \<leftarrow> call_step E a c parent (calls ! i) (ps ! i) bt;
           par_loop E a c parent calls n (ps[i := ph]) bt'
         })
      })"

definition message_zero :: message where
  "message_zero = \<lparr>msgRole = [], msgText = [], msgReasoning = [], msgToolCalls = [],
     msgToolCallID = [], msgName = []\<rparr>"

text \<open>The slot \<open>results[i]\<close>; it keeps its zero value until the goroutine has written it.\<close>

fun phase_outcome :: "'w phase \<Rightarrow> message \<times> goerr option" where
  "phase_outcome (PhDone msg fatal) = (msg, fatal)"
| "phase_outcome _ = (message_zero, None)"

fun collect :: "(message \<times> goerr option) list \<Rightarrow> message list \<times> goerr option" where
  "collect [] = ([], None)"
| "collect ((msg, fatal) # rs) = (case collect rs of (out, f) \<Rightarrow>
     (msg # out, case fatal of Some e \<Rightarrow> Some e | None \<Rightarrow> f))"

definition par_calls ::
  "'w env \<Rightarrow> 'w agent \<Rightarrow> ctx \<Rightarrow> addr \<Rightarrow> tool_call list \<Rightarrow> tracker \<Rightarrow>
     ('w st, (message list \<times> goerr option) \<times> tracker) state" where
  "par_calls E a c parent calls bt = (let cctx = CtxWithCancel c parent in do {
     (ps, bt') \<leftarrow> par_loop E a cctx parent calls (9 * length calls)
                     (replicate (length calls) PhIdle) bt;
     _ \<leftarrow> ctx_cancel E cctx;
     State_Monad.return (collect (map phase_outcome ps), bt')
   })"

definition runToolCalls ::
  "'w env \<Rightarrow> 'w agent \<Rightarrow> ctx \<Rightarrow> addr \<Rightarrow> tool_call list \<Rightarrow> tracker \<Rightarrow>
     ('w st, (message list \<times> goerr option) \<times> tracker) state" where
  "runToolCalls E a c parent calls bt =
     (if \<not> agParallelTools a \<or> length calls \<le> 1
      then seq_calls E a c parent [] calls bt
      else par_calls E a c parent calls bt)"

end
