(* ===== verification/Demo.thy ===== *)
theory Demo
  imports Agent
begin

text \<open>
  A concrete environment and a concrete agent, on which the witnesses of the development apply
  its theorems. The world is a counter: the scripted model asks for one call of the tool
  \<open>echo\<close> in its first turn and answers in the second.
\<close>

definition demo_env :: "nat env" where
  "demo_env = \<lparr>envNow = (\<lambda>w. (1, w)), envRand8 = (\<lambda>w. (None, w)), envCtxErr = (\<lambda>c w. (None, w)),
     envCancel = (\<lambda>c w. w), envPick = (\<lambda>n w. (0, w)), envTaskArgs = (\<lambda>args. Inr args)\<rparr>"

definition demo_usage :: usage where
  "demo_usage = \<lparr>InputTokens = 7, OutputTokens = 3, TotalTokens = 10, CostUSD = 1 / 100,
     CachedInputTokens = 0, ReasoningTokens = 0\<rparr>"

definition demo_call :: tool_call where
  "demo_call = \<lparr>tcID = ''c1'', tcName = ''echo'', tcArguments = ''{}''\<rparr>"

definition demo_call2 :: tool_call where
  "demo_call2 = \<lparr>tcID = ''c2'', tcName = ''echo'', tcArguments = ''null''\<rparr>"

definition demo_response :: "tool_call list \<Rightarrow> string \<Rightarrow> response" where
  "demo_response calls text = \<lparr>rspMessage = (AssistantMessage text)\<lparr>msgToolCalls := calls\<rparr>,
     rspUsage = demo_usage, rspStopReason = StopReasonStop, rspModel = ''demo'', rspID = ''r1'', rspRaw = []\<rparr>"

definition demo_model :: "nat model" where
  "demo_model = \<lparr>mdlID = ''demo'',
     mdlGenerate = (\<lambda>c req w. (Inr (if w = 0 then demo_response [demo_call] [] else demo_response [] ''done''), Suc w)),
     mdlStream = None, mdlThreadsResponses = Some True, mdlThreadingUnsupported = None\<rparr>"

definition demo_tool :: "nat tool" where
  "demo_tool = RawTool ''echo'' ''Echo the arguments'' ''{}'' (\<lambda>c args w. (ToolReturns (AnyRawMessage args), w))"

definition panic_tool :: "nat tool" where
  "panic_tool = RawTool ''echo'' ''Panics'' ''{}'' (\<lambda>c args w. (ToolPanics ''boom'', w))"

definition demo_budget :: budget where
  "demo_budget = \<lparr>MaxTotalTokens = 100, MaxCostUSD = 1, MaxToolCalls = 0, Timeout = 0, Deadline = 0\<rparr>"

definition demo_config :: "nat tool option list \<Rightarrow> nat config" where
  "demo_config tools = \<lparr>cfgModel = Some demo_model, cfgInstructions = ''You echo.'', cfgTools = tools,
     cfgOutput = None, cfgOutputRepairAttempts = 0, cfgBudget = demo_budget, cfgMaxSteps = 0,
     cfgCompactor = None, cfgTokenizer = None, cfgApprove = None, cfgOnEvent = None,
     cfgTemperature = None, cfgMaxTokens = 0, cfgReasoningEffort = [], cfgReasoningMaxTokens = 0,
     cfgResponsesThreading = True, cfgToolChoice = [], cfgParallelTools = True,
     cfgMaxParallelTools = 2, cfgMaxToolErrors = 3, cfgStream = False, cfgName = ''demo''\<rparr>"

definition demo_agent_with :: "nat tool \<Rightarrow> nat agent" where
  "demo_agent_with t = projr (New (demo_config [Some t]))"

definition demo_agent :: "nat agent" where
  "demo_agent = demo_agent_with demo_tool"

definition demo_st :: "nat st" where
  "demo_st = \<lparr>stWorld = 0, stHeap = [], stEvents = []\<rparr>"

lemma demo_agent_with_fields [simp]:
  "tlName t = ''echo'' \<Longrightarrow> agTools (demo_agent_with t) = [''echo'' \<mapsto> t]"
  "tlName t = ''echo'' \<Longrightarrow> agApprove (demo_agent_with t) = None"
  "tlName t = ''echo'' \<Longrightarrow> agCompactor (demo_agent_with t) = None"
  "tlName t = ''echo'' \<Longrightarrow> agOutput (demo_agent_with t) = None"
  "tlName t = ''echo'' \<Longrightarrow> agMaxToolErrors (demo_agent_with t) = 3"
  "tlName t = ''echo'' \<Longrightarrow> agParallelTools (demo_agent_with t) = True"
  "tlName t = ''echo'' \<Longrightarrow> agMaxSteps (demo_agent_with t) = 32"
  by (simp_all add: demo_agent_with_def New_def demo_config_def DefaultMaxSteps_def)

lemma demo_tools_name [simp]: "tlName demo_tool = ''echo''" "tlName panic_tool = ''echo''"
  by (simp_all add: demo_tool_def panic_tool_def RawTool_def)

end
