(* ===== verification/Tool_Calls_Props.thy ===== *)
theory Tool_Calls_Props
  imports Tool_Calls Demo
begin

text \<open>
  What a turn's tool calls guarantee for every environment, hence for every timing of tools and
  subagents and every interleaving of the goroutines: each goroutine is the sequential call cut
  into phases, the fan-out ends, every call gets its result in the order of the calls, and the
  circuit breaker bounds the failures of a tool.
\<close>

section \<open>Symbolic runs\<close>

lemma post_all: "(\<And>v t. Q v t) \<Longrightarrow> post m s Q"
  by (simp add: post_def split: prod.splits)

lemma post_ignore: "(\<And>t. Q () t) \<Longrightarrow> post m s (\<lambda>_::unit. Q ())"
  by (rule post_all)

lemma bind_case_prod: "State_Monad.bind m (\<lambda>x. case x of (a, b) \<Rightarrow> f a b)
    = State_Monad.bind m (\<lambda>x. f (fst x) (snd x))"
  by (simp add: case_prod_beta)

lemma bind_case_option: "State_Monad.bind (case x of None \<Rightarrow> m | Some v \<Rightarrow> n v) f
    = (case x of None \<Rightarrow> State_Monad.bind m f | Some v \<Rightarrow> State_Monad.bind (n v) f)"
  by (simp split: option.splits)

lemma bind_case_sum: "State_Monad.bind (case x of Inl u \<Rightarrow> m u | Inr v \<Rightarrow> n v) f
    = (case x of Inl u \<Rightarrow> State_Monad.bind (m u) f | Inr v \<Rightarrow> State_Monad.bind (n v) f)"
  by (simp split: sum.splits)

lemma bind_eqI: "(\<And>x. f x = g x) \<Longrightarrow> State_Monad.bind m f = State_Monad.bind m g"
  by presburger

lemma bind_if: "State_Monad.bind (if b then m else n) f
    = (if b then State_Monad.bind m f else State_Monad.bind n f)"
  by simp

section \<open>A goroutine is the sequential call, phase by phase\<close>

primrec run_phases ::
  "nat \<Rightarrow> 'w env \<Rightarrow> 'w agent \<Rightarrow> ctx \<Rightarrow> addr \<Rightarrow> tool_call \<Rightarrow> 'w phase \<Rightarrow> tracker \<Rightarrow> ('w st, 'w phase \<times> tracker) state" where
  "run_phases 0 E a c parent call ph bt = State_Monad.return (ph, bt)"
| "run_phases (Suc n) E a c parent call ph bt = do {
     (ph', bt') \<leftarrow> call_step E a c parent call ph bt;
     run_phases n E a c parent call ph' bt'
   }"

lemma run_phases_Done [simp]:
  "run_phases n E a c parent call (PhDone m f) bt = State_Monad.return (PhDone m f, bt)"
  by (induction n) simp_all

definition cancel_on :: "'w env \<Rightarrow> ctx \<Rightarrow> goerr option \<Rightarrow> ('w st, unit) state" where
  "cancel_on E c fatal = (case fatal of None \<Rightarrow> State_Monad.return () | Some _ \<Rightarrow> ctx_cancel E c)"

text \<open>What is left of a goroutine once \<open>invokeOne\<close> has returned.\<close>

definition close_call ::
  "'w env \<Rightarrow> ctx \<Rightarrow> tool_call \<Rightarrow> addr \<Rightarrow> (string \<times> goerr option) \<times> tracker \<Rightarrow> ('w st, 'w phase \<times> tracker) state" where
  "close_call E c call sp r = do {
     _ \<leftarrow> span_end E sp;
     _ \<leftarrow> cancel_on E c (snd (fst r));
     State_Monad.return (PhDone (toolResultMessage (tcID call) (tcName call) (fst (fst r))) (snd (fst r)), snd r)
   }"

lemma run_phases_End:
  "run_phases (Suc n) E a c parent call (PhEnd sp content fatal) bt
     = close_call E c call sp ((content, fatal), bt)"
  by (simp add: close_call_def cancel_on_def)

lemma run_phases_Note:
  "run_phases (Suc (Suc n)) E a c parent call (PhNote sp serr content everr) bt = do {
     _ \<leftarrow> span_error sp serr;
     _ \<leftarrow> finish_call E a call content everr;
     close_call E c call sp ((content, None), noteToolError bt (tcName call))
   }"
  by (simp add: run_phases_End [simplified] close_call_def cancel_on_def)

lemma run_phases_Sub:
  "run_phases (Suc (Suc (Suc (Suc n)))) E a c parent call (PhSub sp sub task child grant) bt = do {
     (res, runErr) \<leftarrow> sub_run_graft E (agOnEvent a) sub c task child sp;
     (let (content, failed) = sub_outcome res runErr; bt1 = settleChild bt grant (resUsage res) in
      if failed then do {
        _ \<leftarrow> span_error sp content;
        _ \<leftarrow> finish_call E a call content None;
        close_call E c call sp ((content, None), noteToolError bt1 (tcName call))
      } else do {
        _ \<leftarrow> finish_call E a call content None;
        close_call E c call sp ((content, None), bt1)
      })
   }"
  by (simp add: close_call_def cancel_on_def Let_def sub_outcome_def split: option.splits
      cong: if_cong) (auto intro!: arg_cong [where f = "State_Monad.bind _"] ext split: option.splits)

lemma run_phases_Invoke:
  "run_phases (Suc (Suc (Suc (Suc (Suc n))))) E a c parent call (PhInvoke sp tool) bt
     = State_Monad.bind (invoke_tool E a c call sp tool bt) (close_call E c call sp)"
proof (cases "tlImpl tool")
  case (ToolFunc fn)
  show ?thesis
    unfolding run_phases.simps(2) [of "Suc (Suc (Suc (Suc n)))"] call_step.simps ToolFunc
      invoke_tool_def tool_impl.case State_Monad.bind_assoc
    by (rule arg_cong [where f = "State_Monad.bind _"], rule ext)
      (auto simp: run_phases_Note run_phases_End simp del: run_phases.simps split: sum.splits option.splits)
next
  case (ToolAgent sub)
  show ?thesis
  proof (cases "parseTask E (tcArguments call)")
    case (Inl err)
    then show ?thesis
      unfolding run_phases.simps(2) [of "Suc (Suc (Suc (Suc n)))"]
      by (simp add: ToolAgent invoke_tool_def invokeSub_def run_phases_Note del: run_phases.simps)
  next
    case (Inr task)
    show ?thesis
      unfolding run_phases.simps(2) [of "Suc (Suc (Suc (Suc n)))"]
      by (simp add: ToolAgent Inr invoke_tool_def invokeSub_def run_phases_Sub Let_def
          case_prod_beta bind_if del: run_phases.simps) (intro bind_eqI, simp split: prod.splits)
  qed
qed

lemma run_phases_Approve:
  "run_phases (Suc (Suc (Suc (Suc (Suc (Suc n)))))) E a c parent call (PhApprove sp tool) bt
     = State_Monad.bind (approve_invoke E a c call sp tool bt) (close_call E c call sp)"
  unfolding run_phases.simps(2) [of "Suc (Suc (Suc (Suc (Suc n))))"] call_step.simps
    approve_invoke_def State_Monad.bind_assoc
  by (rule arg_cong [where f = "State_Monad.bind _"], rule ext)
    (auto simp: run_phases_End run_phases_Invoke simp del: run_phases.simps split: prod.splits)

lemma run_phases_Gate:
  "run_phases (Suc (Suc (Suc (Suc (Suc (Suc (Suc n))))))) E a c parent call (PhGate sp) bt
     = State_Monad.bind (invokeOne E a c call sp bt) (close_call E c call sp)"
  unfolding run_phases.simps(2) [of "Suc (Suc (Suc (Suc (Suc (Suc n)))))"] call_step.simps
    invokeOne_def
  by (auto simp: run_phases_End run_phases_Approve simp del: run_phases.simps split: option.splits)

text \<open>Run alone, the phases of a goroutine are the sequential call, followed by its \<open>cancel\<close>.\<close>

lemma run_phases_one_call:
  "run_phases 8 E a c parent call PhStart bt = do {
     ((msg, fatal), bt') \<leftarrow> one_call E a c parent call bt;
     _ \<leftarrow> cancel_on E c fatal;
     State_Monad.return (PhDone msg fatal, bt')
   }"
proof -
  have 8: "(8::nat) = Suc (Suc (Suc (Suc (Suc (Suc (Suc (Suc 0)))))))" by simp
  show ?thesis
    unfolding 8 run_phases.simps(2) [of "Suc (Suc (Suc (Suc (Suc (Suc (Suc 0))))))"] one_call_def
    by (simp add: run_phases_Gate close_call_def [abs_def] case_prod_beta del: run_phases.simps)
qed

section \<open>One step of a goroutine\<close>

fun phase_ok :: "tool_call \<Rightarrow> 'w phase \<Rightarrow> bool" where
  "phase_ok call (PhDone m f) \<longleftrightarrow> (\<exists>content. m = toolResultMessage (tcID call) (tcName call) content)"
| "phase_ok call _ \<longleftrightarrow> True"

text \<open>Past the circuit breaker, with the outcome not yet counted.\<close>

definition pending :: "'w phase \<Rightarrow> bool" where
  "pending ph \<longleftrightarrow> 2 \<le> phase_rank ph \<and> phase_rank ph \<le> 6"

text \<open>What tool calls leave of the tracker: only a subagent charges usage to it.\<close>

definition no_subagents :: "'w agent \<Rightarrow> bool" where
  "no_subagents a \<longleftrightarrow> (\<forall>n t sub. agTools a n = Some t \<longrightarrow> tlImpl t \<noteq> ToolAgent sub)"

definition tracker_frame :: "'w agent \<Rightarrow> tracker \<Rightarrow> tracker \<Rightarrow> bool" where
  "tracker_frame a bt bt' \<longleftrightarrow> btB bt' = btB bt \<and> btDeadline bt' = btDeadline bt \<and>
     (no_subagents a \<longrightarrow> btUsed bt' = btUsed bt)"

lemma tracker_frame_refl [simp]: "tracker_frame a bt bt"
  by (simp add: tracker_frame_def)

lemma tracker_frame_trans [trans]:
  "tracker_frame a x y \<Longrightarrow> tracker_frame a y z \<Longrightarrow> tracker_frame a x z"
  by (simp add: tracker_frame_def)

lemma tracker_frame_note [simp]: "tracker_frame a x (noteToolError y n) = tracker_frame a x y"
  by (simp add: tracker_frame_def)

fun phase_src :: "'w agent \<Rightarrow> 'w phase \<Rightarrow> bool" where
  "phase_src a (PhApprove _ tool) \<longleftrightarrow> tool \<in> ran (agTools a)"
| "phase_src a (PhInvoke _ tool) \<longleftrightarrow> tool \<in> ran (agTools a)"
| "phase_src a (PhSub _ _ _ _ _) \<longleftrightarrow> \<not> no_subagents a"
| "phase_src a (PhSettle _ _ _ _) \<longleftrightarrow> \<not> no_subagents a"
| "phase_src a _ \<longleftrightarrow> True"

definition step_spec :: "'w agent \<Rightarrow> tool_call \<Rightarrow> 'w phase \<Rightarrow> tracker \<Rightarrow> 'w phase \<Rightarrow> tracker \<Rightarrow> bool" where
  "step_spec a call ph bt ph' bt' \<longleftrightarrow>
     phase_rank ph' < phase_rank ph \<and> phase_ok call ph' \<and>
     (if phase_rank ph = 2 then btToolErrors bt' = (btToolErrors bt)(tcName call := Suc (btToolErrors bt (tcName call)))
      else btToolErrors bt' = btToolErrors bt) \<and>
     (phase_rank ph = 7 \<longrightarrow> pending ph' \<longrightarrow> \<not> breaker_open a bt (tcName call)) \<and>
     (phase_rank ph > 7 \<longrightarrow> \<not> pending ph' \<and> phase_rank ph' \<ge> 7) \<and>
     (phase_rank ph \<le> 2 \<longrightarrow> \<not> pending ph') \<and>
     (phase_src a ph \<longrightarrow> phase_src a ph' \<and> tracker_frame a bt bt')"

lemma childBudget_toolErrors [simp]:
  "btToolErrors (snd (snd (childBudget now bt req))) = btToolErrors bt"
  using childBudget_frame [of now bt req] by (cases "childBudget now bt req") auto

lemma childBudget_frame_used [simp]:
  "btB (snd (snd (childBudget now bt req))) = btB bt"
  "btUsed (snd (snd (childBudget now bt req))) = btUsed bt"
  "btDeadline (snd (snd (childBudget now bt req))) = btDeadline bt"
  using childBudget_frame [of now bt req "fst (childBudget now bt req)" "fst (snd (childBudget now bt req))"
      "snd (snd (childBudget now bt req))"] by simp_all

lemma ran_agTools: "tool \<in> ran (agTools a) \<Longrightarrow> tlImpl tool = ToolAgent sub \<Longrightarrow> \<not> no_subagents a"
  by (auto simp: no_subagents_def ran_def)

lemma call_step_spec:
  assumes "0 < phase_rank ph"
  shows "post (call_step E a c parent call ph bt) s (\<lambda>r t. step_spec a call ph bt (fst r) (snd r))"
proof (cases ph)
  case (PhInvoke sp tool)
  show ?thesis
    unfolding PhInvoke
    by (auto simp: step_spec_def pending_def post_splits bt_childBudget_def case_prod_beta
        tracker_frame_def ran_agTools intro!: post_all split: tool_impl.splits sum.splits option.splits)
next
  case (PhSettle sp grant used r)
  obtain content failed where "r = (content, failed)" by (cases r)
  then show ?thesis
    unfolding PhSettle by (auto simp: step_spec_def pending_def Let_def tracker_frame_def intro!: post_all)
qed (use assms in \<open>auto simp: step_spec_def pending_def post_splits breaker_open_def tracker_frame_def
      intro!: post_all intro: ranI
    split: option.splits\<close>)

section \<open>The fan-out under any schedule\<close>

lemma maxParallel_pos: "0 < maxParallel a"
  by (simp add: maxParallel_def)

lemma enabled_rank:
  assumes "i \<in> set (enabled slots ps)"
  shows "i < length ps" "0 < phase_rank (ps ! i)"
  using assms
  by (auto simp: enabled_def running_def split: if_splits dest!: in_set_takeD)

lemma enabled_idle:
  assumes "i \<in> set (enabled slots ps)" "\<not> running (ps ! i)"
  shows "int (length (filter running ps)) < slots" "phase_rank (ps ! i) = 9"
  using assms by (auto simp: enabled_def split: if_splits dest!: in_set_takeD)

lemma enabled_Nil:
  assumes "enabled slots ps = []" "0 < slots" "\<forall>p\<in>set ps. phase_rank p \<le> 9"
  shows "\<forall>p\<in>set ps. phase_rank p = 0"
proof
  fix p assume p: "p \<in> set ps"
  have none: "filter (\<lambda>i. running (ps ! i)) [0..<length ps] = []"
    using assms(1) by (simp add: enabled_def)
  then have nr: "\<forall>q\<in>set ps. \<not> running q"
    by (auto simp: filter_empty_conv in_set_conv_nth)
  then have "filter running ps = []" by (simp add: filter_empty_conv)
  then have "filter (\<lambda>i. phase_rank (ps ! i) = 9) [0..<length ps] = []"
    using assms(1,2) by (auto simp: enabled_def)
  then have "phase_rank p \<noteq> 9"
    using p by (auto simp: filter_empty_conv in_set_conv_nth)
  then show "phase_rank p = 0"
    using nr p assms(3) by (force simp: running_def)
qed

lemma phase_rank_le: "phase_rank ph \<le> 9"
  by (cases ph) simp_all

text \<open>
  The scheduler's contract: a predicate on the goroutines and the tracker that every enabled
  step keeps holds when the fan-out ends.
\<close>

locale schedule_invariant =
  fixes a :: "'w agent"
    and calls :: "tool_call list"
    and I :: "'w phase list \<Rightarrow> tracker \<Rightarrow> bool"
  assumes step_keeps: "I ps bt \<Longrightarrow> length ps = length calls \<Longrightarrow>
      i \<in> set (enabled (maxParallel a) ps) \<Longrightarrow>
      step_spec a (calls ! i) (ps ! i) bt ph bt' \<Longrightarrow> I (ps[i := ph]) bt'"
begin

lemma par_loop_keeps:
  assumes "I ps bt" "length ps = length calls"
  shows "post (par_loop E a c parent calls n ps bt) s (\<lambda>r t. I (fst r) (snd r))"
  using assms
proof (induction n arbitrary: ps bt s)
  case 0
  then show ?case by simp
next
  case (Suc n)
  let ?en = "enabled (maxParallel a) ps"
  show ?case
  proof (cases "?en = []")
    case True
    then show ?thesis using Suc.prems by simp
  next
    case False
    have "post (call_step E a c parent (calls ! i) (ps ! i) bt) u (\<lambda>r t.
        post (par_loop E a c parent calls n (ps[i := fst r]) (snd r)) t (\<lambda>r t. I (fst r) (snd r)))"
      if i: "i \<in> set ?en" for i u
      using call_step_spec [OF enabled_rank(2) [OF i]]
      by (rule post_mono)
        (use Suc.IH step_keeps [OF Suc.prems i] Suc.prems(2) in simp)
    then show ?thesis
      using False by (auto simp: Let_def post_on_world case_prod_beta)
  qed
qed

end

text \<open>Every step lowers the sum of the ranks, so the fuel \<open>9 * length calls\<close> is enough.\<close>

lemma par_loop_done:
  assumes "sum_list (map phase_rank ps) \<le> n" "length ps = length calls"
  shows "post (par_loop E a c parent calls n ps bt) s (\<lambda>r t. \<forall>p\<in>set (fst r). phase_rank p = 0)"
  using assms
proof (induction n arbitrary: ps bt s)
  case 0
  then show ?case by simp
next
  case (Suc n)
  let ?en = "enabled (maxParallel a) ps"
  show ?case
  proof (cases "?en = []")
    case True
    then show ?thesis
      using enabled_Nil [OF True maxParallel_pos] phase_rank_le by auto
  next
    case False
    have "post (call_step E a c parent (calls ! i) (ps ! i) bt) u (\<lambda>r t.
        post (par_loop E a c parent calls n (ps[i := fst r]) (snd r)) t
          (\<lambda>r t. \<forall>p\<in>set (fst r). phase_rank p = 0))"
      if i: "i \<in> set ?en" for i u
    proof (rule post_mono [OF call_step_spec [OF enabled_rank(2) [OF i]]])
      fix r :: "'a phase \<times> tracker" and t
      assume "step_spec a (calls ! i) (ps ! i) bt (fst r) (snd r)"
      then have "phase_rank (fst r) < phase_rank (ps ! i)" by (simp add: step_spec_def)
      then have "sum_list (map phase_rank (ps[i := fst r])) \<le> n"
        using sum_list_update_nth [OF enabled_rank(1) [OF i], of phase_rank "fst r"] Suc.prems(1)
        by linarith
      then show "post (par_loop E a c parent calls n (ps[i := fst r]) (snd r)) t
          (\<lambda>r t. \<forall>p\<in>set (fst r). phase_rank p = 0)"
        using Suc by simp
    qed
    then show ?thesis
      using False by (auto simp: Let_def post_on_world case_prod_beta)
  qed
qed

interpretation results: schedule_invariant a calls
  "\<lambda>ps bt. length ps = length calls \<and> (\<forall>i<length ps. phase_ok (calls ! i) (ps ! i))"
  for a :: "'w agent" and calls
proof (unfold_locales, goal_cases)
  case (1 ps bt i ph bt')
  then show ?case using enabled_rank(1) [OF 1(3)] by (auto simp: nth_list_update step_spec_def)
qed

interpretation frame: schedule_invariant a calls
  "\<lambda>ps bt. (\<forall>p\<in>set ps. phase_src a p) \<and> tracker_frame a bt0 bt"
  for a :: "'w agent" and calls bt0
proof (unfold_locales, goal_cases)
  case (1 ps bt i ph bt')
  then have "phase_src a (ps ! i)" using enabled_rank(1) [OF 1(3)] by simp
  then have "phase_src a ph" "tracker_frame a bt bt'" using 1(4) by (simp_all add: step_spec_def)
  then show ?case
    using 1(1) set_update_subset_insert [of ps i ph] by (auto intro: tracker_frame_trans)
qed

section \<open>The circuit breaker in a fan-out\<close>

definition pending_calls :: "tool_call list \<Rightarrow> string \<Rightarrow> 'w phase list \<Rightarrow> nat set" where
  "pending_calls calls n ps = {i. i < length ps \<and> pending (ps ! i) \<and> tcName (calls ! i) = n}"

definition running_calls :: "'w phase list \<Rightarrow> nat set" where
  "running_calls ps = {i. i < length ps \<and> running (ps ! i)}"

lemma finite_pending_calls [simp]: "finite (pending_calls calls n ps)"
  by (simp add: pending_calls_def)

lemma pending_le_running: "card (pending_calls calls n ps) \<le> card (running_calls ps)"
  by (rule card_mono) (auto simp: pending_calls_def running_calls_def pending_def running_def)

lemma card_running: "card (running_calls ps) = length (filter running ps)"
  by (simp add: running_calls_def length_filter_conv_card)

lemma pending_calls_update:
  assumes "i < length ps"
  shows "pending_calls calls n (ps[i := ph]) =
    (if pending ph \<and> tcName (calls ! i) = n then insert i (pending_calls calls n ps)
     else pending_calls calls n ps - {i})"
  using assms by (auto simp: pending_calls_def nth_list_update)

lemma running_calls_update:
  assumes "i < length ps"
  shows "running_calls (ps[i := ph]) =
    (if running ph then insert i (running_calls ps) else running_calls ps - {i})"
  using assms by (auto simp: running_calls_def nth_list_update)

lemma running_step:
  assumes en: "i \<in> set (enabled slots ps)" and le: "int (card (running_calls ps)) \<le> slots"
  shows "int (card (running_calls (ps[i := ph]))) \<le> slots"
proof (cases "running (ps ! i)")
  case True
  then have "running_calls (ps[i := ph]) \<subseteq> running_calls ps"
    using enabled_rank(1) [OF en] by (auto simp: running_calls_def nth_list_update split: if_splits)
  then have "card (running_calls (ps[i := ph])) \<le> card (running_calls ps)"
    by (rule card_mono [rotated]) (simp add: running_calls_def)
  then show ?thesis using le by simp
next
  case False
  have "card (running_calls (ps[i := ph])) \<le> Suc (card (running_calls ps))"
    unfolding running_calls_update [OF enabled_rank(1) [OF en]]
    by (auto simp: running_calls_def card_insert_if intro: le_SucI card_Diff1_le)
  then show ?thesis
    using enabled_idle(1) [OF en False] by (simp add: card_running)
qed

text \<open>
  Failures counted plus calls in flight: once a call of tool \<open>n\<close> got past the breaker, their sum
  stays below the limit plus the number of slots.
\<close>

definition breaker_inv :: "'w agent \<Rightarrow> tool_call list \<Rightarrow> string \<Rightarrow> nat \<Rightarrow> 'w phase list \<Rightarrow> tracker \<Rightarrow> bool" where
  "breaker_inv a calls n old ps bt \<longleftrightarrow> int (card (running_calls ps)) \<le> maxParallel a \<and>
     (agMaxToolErrors a > 0 \<longrightarrow>
       (pending_calls calls n ps = {} \<and> btToolErrors bt n = old \<or>
        int (btToolErrors bt n + card (pending_calls calls n ps)) < agMaxToolErrors a + maxParallel a))"

lemma breaker_inv_step:
  assumes inv: "breaker_inv a calls n old ps bt"
    and en: "i \<in> set (enabled (maxParallel a) ps)"
    and st: "step_spec a (calls ! i) (ps ! i) bt ph bt'"
  shows "breaker_inv a calls n old (ps[i := ph]) bt'"
proof -
  let ?P = "pending_calls calls n ps" and ?P' = "pending_calls calls n (ps[i := ph])"
  let ?R' = "running_calls (ps[i := ph])"
  have i: "i < length ps" using enabled_rank(1) [OF en] .
  have run: "int (card ?R') \<le> maxParallel a"
    using inv running_step [OF en] by (simp add: breaker_inv_def)
  have P': "?P' = (if pending ph \<and> tcName (calls ! i) = n then insert i ?P else ?P - {i})"
    by (rule pending_calls_update [OF i])
  have le: "card ?P' \<le> card ?R'" by (rule pending_le_running)
  consider (enter) "phase_rank (ps ! i) = 7" "pending ph" "tcName (calls ! i) = n"
    | (count) "phase_rank (ps ! i) = 2" "tcName (calls ! i) = n"
    | (other) "btToolErrors bt' n = btToolErrors bt n" "?P' \<subseteq> ?P"
  proof (cases "pending ph \<and> \<not> pending (ps ! i)")
    case True
    then have "phase_rank (ps ! i) = 7" using st by (auto simp: step_spec_def pending_def)
    moreover have "btToolErrors bt' = btToolErrors bt"
      using st calculation by (simp add: step_spec_def)
    ultimately show ?thesis
      using True P' that(1,3) by (cases "tcName (calls ! i) = n") auto
  next
    case False
    then have "?P' \<subseteq> ?P" using P' i by (auto simp: pending_calls_def)
    moreover have "btToolErrors bt' n = btToolErrors bt n \<or> phase_rank (ps ! i) = 2 \<and> tcName (calls ! i) = n"
      using st by (auto simp: step_spec_def split: if_splits)
    ultimately show ?thesis using that(2,3) by blast
  qed
  then show ?thesis
  proof cases
    case enter
    then have "agMaxToolErrors a > 0 \<longrightarrow> int (btToolErrors bt' n) < agMaxToolErrors a"
      using st by (auto simp: step_spec_def breaker_open_def toolErrorCount_def)
    then show ?thesis using run le by (auto simp: breaker_inv_def)
  next
    case count
    then have "i \<in> ?P" "\<not> pending ph" and e: "btToolErrors bt' n = Suc (btToolErrors bt n)"
      using st i by (auto simp: pending_calls_def pending_def step_spec_def)
    then have "?P \<noteq> {}" "Suc (card ?P') = card ?P"
      using P' card_Suc_Diff1 [of ?P i] by auto
    then show ?thesis using inv run e by (auto simp: breaker_inv_def)
  next
    case other
    then have "card ?P' \<le> card ?P" by (simp add: card_mono)
    then show ?thesis using inv run other by (auto simp: breaker_inv_def)
  qed
qed

interpretation breaker: schedule_invariant a calls "breaker_inv a calls n old"
  for a :: "'w agent" and calls n old
  by unfold_locales (rule breaker_inv_step)

section \<open>The sequential loop\<close>

definition answers :: "tool_call \<Rightarrow> message \<Rightarrow> bool" where
  "answers call m \<longleftrightarrow> m = toolResultMessage (tcID call) (tcName call) (msgText m)"

lemma answers_toolResult [simp]: "answers call (toolResultMessage (tcID call) (tcName call) x)"
  by (simp add: answers_def toolResultMessage_def)

lemma invokeSub_toolErrors:
  "post (invokeSub E h sub c args sp bt) s (\<lambda>r t. btToolErrors (snd r) = btToolErrors bt)"
  by (auto simp: invokeSub_def bt_childBudget_def post_splits case_prod_beta intro!: post_all)

definition counts_failure :: "'w agent \<Rightarrow> tool_call \<Rightarrow> tracker \<Rightarrow> tracker \<Rightarrow> bool" where
  "counts_failure a call bt bt' \<longleftrightarrow> btToolErrors bt' = btToolErrors bt \<or>
     \<not> breaker_open a bt (tcName call) \<and>
     btToolErrors bt' = (btToolErrors bt)(tcName call := Suc (btToolErrors bt (tcName call)))"

lemma invokeSub_frame:
  "post (invokeSub E h sub c args sp bt) s (\<lambda>r t. btB (snd r) = btB bt \<and> btDeadline (snd r) = btDeadline bt)"
  by (auto simp: invokeSub_def bt_childBudget_def post_splits case_prod_beta intro!: post_all)

lemma invokeOne_frame:
  "post (invokeOne E a c call sp bt) s (\<lambda>r t. tracker_frame a bt (snd r))"
proof -
  have sub: "post (invokeSub E (agOnEvent a) sub c (tcArguments call) sp bt) t (\<lambda>r t. tracker_frame a bt (snd r))"
    if "agTools a (tcName call) = Some tool" "tlImpl tool = ToolAgent sub" for tool sub t
    by (rule post_mono [OF invokeSub_frame]) (use that in \<open>auto simp: tracker_frame_def no_subagents_def\<close>)
  have inv: "post (invoke_tool E a c call sp tool bt) t (\<lambda>r t. tracker_frame a bt (snd r))"
    if t: "agTools a (tcName call) = Some tool" for tool t
  proof (cases "tlImpl tool")
    case (ToolAgent sub)
    show ?thesis
      unfolding invoke_tool_def ToolAgent tool_impl.case post_bind
      by (rule post_mono [OF sub [OF t ToolAgent]]) (auto simp: case_prod_beta intro!: post_all)
  qed (auto simp: invoke_tool_def post_splits intro!: post_all split: sum.splits option.splits)
  have "post (approve_invoke E a c call sp tool bt) t (\<lambda>r t. tracker_frame a bt (snd r))"
    if "agTools a (tcName call) = Some tool" for tool t
  proof -
    have "post (if fst x = ApprovalDeny then do {
             _ \<leftarrow> refuse E a call sp (denied_msg (snd x));
             State_Monad.return ((denied_msg (snd x), None), bt)
           } else do {
             _ \<leftarrow> agent_emit E a (\<lambda>b. ToolCallStartedEvent b call);
             invoke_tool E a c call sp tool bt
           }) t (\<lambda>r t. tracker_frame a bt (snd r))" for x t
      using inv [OF that] by (auto intro: post_all)
    then show ?thesis by (auto simp: approve_invoke_def case_prod_beta intro: post_all)
  qed
  then show ?thesis by (auto simp: invokeOne_def post_splits)
qed

lemma one_call_frame: "post (one_call E a c parent call bt) s (\<lambda>r t. tracker_frame a bt (snd r))"
proof -
  have "post (invokeOne E a c call sp (incToolCall bt)) t (\<lambda>r t. tracker_frame a bt (snd r))" for sp t
    using invokeOne_frame [of E a c call sp "incToolCall bt" t] by (simp add: tracker_frame_def)
  then show ?thesis by (auto simp: one_call_def case_prod_beta intro!: post_all intro: post_mono)
qed

lemma seq_calls_frame:
  "post (seq_calls E a c parent out calls bt) s (\<lambda>r t. tracker_frame a bt (snd r))"
proof (induction calls arbitrary: out bt s)
  case (Cons call calls)
  show ?case
    unfolding seq_calls.simps post_bind
    by (rule post_mono [OF one_call_frame])
      (auto simp: case_prod_beta post_splits intro!: post_mono [OF Cons] intro: tracker_frame_trans)
qed simp

lemma invoke_tool_counts:
  "\<not> breaker_open a bt (tcName call) \<Longrightarrow>
     post (invoke_tool E a c call sp tool bt) s (\<lambda>r t. counts_failure a call bt (snd r))"
proof (cases "tlImpl tool")
  case (ToolAgent sub)
  assume "\<not> breaker_open a bt (tcName call)"
  then show ?thesis
    unfolding invoke_tool_def ToolAgent tool_impl.case post_bind
    by (intro post_mono [OF invokeSub_toolErrors])
      (auto simp: counts_failure_def case_prod_beta intro!: post_all)
qed (auto simp: invoke_tool_def counts_failure_def post_splits intro!: post_all
    split: sum.splits option.splits)

lemma invokeOne_counts:
  "post (invokeOne E a c call sp bt) s (\<lambda>r t. counts_failure a call bt (snd r))"
proof -
  have "post (approve_invoke E a c call sp tool bt) s (\<lambda>r t. counts_failure a call bt (snd r))"
    if "\<not> breaker_open a bt (tcName call)" for tool
  proof -
    have "post (if fst x = ApprovalDeny then do {
             _ \<leftarrow> refuse E a call sp (denied_msg (snd x));
             State_Monad.return ((denied_msg (snd x), None), bt)
           } else do {
             _ \<leftarrow> agent_emit E a (\<lambda>b. ToolCallStartedEvent b call);
             invoke_tool E a c call sp tool bt
           }) t (\<lambda>r t. counts_failure a call bt (snd r))" for x t
      using invoke_tool_counts [OF that] by (auto simp: counts_failure_def intro: post_all)
    then show ?thesis by (auto simp: approve_invoke_def case_prod_beta intro: post_all)
  qed
  then show ?thesis
    by (auto simp: invokeOne_def post_splits counts_failure_def [of a call bt bt])
qed

lemma one_call_spec:
  "post (one_call E a c parent call bt) s
     (\<lambda>r t. answers call (fst (fst r)) \<and> counts_failure a call bt (snd r))"
proof -
  have "post (invokeOne E a c call sp (incToolCall bt)) t
      (\<lambda>r t. counts_failure a call bt (snd r))" for sp t
    using invokeOne_counts [of E a c call sp "incToolCall bt" t]
    by (simp add: counts_failure_def breaker_open_def toolErrorCount_def)
  then show ?thesis
    by (auto simp: one_call_def case_prod_beta intro!: post_all intro: post_mono)
qed

lemma seq_calls_answers:
  "post (seq_calls E a c parent out calls bt) s (\<lambda>r t. \<exists>ms. fst (fst r) = out @ ms \<and>
     length ms \<le> length calls \<and> list_all2 answers (take (length ms) calls) ms \<and>
     (snd (fst r) = None \<longrightarrow> length ms = length calls))"
proof (induction calls arbitrary: out bt s)
  case (Cons call calls)
  show ?case
    unfolding seq_calls.simps post_bind
  proof (rule post_mono [OF one_call_spec], goal_cases)
    case (1 r t)
    obtain msg fatal bt' where r: "r = ((msg, fatal), bt')" by (metis prod.collapse)
    then have ans: "answers call msg" using 1 by simp
    show ?case
    proof (cases fatal)
      case None
      have "post (seq_calls E a c parent (out @ [msg]) calls bt') t (\<lambda>r t. \<exists>ms.
          fst (fst r) = out @ ms \<and> length ms \<le> length (call # calls) \<and>
          list_all2 answers (take (length ms) (call # calls)) ms \<and>
          (snd (fst r) = None \<longrightarrow> length ms = length (call # calls)))"
      proof (rule post_mono [OF Cons], goal_cases)
        case (1 q u)
        then obtain ms where "fst (fst q) = (out @ [msg]) @ ms \<and> length ms \<le> length calls \<and>
          list_all2 answers (take (length ms) calls) ms \<and>
          (snd (fst q) = None \<longrightarrow> length ms = length calls)" ..
        then show ?case
          using ans by (intro exI [of _ "msg # ms"] conjI impI) (simp_all only: append_assoc append_Cons
            append_Nil length_Cons take_Suc_Cons list_all2_Cons Suc_le_mono)
      qed
      then show ?thesis by (simp add: r None)
    next
      case (Some e)
      have "post (State_Monad.return ((out @ [msg], Some e), bt')) t (\<lambda>r t. \<exists>ms.
          fst (fst r) = out @ ms \<and> length ms \<le> length (call # calls) \<and>
          list_all2 answers (take (length ms) (call # calls)) ms \<and>
          (snd (fst r) = None \<longrightarrow> length ms = length (call # calls)))"
        unfolding post_return using ans by (intro exI [of _ "[msg]"]) simp
      then show ?thesis by (simp only: r Some prod.case option.case)
    qed
  qed
qed simp

lemma counts_failure_bound:
  "counts_failure a call bt bt' \<Longrightarrow> agMaxToolErrors a > 0 \<Longrightarrow>
     int (btToolErrors bt' n) \<le> max (int (btToolErrors bt n)) (agMaxToolErrors a)"
  by (auto simp: counts_failure_def breaker_open_def toolErrorCount_def)

lemma seq_calls_errors:
  assumes "agMaxToolErrors a > 0"
  shows "post (seq_calls E a c parent out calls bt) s (\<lambda>r t.
     int (btToolErrors (snd r) n) \<le> max (int (btToolErrors bt n)) (agMaxToolErrors a))"
proof (induction calls arbitrary: out bt s)
  case (Cons call calls)
  show ?case
    unfolding seq_calls.simps post_bind
  proof (rule post_mono [OF one_call_spec], goal_cases)
    case (1 r t)
    then have b: "int (btToolErrors (snd r) n) \<le> max (int (btToolErrors bt n)) (agMaxToolErrors a)"
      using counts_failure_bound assms by blast
    show ?case
      using b by (auto simp: case_prod_beta post_splits intro!: post_mono [OF Cons])
  qed
qed simp

section \<open>The turn\<close>

lemma collect_fst: "fst (collect rs) = map fst rs"
  by (induction rs rule: collect.induct) (auto split: prod.splits)

lemma phase_outcome_answers:
  "phase_rank ph = 0 \<Longrightarrow> phase_ok call ph \<Longrightarrow> answers call (fst (phase_outcome ph))"
  by (cases ph) (auto simp: answers_def toolResultMessage_def)

lemma sum_ranks_idle: "sum_list (map phase_rank (replicate n PhIdle)) \<le> 9 * n"
  by (induction n) simp_all

lemma par_calls_answers:
  "post (par_calls E a c parent calls bt) s (\<lambda>r t. list_all2 answers calls (fst (fst r)))"
proof -
  let ?ps = "replicate (length calls) PhIdle :: 'a phase list"
  have ok: "\<forall>i<length ?ps. phase_ok (calls ! i) (?ps ! i)" by simp
  have "post (par_loop E a (CtxWithCancel c parent) parent calls (9 * length calls) ?ps bt) s
      (\<lambda>r t. (\<forall>p\<in>set (fst r). phase_rank p = 0) \<and> length (fst r) = length calls \<and>
         (\<forall>i<length (fst r). phase_ok (calls ! i) (fst r ! i)))"
    using sum_ranks_idle ok
    by (intro post_conj [OF par_loop_done results.par_loop_keeps]) auto
  then show ?thesis
    unfolding par_calls_def Let_def post_bind
    by (rule post_mono)
      (auto simp: case_prod_beta collect_fst list_all2_conv_all_nth intro!: post_all phase_outcome_answers)
qed

lemma par_calls_errors:
  assumes "agMaxToolErrors a > 0"
  shows "post (par_calls E a c parent calls bt) s (\<lambda>r t.
    int (btToolErrors (snd r) n) \<le> max (int (btToolErrors bt n)) (agMaxToolErrors a + maxParallel a - 1))"
proof -
  let ?ps = "replicate (length calls) PhIdle :: 'a phase list"
  have "pending_calls calls n ?ps = {}" "running_calls ?ps = {}"
    by (auto simp: pending_calls_def running_calls_def pending_def running_def)
  then have "breaker_inv a calls n (btToolErrors bt n) ?ps bt"
    using maxParallel_pos [of a] by (simp add: breaker_inv_def)
  then have "post (par_loop E a (CtxWithCancel c parent) parent calls (9 * length calls) ?ps bt) s
      (\<lambda>r t. breaker_inv a calls n (btToolErrors bt n) (fst r) (snd r))"
    by (intro breaker.par_loop_keeps) simp_all
  then show ?thesis
    unfolding par_calls_def Let_def post_bind
    by (rule post_mono) (use assms in \<open>auto simp: case_prod_beta breaker_inv_def intro!: post_all\<close>)
qed

lemma runToolCalls_frame:
  "post (runToolCalls E a c parent calls bt) s (\<lambda>r t. tracker_frame a bt (snd r))"
proof -
  have "post (par_loop E a (CtxWithCancel c parent) parent calls (9 * length calls)
      (replicate (length calls) PhIdle) bt) s
      (\<lambda>r t. (\<forall>p\<in>set (fst r). phase_src a p) \<and> tracker_frame a bt (snd r))"
    by (rule frame.par_loop_keeps) simp_all
  then have "post (par_calls E a c parent calls bt) s (\<lambda>r t. tracker_frame a bt (snd r))"
    unfolding par_calls_def Let_def post_bind
    by (rule post_mono) (auto simp: case_prod_beta intro!: post_all)
  then show ?thesis using seq_calls_frame by (auto simp: runToolCalls_def)
qed

lemma runToolCalls_answers:
  "post (runToolCalls E a c parent calls bt) s (\<lambda>r t.
     length (fst (fst r)) \<le> length calls \<and>
     list_all2 answers (take (length (fst (fst r))) calls) (fst (fst r)) \<and>
     (snd (fst r) = None \<or> agParallelTools a \<longrightarrow> length (fst (fst r)) = length calls))"
proof (cases "\<not> agParallelTools a \<or> length calls \<le> 1")
  case True
  have "post (seq_calls E a c parent [] calls bt) s (\<lambda>r t.
     length (fst (fst r)) \<le> length calls \<and>
     list_all2 answers (take (length (fst (fst r))) calls) (fst (fst r)) \<and>
     (snd (fst r) = None \<longrightarrow> length (fst (fst r)) = length calls))"
    by (rule post_mono [OF seq_calls_answers]) auto
  moreover have "post (seq_calls E a c parent [] calls bt) s (\<lambda>r t.
     agParallelTools a \<longrightarrow> length (fst (fst r)) = length calls)"
  proof (cases "agParallelTools a")
    case par: True
    then consider "calls = []" | call where "calls = [call]"
      using True by (metis One_nat_def Suc_length_conv le_Suc_eq le_zero_eq length_0_conv)
    then show ?thesis
      by cases (auto simp: case_prod_beta post_splits intro!: post_all)
  qed simp
  ultimately show ?thesis
    unfolding runToolCalls_def if_P [OF True] by (rule post_mono [OF post_conj]) blast
next
  case False
  have "post (par_calls E a c parent calls bt) s (\<lambda>r t.
     length (fst (fst r)) \<le> length calls \<and>
     list_all2 answers (take (length (fst (fst r))) calls) (fst (fst r)) \<and>
     (snd (fst r) = None \<or> agParallelTools a \<longrightarrow> length (fst (fst r)) = length calls))"
    by (rule post_mono [OF par_calls_answers]) (simp add: list_all2_lengthD [symmetric])
  then show ?thesis unfolding runToolCalls_def if_not_P [OF False] .
qed

text \<open>
  C6: Every tool call of a turn is answered, in the order of the calls and under the id and the
  name of its call, whatever the tools do and however the goroutines are scheduled. The only
  exception is the sequential loop when a tool aborts the run: the calls after it are left
  without a result.
\<close>

theorem tool_results_in_order:
  "case fst (run_state (runToolCalls E a c parent calls bt) s) of ((msgs, fatal), bt') \<Rightarrow>
     list_all2 answers (take (length msgs) calls) msgs \<and> length msgs \<le> length calls \<and>
     (fatal = None \<or> agParallelTools a \<longrightarrow> length msgs = length calls)"
  using post_run_state [OF runToolCalls_answers, of E a c parent calls bt s]
  by (auto split: prod.splits)

theorem tool_results_in_order_witness:
  "case fst (run_state (runToolCalls demo_env demo_agent CtxBackground 0 [demo_call, demo_call2]
       (newBudgetTracker 0 demo_budget)) demo_st) of ((msgs, fatal), bt') \<Rightarrow>
     list_all2 answers (take (length msgs) [demo_call, demo_call2]) msgs \<and> length msgs = 2"
  using tool_results_in_order [where E = demo_env and a = demo_agent and c = CtxBackground and parent = 0
      and calls = "[demo_call, demo_call2]" and bt = "newBudgetTracker 0 demo_budget" and s = demo_st]
  by (auto simp: demo_agent_def split: prod.splits)

text \<open>
  C4: The circuit breaker. With \<open>MaxToolErrors\<close> set, the failures counted for a tool in a run never
  pass the limit in the sequential loop; in a fan-out they pass it by at most the number of
  calls in flight when the limit was reached, \<open>maxParallel - 1\<close>.
\<close>

theorem circuit_breaker_bounds_failures:
  assumes "agMaxToolErrors a > 0"
  shows "int (toolErrorCount (snd (fst (run_state (runToolCalls E a c parent calls bt) s))) n) \<le>
     max (int (toolErrorCount bt n))
       (agMaxToolErrors a + (if agParallelTools a then maxParallel a - 1 else 0))"
proof (cases "\<not> agParallelTools a \<or> length calls \<le> 1")
  case True
  show ?thesis
    using post_run_state [OF seq_calls_errors [OF assms], of E c parent "[]" calls bt s n]
      maxParallel_pos [of a]
    unfolding runToolCalls_def if_P [OF True] toolErrorCount_def by auto
next
  case False
  then show ?thesis
    using post_run_state [OF par_calls_errors [OF assms], of E c parent calls bt s n]
    by (simp add: runToolCalls_def toolErrorCount_def)
qed

theorem circuit_breaker_bounds_failures_witness:
  "0 < agMaxToolErrors (demo_agent_with panic_tool) \<and>
   int (toolErrorCount (snd (fst (run_state (runToolCalls demo_env (demo_agent_with panic_tool) CtxBackground 0
      [demo_call, demo_call2] (newBudgetTracker 0 demo_budget)) demo_st))) ''echo'') \<le> 3 + (maxParallel (demo_agent_with panic_tool) - 1)"
  using circuit_breaker_bounds_failures [where a = "demo_agent_with panic_tool" and E = demo_env
      and c = CtxBackground and parent = 0 and calls = "[demo_call, demo_call2]"
      and bt = "newBudgetTracker 0 demo_budget" and s = demo_st and n = "''echo''"]
    maxParallel_pos [of "demo_agent_with panic_tool"]
  by (simp add: toolErrorCount_def)

text \<open>
  C11: A goroutine of the fan-out, run alone, does exactly what the sequential loop does for its
  call -- the same span, events, result and effect on the budget tracker -- and then cancels the
  others if its tool aborted the run.
\<close>

theorem goroutine_is_sequential_call:
  "run_phases 8 E a c parent call PhStart bt = do {
     ((msg, fatal), bt') \<leftarrow> one_call E a c parent call bt;
     _ \<leftarrow> cancel_on E c fatal;
     State_Monad.return (PhDone msg fatal, bt')
   }"
  by (rule run_phases_one_call)

text \<open>What happens before a tool is invoked: the approval and, unless it is denied, the event.\<close>

definition before_invoke :: "'w env \<Rightarrow> 'w agent \<Rightarrow> ctx \<Rightarrow> tool_call \<Rightarrow> 'w tool \<Rightarrow> ('w st, int) state" where
  "before_invoke E a c call tool = do {
     (dec, _) \<leftarrow> ask_approval a c call tool;
     if dec = ApprovalDeny then State_Monad.return dec
     else do {
       _ \<leftarrow> agent_emit E a (\<lambda>b. ToolCallStartedEvent b call);
       State_Monad.return dec
     }
   }"

lemma approve_invoke_approved:
  assumes "run_state (before_invoke E a c call tool) s = (dec, u)" "dec \<noteq> ApprovalDeny"
  shows "run_state (approve_invoke E a c call sp tool bt) s = run_state (invoke_tool E a c call sp tool bt) u"
  using assms
  by (auto simp: before_invoke_def approve_invoke_def State_Monad.bind_def split: prod.splits if_splits)

text \<open>
  C12: A panic in a tool is a recoverable failure of this one call. Whenever the call gets past the lookup, the
  circuit breaker and the approver, if there is one, and the tool panics in the state in which it is then
  invoked, the model gets an error message that names the tool and the panic, the run is not aborted, and
  the failure counts for the circuit breaker. Nothing is asked of the tool in any other state.
\<close>

theorem panic_is_recoverable:
  assumes "agTools a (tcName call) = Some tool" "tlImpl tool = ToolFunc fn" "\<not> breaker_open a bt (tcName call)"
    and "run_state (before_invoke E a c call tool) s = (dec, u)" "dec \<noteq> ApprovalDeny"
    and "fst (fn c (tcArguments call) (stWorld u)) = ToolPanics p"
  shows "fst (run_state (invokeOne E a c call sp bt) s) =
     ((''error: rimeno: tool '' @ strconv_quote (tlName tool) @ '': panic: '' @ p, None), noteToolError bt (tcName call))"
proof -
  have "post (safeInvoke (tlName tool) fn c (tcArguments call)) u
      (\<lambda>r t. r = Inl (ToolError (tlName tool) (ErrText (''panic: '' @ p))))"
    using assms(6) by (simp add: safeInvoke_def post_on_world split: prod.splits)
  then have "post (invoke_tool E a c call sp tool bt) u (\<lambda>r t. r =
      ((''error: rimeno: tool '' @ strconv_quote (tlName tool) @ '': panic: '' @ p, None), noteToolError bt (tcName call)))"
    unfolding invoke_tool_def assms(2) tool_impl.case post_bind by (rule post_mono) auto
  note post_run_state [OF this]
  then show ?thesis
    by (simp add: invokeOne_def assms(1,3) approve_invoke_approved [OF assms(4,5)] split: prod.splits)
qed

text \<open>An approver that allows every call and counts, and a tool that only panics once it has counted.\<close>

definition moody :: "ctx \<Rightarrow> raw_message \<Rightarrow> nat \<Rightarrow> tool_outcome \<times> nat" where
  "moody c args w = (if w = 1 then ToolPanics ''boom'' else ToolReturns (AnyRawMessage args), w)"

definition moody_tool :: "nat tool" where
  "moody_tool = RawTool ''echo'' ''Panics at 1'' ''{}'' moody"

definition asking_agent :: "nat agent" where
  "asking_agent = (demo_agent_with moody_tool)\<lparr>agApprove := Some (\<lambda>c r w. ((ApprovalAllow, []), Suc w))\<rparr>"

theorem panic_is_recoverable_witness:
  "fst (run_state (invokeOne demo_env asking_agent CtxBackground demo_call 0 (newBudgetTracker 0 demo_budget)) demo_st) =
     ((''error: rimeno: tool '' @ strconv_quote ''echo'' @ '': panic: boom'', None),
      noteToolError (newBudgetTracker 0 demo_budget) ''echo'')"
proof -
  have n: "tlName moody_tool = ''echo''" "tlImpl moody_tool = ToolFunc moody" by (simp_all add: moody_tool_def RawTool_def)
  let ?u = "snd (run_state (before_invoke demo_env asking_agent CtxBackground demo_call moody_tool) demo_st)"
  have b: "run_state (before_invoke demo_env asking_agent CtxBackground demo_call moody_tool) demo_st = (ApprovalAllow, ?u)"
    by (simp add: before_invoke_def ask_approval_def asking_agent_def split: prod.splits)
  moreover have "stWorld ?u = 1" by code_simp
  ultimately show ?thesis
    using panic_is_recoverable [where a = asking_agent and call = demo_call and tool = moody_tool and fn = moody
        and bt = "newBudgetTracker 0 demo_budget" and sp = 0 and p = "''boom''", OF _ _ _ b]
    by (simp add: asking_agent_def n demo_call_def breaker_open_def toolErrorCount_def moody_def)
qed

end
