(* ===== verification/Run.thy ===== *)
theory Run
  imports Tool_Calls_Props
begin

text \<open>
  The run loop of \<open>run.go\<close>: \<open>Send\<close>, \<open>runWith\<close> and the functions it calls. A run keeps the
  session, the budget tracker, the result and the repairs left; one iteration of the loop is
  \<open>run_body\<close>, cut where the code has its early returns. \<open>run_loop\<close> has the two exits at the top
  of the loop, so that its recursion ends because \<open>step < maxSteps\<close>.
\<close>

section \<open>Model calls\<close>

text \<open>\<open>generateStream\<close>, after \<open>Stream\<close> succeeded: the loop over \<open>Recv\<close>.\<close>

fun recv_loop ::
  "'w env \<Rightarrow> 'w agent \<Rightarrow> response option \<Rightarrow> ('w \<Rightarrow> (goerr + stream_chunk) \<times> 'w) list \<Rightarrow> ('w st, goerr + response) state" where
  "recv_loop E a final [] = State_Monad.return (case final of
       None \<Rightarrow> Inl (ErrText ''rimeno: stream ended without a final response'')
     | Some r \<Rightarrow> Inr r)"
| "recv_loop E a final (recv # rest) = do {
     c \<leftarrow> on_world recv;
     (case c of
        Inl err \<Rightarrow> State_Monad.return (Inl err)
      | Inr chunk \<Rightarrow> do {
          _ \<leftarrow> (if skTextDelta chunk \<noteq> [] then agent_emit E a (\<lambda>b. TextDeltaEvent b (skTextDelta chunk))
                else State_Monad.return ());
          _ \<leftarrow> (if skReasoningDelta chunk \<noteq> [] then agent_emit E a (\<lambda>b. ReasoningDeltaEvent b (skReasoningDelta chunk))
                else State_Monad.return ());
          recv_loop E a (case skFinal chunk of None \<Rightarrow> final | Some r \<Rightarrow> Some r) rest
        })
   }"

definition generateStream ::
  "'w env \<Rightarrow> 'w agent \<Rightarrow> (ctx \<Rightarrow> request \<Rightarrow> 'w \<Rightarrow> (goerr + 'w model_stream) \<times> 'w) \<Rightarrow> ctx \<Rightarrow> request \<Rightarrow>
     ('w st, goerr + response) state" where
  "generateStream E a stream c req = do {
     r \<leftarrow> on_world (stream c req);
     (case r of
        Inl err \<Rightarrow> State_Monad.return (Inl err)
      | Inr strm \<Rightarrow> do {
          out \<leftarrow> recv_loop E a None (strmRecv strm);
          _ \<leftarrow> on_world (\<lambda>w. ((), strmClose strm w));
          State_Monad.return out
        })
   }"

definition generate :: "'w env \<Rightarrow> 'w agent \<Rightarrow> ctx \<Rightarrow> request \<Rightarrow> ('w st, goerr + response) state" where
  "generate E a c req =
     (case (if agStream a then mdlStream (agModel a) else None) of
        Some stream \<Rightarrow> generateStream E a stream c req
      | None \<Rightarrow> on_world (mdlGenerate (agModel a) c req))"

text \<open>What the loop makes of the answers of a stream that does not touch the world.\<close>

fun recv_outcome :: "response option \<Rightarrow> (goerr + stream_chunk) list \<Rightarrow> goerr + response" where
  "recv_outcome final [] = (case final of
       None \<Rightarrow> Inl (ErrText ''rimeno: stream ended without a final response'') | Some r \<Rightarrow> Inr r)"
| "recv_outcome final (Inl err # rs) = Inl err"
| "recv_outcome final (Inr k # rs) = recv_outcome (case skFinal k of None \<Rightarrow> final | Some r \<Rightarrow> Some r) rs"

lemma recv_loop_drained: "fst (run_state (recv_loop E a final (map (\<lambda>r w. (r, w)) rs)) s) = recv_outcome final rs"
proof (induction rs arbitrary: final s)
  case (Cons r rs)
  then show ?case by (cases r) (simp_all split: prod.splits)
qed (simp split: option.splits)

lemma recv_outcome_deltas:
  "list_all (\<lambda>k. skFinal k = None) cs \<Longrightarrow> recv_outcome final (map Inr cs @ rs) = recv_outcome final rs"
  by (induction cs) simp_all

section \<open>Stops and repairs\<close>

text \<open>
  The error is \<open>None\<close> where Go returns a \<open>nil\<close> error: \<open>classifyContextErr\<close> reads the context again.
  (An \<open>ErrorEvent\<close> that carries \<open>nil\<close> is written with the empty \<open>ErrText\<close> below.)
\<close>

definition classifyContextErr :: "'w env \<Rightarrow> ctx \<Rightarrow> tracker \<Rightarrow> ('w st, string \<times> goerr option) state" where
  "classifyContextErr E c bt = do {
     err \<leftarrow> ctx_Err E c;
     (case err of
        None \<Rightarrow> State_Monad.return (StopReasonStop, None)
      | Some e \<Rightarrow>
        if errors_is (\<lambda>x. x = ContextDeadlineExceeded) e then do {
          be \<leftarrow> bt_check E bt;
          State_Monad.return (case be of
              Some b \<Rightarrow> (StopReasonBudget, Some b)
            | None \<Rightarrow> (StopReasonCanceled, Some e))
        } else State_Monad.return (StopReasonCanceled, Some e))
   }"

definition buildRepairPrompt :: "goerr \<Rightarrow> string" where
  "buildRepairPrompt err = ''Your previous response did not satisfy the required JSON schema: '' @
     Error err @ ''. Reply again with ONLY corrected JSON that conforms to the schema '' @
     [CHR 0xE2, CHR 0x80, CHR 0x94] @ '' no prose, no code fences.''"

definition decodeOutput :: "output_spec \<Rightarrow> string \<Rightarrow> goerr + goany" where
  "decodeOutput spec text = (let raw = trim_space text in
     case (case osValidate spec of None \<Rightarrow> None | Some v \<Rightarrow> v raw) of
       Some err \<Rightarrow> Inl (OutputValidationError err text)
     | None \<Rightarrow> (case osDecode spec of
           None \<Rightarrow> Inr (AnyRawMessage raw)
         | Some d \<Rightarrow> (case d raw of
               Inl err \<Rightarrow> Inl (OutputValidationError err text)
             | Inr v \<Rightarrow> Inr v)))"

section \<open>Compaction\<close>

text \<open>\<open>maybeCompact\<close>: the session with the rewritten history, its server-side thread dropped.\<close>

definition sess_compact :: "session \<Rightarrow> message list \<Rightarrow> session" where
  "sess_compact s nh = s\<lparr>ssHistory := nh, ssLastResponseID := [], ssThreadSentIdx := 0\<rparr>"

definition maybeCompact :: "'w env \<Rightarrow> 'w agent \<Rightarrow> ctx \<Rightarrow> addr \<Rightarrow> session \<Rightarrow> ('w st, session) state" where
  "maybeCompact E a c tr s = (case agCompactor a of
       None \<Rightarrow> State_Monad.return s
     | Some cmp \<Rightarrow> do {
         (let hist = ssHistory s; est = estimateTokens a hist in do {
            should \<leftarrow> on_world (cmpShouldCompact cmp hist est);
            if \<not> should then State_Monad.return s
            else do {
              cspan \<leftarrow> trace_child E tr SpanCompaction ''compact'';
              _ \<leftarrow> span_modify cspan (\<lambda>x. x\<lparr>spAttrs := [''before_messages'' \<mapsto> AttrInt (int (length hist)),
                     ''estimated_tokens'' \<mapsto> AttrInt est]\<rparr>);
              _ \<leftarrow> agent_emit E a (\<lambda>b. CompactionStartedEvent b (length hist) est);
              (nh, err) \<leftarrow> on_world (cmpCompact cmp c hist);
              (case err of
                 Some e \<Rightarrow> do {
                   _ \<leftarrow> span_error cspan (Error e);
                   _ \<leftarrow> span_end E cspan;
                   State_Monad.return s
                 }
               | None \<Rightarrow> do {
                   _ \<leftarrow> span_modify cspan (\<lambda>x. x\<lparr>spAttrs := (spAttrs x)(''after_messages'' \<mapsto> AttrInt (int (length nh)))\<rparr>);
                   _ \<leftarrow> span_end E cspan;
                   _ \<leftarrow> agent_emit E a (\<lambda>b. CompactionFinishedEvent b (length nh));
                   State_Monad.return (sess_compact s nh)
                 })
            }
          })
       })"

section \<open>The model call of a step, with the fallback from threading\<close>

definition sess_unthread :: "session \<Rightarrow> session" where
  "sess_unthread s = s\<lparr>ssThreadingDisabled := True, ssLastResponseID := [], ssThreadSentIdx := 0\<rparr>"

text \<open>
  \<open>err != nil && req.PreviousResponseID != "" && ctx.Err() == nil && threadingUnsupported(...)\<close>:
  the context is only read when the first two conjuncts hold.
\<close>

definition wants_fallback :: "'w env \<Rightarrow> 'w agent \<Rightarrow> ctx \<Rightarrow> request \<Rightarrow> goerr + response \<Rightarrow> ('w st, bool) state" where
  "wants_fallback E a c req r = (case r of
       Inr _ \<Rightarrow> State_Monad.return False
     | Inl err \<Rightarrow>
       if rqPreviousResponseID req = [] then State_Monad.return False
       else do {
         ce \<leftarrow> ctx_Err E c;
         State_Monad.return (ce = None \<and> threadingUnsupported (agModel a) err)
       })"

definition model_call ::
  "'w env \<Rightarrow> 'w agent \<Rightarrow> ctx \<Rightarrow> addr \<Rightarrow> session \<Rightarrow> ('w st, (goerr + response) \<times> session) state" where
  "model_call E a c mspan s = (let req = buildRequestLocked a s in do {
     r \<leftarrow> generate E a c req;
     fb \<leftarrow> wants_fallback E a c req r;
     if fb then do {
       _ \<leftarrow> span_modify mspan (\<lambda>x. x\<lparr>spAttrs := [''threading_fallback'' \<mapsto> AttrBool True]\<rparr>);
       r' \<leftarrow> generate E a c (buildRequest a (ssHistory s));
       State_Monad.return (r', sess_unthread s)
     } else State_Monad.return (r, s)
   })"

section \<open>The state of a run\<close>

record run_vars =
  rnSess :: session
  rnBt :: tracker
  rnRes :: result
  rnRepairs :: int

definition result_zero :: "addr \<Rightarrow> result" where
  "result_zero tr = \<lparr>resText = [], resOutput = AnyNil, resMessages = [], resUsage = usage_zero,
     resSteps = 0, resStopReason = [], resTrace = tr\<rparr>"

definition set_stop :: "string \<Rightarrow> run_vars \<Rightarrow> run_vars" where
  "set_stop reason r = r\<lparr>rnRes := (rnRes r)\<lparr>resStopReason := reason\<rparr>\<rparr>"

text \<open>What a run hands back: the loop goes on, or the function returns with an error or without.\<close>

datatype 'a step_result = SContinue 'a | SReturn 'a "goerr option"

text \<open>A model response is recorded: usage, history, thread, result (lines 134 to 149).\<close>

definition sess_response :: "'w agent \<Rightarrow> session \<Rightarrow> response \<Rightarrow> session" where
  "sess_response a s resp =
     (let s1 = s\<lparr>ssUsage := usage_add (ssUsage s) (rspUsage resp),
                 ssHistory := ssHistory s @ [rspMessage resp]\<rparr>
      in if threadingActive a s1
         then s1\<lparr>ssLastResponseID := rspID resp, ssThreadSentIdx := length (ssHistory s1)\<rparr>
         else s1)"

definition record_response :: "'w agent \<Rightarrow> nat \<Rightarrow> response \<Rightarrow> run_vars \<Rightarrow> run_vars" where
  "record_response a step resp r =
     (let s' = sess_response a (rnSess r) resp in
      r\<lparr>rnSess := s', rnBt := addUsage (rnBt r) (rspUsage resp),
        rnRes := (rnRes r)\<lparr>resUsage := ssUsage s', resSteps := Suc step,
                           resMessages := resMessages (rnRes r) @ [rspMessage resp]\<rparr>\<rparr>)"

definition append_messages :: "message list \<Rightarrow> run_vars \<Rightarrow> run_vars" where
  "append_messages ms r = r\<lparr>rnSess := sess_append (rnSess r) ms,
     rnRes := (rnRes r)\<lparr>resMessages := resMessages (rnRes r) @ ms\<rparr>\<rparr>"

definition root_stop :: "addr \<Rightarrow> string \<Rightarrow> ('w st, unit) state" where
  "root_stop tr reason = span_modify tr (\<lambda>x. x\<lparr>spStopReason := reason\<rparr>)"

section \<open>The phases of a step\<close>

text \<open>The context has ended before the step (lines 63 to 70).\<close>

definition stop_ctx :: "'w env \<Rightarrow> 'w agent \<Rightarrow> ctx \<Rightarrow> addr \<Rightarrow> run_vars \<Rightarrow> ('w st, run_vars \<times> goerr option) state" where
  "stop_ctx E a c tr r = do {
     (reason, retErr) \<leftarrow> classifyContextErr E c (rnBt r);
     _ \<leftarrow> root_stop tr reason;
     _ \<leftarrow> span_end E tr;
     _ \<leftarrow> agent_emit E a (\<lambda>b. ErrorEvent b (case retErr of Some e \<Rightarrow> e | None \<Rightarrow> ErrText []));
     State_Monad.return (set_stop reason r, retErr)
   }"

text \<open>The step cap is reached (lines 71 to 74 and 205 to 209).\<close>

definition stop_max_steps :: "'w env \<Rightarrow> 'w agent \<Rightarrow> addr \<Rightarrow> run_vars \<Rightarrow> ('w st, run_vars \<times> goerr option) state" where
  "stop_max_steps E a tr r0 = (let r = set_stop StopReasonMaxSteps r0 in do {
     _ \<leftarrow> span_modify tr (\<lambda>x. x\<lparr>spUsage := resUsage (rnRes r), spStopReason := resStopReason (rnRes r)\<rparr>);
     _ \<leftarrow> span_end E tr;
     _ \<leftarrow> agent_emit E a (\<lambda>b. RunFinishedEvent b (rnRes r));
     State_Monad.return (r, None)
   })"

text \<open>The budget is spent (lines 75 to 82).\<close>

definition stop_budget :: "'w env \<Rightarrow> 'w agent \<Rightarrow> addr \<Rightarrow> run_vars \<Rightarrow> goerr \<Rightarrow> ('w st, run_vars step_result) state" where
  "stop_budget E a tr r err = do {
     _ \<leftarrow> span_modify tr (\<lambda>x. x\<lparr>spStopReason := StopReasonBudget, spError := Error err\<rparr>);
     _ \<leftarrow> span_end E tr;
     _ \<leftarrow> agent_emit E a (\<lambda>b. ErrorEvent b err);
     State_Monad.return (SReturn (set_stop StopReasonBudget r) (Some err))
   }"

text \<open>The model call failed (lines 110 to 126).\<close>

definition stop_model ::
  "'w env \<Rightarrow> 'w agent \<Rightarrow> ctx \<Rightarrow> addr \<Rightarrow> addr \<Rightarrow> addr \<Rightarrow> run_vars \<Rightarrow> goerr \<Rightarrow> ('w st, run_vars step_result) state" where
  "stop_model E a c tr stepSpan mspan r err = do {
     _ \<leftarrow> span_error mspan (Error err);
     _ \<leftarrow> span_end E mspan;
     _ \<leftarrow> span_end E stepSpan;
     _ \<leftarrow> span_end E tr;
     ce \<leftarrow> ctx_Err E c;
     if ce \<noteq> None then do {
       (reason, retErr) \<leftarrow> classifyContextErr E c (rnBt r);
       _ \<leftarrow> agent_emit E a (\<lambda>b. ErrorEvent b (case retErr of Some e \<Rightarrow> e | None \<Rightarrow> ErrText []));
       State_Monad.return (SReturn (set_stop reason r) retErr)
     } else do {
       _ \<leftarrow> agent_emit E a (\<lambda>b. ErrorEvent b err);
       State_Monad.return (SReturn (set_stop StopReasonError r) (Some (ErrWrap ''rimeno: model generate: '' err)))
     }
   }"

text \<open>The final answer, decoded and, where it is invalid, repaired (lines 153 to 187).\<close>

definition answer_ok ::
  "'w env \<Rightarrow> 'w agent \<Rightarrow> addr \<Rightarrow> addr \<Rightarrow> string \<Rightarrow> goany option \<Rightarrow> run_vars \<Rightarrow> ('w st, run_vars step_result) state" where
  "answer_ok E a tr stepSpan text out r0 =
     (let res0 = (case out of None \<Rightarrow> rnRes r0 | Some v \<Rightarrow> (rnRes r0)\<lparr>resOutput := v\<rparr>);
          r = r0\<lparr>rnRes := res0\<lparr>resText := text, resStopReason := StopReasonStop\<rparr>\<rparr>
      in do {
        _ \<leftarrow> span_end E stepSpan;
        _ \<leftarrow> span_modify tr (\<lambda>x. x\<lparr>spUsage := resUsage (rnRes r), spStopReason := StopReasonStop\<rparr>);
        _ \<leftarrow> span_end E tr;
        _ \<leftarrow> agent_emit E a (\<lambda>b. RunFinishedEvent b (rnRes r));
        State_Monad.return (SReturn r None)
      })"

definition answer_step ::
  "'w env \<Rightarrow> 'w agent \<Rightarrow> addr \<Rightarrow> addr \<Rightarrow> string \<Rightarrow> run_vars \<Rightarrow> ('w st, run_vars step_result) state" where
  "answer_step E a tr stepSpan text r = (case agOutput a of
       None \<Rightarrow> answer_ok E a tr stepSpan text None r
     | Some spec \<Rightarrow> (case decodeOutput spec text of
           Inr out \<Rightarrow> answer_ok E a tr stepSpan text (Some out) r
         | Inl err \<Rightarrow>
           if rnRepairs r > 0 then do {
             _ \<leftarrow> agent_emit E a (\<lambda>b. ErrorEvent b err);
             _ \<leftarrow> span_end E stepSpan;
             State_Monad.return (SContinue
               (append_messages [UserMessage (buildRepairPrompt err)] (r\<lparr>rnRepairs := rnRepairs r - 1\<rparr>)))
           } else do {
             _ \<leftarrow> span_end E stepSpan;
             _ \<leftarrow> span_end E tr;
             _ \<leftarrow> agent_emit E a (\<lambda>b. ErrorEvent b err);
             State_Monad.return (SReturn
               (r\<lparr>rnRes := (rnRes r)\<lparr>resText := text, resStopReason := StopReasonError\<rparr>\<rparr>) (Some err))
           }))"

text \<open>The tool calls of the response (lines 189 to 202).\<close>

definition tools_step ::
  "'w env \<Rightarrow> 'w agent \<Rightarrow> ctx \<Rightarrow> addr \<Rightarrow> addr \<Rightarrow> tool_call list \<Rightarrow> run_vars \<Rightarrow> ('w st, run_vars step_result) state" where
  "tools_step E a c tr stepSpan calls r0 = do {
     ((toolMsgs, fatal), bt') \<leftarrow> runToolCalls E a c stepSpan calls (rnBt r0);
     (let r = append_messages toolMsgs (r0\<lparr>rnBt := bt'\<rparr>) in do {
        _ \<leftarrow> span_end E stepSpan;
        (case fatal of
           None \<Rightarrow> State_Monad.return (SContinue r)
         | Some err \<Rightarrow> do {
             _ \<leftarrow> span_modify tr (\<lambda>x. x\<lparr>spStopReason := StopReasonError, spError := Error err\<rparr>);
             _ \<leftarrow> span_end E tr;
             _ \<leftarrow> agent_emit E a (\<lambda>b. ErrorEvent b err);
             State_Monad.return (SReturn (set_stop StopReasonError r) (Some err))
           })
      })
   }"

text \<open>A response has arrived (lines 127 to 202).\<close>

definition close_model_span :: "'w env \<Rightarrow> addr \<Rightarrow> response \<Rightarrow> ('w st, unit) state" where
  "close_model_span E mspan resp = do {
     _ \<leftarrow> span_modify mspan (\<lambda>x. (x\<lparr>spUsage := rspUsage resp, spStopReason := rspStopReason resp\<rparr>)
            \<lparr>spAttrs := (if ReasoningTokens (rspUsage resp) > 0
               then [''reasoning_tokens'' \<mapsto> AttrInt (ReasoningTokens (rspUsage resp))] else spAttrs x)\<rparr>);
     span_end E mspan
   }"

definition response_step ::
  "'w env \<Rightarrow> 'w agent \<Rightarrow> ctx \<Rightarrow> addr \<Rightarrow> addr \<Rightarrow> addr \<Rightarrow> nat \<Rightarrow> response \<Rightarrow> run_vars \<Rightarrow>
     ('w st, run_vars step_result) state" where
  "response_step E a c tr stepSpan mspan step resp r0 = do {
     _ \<leftarrow> close_model_span E mspan resp;
     (let r = record_response a step resp r0 in do {
        _ \<leftarrow> agent_emit E a (\<lambda>b. ModelResponseEvent b (rspUsage resp) (rspStopReason resp) (msgText (rspMessage resp)));
        _ \<leftarrow> agent_emit E a (\<lambda>b. UsageUpdatedEvent b (resUsage (rnRes r)));
        if msgToolCalls (rspMessage resp) = []
        then answer_step E a tr stepSpan (msgText (rspMessage resp)) r
        else tools_step E a c tr stepSpan (msgToolCalls (rspMessage resp)) r
      })
   }"

section \<open>The loop\<close>

definition run_body ::
  "'w env \<Rightarrow> 'w agent \<Rightarrow> ctx \<Rightarrow> addr \<Rightarrow> nat \<Rightarrow> run_vars \<Rightarrow> ('w st, run_vars step_result) state" where
  "run_body E a c tr step r0 = do {
     be \<leftarrow> bt_check E (rnBt r0);
     (case be of
        Some err \<Rightarrow> stop_budget E a tr r0 err
      | None \<Rightarrow> do {
          s1 \<leftarrow> maybeCompact E a c tr (rnSess r0);
          stepSpan \<leftarrow> trace_child E tr SpanStep (''step-'' @ itoa (int step));
          _ \<leftarrow> agent_emit E a (\<lambda>b. StepStartedEvent b step);
          mspan \<leftarrow> trace_child E stepSpan SpanModel (mdlID (agModel a));
          _ \<leftarrow> span_modify mspan (\<lambda>x. x\<lparr>spModel := mdlID (agModel a)\<rparr>);
          (resp, s2) \<leftarrow> model_call E a c mspan s1;
          (case resp of
             Inl err \<Rightarrow> stop_model E a c tr stepSpan mspan (r0\<lparr>rnSess := s2\<rparr>) err
           | Inr rsp \<Rightarrow> response_step E a c tr stepSpan mspan step rsp (r0\<lparr>rnSess := s2\<rparr>))
        })
   }"

function run_loop ::
  "'w env \<Rightarrow> 'w agent \<Rightarrow> ctx \<Rightarrow> addr \<Rightarrow> nat \<Rightarrow> run_vars \<Rightarrow> ('w st, run_vars \<times> goerr option) state" where
  "run_loop E a c tr step r = do {
     ce \<leftarrow> ctx_Err E c;
     if ce \<noteq> None then stop_ctx E a c tr r
     else if int step \<ge> agMaxSteps a then stop_max_steps E a tr r
     else do {
       out \<leftarrow> run_body E a c tr step r;
       (case out of
          SReturn r' err \<Rightarrow> State_Monad.return (r', err)
        | SContinue r' \<Rightarrow> run_loop E a c tr (Suc step) r')
     }
   }"
  by pat_completeness auto
termination
  by (relation "measure (\<lambda>(E, a, c, tr, step, r). nat (agMaxSteps a - int step))") auto

declare run_loop.simps [simp del]

definition start_session :: "session \<Rightarrow> message \<Rightarrow> addr \<Rightarrow> session" where
  "start_session s userMsg tr = s\<lparr>ssHistory := ssHistory s @ [userMsg], ssTraces := ssTraces s @ [tr]\<rparr>"

definition runWith ::
  "'w env \<Rightarrow> 'w agent \<Rightarrow> session \<Rightarrow> ctx \<Rightarrow> message \<Rightarrow> budget \<Rightarrow> ('w st, (result \<times> goerr option) \<times> session) state" where
  "runWith E a s c0 userMsg b = do {
     tr \<leftarrow> newTrace E (agName a @ '':run'');
     bt \<leftarrow> bt_new E b;
     (let dl = btDeadline bt;
          c = (if \<not> time_is_zero dl then CtxWithDeadline c0 dl else c0)
      in do {
        _ \<leftarrow> agent_emit E a RunStartedEvent;
        (r, err) \<leftarrow> run_loop E a c tr 0
           \<lparr>rnSess = start_session s userMsg tr, rnBt = bt, rnRes = result_zero tr, rnRepairs = agOutputRepairs a\<rparr>;
        _ \<leftarrow> (if \<not> time_is_zero dl then ctx_cancel E c else State_Monad.return ());
        State_Monad.return ((rnRes r, err), rnSess r)
      })
   }"

definition Send :: "'w env \<Rightarrow> 'w agent \<Rightarrow> session \<Rightarrow> ctx \<Rightarrow> string \<Rightarrow> ('w st, (result \<times> goerr option) \<times> session) state" where
  "Send E a s c input = runWith E a s c (UserMessage input) (agBudget a)"

definition Run :: "'w env \<Rightarrow> 'w agent \<Rightarrow> ctx \<Rightarrow> string \<Rightarrow> ('w st, result \<times> goerr option) state" where
  "Run E a c input = do {
     (r, s) \<leftarrow> Send E a (NewSession a) c input;
     State_Monad.return r
   }"

section \<open>Agents as tools (subagent.go)\<close>

definition subagent_of :: "'w env \<Rightarrow> 'w agent \<Rightarrow> 'w subagent" where
  "subagent_of E sub = \<lparr>subName = agName sub, subBudget = agBudget sub,
     subRun = (\<lambda>c msg b. do {
       (r, s) \<leftarrow> runWith E sub (NewSession sub) c msg b;
       State_Monad.return r
     })\<rparr>"

definition AgentTool :: "'w env \<Rightarrow> raw_message \<Rightarrow> 'w agent \<Rightarrow> string \<Rightarrow> string \<Rightarrow> 'w tool" where
  "AgentTool E sch sub name description = \<lparr>tlName = name, tlDescription = description,
     tlSchema = sch, tlImpl = ToolAgent (subagent_of E sub)\<rparr>"

text \<open>\<open>agentTool.Invoke\<close>, outside of a parent's loop.\<close>

definition agentTool_Invoke ::
  "'w env \<Rightarrow> string \<Rightarrow> 'w agent \<Rightarrow> ctx \<Rightarrow> raw_message \<Rightarrow> ('w st, goerr + goany) state" where
  "agentTool_Invoke E name sub c args = (case parseTask E args of
       Inl err \<Rightarrow> State_Monad.return (Inl (ToolError name err))
     | Inr task \<Rightarrow> do {
         (res, err) \<leftarrow> Run E sub c task;
         State_Monad.return (case err of
             Some e \<Rightarrow> Inr (AnyString (''subagent error: '' @ Error e))
           | None \<Rightarrow> Inr (AnyString (resText res)))
       })"

end
