(* ===== verification/Run_Spec.thy ===== *)
theory Run_Spec
  imports Run
begin

text \<open>
  An abstract specification of the run loop: what one turn may do to the session, the tracker,
  the result and the repairs left, as an inductive relation without spans, events or clocks, and
  a run as a sequence of turns. The refinement lemmas show that every execution of the loop is
  such a run. \<open>turn\<close> records, for each model response of a run, the session its request was
  built from and the tracker at that moment.
\<close>

section \<open>The specification\<close>

record turn =
  tnSess :: session
  tnBt :: tracker
  tnResp :: response

text \<open>Before the request: the history may be compacted, and threading may be given up.\<close>

definition prepared :: "'w agent \<Rightarrow> session \<Rightarrow> session \<Rightarrow> bool" where
  "prepared a s s2 \<longleftrightarrow> (\<exists>s1. (s1 = s \<or> agCompactor a \<noteq> None \<and> (\<exists>nh. s1 = sess_compact s nh)) \<and>
     (s2 = s1 \<or> threadingActive a s1 \<and> s2 = sess_unthread s1))"

text \<open>The response was produced by the model for the request of session \<open>s\<close>.\<close>

definition generated :: "'w env \<Rightarrow> 'w agent \<Rightarrow> ctx \<Rightarrow> session \<Rightarrow> response \<Rightarrow> bool" where
  "generated E a c s resp \<longleftrightarrow> (\<exists>t. fst (run_state (generate E a c (buildRequestLocked a s)) t) = Inr resp)"

text \<open>The model answered that request with an error.\<close>

definition model_failed :: "'w env \<Rightarrow> 'w agent \<Rightarrow> ctx \<Rightarrow> session \<Rightarrow> goerr \<Rightarrow> bool" where
  "model_failed E a c s err \<longleftrightarrow> (\<exists>t. fst (run_state (generate E a c (buildRequestLocked a s)) t) = Inl err)"

definition within_budget :: "tracker \<Rightarrow> bool" where
  "within_budget bt \<longleftrightarrow> (\<exists>now. check now bt = None)"

text \<open>How an ended context is reported, if a read of the context that failed fails again.\<close>

definition ctx_sticky :: "'w env \<Rightarrow> bool" where
  "ctx_sticky E \<longleftrightarrow> (\<forall>c w e w'. envCtxErr E c w = (Some e, w') \<longrightarrow> (\<exists>w''. envCtxErr E c w' = (Some e, w'')))"

definition ctx_stop :: "'w env \<Rightarrow> tracker \<Rightarrow> string \<Rightarrow> goerr option \<Rightarrow> bool" where
  "ctx_stop E bt reason err \<longleftrightarrow>
     reason = StopReasonStop \<and> err = None \<and> \<not> ctx_sticky E \<or>
     reason = StopReasonBudget \<and> (\<exists>now e. err = Some e \<and> check now bt = Some e) \<or>
     reason = StopReasonCanceled \<and> (\<exists>e c w. err = Some e \<and> fst (envCtxErr E c w) = Some e)"

inductive body_rel ::
  "'w env \<Rightarrow> 'w agent \<Rightarrow> ctx \<Rightarrow> nat \<Rightarrow> run_vars \<Rightarrow> turn list \<Rightarrow> run_vars step_result \<Rightarrow> bool"
  for E a c step r where
  budget: "check now (rnBt r) = Some err \<Longrightarrow>
     body_rel E a c step r [] (SReturn (set_stop StopReasonBudget r) (Some err))"
| model_ctx: "within_budget (rnBt r) \<Longrightarrow> prepared a (rnSess r) s2 \<Longrightarrow> ctx_stop E (rnBt r) reason err \<Longrightarrow>
     body_rel E a c step r [] (SReturn (set_stop reason (r\<lparr>rnSess := s2\<rparr>)) err)"
| model_error: "within_budget (rnBt r) \<Longrightarrow> prepared a (rnSess r) s2 \<Longrightarrow> model_failed E a c s2 err \<Longrightarrow>
     body_rel E a c step r [] (SReturn (set_stop StopReasonError (r\<lparr>rnSess := s2\<rparr>))
       (Some (ErrWrap ''rimeno: model generate: '' err)))"
| answer: "within_budget (rnBt r) \<Longrightarrow> prepared a (rnSess r) s2 \<Longrightarrow> generated E a c s2 resp \<Longrightarrow>
     msgToolCalls (rspMessage resp) = [] \<Longrightarrow>
     r1 = record_response a step resp (r\<lparr>rnSess := s2\<rparr>) \<Longrightarrow>
     (agOutput a = None \<and> out = resOutput (rnRes r1) \<or>
      (\<exists>spec. agOutput a = Some spec \<and> decodeOutput spec (msgText (rspMessage resp)) = Inr out)) \<Longrightarrow>
     body_rel E a c step r [\<lparr>tnSess = s2, tnBt = rnBt r, tnResp = resp\<rparr>]
       (SReturn (r1\<lparr>rnRes := (rnRes r1)\<lparr>resOutput := out, resText := msgText (rspMessage resp),
          resStopReason := StopReasonStop\<rparr>\<rparr>) None)"
| repair: "within_budget (rnBt r) \<Longrightarrow> prepared a (rnSess r) s2 \<Longrightarrow> generated E a c s2 resp \<Longrightarrow>
     msgToolCalls (rspMessage resp) = [] \<Longrightarrow>
     r1 = record_response a step resp (r\<lparr>rnSess := s2\<rparr>) \<Longrightarrow>
     agOutput a = Some spec \<Longrightarrow> decodeOutput spec (msgText (rspMessage resp)) = Inl err \<Longrightarrow>
     rnRepairs r > 0 \<Longrightarrow>
     body_rel E a c step r [\<lparr>tnSess = s2, tnBt = rnBt r, tnResp = resp\<rparr>]
       (SContinue (append_messages [UserMessage (buildRepairPrompt err)] (r1\<lparr>rnRepairs := rnRepairs r1 - 1\<rparr>)))"
| invalid: "within_budget (rnBt r) \<Longrightarrow> prepared a (rnSess r) s2 \<Longrightarrow> generated E a c s2 resp \<Longrightarrow>
     msgToolCalls (rspMessage resp) = [] \<Longrightarrow>
     r1 = record_response a step resp (r\<lparr>rnSess := s2\<rparr>) \<Longrightarrow>
     agOutput a = Some spec \<Longrightarrow> decodeOutput spec (msgText (rspMessage resp)) = Inl err \<Longrightarrow>
     \<not> rnRepairs r > 0 \<Longrightarrow>
     body_rel E a c step r [\<lparr>tnSess = s2, tnBt = rnBt r, tnResp = resp\<rparr>]
       (SReturn (r1\<lparr>rnRes := (rnRes r1)\<lparr>resText := msgText (rspMessage resp),
          resStopReason := StopReasonError\<rparr>\<rparr>) (Some err))"
| tools: "within_budget (rnBt r) \<Longrightarrow> prepared a (rnSess r) s2 \<Longrightarrow> generated E a c s2 resp \<Longrightarrow>
     msgToolCalls (rspMessage resp) \<noteq> [] \<Longrightarrow>
     r1 = record_response a step resp (r\<lparr>rnSess := s2\<rparr>) \<Longrightarrow>
     tracker_frame a (rnBt r1) bt' \<Longrightarrow>
     list_all2 answers (msgToolCalls (rspMessage resp)) ms \<Longrightarrow>
     body_rel E a c step r [\<lparr>tnSess = s2, tnBt = rnBt r, tnResp = resp\<rparr>]
       (SContinue (append_messages ms (r1\<lparr>rnBt := bt'\<rparr>)))"
| fatal: "within_budget (rnBt r) \<Longrightarrow> prepared a (rnSess r) s2 \<Longrightarrow> generated E a c s2 resp \<Longrightarrow>
     msgToolCalls (rspMessage resp) \<noteq> [] \<Longrightarrow>
     r1 = record_response a step resp (r\<lparr>rnSess := s2\<rparr>) \<Longrightarrow>
     tracker_frame a (rnBt r1) bt' \<Longrightarrow>
     length ms \<le> length (msgToolCalls (rspMessage resp)) \<Longrightarrow>
     list_all2 answers (take (length ms) (msgToolCalls (rspMessage resp))) ms \<Longrightarrow>
     (agParallelTools a \<Longrightarrow> length ms = length (msgToolCalls (rspMessage resp))) \<Longrightarrow>
     body_rel E a c step r [\<lparr>tnSess = s2, tnBt = rnBt r, tnResp = resp\<rparr>]
       (SReturn (set_stop StopReasonError (append_messages ms (r1\<lparr>rnBt := bt'\<rparr>))) (Some err))"

inductive_cases body_continueE: "body_rel E a c step r ts (SContinue r')"
inductive_cases body_returnE: "body_rel E a c step r ts (SReturn r' err)"

inductive turns ::
  "'w env \<Rightarrow> 'w agent \<Rightarrow> ctx \<Rightarrow> nat \<Rightarrow> run_vars \<Rightarrow> turn list \<Rightarrow> run_vars \<Rightarrow> goerr option \<Rightarrow> bool"
  for E a c where
  ended: "ctx_stop E (rnBt r) reason err \<Longrightarrow> turns E a c step r [] (set_stop reason r) err"
| max_steps: "int step \<ge> agMaxSteps a \<Longrightarrow> turns E a c step r [] (set_stop StopReasonMaxSteps r) None"
| return: "int step < agMaxSteps a \<Longrightarrow> body_rel E a c step r ts (SReturn r' err) \<Longrightarrow>
     turns E a c step r ts r' err"
| continue: "int step < agMaxSteps a \<Longrightarrow> body_rel E a c step r ts (SContinue r') \<Longrightarrow>
     turns E a c (Suc step) r' us r'' err \<Longrightarrow> turns E a c step r (ts @ us) r'' err"

section \<open>Refinement of the parts\<close>

lemma post_bt_check: "post (bt_check E bt) s (\<lambda>r t. \<exists>now. r = check now bt)"
  by (auto simp: bt_check_def intro!: post_all)

lemma post_classify:
  "post (classifyContextErr E c bt) s (\<lambda>r t.
     (fst (envCtxErr E c (stWorld s)) = None \<and> r = (StopReasonStop, None)) \<or>
     (fst r = StopReasonBudget \<and> (\<exists>now e. snd r = Some e \<and> check now bt = Some e)) \<or>
     (fst r = StopReasonCanceled \<and> (\<exists>e c w. snd r = Some e \<and> fst (envCtxErr E c w) = Some e)))"
proof -
  have "post (bt_check E bt) t (\<lambda>be u. post (State_Monad.return (case be of
              Some b \<Rightarrow> (StopReasonBudget, Some b) | None \<Rightarrow> (StopReasonCanceled, Some e))) u (\<lambda>r t.
     (fst (envCtxErr E c (stWorld s)) = None \<and> r = (StopReasonStop, None)) \<or>
     (fst r = StopReasonBudget \<and> (\<exists>now e. snd r = Some e \<and> check now bt = Some e)) \<or>
     (fst r = StopReasonCanceled \<and> (\<exists>e c w. snd r = Some e \<and> fst (envCtxErr E c w) = Some e))))"
    if "fst (envCtxErr E c (stWorld s)) = Some e" for e t
    by (rule post_mono [OF post_bt_check]) (use that in \<open>auto split: option.splits\<close>)
  then show ?thesis
    by (auto simp: classifyContextErr_def ctx_Err_def post_on_world post_splits)
qed

lemma post_classify_again:
  assumes "fst (envCtxErr E c w) \<noteq> None" "stWorld s = snd (envCtxErr E c w)"
  shows "post (classifyContextErr E c bt) s (\<lambda>r t. ctx_stop E bt (fst r) (snd r))"
  using post_classify
proof (rule post_mono)
  fix r t
  assume *: "(fst (envCtxErr E c (stWorld s)) = None \<and> r = (StopReasonStop, None)) \<or>
     (fst r = StopReasonBudget \<and> (\<exists>now e. snd r = Some e \<and> check now bt = Some e)) \<or>
     (fst r = StopReasonCanceled \<and> (\<exists>e c w. snd r = Some e \<and> fst (envCtxErr E c w) = Some e))"
  have "\<not> ctx_sticky E" if "fst (envCtxErr E c (stWorld s)) = None"
  proof
    assume sticky: "ctx_sticky E"
    obtain e w' where e: "envCtxErr E c w = (Some e, w')" using assms(1) by (metis option.exhaust prod.collapse)
    then obtain w'' where "envCtxErr E c w' = (Some e, w'')"
      using sticky unfolding ctx_sticky_def by blast
    then show False using that e assms(2) by simp
  qed
  then show "ctx_stop E bt (fst r) (snd r)" using * by (auto simp: ctx_stop_def)
qed

lemma post_stop_ctx:
  assumes "fst (envCtxErr E c w) \<noteq> None" "stWorld s = snd (envCtxErr E c w)"
  shows "post (stop_ctx E a c tr r) s (\<lambda>q t. turns E a c step r [] (fst q) (snd q))"
  unfolding stop_ctx_def post_bind
  by (rule post_mono [OF post_classify_again [OF assms]])
    (auto simp: case_prod_beta intro!: post_all turns.ended)

lemma post_maybeCompact:
  "post (maybeCompact E a c tr s) u (\<lambda>s1 t. s1 = s \<or> agCompactor a \<noteq> None \<and> (\<exists>nh. s1 = sess_compact s nh))"
  by (auto simp: maybeCompact_def Let_def post_splits case_prod_beta intro!: post_all)

lemma buildRequestLocked_unthread [simp]:
  "buildRequestLocked a (sess_unthread s) = buildRequest a (ssHistory s)"
  by (simp add: buildRequestLocked_def threadingActive_def sess_unthread_def)

lemma previous_id_threading:
  "rqPreviousResponseID (buildRequestLocked a s) \<noteq> [] \<Longrightarrow> threadingActive a s"
  by (auto simp: buildRequestLocked_def buildRequest_def split: if_splits)

definition model_outcome :: "'w env \<Rightarrow> 'w agent \<Rightarrow> ctx \<Rightarrow> session \<Rightarrow> goerr + response \<Rightarrow> bool" where
  "model_outcome E a c s r = (case r of Inl err \<Rightarrow> model_failed E a c s err | Inr resp \<Rightarrow> generated E a c s resp)"

lemma model_outcome_simps [simp]:
  "model_outcome E a c s (Inl err) = model_failed E a c s err"
  "model_outcome E a c s (Inr resp) = generated E a c s resp"
  by (simp_all add: model_outcome_def)

lemma post_model_call:
  "post (model_call E a c mspan s1) u (\<lambda>r t.
     (snd r = s1 \<or> threadingActive a s1 \<and> snd r = sess_unthread s1) \<and>
     model_outcome E a c (snd r) (fst r))"
proof -
  let ?Q = "\<lambda>r t. (snd r = s1 \<or> threadingActive a s1 \<and> snd r = sess_unthread s1) \<and>
     model_outcome E a c (snd r) (fst r)"
  have gen: "post (generate E a c (buildRequestLocked a s)) v (\<lambda>r t. model_outcome E a c s r)"
    for s v
    by (auto simp: post_iff generated_def model_failed_def model_outcome_def split: sum.splits)
  have again: "post (generate E a c (buildRequest a (ssHistory s1))) v
      (\<lambda>r' t. threadingActive a s1 \<longrightarrow> ?Q (r', sess_unthread s1) t)" for v
    using gen [of "sess_unthread s1"] by (auto intro: post_mono)
  have fb: "post (wants_fallback E a c (buildRequestLocked a s1) r) v
      (\<lambda>b t. b \<longrightarrow> threadingActive a s1)" for r v
    by (auto simp: wants_fallback_def post_splits dest: previous_id_threading intro!: post_all)
  show ?thesis
    unfolding model_call_def Let_def post_bind
  proof (rule post_mono [OF gen], rule post_mono [OF fb], goal_cases)
    case (1 r t b t')
    show ?case
    proof (cases b)
      case True
      then have act: "threadingActive a s1" using 1(2) by simp
      have "post (generate E a c (buildRequest a (ssHistory s1))) v (\<lambda>r' t. ?Q (r', sess_unthread s1) t)" for v
        using again by (rule post_mono) (use act in simp)
      then show ?thesis using True by (simp add: post_all)
    next
      case False
      then show ?thesis using 1(1) by simp
    qed
  qed
qed

lemma prepared_intro:
  "s1 = s \<or> agCompactor a \<noteq> None \<and> (\<exists>nh. s1 = sess_compact s nh) \<Longrightarrow>
     s2 = s1 \<or> threadingActive a s1 \<and> s2 = sess_unthread s1 \<Longrightarrow> prepared a s s2"
  unfolding prepared_def by blast

lemma post_stop_model:
  assumes pre: "within_budget (rnBt r)" "prepared a (rnSess r) s2" and err: "model_failed E a c s2 err"
  shows "post (stop_model E a c tr stepSpan mspan (r\<lparr>rnSess := s2\<rparr>) err) u
     (\<lambda>out t. body_rel E a c step r [] out)"
proof -
  let ?r = "r\<lparr>rnSess := s2\<rparr>"
  have "post (do {
      ce \<leftarrow> ctx_Err E c;
      if ce \<noteq> None then do {
        (reason, retErr) \<leftarrow> classifyContextErr E c (rnBt ?r);
        _ \<leftarrow> agent_emit E a (\<lambda>b. ErrorEvent b (case retErr of Some e \<Rightarrow> e | None \<Rightarrow> ErrText []));
        State_Monad.return (SReturn (set_stop reason ?r) retErr)
      } else do {
        _ \<leftarrow> agent_emit E a (\<lambda>b. ErrorEvent b err);
        State_Monad.return (SReturn (set_stop StopReasonError ?r) (Some (ErrWrap ''rimeno: model generate: '' err)))
      }}) v (\<lambda>out t. body_rel E a c step r [] out)" for v
  proof (cases "fst (envCtxErr E c (stWorld v))")
    case None
    then show ?thesis
      using body_rel.model_error [OF pre err, of step]
      by (auto simp: ctx_Err_def post_on_world intro!: post_all)
  next
    case (Some e)
    have "post (classifyContextErr E c (rnBt r)) (v\<lparr>stWorld := snd (envCtxErr E c (stWorld v))\<rparr>)
        (\<lambda>q t. ctx_stop E (rnBt r) (fst q) (snd q))"
      by (rule post_classify_again [of E c "stWorld v"]) (simp_all add: Some)
    then show ?thesis
      using Some body_rel.model_ctx [OF pre, of E _ _ c step]
      by (auto simp: ctx_Err_def post_on_world case_prod_beta intro!: post_all elim!: post_mono)
  qed
  then show ?thesis
    unfolding stop_model_def by (simp add: post_all)
qed

lemma post_answer_ok:
  "post (answer_ok E a tr stepSpan text out r) u (\<lambda>q t. q = SReturn (r\<lparr>rnRes := (rnRes r)
     \<lparr>resOutput := (case out of None \<Rightarrow> resOutput (rnRes r) | Some v \<Rightarrow> v), resText := text,
      resStopReason := StopReasonStop\<rparr>\<rparr>) None)"
  by (cases out) (auto simp: answer_ok_def Let_def intro!: post_all)

lemma post_answer_step:
  assumes pre: "within_budget (rnBt r)" "prepared a (rnSess r) s2" "generated E a c s2 resp"
      "msgToolCalls (rspMessage resp) = []"
    and r1: "r1 = record_response a step resp (r\<lparr>rnSess := s2\<rparr>)"
  shows "post (answer_step E a tr stepSpan (msgText (rspMessage resp)) r1) u
     (\<lambda>out t. body_rel E a c step r [\<lparr>tnSess = s2, tnBt = rnBt r, tnResp = resp\<rparr>] out)"
proof -
  have reps: "rnRepairs r1 = rnRepairs r" by (simp add: r1 record_response_def Let_def)
  show ?thesis
  proof (cases "agOutput a")
    case None
    show ?thesis
      unfolding answer_step_def None option.case
      by (rule post_mono [OF post_answer_ok])
        (use body_rel.answer [OF pre r1, of "resOutput (rnRes r1)"] None in auto)
  next
    case (Some spec)
    show ?thesis
    proof (cases "decodeOutput spec (msgText (rspMessage resp))")
      case (Inr v)
      show ?thesis
        unfolding answer_step_def Some Inr option.case sum.case
        by (rule post_mono [OF post_answer_ok])
          (use body_rel.answer [OF pre r1, of v] Some Inr in auto)
    next
      case (Inl err)
      show ?thesis
      proof (cases "rnRepairs r > 0")
        case True
        then show ?thesis
          using body_rel.repair [OF pre r1 Some Inl True]
          by (auto simp: answer_step_def Some Inl reps intro!: post_all)
      next
        case False
        then show ?thesis
          using body_rel.invalid [OF pre r1 Some Inl False]
          by (auto simp: answer_step_def Some Inl reps intro!: post_all)
      qed
    qed
  qed
qed

lemma post_tools_step:
  assumes pre: "within_budget (rnBt r)" "prepared a (rnSess r) s2" "generated E a c s2 resp"
      "msgToolCalls (rspMessage resp) \<noteq> []"
    and r1: "r1 = record_response a step resp (r\<lparr>rnSess := s2\<rparr>)"
  shows "post (tools_step E a c tr stepSpan (msgToolCalls (rspMessage resp)) r1) u
     (\<lambda>out t. body_rel E a c step r [\<lparr>tnSess = s2, tnBt = rnBt r, tnResp = resp\<rparr>] out)"
  unfolding tools_step_def post_bind
proof (rule post_mono [OF post_conj [OF runToolCalls_frame runToolCalls_answers]], goal_cases)
  case (1 q t)
  obtain ms fatal bt' where q: "q = ((ms, fatal), bt')" by (metis prod.collapse)
  have fr: "tracker_frame a (rnBt r1) bt'" using 1 q by simp
  show ?case
  proof (cases fatal)
    case None
    have "take (length ms) (msgToolCalls (rspMessage resp)) = msgToolCalls (rspMessage resp)"
      using 1 q None by simp
    with 1 q have "list_all2 answers (msgToolCalls (rspMessage resp)) ms" by (simp only: fst_conv)
    from body_rel.tools [OF pre r1 fr this] show ?thesis
      by (auto simp: q None Let_def intro!: post_all)
  next
    case (Some err)
    have l: "length ms \<le> length (msgToolCalls (rspMessage resp))"
        "list_all2 answers (take (length ms) (msgToolCalls (rspMessage resp))) ms"
        "agParallelTools a \<Longrightarrow> length ms = length (msgToolCalls (rspMessage resp))"
      using 1 q by simp_all
    from body_rel.fatal [OF pre r1 fr l, of err] show ?thesis
      by (auto simp: q Some Let_def intro!: post_all)
  qed
qed

lemma post_response_step:
  assumes pre: "within_budget (rnBt r)" "prepared a (rnSess r) s2" "generated E a c s2 resp"
  shows "post (response_step E a c tr stepSpan mspan step resp (r\<lparr>rnSess := s2\<rparr>)) u
     (\<lambda>out t. body_rel E a c step r [\<lparr>tnSess = s2, tnBt = rnBt r, tnResp = resp\<rparr>] out)"
  using post_answer_step [OF pre _ refl] post_tools_step [OF pre _ refl]
  by (auto simp: response_step_def Let_def intro: post_all)

lemma post_run_body:
  "post (run_body E a c tr step r) u (\<lambda>out t. \<exists>ts. body_rel E a c step r ts out)"
  unfolding run_body_def post_bind
proof (rule post_mono [OF post_bt_check], goal_cases)
  case (1 be t)
  then obtain now where be: "be = check now (rnBt r)" by blast
  show ?case
  proof (cases be)
    case (Some err)
    then have "check now (rnBt r) = Some err" using be by simp
    from body_rel.budget [OF this, of E a c step] show ?thesis
      by (auto simp: Some stop_budget_def intro!: post_all)
  next
    case None
    then have wb: "within_budget (rnBt r)" using be by (auto simp: within_budget_def)
    have "post (do {
        (resp, s2) \<leftarrow> model_call E a c mspan s1;
        (case resp of
           Inl err \<Rightarrow> stop_model E a c tr stepSpan mspan (r\<lparr>rnSess := s2\<rparr>) err
         | Inr rsp \<Rightarrow> response_step E a c tr stepSpan mspan step rsp (r\<lparr>rnSess := s2\<rparr>))}) v
        (\<lambda>out t. \<exists>ts. body_rel E a c step r ts out)"
      if s1: "s1 = rnSess r \<or> agCompactor a \<noteq> None \<and> (\<exists>nh. s1 = sess_compact (rnSess r) nh)"
      for s1 mspan stepSpan v
      unfolding post_bind
    proof (rule post_mono [OF post_model_call], goal_cases)
      case (1 q w)
      obtain resp s2 where q: "q = (resp, s2)" by (cases q)
      have p: "prepared a (rnSess r) s2" using prepared_intro [OF s1] 1 q by simp
      show ?case
      proof (cases resp)
        case (Inl err)
        then have "model_failed E a c s2 err" using 1 q by simp
        note f = post_stop_model [OF wb p this]
        show ?thesis unfolding q Inl prod.case sum.case by (rule post_mono [OF f]) blast
      next
        case (Inr rsp)
        then have "generated E a c s2 rsp" using 1 q by simp
        note f = post_response_step [OF wb p this]
        show ?thesis unfolding q Inr prod.case sum.case by (rule post_mono [OF f]) blast
      qed
    qed
    then have rest: "post (trace_child E tr SpanStep n) v (\<lambda>stepSpan t.
        post (agent_emit E a (\<lambda>b. StepStartedEvent b step)) t (\<lambda>_ t.
        post (trace_child E stepSpan SpanModel (mdlID (agModel a))) t (\<lambda>mspan t.
        post (span_modify mspan (\<lambda>x. x\<lparr>spModel := mdlID (agModel a)\<rparr>)) t (\<lambda>_ t.
        post (model_call E a c mspan s1) t (\<lambda>q t. post (case fst q of
           Inl err \<Rightarrow> stop_model E a c tr stepSpan mspan (r\<lparr>rnSess := snd q\<rparr>) err
         | Inr rsp \<Rightarrow> response_step E a c tr stepSpan mspan step rsp (r\<lparr>rnSess := snd q\<rparr>)) t
         (\<lambda>out t. \<exists>ts. body_rel E a c step r ts out))))))"
      if "s1 = rnSess r \<or> agCompactor a \<noteq> None \<and> (\<exists>nh. s1 = sess_compact (rnSess r) nh)" for n s1 v
      using that
      by - (rule post_all, rule post_all, rule post_all, rule post_all, simp add: case_prod_beta)
    show ?thesis
      unfolding None option.case post_bind
      by (rule post_mono [OF post_maybeCompact], drule rest) (simp add: case_prod_beta)
  qed
qed

lemma post_run_loop:
  "post (run_loop E a c tr step r) s (\<lambda>q t. \<exists>ts. turns E a c step r ts (fst q) (snd q))"
proof (induction E a c tr step r arbitrary: s rule: run_loop.induct)
  case (1 E a c tr step r)
  let ?w = "stWorld s" and ?s = "s\<lparr>stWorld := snd (envCtxErr E c (stWorld s))\<rparr>"
  let ?Q = "\<lambda>q t. \<exists>ts. turns E a c step r ts (fst q) (snd q)"
  consider (ctx) "fst (envCtxErr E c ?w) \<noteq> None"
    | (maxs) "fst (envCtxErr E c ?w) = None" "int step \<ge> agMaxSteps a"
    | (body) "fst (envCtxErr E c ?w) = None" "int step < agMaxSteps a"
    by fastforce
  then show ?case
  proof cases
    case ctx
    have "post (stop_ctx E a c tr r) ?s ?Q"
      by (rule post_mono [OF post_stop_ctx [OF ctx]]) auto
    then show ?thesis using ctx by (subst run_loop.simps) (simp add: ctx_Err_def post_on_world)
  next
    case maxs
    then have "post (stop_max_steps E a tr r) ?s ?Q"
      using turns.max_steps [OF maxs(2), of E c r]
      by (auto simp: stop_max_steps_def Let_def intro!: post_all)
    then show ?thesis using maxs by (subst run_loop.simps) (simp add: ctx_Err_def post_on_world)
  next
    case body
    have "post (run_body E a c tr step r) ?s (\<lambda>out t. post (case out of
          SReturn r' err \<Rightarrow> State_Monad.return (r', err)
        | SContinue r' \<Rightarrow> run_loop E a c tr (Suc step) r') t ?Q)"
    proof (rule post_mono [OF post_run_body], goal_cases)
      case (1 out t)
      then obtain ts where ts: "body_rel E a c step r ts out" by blast
      show ?case
      proof (cases out)
        case (SReturn r' err)
        then show ?thesis using ts by (auto intro: turns.return [OF body(2)])
      next
        case (SContinue r')
        have "post (run_loop E a c tr (Suc step) r') t
            (\<lambda>q t. \<exists>us. turns E a c (Suc step) r' us (fst q) (snd q))"
          using "1.IH" body by simp
        then show ?thesis
          unfolding SContinue step_result.case
          by (rule post_mono) (use turns.continue [OF body(2)] ts SContinue in blast)
      qed
    qed
    then show ?thesis using body by (subst run_loop.simps) (simp add: ctx_Err_def post_on_world)
  qed
qed

end
