(* ===== verification/Run_Props.thy ===== *)
theory Run_Props
  imports Run_Spec
begin

text \<open>
  What a run guarantees, for every environment, model, tool, hook and schedule. The proofs are
  rule inductions over the turns of \<open>Run_Spec\<close>.
\<close>

section \<open>One turn\<close>

lemma append_messages_fields [simp]:
  "rnSess (append_messages ms r) = sess_append (rnSess r) ms"
  "rnBt (append_messages ms r) = rnBt r"
  "rnRepairs (append_messages ms r) = rnRepairs r"
  "resMessages (rnRes (append_messages ms r)) = resMessages (rnRes r) @ ms"
  "resSteps (rnRes (append_messages ms r)) = resSteps (rnRes r)"
  "resUsage (rnRes (append_messages ms r)) = resUsage (rnRes r)"
  "resStopReason (rnRes (append_messages ms r)) = resStopReason (rnRes r)"
  "resTrace (rnRes (append_messages ms r)) = resTrace (rnRes r)"
  by (simp_all add: append_messages_def)

lemma set_stop_fields [simp]:
  "rnSess (set_stop x r) = rnSess r"
  "rnBt (set_stop x r) = rnBt r"
  "rnRepairs (set_stop x r) = rnRepairs r"
  "resMessages (rnRes (set_stop x r)) = resMessages (rnRes r)"
  "resSteps (rnRes (set_stop x r)) = resSteps (rnRes r)"
  "resUsage (rnRes (set_stop x r)) = resUsage (rnRes r)"
  "resStopReason (rnRes (set_stop x r)) = x"
  "resTrace (rnRes (set_stop x r)) = resTrace (rnRes r)"
  by (simp_all add: set_stop_def)

lemma sess_append_fields [simp]:
  "ssHistory (sess_append s ms) = ssHistory s @ ms"
  "ssUsage (sess_append s ms) = ssUsage s"
  "ssTraces (sess_append s ms) = ssTraces s"
  "ssLastResponseID (sess_append s ms) = ssLastResponseID s"
  "ssThreadSentIdx (sess_append s ms) = ssThreadSentIdx s"
  "ssThreadingDisabled (sess_append s ms) = ssThreadingDisabled s"
  by (simp_all add: sess_append_def)

lemma sess_response_fields [simp]:
  "ssHistory (sess_response a s resp) = ssHistory s @ [rspMessage resp]"
  "ssUsage (sess_response a s resp) = usage_add (ssUsage s) (rspUsage resp)"
  "ssTraces (sess_response a s resp) = ssTraces s"
  "ssThreadingDisabled (sess_response a s resp) = ssThreadingDisabled s"
  by (simp_all add: sess_response_def Let_def)

lemma record_response_fields [simp]:
  "rnSess (record_response a step resp r) = sess_response a (rnSess r) resp"
  "rnBt (record_response a step resp r) = addUsage (rnBt r) (rspUsage resp)"
  "rnRepairs (record_response a step resp r) = rnRepairs r"
  "resMessages (rnRes (record_response a step resp r)) = resMessages (rnRes r) @ [rspMessage resp]"
  "resSteps (rnRes (record_response a step resp r)) = Suc step"
  "resUsage (rnRes (record_response a step resp r)) = usage_add (ssUsage (rnSess r)) (rspUsage resp)"
  "resTrace (rnRes (record_response a step resp r)) = resTrace (rnRes r)"
  by (simp_all add: record_response_def Let_def)

lemma prepared_fields:
  assumes "prepared a s s2"
  shows "ssUsage s2 = ssUsage s" "ssTraces s2 = ssTraces s"
    "agCompactor a = None \<Longrightarrow> ssHistory s2 = ssHistory s"
  using assms by (auto simp: prepared_def sess_compact_def sess_unthread_def)

lemma body_turns: "body_rel E a c step r ts out \<Longrightarrow>
    length ts \<le> 1 \<and> (\<forall>t\<in>set ts. within_budget (tnBt t) \<and> generated E a c (tnSess t) (tnResp t))"
  by (erule body_rel.cases) simp_all

fun out_vars :: "'a step_result \<Rightarrow> 'a" where
  "out_vars (SContinue r) = r"
| "out_vars (SReturn r err) = r"

section \<open>Steps and repairs\<close>

lemma body_steps:
  "body_rel E a c step r ts out \<Longrightarrow> resSteps (rnRes r) = step \<Longrightarrow>
     resSteps (rnRes (out_vars out)) = step + length ts \<and>
     (\<forall>r'. out = SContinue r' \<longrightarrow> length ts = 1)"
  by (erule body_rel.cases) simp_all

lemma turns_steps:
  "turns E a c step r ts r' err \<Longrightarrow> resSteps (rnRes r) = step \<Longrightarrow>
     resSteps (rnRes r') = step + length ts \<and> int (length ts) \<le> max 0 (agMaxSteps a - int step)"
proof (induction rule: turns.induct)
  case (return step r ts r' err)
  then show ?case using body_steps [OF return(2)] body_turns [OF return(2)] by auto
next
  case (continue step r ts r' us r'' err)
  then have "resSteps (rnRes r') = Suc step \<and> length ts = 1"
    using body_steps [OF continue(2)] by auto
  with continue show ?case by auto
qed auto

section \<open>Messages\<close>

lemma body_history:
  assumes "body_rel E a c step r ts out" "agCompactor a = None"
  shows "\<exists>ms. resMessages (rnRes (out_vars out)) = resMessages (rnRes r) @ ms \<and>
     ssHistory (rnSess (out_vars out)) = ssHistory (rnSess r) @ ms"
  using assms by (cases rule: body_rel.cases) (auto simp: prepared_fields(3))

lemma turns_history:
  "turns E a c step r ts r' err \<Longrightarrow> agCompactor a = None \<Longrightarrow>
     \<exists>ms. resMessages (rnRes r') = resMessages (rnRes r) @ ms \<and> ssHistory (rnSess r') = ssHistory (rnSess r) @ ms"
proof (induction rule: turns.induct)
  case (return step r ts r' err)
  then show ?case using body_history [OF return(2)] by simp
next
  case (continue step r ts r' us r'' err)
  then show ?case using body_history [OF continue(2)] by fastforce
qed auto

text \<open>Each assistant message with tool calls is followed at once by the answers to them, in order.\<close>

fun paired :: "message list \<Rightarrow> bool" where
  "paired [] \<longleftrightarrow> True"
| "paired (m # ms) \<longleftrightarrow>
     list_all2 answers (msgToolCalls m) (take (length (msgToolCalls m)) ms) \<and> paired ms"

lemma paired_append: "paired xs \<Longrightarrow> paired ys \<Longrightarrow> paired (xs @ ys)"
proof (induction xs)
  case (Cons m xs)
  then have "length (msgToolCalls m) = length (take (length (msgToolCalls m)) xs)"
    by (intro list_all2_lengthD [of answers]) simp
  then have "length (msgToolCalls m) \<le> length xs" by simp
  with Cons show ?case by simp
qed simp

lemma answers_no_calls: "answers call m \<Longrightarrow> msgToolCalls m = []"
  by (metis answers_def toolResultMessage_def message.select_convs(4))

lemma paired_answers: "list_all2 answers calls ms \<Longrightarrow> paired ms"
  by (induction rule: list_all2_induct) (auto dest: answers_no_calls)

lemma paired_turn:
  assumes "list_all2 answers (msgToolCalls m) ms"
  shows "paired (m # ms)"
  using assms paired_answers [OF assms] list_all2_lengthD [OF assms] by simp

lemma body_paired:
  assumes "body_rel E a c step r ts out"
    and "\<forall>r' err. out = SReturn r' err \<longrightarrow> resStopReason (rnRes r') \<noteq> StopReasonError \<or> agParallelTools a"
    and "paired (resMessages (rnRes r))"
  shows "paired (resMessages (rnRes (out_vars out)))"
  using assms(1)
proof (cases rule: body_rel.cases)
  case (repair s2 resp r1 spec err)
  then show ?thesis
    using assms(3) paired_append [of _ "[rspMessage resp, UserMessage (buildRepairPrompt err)]"]
    by (simp add: UserMessage_def)
next
  case (tools s2 resp r1 bt' ms)
  then show ?thesis
    using assms(3) paired_turn [of "rspMessage resp" ms] paired_append by simp
next
  case (fatal s2 resp r1 bt' ms err)
  then have "list_all2 answers (msgToolCalls (rspMessage resp)) ms" using assms(2) by simp
  then show ?thesis
    using fatal assms(3) paired_turn [of "rspMessage resp" ms] paired_append by simp
qed (use assms(3) in \<open>auto intro!: paired_append\<close>)

lemma turns_paired:
  "turns E a c step r ts r' err \<Longrightarrow> resStopReason (rnRes r') \<noteq> StopReasonError \<or> agParallelTools a \<Longrightarrow>
     paired (resMessages (rnRes r)) \<Longrightarrow> paired (resMessages (rnRes r'))"
proof (induction rule: turns.induct)
  case (return step r ts r' err)
  then show ?case using body_paired [OF return(2)] by simp
next
  case (continue step r ts r' us r'' err)
  then show ?case using body_paired [OF continue(2)] by simp
qed auto

section \<open>Usage\<close>

lemma body_usage:
  assumes "body_rel E a c step r ts out" "usage_in_range (ssUsage (rnSess r))"
  shows "ssUsage (rnSess (out_vars out)) = usage_add (ssUsage (rnSess r)) (usage_sum (map (\<lambda>t. rspUsage (tnResp t)) ts))"
  using assms(1)
proof (cases rule: body_rel.cases)
qed (use assms(2) in \<open>auto simp: prepared_fields(1) usage_add_assoc [symmetric]\<close>)

lemma body_result_usage:
  "body_rel E a c step r ts out \<Longrightarrow> ts \<noteq> [] \<Longrightarrow>
     resUsage (rnRes (out_vars out)) = ssUsage (rnSess (out_vars out))"
  by (erule body_rel.cases) (simp_all add: prepared_fields(1))

lemma body_result_usage_Nil:
  "body_rel E a c step r [] out \<Longrightarrow> resUsage (rnRes (out_vars out)) = resUsage (rnRes r)"
  by (erule body_rel.cases) simp_all

lemma turns_usage:
  "turns E a c step r ts r' err \<Longrightarrow> usage_in_range (ssUsage (rnSess r)) \<Longrightarrow>
     ssUsage (rnSess r') = usage_add (ssUsage (rnSess r)) (usage_sum (map (\<lambda>t. rspUsage (tnResp t)) ts))"
proof (induction rule: turns.induct)
  case (return step r ts r' err)
  then show ?case using body_usage [OF return(2)] by simp
next
  case (continue step r ts r' us r'' err)
  then show ?case using body_usage [OF continue(2)] by (simp add: usage_sum_append usage_add_assoc)
qed auto

lemma turns_within_budget:
  "turns E a c step r ts r' err \<Longrightarrow> \<forall>t\<in>set ts. within_budget (tnBt t) \<and> generated E a c (tnSess t) (tnResp t)"
  by (induction rule: turns.induct) (auto dest: body_turns)

section \<open>Why a run stopped\<close>

definition stop_ok :: "'w env \<Rightarrow> string \<Rightarrow> goerr option \<Rightarrow> bool" where
  "stop_ok E reason err \<longleftrightarrow>
     (reason \<in> {StopReasonStop, StopReasonMaxSteps} \<and> err = None) \<or>
     (reason = StopReasonBudget \<and> (\<exists>l d. err = Some (BudgetError l d))) \<or>
     (reason = StopReasonCanceled \<and> (\<exists>e c w. err = Some e \<and> fst (envCtxErr E c w) = Some e)) \<or>
     (reason = StopReasonError \<and> err \<noteq> None)"

lemma check_BudgetError: "check now bt = Some e \<Longrightarrow> \<exists>l d. e = BudgetError l d"
  by (auto simp: check_def split: if_splits)

lemma ctx_stop_ok: "ctx_stop E bt reason err \<Longrightarrow> stop_ok E reason err"
  unfolding ctx_stop_def
proof (elim disjE conjE exE, goal_cases)
  case 1
  then show ?case by (simp add: stop_ok_def)
next
  case (2 now e)
  then show ?case using check_BudgetError by (simp add: stop_ok_def)
next
  case (3 e c w)
  then have "\<exists>e c w. err = Some e \<and> fst (envCtxErr E c w) = Some e" by (intro exI conjI)
  with 3(1) show ?case by (simp only: stop_ok_def simp_thms)
qed

lemma body_stop:
  "body_rel E a c step r ts (SReturn r' err) \<Longrightarrow> stop_ok E (resStopReason (rnRes r')) err"
proof (erule body_returnE, goal_cases)
  case (1 now err)
  then show ?case by (auto simp: stop_ok_def dest: check_BudgetError)
next
  case (2 s2 reason)
  then show ?case using ctx_stop_ok by simp
qed (simp_all add: stop_ok_def)

lemma turns_stop: "turns E a c step r ts r' err \<Longrightarrow> stop_ok E (resStopReason (rnRes r')) err"
proof (induction rule: turns.induct)
  case (ended r reason err step)
  then show ?case using ctx_stop_ok by simp
next
  case (return step r ts r' err)
  then show ?case by (blast intro: body_stop)
qed (simp_all add: stop_ok_def [of _ StopReasonMaxSteps])

text \<open>A run that ended with an answer.\<close>

definition answered :: "'w agent \<Rightarrow> turn list \<Rightarrow> run_vars \<Rightarrow> bool" where
  "answered a ts r \<longleftrightarrow> (\<exists>us t. ts = us @ [t] \<and> msgToolCalls (rspMessage (tnResp t)) = [] \<and>
     resText (rnRes r) = msgText (rspMessage (tnResp t)) \<and>
     (\<exists>ms. resMessages (rnRes r) = ms @ [rspMessage (tnResp t)]) \<and>
     (case agOutput a of None \<Rightarrow> True
      | Some spec \<Rightarrow> decodeOutput spec (resText (rnRes r)) = Inr (resOutput (rnRes r))))"

lemma body_answered:
  assumes "body_rel E a c step r ts (SReturn r' err)" "resStopReason (rnRes r') = StopReasonStop" "ctx_sticky E"
  shows "answered a ts r'"
  using assms(1)
proof (cases rule: body_rel.cases)
  case (model_ctx s2 reason)
  then show ?thesis using assms by (auto simp: ctx_stop_def)
next
  case (answer s2 resp r1 out)
  then show ?thesis by (auto simp: answered_def)
qed (use assms(2) in simp_all)

lemma turns_answered:
  "turns E a c step r ts r' err \<Longrightarrow> resStopReason (rnRes r') = StopReasonStop \<Longrightarrow> ctx_sticky E \<Longrightarrow>
     answered a ts r'"
proof (induction rule: turns.induct)
  case (ended r reason err step)
  then show ?case by (auto simp: ctx_stop_def)
next
  case (return step r ts r' err)
  then show ?case using body_answered by blast
next
  case (continue step r ts r' us r'' err)
  then show ?case by (auto simp: answered_def)
qed simp

section \<open>Server-side threads\<close>

text \<open>
  A provider that keeps conversations under response ids: what it takes a request to say is the
  conversation stored under the previous response id, if one is given, followed by the messages
  of the request; it stores that conversation with its answer under the new id.
\<close>

definition server_view :: "(string \<rightharpoonup> message list) \<Rightarrow> request \<Rightarrow> message list" where
  "server_view srv req = (if rqPreviousResponseID req = [] then rqMessages req
     else (case srv (rqPreviousResponseID req) of None \<Rightarrow> [] | Some conv \<Rightarrow> conv) @ rqMessages req)"

definition server_store :: "'w agent \<Rightarrow> (string \<rightharpoonup> message list) \<Rightarrow> turn \<Rightarrow> (string \<rightharpoonup> message list)" where
  "server_store a srv t = srv(rspID (tnResp t) \<mapsto>
     server_view srv (buildRequestLocked a (tnSess t)) @ [rspMessage (tnResp t)])"

fun views_ok :: "'w agent \<Rightarrow> (string \<rightharpoonup> message list) \<Rightarrow> turn list \<Rightarrow> bool" where
  "views_ok a srv [] \<longleftrightarrow> True"
| "views_ok a srv (t # ts) \<longleftrightarrow>
     server_view srv (buildRequestLocked a (tnSess t)) = ssHistory (tnSess t) \<and>
     views_ok a (server_store a srv t) ts"

definition thread_inv :: "'w agent \<Rightarrow> (string \<rightharpoonup> message list) \<Rightarrow> session \<Rightarrow> bool" where
  "thread_inv a srv s \<longleftrightarrow> (threadingActive a s \<longrightarrow> ssLastResponseID s \<noteq> [] \<longrightarrow>
     ssThreadSentIdx s \<le> length (ssHistory s) \<and>
     srv (ssLastResponseID s) = Some (take (ssThreadSentIdx s) (ssHistory s)))"

lemma thread_inv_view:
  "thread_inv a srv s \<Longrightarrow> server_view srv (buildRequestLocked a s) = ssHistory s"
  by (auto simp: thread_inv_def server_view_def buildRequestLocked_def buildRequest_def)

lemma thread_inv_prepared: "thread_inv a srv s \<Longrightarrow> prepared a s s2 \<Longrightarrow> thread_inv a srv s2"
  by (auto simp: thread_inv_def prepared_def sess_compact_def sess_unthread_def threadingActive_def)

lemma thread_inv_append: "thread_inv a srv s \<Longrightarrow> thread_inv a srv (sess_append s ms)"
  by (auto simp: thread_inv_def threadingActive_def)

lemma thread_inv_response:
  assumes "thread_inv a srv s"
  shows "thread_inv a (server_store a srv \<lparr>tnSess = s, tnBt = bt, tnResp = resp\<rparr>) (sess_response a s resp)"
  using thread_inv_view [OF assms]
  by (auto simp: thread_inv_def server_store_def sess_response_def Let_def threadingActive_def)

lemma body_thread:
  assumes "body_rel E a c step r ts out" "thread_inv a srv (rnSess r)"
  shows "views_ok a srv ts \<and> thread_inv a (foldl (server_store a) srv ts) (rnSess (out_vars out))"
  using assms(1)
  by (cases rule: body_rel.cases)
    (auto intro!: thread_inv_append thread_inv_response dest: thread_inv_prepared [OF assms(2)]
      intro: thread_inv_view thread_inv_prepared [OF assms(2)] assms(2))

lemma views_ok_append:
  "views_ok a srv (ts @ us) \<longleftrightarrow> views_ok a srv ts \<and> views_ok a (foldl (server_store a) srv ts) us"
  by (induction ts arbitrary: srv) auto

lemma turns_thread:
  "turns E a c step r ts r' err \<Longrightarrow> thread_inv a srv (rnSess r) \<Longrightarrow>
     views_ok a srv ts \<and> thread_inv a (foldl (server_store a) srv ts) (rnSess r')"
proof (induction arbitrary: srv rule: turns.induct)
  case (return step r ts r' err)
  then show ?case using body_thread [OF return(2)] by simp
next
  case (continue step r ts r' us r'' err)
  then show ?case using body_thread [OF continue(2)] by (simp add: views_ok_append)
qed auto

section \<open>runWith\<close>

definition run_start :: "'w agent \<Rightarrow> session \<Rightarrow> message \<Rightarrow> addr \<Rightarrow> tracker \<Rightarrow> run_vars" where
  "run_start a s userMsg tr bt = \<lparr>rnSess = start_session s userMsg tr, rnBt = bt,
     rnRes = result_zero tr, rnRepairs = agOutputRepairs a\<rparr>"

definition run_spec ::
  "'w env \<Rightarrow> 'w agent \<Rightarrow> session \<Rightarrow> message \<Rightarrow> budget \<Rightarrow> turn list \<Rightarrow> run_vars \<Rightarrow> goerr option \<Rightarrow> bool" where
  "run_spec E a s userMsg b ts r err \<longleftrightarrow>
     (\<exists>c tr now. turns E a c 0 (run_start a s userMsg tr (newBudgetTracker now b)) ts r err)"

lemma post_bt_new: "post (bt_new E b) s (\<lambda>bt t. \<exists>now. bt = newBudgetTracker now b)"
  by (auto simp: bt_new_def intro!: post_all)

lemma post_runWith:
  "post (runWith E a s c0 userMsg b) u (\<lambda>q t. \<exists>ts r. fst (fst q) = rnRes r \<and> snd q = rnSess r \<and>
     run_spec E a s userMsg b ts r (snd (fst q)))"
proof -
  have "post (run_loop E a c tr 0 (run_start a s userMsg tr bt)) v (\<lambda>q t. post (do {
          _ \<leftarrow> (if \<not> time_is_zero dl then ctx_cancel E c else State_Monad.return ());
          State_Monad.return ((rnRes (fst q), snd q), rnSess (fst q))}) t
      (\<lambda>q t. \<exists>ts r. fst (fst q) = rnRes r \<and> snd q = rnSess r \<and> run_spec E a s userMsg b ts r (snd (fst q))))"
    if "\<exists>now. bt = newBudgetTracker now b" for c tr bt v dl
  proof (rule post_mono [OF post_run_loop], goal_cases)
    case (1 q t)
    then have "\<exists>ts. run_spec E a s userMsg b ts (fst q) (snd q)"
      using that by (auto simp: run_spec_def)
    then show ?case by (auto intro!: post_all)
  qed
  then show ?thesis
    unfolding runWith_def Let_def post_bind run_start_def
    by - (rule post_all, rule post_mono [OF post_bt_new], rule post_all, simp only: case_prod_beta post_bind)
qed

section \<open>The token budget\<close>

text \<open>The tracker before each model call has counted exactly the responses before it.\<close>

fun trackers_ok :: "budget \<Rightarrow> usage \<Rightarrow> turn list \<Rightarrow> bool" where
  "trackers_ok b u [] \<longleftrightarrow> True"
| "trackers_ok b u (t # ts) \<longleftrightarrow> btB (tnBt t) = b \<and> btUsed (tnBt t) = u \<and>
     trackers_ok b (usage_add u (rspUsage (tnResp t))) ts"

lemma trackers_ok_append:
  "trackers_ok b u (ts @ us) \<longleftrightarrow> trackers_ok b u ts \<and>
     trackers_ok b (foldl (\<lambda>u t. usage_add u (rspUsage (tnResp t))) u ts) us"
  by (induction ts arbitrary: u) auto

lemma body_trackers:
  assumes "body_rel E a c step r ts out" "no_subagents a"
  shows "trackers_ok (btB (rnBt r)) (btUsed (rnBt r)) ts \<and> btB (rnBt (out_vars out)) = btB (rnBt r) \<and>
     btUsed (rnBt (out_vars out)) = foldl (\<lambda>u t. usage_add u (rspUsage (tnResp t))) (btUsed (rnBt r)) ts"
  using assms by (cases rule: body_rel.cases) (auto simp: tracker_frame_def)

lemma turns_trackers:
  "turns E a c step r ts r' err \<Longrightarrow> no_subagents a \<Longrightarrow> trackers_ok (btB (rnBt r)) (btUsed (rnBt r)) ts"
proof (induction rule: turns.induct)
  case (return step r ts r' err)
  then show ?case using body_trackers [OF return(2)] by simp
next
  case (continue step r ts r' us r'' err)
  then show ?case using body_trackers [OF continue(2)] by (simp add: trackers_ok_append)
qed auto

lemma foldl_usage:
  "usage_in_range u \<Longrightarrow> foldl (\<lambda>u t. usage_add u (rspUsage (tnResp t))) u ts
     = usage_add u (usage_sum (map (\<lambda>t. rspUsage (tnResp t)) ts))"
  by (induction ts arbitrary: u) (simp_all add: usage_add_assoc)

lemma within_budget_tokens:
  "within_budget bt \<Longrightarrow> MaxTotalTokens (btB bt) > 0 \<Longrightarrow> TotalTokens (btUsed bt) < MaxTotalTokens (btB bt)"
  by (auto simp: within_budget_def check_def split: if_splits)

lemma within_budget_cost:
  "within_budget bt \<Longrightarrow> MaxCostUSD (btB bt) > 0 \<Longrightarrow> CostUSD (btUsed bt) < MaxCostUSD (btB bt)"
  by (auto simp: within_budget_def check_def split: if_splits)

end
