(* ===== verification/Run_Theorems.thy ===== *)
theory Run_Theorems
  imports Run_Props
begin

text \<open>
  The theorems on a whole run, \<open>Session.runWith\<close>, stated over the result, the error and the
  session it leaves. They hold for every environment, model, tool, hook and schedule.
\<close>

lemma runWith_turns:
  assumes "fst (run_state (runWith E a s c m b) st) = ((res, err), s')"
  obtains ts r where "res = rnRes r" "s' = rnSess r" "run_spec E a s m b ts r err"
  using post_run_state [OF post_runWith, of E a s c m b st] assms by auto

text \<open>A property of the outcome follows from one of the specification.\<close>

lemma run_outcomeI:
  assumes "\<And>err ts r. run_spec E a s m b ts r err \<Longrightarrow> P (rnRes r) err (rnSess r)"
  shows "case fst (run_state (runWith E a s c m b) st) of ((res, err), s') \<Rightarrow> P res err s'"
proof -
  obtain res err s' where q: "fst (run_state (runWith E a s c m b) st) = ((res, err), s')"
    by (metis prod.collapse)
  obtain ts r where "res = rnRes r" "s' = rnSess r" "run_spec E a s m b ts r err"
    by (rule runWith_turns [OF q])
  then show ?thesis using assms q by simp
qed

lemma run_start_fields [simp]:
  "rnSess (run_start a s m tr bt) = start_session s m tr"
  "rnBt (run_start a s m tr bt) = bt"
  "resSteps (rnRes (run_start a s m tr bt)) = 0"
  "resMessages (rnRes (run_start a s m tr bt)) = []"
  by (simp_all add: run_start_def result_zero_def)

lemma start_session_fields [simp]:
  "ssHistory (start_session s m tr) = ssHistory s @ [m]"
  "ssUsage (start_session s m tr) = ssUsage s"
  "ssThreadSentIdx (start_session s m tr) = ssThreadSentIdx s"
  "ssLastResponseID (start_session s m tr) = ssLastResponseID s"
  "ssThreadingDisabled (start_session s m tr) = ssThreadingDisabled s"
  by (simp_all add: start_session_def)

text \<open>
  C1: Every execution of \<open>runWith\<close> is a run of the abstract specification: a sequence of turns,
  each of which prepares the session, asks the model for the request of that session and
  reports the model's error, answers, repairs, calls the tools or stops.
\<close>

theorem run_refines_turns:
  "case fst (run_state (runWith E a s c m b) st) of ((res, err), s') \<Rightarrow>
     \<exists>ts r. res = rnRes r \<and> s' = rnSess r \<and> run_spec E a s m b ts r err"
  by (rule run_outcomeI) blast

text \<open>
  C9: A run ends after at most \<open>MaxSteps\<close> model responses, and \<open>Result.Steps\<close> counts them.
\<close>

theorem run_steps_bounded:
  "case fst (run_state (runWith E a s c m b) st) of ((res, err), s') \<Rightarrow>
     int (resSteps res) \<le> max 0 (agMaxSteps a) \<and>
     (\<exists>ts r. run_spec E a s m b ts r err \<and> res = rnRes r \<and> resSteps res = length ts)"
proof (rule run_outcomeI)
  fix err ts r
  assume r: "run_spec E a s m b ts r err"
  then have "resSteps (rnRes r) = length ts \<and> int (length ts) \<le> max 0 (agMaxSteps a)"
    unfolding run_spec_def by (auto dest!: turns_steps)
  with r show "int (resSteps (rnRes r)) \<le> max 0 (agMaxSteps a) \<and>
     (\<exists>ts ra. run_spec E a s m b ts ra err \<and> rnRes r = rnRes ra \<and> resSteps (rnRes r) = length ts)"
    by auto
qed

text \<open>
  C2: Why a run stopped, in the result and in the error alike. \<open>stop\<close>: no error, and the last
  response was an answer without tool calls whose text is \<open>Result.Text\<close> and which decoded to
  \<open>Result.Output\<close>; \<open>max_steps\<close>: no error; \<open>budget\<close>: a budget error; \<open>canceled\<close>: an error of the
  context; \<open>error\<close>: some error. There is no other stop reason. (An ended context stays ended.)
\<close>

theorem run_outcome_classified:
  assumes "ctx_sticky E"
  shows "case fst (run_state (runWith E a s c m b) st) of ((res, err), s') \<Rightarrow>
     if resStopReason res = StopReasonStop
     then err = None \<and> (\<exists>ts r. run_spec E a s m b ts r err \<and> res = rnRes r \<and> answered a ts r)
     else stop_ok E (resStopReason res) err"
proof (rule run_outcomeI)
  fix err ts r
  assume r: "run_spec E a s m b ts r err"
  then have ok: "stop_ok E (resStopReason (rnRes r)) err"
    unfolding run_spec_def by (auto dest: turns_stop)
  have ans: "answered a ts r" if "resStopReason (rnRes r) = StopReasonStop"
    using r that assms unfolding run_spec_def by (auto dest: turns_answered)
  have "err = None" if "resStopReason (rnRes r) = StopReasonStop"
    using ok that by (simp add: stop_ok_def)
  with r ok ans show "if resStopReason (rnRes r) = StopReasonStop
     then err = None \<and> (\<exists>ts ra. run_spec E a s m b ts ra err \<and> rnRes r = rnRes ra \<and> answered a ts ra)
     else stop_ok E (resStopReason (rnRes r)) err"
    by auto
qed

lemma demo_ctx_sticky [simp]: "ctx_sticky demo_env"
  by (simp add: ctx_sticky_def demo_env_def)

theorem run_outcome_classified_witness:
  "case fst (run_state (runWith demo_env demo_agent (NewSession demo_agent) CtxBackground (UserMessage ''hi'')
       demo_budget) demo_st) of ((res, err), s') \<Rightarrow>
     if resStopReason res = StopReasonStop
     then err = None \<and> (\<exists>ts r. run_spec demo_env demo_agent (NewSession demo_agent) (UserMessage ''hi'') demo_budget ts r err
            \<and> res = rnRes r \<and> answered demo_agent ts r)
     else stop_ok demo_env (resStopReason res) err"
  by (rule run_outcome_classified) simp

text \<open>
  Without a compactor, a run only appends to the history: the user's message, then exactly
  the messages of the result.
\<close>

theorem run_appends_history:
  assumes "agCompactor a = None"
  shows "case fst (run_state (runWith E a s c m b) st) of ((res, err), s') \<Rightarrow>
     ssHistory s' = ssHistory s @ [m] @ resMessages res"
proof (rule run_outcomeI)
  fix err ts r
  assume "run_spec E a s m b ts r err"
  then show "ssHistory (rnSess r) = ssHistory s @ [m] @ resMessages (rnRes r)"
    unfolding run_spec_def by (auto dest!: turns_history [OF _ assms])
qed

theorem run_appends_history_witness:
  "case fst (run_state (runWith demo_env demo_agent (NewSession demo_agent) CtxBackground (UserMessage ''hi'')
       demo_budget) demo_st) of ((res, err), s') \<Rightarrow>
     ssHistory s' = ssHistory (NewSession demo_agent) @ [UserMessage ''hi''] @ resMessages res"
  by (rule run_appends_history) (simp add: demo_agent_def)

text \<open>
  C7: In the messages of a run that did not stop with an error, or that ran its tools in
  parallel, every assistant message with tool calls is followed at once by the results of its
  calls, in their order, so that the history stays valid for a provider.
\<close>

theorem run_pairs_tool_results:
  assumes "fst (run_state (runWith E a s c m b) st) = ((res, err), s')"
    and "resStopReason res \<noteq> StopReasonError \<or> agParallelTools a"
  shows "paired (resMessages res)"
proof -
  obtain ts r where r: "res = rnRes r" "run_spec E a s m b ts r err"
    using runWith_turns assms(1) by blast
  then show ?thesis
    using assms(2) unfolding run_spec_def by (auto dest!: turns_paired)
qed

theorem run_pairs_tool_results_witness:
  "\<exists>res err s'. fst (run_state (runWith demo_env demo_agent (NewSession demo_agent) CtxBackground
       (UserMessage ''hi'') demo_budget) demo_st) = ((res, err), s') \<and> paired (resMessages res)"
proof -
  obtain res err s' where q: "fst (run_state (runWith demo_env demo_agent (NewSession demo_agent) CtxBackground
       (UserMessage ''hi'') demo_budget) demo_st) = ((res, err), s')" by (metis prod.collapse)
  have "paired (resMessages res)"
    by (rule run_pairs_tool_results [OF q]) (simp add: demo_agent_def)
  with q show ?thesis by blast
qed

text \<open>
  C10: Session usage. A run adds to the usage of the session exactly the usage of its model
  responses, each of which the model produced for the request of the turn.
\<close>

theorem run_accounts_usage:
  assumes "usage_in_range (ssUsage s)"
  shows "case fst (run_state (runWith E a s c m b) st) of ((res, err), s') \<Rightarrow>
     \<exists>ts r c'. run_spec E a s m b ts r err \<and> s' = rnSess r \<and>
       (\<forall>t\<in>set ts. generated E a c' (tnSess t) (tnResp t)) \<and>
       ssUsage s' = usage_add (ssUsage s) (usage_sum (map (\<lambda>t. rspUsage (tnResp t)) ts))"
proof (rule run_outcomeI)
  fix err ts r
  assume r: "run_spec E a s m b ts r err"
  then obtain c' tr now where t: "turns E a c' 0 (run_start a s m tr (newBudgetTracker now b)) ts r err"
    by (auto simp: run_spec_def)
  have "ssUsage (rnSess r) = usage_add (ssUsage s) (usage_sum (map (\<lambda>t. rspUsage (tnResp t)) ts))"
    using turns_usage [OF t] assms by simp
  with r turns_within_budget [OF t]
  show "\<exists>ts ra c'. run_spec E a s m b ts ra err \<and> rnSess r = rnSess ra \<and>
       (\<forall>t\<in>set ts. generated E a c' (tnSess t) (tnResp t)) \<and>
       ssUsage (rnSess r) = usage_add (ssUsage s) (usage_sum (map (\<lambda>t. rspUsage (tnResp t)) ts))"
    by (intro exI [of _ ts] exI [of _ r] exI [of _ c']) simp
qed

theorem run_accounts_usage_witness:
  "case fst (run_state (runWith demo_env demo_agent (NewSession demo_agent) CtxBackground (UserMessage ''hi'')
       demo_budget) demo_st) of ((res, err), s') \<Rightarrow>
     \<exists>ts r c'. run_spec demo_env demo_agent (NewSession demo_agent) (UserMessage ''hi'') demo_budget ts r err \<and>
       s' = rnSess r \<and>
       (\<forall>t\<in>set ts. generated demo_env demo_agent c' (tnSess t) (tnResp t)) \<and>
       ssUsage s' = usage_add usage_zero (usage_sum (map (\<lambda>t. rspUsage (tnResp t)) ts))"
  using run_accounts_usage [where s = "NewSession demo_agent" and E = demo_env and a = demo_agent
      and c = CtxBackground and m = "UserMessage ''hi''" and b = demo_budget and st = demo_st]
  by (simp add: NewSession_def)

text \<open>
  C3: Server-side threads. With a provider that keeps the conversation under its response id, what
  the provider takes every request to say is the full history of the session, although a
  threaded request carries only the messages since the last response; compaction and the
  fallback from threading included.
\<close>

theorem run_threads_full_history:
  assumes "thread_inv a srv s"
  shows "case fst (run_state (runWith E a s c m b) st) of ((res, err), s') \<Rightarrow>
     \<exists>ts r. run_spec E a s m b ts r err \<and> s' = rnSess r \<and>
       views_ok a srv ts \<and> thread_inv a (foldl (server_store a) srv ts) s'"
proof (rule run_outcomeI)
  fix err ts r
  assume r: "run_spec E a s m b ts r err"
  then obtain c' tr now where t: "turns E a c' 0 (run_start a s m tr (newBudgetTracker now b)) ts r err"
    by (auto simp: run_spec_def)
  have "thread_inv a srv (start_session s m tr)"
    using assms by (auto simp: thread_inv_def threadingActive_def)
  then have "views_ok a srv ts \<and> thread_inv a (foldl (server_store a) srv ts) (rnSess r)"
    using turns_thread [OF t, of srv] by simp
  with r show "\<exists>ts ra. run_spec E a s m b ts ra err \<and> rnSess r = rnSess ra \<and>
       views_ok a srv ts \<and> thread_inv a (foldl (server_store a) srv ts) (rnSess r)"
    by auto
qed

theorem run_threads_full_history_witness:
  "case fst (run_state (runWith demo_env demo_agent (NewSession demo_agent) CtxBackground (UserMessage ''hi'')
       demo_budget) demo_st) of ((res, err), s') \<Rightarrow>
     \<exists>ts r. run_spec demo_env demo_agent (NewSession demo_agent) (UserMessage ''hi'') demo_budget ts r err \<and>
       s' = rnSess r \<and> views_ok demo_agent Map.empty ts \<and>
       thread_inv demo_agent (foldl (server_store demo_agent) Map.empty ts) s'"
  by (rule run_threads_full_history) (simp add: thread_inv_def NewSession_def)

end
