(* ===== verification/Trace_Own.thy ===== *)
theory Trace_Own
  imports Trace_Store
begin

text \<open>
  The model calls of a run itself in its trace: the model spans below the step spans of its root. The runs of
  subagents hang below tool spans and have roots of their own, so their model calls are not among
  them. \<open>own_kept\<close> is the frame relation of the operations of \<open>trace.go\<close>: none of them but opening and closing
  the model span of a step changes what is recorded of these calls.
\<close>

definition own_steps :: "span list \<Rightarrow> addr \<Rightarrow> addr list" where
  "own_steps h r = filter (\<lambda>x. spKind (h ! x) = SpanStep) (spChildren (h ! r))"

definition own_models :: "span list \<Rightarrow> addr \<Rightarrow> addr list" where
  "own_models h x = filter (\<lambda>y. spKind (h ! y) = SpanModel) (spChildren (h ! x))"

definition own_addrs :: "span list \<Rightarrow> addr \<Rightarrow> addr list" where
  "own_addrs h r = concat (map (own_models h) (own_steps h r))"

definition own_usages :: "span list \<Rightarrow> addr \<Rightarrow> usage list" where
  "own_usages h r = map (\<lambda>y. spUsage (h ! y)) (own_addrs h r)"

definition own_kept :: "addr \<Rightarrow> span list \<Rightarrow> span list \<Rightarrow> bool" where
  "own_kept r h t \<longleftrightarrow> own_addrs t r = own_addrs h r \<and> (\<forall>y \<in> set (own_addrs h r). spUsage (t ! y) = spUsage (h ! y))"

lemma own_kept_refl [simp, intro]: "own_kept r h h"
  by (simp add: own_kept_def)

lemma own_kept_trans: "own_kept r h t \<Longrightarrow> own_kept r t u \<Longrightarrow> own_kept r h u"
  by (simp add: own_kept_def)

lemma own_kept_usages: "own_kept r h t \<Longrightarrow> own_usages t r = own_usages h r"
  by (simp add: own_kept_def own_usages_def)

lemma own_steps_bounds: "run_tree r h0 h \<Longrightarrow> x \<in> set (own_steps h r) \<Longrightarrow> r < x \<and> x < length h"
  using run_treeD(3) [of r h0 h] run_treeD(5) [of r h0 h r x] by (auto simp: own_steps_def)

lemma own_models_bounds: "run_tree r h0 h \<Longrightarrow> r < x \<Longrightarrow> x < length h \<Longrightarrow> y \<in> set (own_models h x) \<Longrightarrow> x < y \<and> y < length h"
  using run_treeD(5) [of r h0 h x y] by (auto simp: own_models_def)

lemma own_addrs_bounds:
  assumes "run_tree r h0 h" "y \<in> set (own_addrs h r)"
  shows "r < y" "y < length h" "spKind (h ! y) = SpanModel"
proof -
  obtain x where x: "x \<in> set (own_steps h r)" and y: "y \<in> set (own_models h x)"
    using assms(2) by (auto simp: own_addrs_def)
  note b = own_steps_bounds [OF assms(1) x]
  note c = own_models_bounds [OF assms(1) _ _ y]
  show "r < y" "y < length h" using b c by auto
  show "spKind (h ! y) = SpanModel" using y by (simp add: own_models_def)
qed

text \<open>Spans with the same kinds and the same children have the same model calls.\<close>

lemma own_addrs_same:
  "(\<And>b. spKind (t ! b) = spKind (h ! b)) \<Longrightarrow> (\<And>b. spChildren (t ! b) = spChildren (h ! b)) \<Longrightarrow> own_addrs t r = own_addrs h r"
proof -
  assume "\<And>b. spKind (t ! b) = spKind (h ! b)" "\<And>b. spChildren (t ! b) = spChildren (h ! b)"
  then have "own_models t = own_models h" "own_steps t r = own_steps h r"
    by (simp_all add: own_models_def own_steps_def fun_eq_iff)
  then show ?thesis by (simp add: own_addrs_def)
qed

lemma own_addrs_agree:
  assumes "own_steps t r = own_steps h r @ zs" "\<And>x. x \<in> set (own_steps h r) \<Longrightarrow> own_models t x = own_models h x"
  shows "own_addrs t r = own_addrs h r @ concat (map (own_models t) zs)"
  using assms by (simp add: own_addrs_def cong: map_cong)

section \<open>What keeps the model calls\<close>

lemma own_addrs_update:
  assumes "spChildren x = spChildren (h ! a)" "spKind x = spKind (h ! a)"
  shows "own_addrs (h[a := x]) r = own_addrs h r"
proof (rule own_addrs_same)
  fix b
  show "spKind (h[a := x] ! b) = spKind (h ! b)" "spChildren (h[a := x] ! b) = spChildren (h ! b)"
    using assms nth_list_update_neq [of a b h x] nth_list_update_eq [of a h x] list_update_beyond [of h a x]
    by (metis not_le)+
qed

lemma own_kept_update:
  assumes t: "run_tree r h0 h"
    and x: "spChildren x = spChildren (h ! a)" "spKind x = spKind (h ! a)" "spUsage x = spUsage (h ! a) \<or> a \<le> r"
  shows "own_kept r h (h[a := x])"
  unfolding own_kept_def
proof (intro conjI ballI own_addrs_update x(1,2))
  fix y assume "y \<in> set (own_addrs h r)"
  note b = own_addrs_bounds(1,2) [OF t this]
  show "spUsage (h[a := x] ! y) = spUsage (h ! y)"
  proof (cases "y = a")
    case True
    then have "spUsage x = spUsage (h ! a)" using x(3) b(1) by simp
    then show ?thesis using True b(2) by simp
  next
    case False
    then show ?thesis using nth_list_update_neq [of a y h x] by simp
  qed
qed

text \<open>A span below \<open>p\<close> whose number is the length of the store, with whatever hangs below it, that is not a model span.\<close>

lemma own_kept_child:
  assumes t: "run_tree r h0 h" and sub: "run_tree (length h) h h'" and p: "r \<le> p" "p < length h"
    and k: "spKind (h' ! length h) \<noteq> SpanModel" "spKind (h' ! length h) = SpanStep \<Longrightarrow> spChildren (h' ! length h) = []"
  shows "own_kept r h (h'[p := (h' ! p)\<lparr>spChildren := spChildren (h' ! p) @ [length h]\<rparr>])" (is "own_kept r h ?t")
proof -
  let ?n = "length h"
  have r: "r < ?n" by (rule run_treeD(3) [OF t])
  have old: "h' ! b = h ! b" if "b < ?n" for b
    using that run_treeD(2) [OF sub] by (metis nth_take)
  have n: "?n < length h'" by (rule run_treeD(3) [OF sub])
  have kind: "spKind (?t ! b) = spKind (h ! b)" "spUsage (?t ! b) = spUsage (h ! b)"
    and ch: "spChildren (?t ! b) = spChildren (h ! b) @ (if b = p then [?n] else [])" if "b < ?n" for b
    using that old [OF that] n by (cases "b = p"; simp)+
  have new: "?t ! ?n = h' ! ?n" using p by simp
  have kids: "filter (\<lambda>y. spKind (?t ! y) = K) (spChildren (h ! b)) = filter (\<lambda>y. spKind (h ! y) = K) (spChildren (h ! b))"
    if "r \<le> b" "b < ?n" for b K
    by (rule filter_cong [OF refl]) (use run_treeD(5) [OF t that] kind in auto)
  have "own_steps ?t r = own_steps h r @ (if p = r \<and> spKind (h' ! ?n) = SpanStep then [?n] else [])"
    unfolding own_steps_def ch [OF r] filter_append kids [OF order_refl r] using new by (cases "p = r") simp_all
  moreover have "own_models ?t x = own_models h x" if "x \<in> set (own_steps h r)" for x
    using own_steps_bounds [OF t that] kids [of x] k(1) by (simp add: own_models_def ch new)
  ultimately have "own_addrs ?t r = own_addrs h r @
      concat (map (own_models ?t) (if p = r \<and> spKind (h' ! ?n) = SpanStep then [?n] else []))"
    by (rule own_addrs_agree)
  moreover have "own_models ?t ?n = []" if "spKind (h' ! ?n) = SpanStep" using k(2) that by (simp add: own_models_def new)
  ultimately have "own_addrs ?t r = own_addrs h r" by (cases "spKind (h' ! ?n) = SpanStep"; cases "p = r") simp_all
  then show ?thesis using own_addrs_bounds(2) [OF t] kind(2) by (simp add: own_kept_def)
qed

text \<open>Below the root of a run the spans before it do not matter.\<close>

lemma own_kept_below:
  assumes t: "run_tree r h0 h" and a: "a < r"
  shows "own_kept r h (h[a := x])"
proof -
  have same: "h[a := x] ! b = h ! b" if "r \<le> b" for b using a that nth_list_update_neq [of a b h x] by linarith
  have kids: "filter (\<lambda>y. spKind (h[a := x] ! y) = K) (spChildren (h ! b)) = filter (\<lambda>y. spKind (h ! y) = K) (spChildren (h ! b))"
    if "r \<le> b" "b < length h" for b K
  proof (rule filter_cong [OF refl])
    fix y assume "y \<in> set (spChildren (h ! b))"
    then have "r \<le> y" using run_treeD(5) [OF t that] that(1) by fastforce
    then show "(spKind (h[a := x] ! y) = K) = (spKind (h ! y) = K)" by (simp add: same)
  qed
  have "own_steps (h[a := x]) r = own_steps h r"
    using kids [OF order_refl run_treeD(3) [OF t]] by (simp add: own_steps_def same)
  moreover have "own_models (h[a := x]) y = own_models h y" if "y \<in> set (own_steps h r)" for y
    using own_steps_bounds [OF t that] kids [of y] by (simp add: own_models_def same)
  ultimately have "own_addrs (h[a := x]) r = own_addrs h r" using own_addrs_agree [of "h[a := x]" r h "[]"] by simp
  moreover have "h[a := x] ! y = h ! y" if "y \<in> set (own_addrs h r)" for y
    by (rule same) (use own_addrs_bounds(1) [OF t that] in simp)
  ultimately show ?thesis by (simp add: own_kept_def)
qed

section \<open>The model call of a step\<close>

text \<open>A new span below \<open>p\<close>, as \<open>trace_child\<close> makes it.\<close>

definition with_child :: "span list \<Rightarrow> addr \<Rightarrow> span \<Rightarrow> span list" where
  "with_child h p x = (h @ [x])[p := ((h @ [x]) ! p)\<lparr>spChildren := spChildren ((h @ [x]) ! p) @ [length h]\<rparr>]"

lemma with_child_nth:
  assumes "p < length h"
  shows "b < length h \<Longrightarrow> b \<noteq> p \<Longrightarrow> with_child h p x ! b = h ! b"
    "with_child h p x ! p = (h ! p)\<lparr>spChildren := spChildren (h ! p) @ [length h]\<rparr>"
    "with_child h p x ! length h = x" "length (with_child h p x) = Suc (length h)"
  using assms by (simp_all add: with_child_def nth_append)

lemma post_trace_child_heap:
  "post (trace_child E p kind name) s (\<lambda>a u. a = length (stHeap s) \<and> (\<exists>x. spKind x = kind \<and> spChildren x = [] \<and>
     spUsage x = usage_zero \<and> stHeap u = with_child (stHeap s) p x))"
proof -
  have "\<exists>x. spKind x = kind \<and> spChildren x = [] \<and> spUsage x = usage_zero \<and>
      with_child h p (new_span i kind name now) = with_child h p x" for i now h
    by (intro exI [of _ "new_span i kind name now"]) (simp add: new_span_def)
  then show ?thesis
    unfolding trace_child_def post_bind
    apply (intro post_heap_same [OF heap_same_newID] post_heap_same [OF heap_same_time_now])
    by (simp add: span_alloc_def span_modify_def with_child_def [symmetric])
qed

lemma own_kept_with_child:
  assumes t: "run_tree r h0 h" and p: "r \<le> p" "p < length h" and x: "spChildren x = []" "spKind x \<noteq> SpanModel"
  shows "own_kept r h (with_child h p x)"
proof -
  have "(h @ [x]) ! length h = x" by simp
  then show ?thesis
    unfolding with_child_def using own_kept_child [OF t run_tree_leaf [OF x(1)] p] x by simp
qed

lemma own_addrs_open_model:
  assumes t: "run_tree r h0 h"
    and x: "spKind x = SpanStep" "spChildren x = []" and y: "spKind y = SpanModel" "spUsage y = usage_zero"
    and g: "g = with_child (with_child h r x) (length h) y"
  shows "own_addrs g r = own_addrs h r @ [Suc (length h)]" "own_usages g r = own_usages h r @ [usage_zero]"
proof -
  let ?n = "length h"
  have r: "r < ?n" by (rule run_treeD(3) [OF t])
  note c = with_child_nth [OF r, where x = x]
  have n: "?n < length (with_child h r x)" by (simp add: c)
  note d = with_child_nth [OF n, where x = y, unfolded c(4)]
  have old: "g ! b = h ! b" if "b < ?n" "b \<noteq> r" for b using that by (simp add: g d c)
  have root: "g ! r = (h ! r)\<lparr>spChildren := spChildren (h ! r) @ [?n]\<rparr>" using r by (simp add: g d c)
  have step: "g ! ?n = x\<lparr>spChildren := [Suc ?n]\<rparr>" and model: "g ! Suc ?n = y" by (simp_all add: g d c x)
  have kind: "spKind (g ! b) = spKind (h ! b)" "spUsage (g ! b) = spUsage (h ! b)" if "b < ?n" for b
    using that by (cases "b = r"; simp add: root old)+
  have kids: "filter (\<lambda>y. spKind (g ! y) = K) (spChildren (h ! b)) = filter (\<lambda>y. spKind (h ! y) = K) (spChildren (h ! b))"
    if "r \<le> b" "b < ?n" for b K
    by (rule filter_cong [OF refl]) (use run_treeD(5) [OF t that] kind in auto)
  have "own_steps g r = own_steps h r @ [?n]"
    using kids [OF order_refl r] by (simp add: own_steps_def root step x)
  moreover have "own_models g b = own_models h b" if "b \<in> set (own_steps h r)" for b
    using own_steps_bounds [OF t that] kids [of b] by (simp add: own_models_def old)
  moreover have "own_models g ?n = [Suc ?n]" by (simp add: own_models_def step model y)
  ultimately show a: "own_addrs g r = own_addrs h r @ [Suc ?n]" by (simp add: own_addrs_agree)
  show "own_usages g r = own_usages h r @ [usage_zero]"
    using own_addrs_bounds(2) [OF t] kind(2) by (simp add: own_usages_def a model y)
qed

lemma own_usages_close_model:
  assumes "own_addrs h r = as @ [m]" "m \<notin> set as" "m < length h" "spChildren x = spChildren (h ! m)" "spKind x = spKind (h ! m)"
  shows "own_usages (h[m := x]) r = butlast (own_usages h r) @ [spUsage x]"
proof -
  have "map (\<lambda>y. spUsage (h[m := x] ! y)) as = map (\<lambda>y. spUsage (h ! y)) as"
    using assms(2) by (intro map_cong [OF refl]) (metis nth_list_update_neq)
  then show ?thesis using assms(1,3) own_addrs_update [OF assms(4,5), of r] by (simp add: own_usages_def)
qed

end
