(* ===== verification/Run_Trace.thy ===== *)
theory Run_Trace
  imports Run_Props Trace_Own
begin

text \<open>
  The trace of a run. Whatever a run appends to the store of spans is one tree below its root
  span, nested runs of subagents included, for every schedule of a fan-out. \<open>tree\<close> is the
  invariant, \<open>grows\<close> the contract of a computation that keeps it and records no model call of the
  run itself; the rules follow the operations of \<open>trace.go\<close>, and the lemmas the functions of
  \<open>run.go\<close> from the inside out. Only the body of a step opens a model span of the run:
  \<open>post_run_body_own\<close> says which usage it records there.
\<close>

section \<open>Keeping the tree\<close>

definition tree :: "addr \<Rightarrow> span list \<Rightarrow> nat \<Rightarrow> 'w st \<Rightarrow> bool" where
  "tree r h0 n s \<longleftrightarrow> run_tree r h0 (stHeap s) \<and> n \<le> length (stHeap s) \<and> spKind (stHeap s ! r) = SpanRun"

definition grown :: "addr \<Rightarrow> span list \<Rightarrow> nat \<Rightarrow> 'w st \<Rightarrow> 'w st \<Rightarrow> bool" where
  "grown r h0 n s t \<longleftrightarrow> tree r h0 n t \<and> own_kept r (stHeap s) (stHeap t)"

definition grows :: "addr \<Rightarrow> span list \<Rightarrow> nat \<Rightarrow> ('w st, 'a) state \<Rightarrow> bool" where
  "grows r h0 n m \<longleftrightarrow> (\<forall>s. tree r h0 n s \<longrightarrow> post m s (\<lambda>v t. grown r h0 n s t))"

lemma grown_tree: "grown r h0 n s t \<Longrightarrow> tree r h0 n t"
  by (simp add: grown_def)

lemma grown_refl: "tree r h0 n s \<Longrightarrow> grown r h0 n s s"
  by (simp add: grown_def)

lemma grown_trans: "grown r h0 k s t \<Longrightarrow> grown r h0 n t u \<Longrightarrow> grown r h0 n s u"
  by (auto simp: grown_def intro: own_kept_trans)

lemma grown_usages: "grown r h0 n s t \<Longrightarrow> own_usages (stHeap t) r = own_usages (stHeap s) r"
  by (simp add: grown_def own_kept_usages)

lemma growsD: "grows r h0 n m \<Longrightarrow> tree r h0 n s \<Longrightarrow> post m s (\<lambda>v t. grown r h0 n s t)"
  by (simp add: grows_def)

lemma grows_tree: "grows r h0 n m \<Longrightarrow> tree r h0 n s \<Longrightarrow> post m s (\<lambda>v t. tree r h0 n t)"
  by (rule post_mono [OF growsD]) (auto dest: grown_tree)

lemma tree_weaken: "tree r h0 n s \<Longrightarrow> k \<le> n \<Longrightarrow> tree r h0 k s"
  by (simp add: tree_def)

lemma grown_weaken: "grown r h0 n s t \<Longrightarrow> k \<le> n \<Longrightarrow> grown r h0 k s t"
  by (auto simp: grown_def intro: tree_weaken)

lemma tree_length: "tree r h0 n s \<Longrightarrow> a < n \<Longrightarrow> a < length (stHeap s)"
  by (simp add: tree_def)

text \<open>An update of one span of the run.\<close>

lemma grown_update:
  assumes "tree r h0 n s" "r \<le> a" "a < n" "stHeap t = (stHeap s)[a := x]"
    and "spChildren x = spChildren (stHeap s ! a)" "spKind x = spKind (stHeap s ! a)"
    and "spUsage x = spUsage (stHeap s ! a) \<or> a = r"
  shows "grown r h0 n s t"
proof -
  have t: "run_tree r h0 (stHeap s)" and l: "a < length (stHeap s)" "n \<le> length (stHeap s)"
    and k: "spKind (stHeap s ! r) = SpanRun"
    using assms(1,3) by (auto simp: tree_def)
  have "spKind ((stHeap s)[a := x] ! r) = SpanRun"
    using k assms(6) l(1) by (cases "a = r") simp_all
  moreover have "own_kept r (stHeap s) ((stHeap s)[a := x])"
    by (rule own_kept_update [OF t assms(5,6)]) (use assms(7) in auto)
  ultimately show ?thesis
    using run_tree_update [OF t assms(2) l(1) assms(5)] l(2) by (simp add: grown_def tree_def assms(4))
qed

lemma grows_return [simp, intro]: "grows r h0 n (State_Monad.return v)"
  by (simp add: grows_def grown_refl)

lemma grows_bind [intro]:
  assumes "grows r h0 n m" "\<And>v. grows r h0 n (f v)"
  shows "grows r h0 n (State_Monad.bind m f)"
  unfolding grows_def post_bind
proof (intro allI impI)
  fix s :: "'a st"
  assume s: "tree r h0 n s"
  show "post m s (\<lambda>v t. post (f v) t (\<lambda>v u. grown r h0 n s u))"
    by (rule post_mono [OF growsD [OF assms(1) s]])
      (auto intro: post_mono [OF growsD [OF assms(2) grown_tree]] grown_trans)
qed

lemma grows_heap_same: "heap_same m \<Longrightarrow> grows r h0 n m"
  by (auto simp: grows_def grown_def tree_def intro: post_heap_same)

lemma grows_on_world [simp, intro]: "grows r h0 n (on_world f)"
  by (simp add: grows_heap_same)

lemma grows_time_now [simp, intro]: "grows r h0 n (time_now E)"
  by (simp add: grows_heap_same)

lemma grows_ctx_Err [simp, intro]: "grows r h0 n (ctx_Err E c)"
  by (simp add: grows_heap_same)

lemma grows_ctx_cancel [simp, intro]: "grows r h0 n (ctx_cancel E c)"
  by (simp add: grows_heap_same)

lemma grows_agent_emit [simp, intro]: "grows r h0 n (agent_emit E a mk)"
  by (simp add: agent_emit_def grows_heap_same)

lemma grows_sub_emit [simp, intro]: "grows r h0 n (sub_emit E h sub mk)"
  by (simp add: sub_emit_def grows_heap_same)

lemma grows_finish_call [simp, intro]: "grows r h0 n (finish_call E a call content err)"
  by (simp add: finish_call_def)

lemma grows_if [intro]: "(b \<Longrightarrow> grows r h0 n m) \<Longrightarrow> (\<not> b \<Longrightarrow> grows r h0 n m') \<Longrightarrow> grows r h0 n (if b then m else m')"
  by simp

lemma grows_option [intro]:
  "grows r h0 n m \<Longrightarrow> (\<And>v. grows r h0 n (f v)) \<Longrightarrow> grows r h0 n (case x of None \<Rightarrow> m | Some v \<Rightarrow> f v)"
  by (cases x) auto

lemma grows_sum [intro]:
  "(\<And>u. grows r h0 n (f u)) \<Longrightarrow> (\<And>v. grows r h0 n (g v)) \<Longrightarrow> grows r h0 n (case x of Inl u \<Rightarrow> f u | Inr v \<Rightarrow> g v)"
  by (cases x) auto

lemma grows_prod [intro]: "(\<And>u v. grows r h0 n (f u v)) \<Longrightarrow> grows r h0 n (case x of (u, v) \<Rightarrow> f u v)"
  by (cases x) auto

lemma grows_prod2 [intro]: "(\<And>u v. grows r h0 n (f u v y)) \<Longrightarrow> grows r h0 n ((case x of (u, v) \<Rightarrow> f u v) y)"
  by (cases x) auto

lemmas grows_rules = grows_bind grows_prod grows_prod2 grows_if grows_option grows_sum grows_return
  grows_on_world grows_time_now grows_ctx_Err grows_ctx_cancel grows_agent_emit grows_sub_emit grows_finish_call

lemma grows_span_modify:
  assumes "r \<le> a" "a < n" "\<And>sp. spChildren (f sp) = spChildren sp" "\<And>sp. spKind (f sp) = spKind sp"
    and "(\<forall>sp. spUsage (f sp) = spUsage sp) \<or> a = r"
  shows "grows r h0 n (span_modify a f)"
  unfolding grows_def
proof (intro allI impI)
  fix s :: "'a st"
  assume s: "tree r h0 n s"
  show "post (span_modify a f) s (\<lambda>v t. grown r h0 n s t)"
    using grown_update [OF s assms(1,2) _ assms(3,4)] assms(5) by (auto simp: span_modify_def)
qed

lemma grows_span_error: "r \<le> a \<Longrightarrow> a < n \<Longrightarrow> grows r h0 n (span_error a msg)"
  unfolding span_error_def by (rule grows_span_modify) auto

lemma grows_span_end:
  assumes "r \<le> a" "a < n"
  shows "grows r h0 n (span_end E a)"
  unfolding grows_def
proof (intro allI impI)
  fix s :: "'a st"
  assume s: "tree r h0 n s"
  then have t: "run_tree r h0 (stHeap s)" by (simp add: tree_def)
  show "post (span_end E a) s (\<lambda>v t. grown r h0 n s t)"
    by (rule post_mono [OF post_span_end [OF t assms(1) tree_length [OF s assms(2)]]])
      (auto intro: grown_update [OF s assms])
qed

text \<open>A new span that is not a model span.\<close>

lemma post_child_tree:
  assumes s: "tree r h0 n s" and p: "r \<le> p" "p < n" and k: "kind \<noteq> SpanModel"
  shows "post (trace_child E p kind name) s (\<lambda>a t. r \<le> a \<and> n \<le> a \<and> grown r h0 (Suc a) s t)"
proof -
  have h: "run_tree r h0 (stHeap s)" "n \<le> length (stHeap s)" "spKind (stHeap s ! r) = SpanRun"
    using s by (auto simp: tree_def)
  note c = post_conj [OF post_trace_child [OF h(1) p(1) tree_length [OF s p(2)]] post_trace_child_heap]
  show ?thesis
  proof (rule post_mono [OF c], goal_cases)
    case (1 a t)
    then obtain x where x: "spKind x = kind" "spChildren x = []" "stHeap t = with_child (stHeap s) p x" by blast
    have l: "p < length (stHeap s)" "r < length (stHeap s)" using p h by auto
    have "spKind (stHeap t ! r) = SpanRun"
      using with_child_nth [OF l(1), where x = x] l(2) h(3) by (cases "r = p") (simp_all add: x(3))
    moreover have "own_kept r (stHeap s) (stHeap t)"
      unfolding x(3) by (rule own_kept_with_child [OF h(1) p(1) l(1) x(2)]) (simp add: x(1) k)
    ultimately show ?case using 1 h(2) l(2) by (auto simp: grown_def tree_def)
  qed
qed

text \<open>A new span for the rest of a computation.\<close>

lemma grows_bind_child:
  assumes "r \<le> p" "p < n" "kind \<noteq> SpanModel" "\<And>a. r \<le> a \<Longrightarrow> n \<le> a \<Longrightarrow> grows r h0 (Suc a) (f a)"
  shows "grows r h0 n (State_Monad.bind (trace_child E p kind name) f)"
  unfolding grows_def post_bind
proof (intro allI impI)
  fix s :: "'a st"
  assume "tree r h0 n s"
  then have "post (trace_child E p kind name) s (\<lambda>a t. r \<le> a \<and> n \<le> a \<and> grown r h0 (Suc a) s t)"
    using assms by (intro post_child_tree)
  then show "post (trace_child E p kind name) s (\<lambda>a t. post (f a) t (\<lambda>v u. grown r h0 n s u))"
  proof (rule post_mono)
    fix a and t :: "'a st"
    assume a: "r \<le> a \<and> n \<le> a \<and> grown r h0 (Suc a) s t"
    then have t: "grown r h0 (Suc a) s t" and f: "grows r h0 (Suc a) (f a)" and n: "n \<le> Suc a"
      using assms(4) [of a] by auto
    show "post (f a) t (\<lambda>v u. grown r h0 n s u)"
      by (rule post_mono [OF growsD [OF f grown_tree [OF t]]]) (rule grown_weaken [OF grown_trans [OF t] n])
  qed
qed

section \<open>Calls and subagents\<close>

text \<open>What a subagent's run does to the store: a tree of its own, whose root the result names.\<close>

definition traced_run :: "(result \<times> goerr option) \<Rightarrow> 'w st \<Rightarrow> 'w st \<Rightarrow> bool" where
  "traced_run q s t \<longleftrightarrow> resTrace (fst q) = length (stHeap s) \<and>
     run_tree (length (stHeap s)) (stHeap s) (stHeap t) \<and> spKind (stHeap t ! length (stHeap s)) = SpanRun"

definition traced_sub :: "'w subagent \<Rightarrow> bool" where
  "traced_sub sub \<longleftrightarrow> (\<forall>c m b s. post (subRun sub c m b) s (\<lambda>q t. traced_run q s t))"

definition traced_tools :: "'w agent \<Rightarrow> bool" where
  "traced_tools a \<longleftrightarrow> (\<forall>n t sub. agTools a n = Some t \<longrightarrow> tlImpl t = ToolAgent sub \<longrightarrow> traced_sub sub)"

lemma grown_graft:
  assumes s: "tree r h0 n s" and p: "r \<le> p" "p < n"
    and k: "k = length (stHeap s)" "run_tree k (stHeap s) (stHeap u)" "spKind (stHeap u ! k) = SpanRun"
  shows "post (graft p k) u (\<lambda>_ t. grown r h0 n s t)"
proof -
  have h: "run_tree r h0 (stHeap s)" "n \<le> length (stHeap s)" "spKind (stHeap s ! r) = SpanRun"
    using s by (auto simp: tree_def)
  have l: "p < length (stHeap s)" "r < length (stHeap s)" "length (stHeap s) < length (stHeap u)"
    using p h(2) run_treeD(3) [OF k(2)] k(1) by auto
  let ?t = "(stHeap u)[p := (stHeap u ! p)\<lparr>spChildren := spChildren (stHeap u ! p) @ [length (stHeap s)]\<rparr>]"
  have "stHeap u ! r = stHeap s ! r"
    using run_treeD(2) [OF k(2)] l(2) k(1) by (metis nth_take)
  then have "spKind (?t ! r) = SpanRun" using h(3) l by (cases "r = p") simp_all
  moreover have "own_kept r (stHeap s) ?t"
    by (rule own_kept_child [OF h(1) _ p(1) l(1)]) (use k in simp_all)
  moreover have "run_tree r h0 ?t"
    by (rule run_tree_add_child [OF h(1) _ p(1) l(1)]) (use k in simp)
  ultimately show ?thesis using h(2) l(3) by (simp add: graft_def span_modify_def k(1) grown_def tree_def)
qed

lemma grows_sub_run:
  assumes sub: "traced_sub sub" and p: "r \<le> p" "p < n"
  shows "grows r h0 n (sub_run_graft E h sub c task child p)"
  unfolding grows_def
proof (intro allI impI)
  fix s :: "'a st"
  assume s: "tree r h0 n s"
  let ?h = "stHeap s" and ?k = "length (stHeap s)"
  have name: "post (span_modify ?k (\<lambda>x. x\<lparr>spName := nm\<rparr>)) u (\<lambda>_ v. run_tree ?k ?h (stHeap v) \<and> spKind (stHeap v ! ?k) = SpanRun)"
    if "run_tree ?k ?h (stHeap u)" "spKind (stHeap u ! ?k) = SpanRun" for u :: "'a st" and nm
    using run_tree_update [OF that(1) order_refl, of "(stHeap u ! ?k)\<lparr>spName := nm\<rparr>"] run_treeD(3) [OF that(1)] that(2)
    by (simp add: span_modify_def)
  have "post (subRun sub c (UserMessage task) child) s (\<lambda>q t. traced_run q s t)"
    using sub by (simp add: traced_sub_def)
  then show "post (sub_run_graft E h sub c task child p) s (\<lambda>v t. grown r h0 n s t)"
    unfolding sub_run_graft_def post_bind
  proof (rule post_mono, goal_cases)
    case (1 q u)
    then have q: "resTrace (fst q) = ?k" "run_tree ?k ?h (stHeap u)" "spKind (stHeap u ! ?k) = SpanRun"
      by (auto simp: traced_run_def)
    have "post (sub_emit E h sub mk) t (\<lambda>_ v. grown r h0 n s v)" if "grown r h0 n s t" for mk and t :: "'a st"
      by (rule post_mono [OF growsD [OF grows_sub_emit grown_tree [OF that]]]) (rule grown_trans [OF that])
    then have "post (span_modify ?k (\<lambda>x. x\<lparr>spName := nm\<rparr>)) u (\<lambda>_ t. post (graft p ?k) t (\<lambda>_ t.
        post (sub_emit E h sub mk) t (\<lambda>_ t. grown r h0 n s t)))" for nm mk
      by (intro post_mono [OF name [OF q(2,3)]]) (auto intro: post_mono [OF grown_graft [OF s p refl]])
    then show ?case by (simp add: case_prod_beta q(1))
  qed
qed

section \<open>One call\<close>

lemma grows_refuse: "r \<le> sp \<Longrightarrow> sp < n \<Longrightarrow> grows r h0 n (refuse E a call sp msg)"
  unfolding refuse_def by (intro grows_bind grows_span_error) auto

lemma grows_bt_childBudget [simp, intro]: "grows r h0 n (bt_childBudget E bt req)"
  unfolding bt_childBudget_def by auto

lemma grows_safeInvoke [simp, intro]: "grows r h0 n (safeInvoke name fn c args)"
  unfolding safeInvoke_def by auto

lemma grows_ask_approval [simp, intro]: "grows r h0 n (ask_approval a c call tool)"
  unfolding ask_approval_def by auto

lemma grows_invokeSub:
  "traced_sub sub \<Longrightarrow> r \<le> sp \<Longrightarrow> sp < n \<Longrightarrow> grows r h0 n (invokeSub E h sub c args sp bt)"
  unfolding invokeSub_def by (intro grows_rules grows_sub_run) auto

lemma grows_invoke_tool:
  assumes "\<And>sub. tlImpl tool = ToolAgent sub \<Longrightarrow> traced_sub sub" "r \<le> sp" "sp < n"
  shows "grows r h0 n (invoke_tool E a c call sp tool bt)"
proof (cases "tlImpl tool")
  case (ToolFunc fn)
  show ?thesis
    unfolding invoke_tool_def ToolFunc tool_impl.case
    by (intro grows_rules grows_span_error assms(2,3)) auto
next
  case (ToolAgent sub)
  show ?thesis
    unfolding invoke_tool_def ToolAgent tool_impl.case
    by (intro grows_rules grows_invokeSub grows_span_error assms ToolAgent)
qed

lemma grows_approve_invoke:
  assumes "\<And>sub. tlImpl tool = ToolAgent sub \<Longrightarrow> traced_sub sub" "r \<le> sp" "sp < n"
  shows "grows r h0 n (approve_invoke E a c call sp tool bt)"
  unfolding approve_invoke_def
  by (intro grows_rules grows_refuse grows_invoke_tool assms) auto

lemma grows_invokeOne:
  assumes "traced_tools a" "r \<le> sp" "sp < n"
  shows "grows r h0 n (invokeOne E a c call sp bt)"
proof (cases "agTools a (tcName call)")
  case None
  then show ?thesis
    unfolding invokeOne_def using assms by (auto intro!: grows_bind grows_refuse)
next
  case (Some tool)
  have "\<And>sub. tlImpl tool = ToolAgent sub \<Longrightarrow> traced_sub sub"
    using assms(1) Some by (auto simp: traced_tools_def)
  then show ?thesis
    unfolding invokeOne_def Some option.case
    using assms(2,3) by (intro grows_if grows_bind grows_refuse grows_approve_invoke) auto
qed

lemma grows_bind_open:
  assumes "r \<le> p" "p < n" "\<And>a. r \<le> a \<Longrightarrow> n \<le> a \<Longrightarrow> grows r h0 (Suc a) (f a)"
  shows "grows r h0 n (State_Monad.bind (open_tool_span E p call) f)"
  unfolding open_tool_span_def State_Monad.bind_assoc State_Monad.bind_left_identity
  using assms by (intro grows_bind_child grows_bind grows_span_modify) auto

lemma grows_one_call:
  assumes "traced_tools a" "r \<le> parent" "parent < n"
  shows "grows r h0 n (one_call E a c parent call bt)"
  unfolding one_call_def
  by (intro grows_bind_open grows_rules grows_invokeOne grows_span_end assms) auto

lemma grows_seq_calls:
  assumes "traced_tools a" "r \<le> parent" "parent < n"
  shows "grows r h0 n (seq_calls E a c parent out calls bt)"
proof (induction calls arbitrary: out bt)
  case (Cons call calls)
  show ?case
    unfolding seq_calls.simps
    by (intro grows_rules grows_one_call assms Cons)
qed simp

section \<open>The fan-out\<close>

fun phase_addr_ok :: "'w agent \<Rightarrow> addr \<Rightarrow> nat \<Rightarrow> 'w phase \<Rightarrow> bool" where
  "phase_addr_ok a r n (PhGate sp) \<longleftrightarrow> r \<le> sp \<and> sp < n"
| "phase_addr_ok a r n (PhApprove sp tool) \<longleftrightarrow> r \<le> sp \<and> sp < n \<and> tool \<in> ran (agTools a)"
| "phase_addr_ok a r n (PhInvoke sp tool) \<longleftrightarrow> r \<le> sp \<and> sp < n \<and> tool \<in> ran (agTools a)"
| "phase_addr_ok a r n (PhSub sp sub _ _ _) \<longleftrightarrow> r \<le> sp \<and> sp < n \<and> traced_sub sub"
| "phase_addr_ok a r n (PhSettle sp _ _ _) \<longleftrightarrow> r \<le> sp \<and> sp < n"
| "phase_addr_ok a r n (PhNote sp _ _ _) \<longleftrightarrow> r \<le> sp \<and> sp < n"
| "phase_addr_ok a r n (PhEnd sp _ _) \<longleftrightarrow> r \<le> sp \<and> sp < n"
| "phase_addr_ok a r n _ \<longleftrightarrow> True"

lemma phase_addr_mono: "phase_addr_ok a r n ph \<Longrightarrow> n \<le> k \<Longrightarrow> phase_addr_ok a r k ph"
  by (cases ph) auto

lemma call_step_addr:
  assumes "traced_tools a" "phase_addr_ok a r n ph" "ph \<noteq> PhStart"
  shows "post (call_step E a c parent call ph bt) s (\<lambda>q t. phase_addr_ok a r n (fst q))"
proof (cases ph)
  case (PhInvoke sp tool)
  have "traced_sub sub" if "tlImpl tool = ToolAgent sub" for sub
    using assms(1,2) that by (auto simp: PhInvoke traced_tools_def ran_def)
  then show ?thesis
    using assms(2) unfolding PhInvoke
    by (auto simp: post_splits bt_childBudget_def case_prod_beta intro!: post_all
        split: tool_impl.splits sum.splits option.splits)
next
  case (PhSettle sp grant used q)
  obtain content failed where "q = (content, failed)" by (cases q)
  then show ?thesis using assms(2) unfolding PhSettle by (auto simp: Let_def intro!: post_all)
qed (use assms in \<open>auto simp: post_splits intro!: post_all intro: ranI split: option.splits\<close>)

lemma call_step_grows:
  assumes tools: "traced_tools a" and ph: "phase_addr_ok a r n ph" "ph \<noteq> PhStart"
  shows "grows r h0 n (call_step E a c parent call ph bt)"
proof (cases ph)
  case (PhInvoke sp tool)
  show ?thesis
  proof (cases "tlImpl tool")
    case (ToolFunc fn)
    then show ?thesis
      using ph unfolding PhInvoke call_step.simps ToolFunc tool_impl.case
      by (intro grows_rules grows_safeInvoke grows_span_error) auto
  next
    case (ToolAgent sub)
    then show ?thesis
      unfolding PhInvoke call_step.simps ToolAgent tool_impl.case
      by (intro grows_rules grows_bt_childBudget)
  qed
next
  case (PhSettle sp grant used q)
  obtain content failed where "q = (content, failed)" by (cases q)
  then show ?thesis unfolding PhSettle by (auto simp: Let_def intro!: grows_rules)
next
  case (PhSub sp sub task child grant)
  then show ?thesis using ph by (auto intro!: grows_rules grows_sub_run)
next
  case (PhEnd sp content fatal)
  then show ?thesis using ph by (auto intro!: grows_rules grows_span_end split: option.splits)
next
  case (PhGate sp)
  then show ?thesis using ph by (auto intro!: grows_rules grows_refuse split: option.splits)
next
  case (PhApprove sp tool)
  then show ?thesis using ph by (auto intro!: grows_rules grows_refuse grows_ask_approval)
next
  case (PhNote sp serr content everr)
  then show ?thesis using ph by (auto intro!: grows_rules grows_span_error)
qed (use ph in auto)

lemma post_open_tree:
  assumes "tree r h0 n s" "r \<le> p" "p < n"
  shows "post (open_tool_span E p call) s (\<lambda>a t. r \<le> a \<and> n \<le> a \<and> grown r h0 (Suc a) s t)"
proof -
  have "post (span_modify a (\<lambda>x. x\<lparr>spTool := tcName call\<rparr>)) t (\<lambda>_ u. grown r h0 (Suc a) s u)"
    if "r \<le> a" "grown r h0 (Suc a) s t" for a and t :: "'a st"
    by (rule post_mono [OF growsD [OF grows_span_modify [of r a "Suc a"] grown_tree [OF that(2)]]])
      (use that in \<open>auto intro: grown_trans\<close>)
  then show ?thesis
    unfolding open_tool_span_def post_bind
    by (intro post_mono [OF post_child_tree [OF assms]]) (auto elim!: post_mono)
qed

lemma call_step_tree:
  assumes "traced_tools a" "phase_addr_ok a r n ph" "tree r h0 n s" "r \<le> parent" "parent < n"
  shows "post (call_step E a c parent call ph bt) s
     (\<lambda>q t. \<exists>k\<ge>n. grown r h0 k s t \<and> phase_addr_ok a r k (fst q))"
proof (cases "ph = PhStart")
  case True
  show ?thesis
    unfolding True call_step.simps post_bind
  proof (rule post_mono [OF post_open_tree [OF assms(3-5)]], goal_cases)
    case (1 sp t)
    then show ?case by (auto intro!: exI [of _ "Suc sp"])
  qed
next
  case False
  show ?thesis
    by (rule post_mono [OF post_conj [OF growsD [OF call_step_grows [OF assms(1,2) False] assms(3)]
          call_step_addr [OF assms(1,2) False]]]) blast
qed

lemma par_loop_tree:
  assumes "traced_tools a" "r \<le> parent" "parent < n" "tree r h0 n s" "\<forall>p\<in>set ps. phase_addr_ok a r n p"
  shows "post (par_loop E a c parent calls fuel ps bt) s (\<lambda>q t. grown r h0 n s t)"
  using assms(3-5)
proof (induction fuel arbitrary: n ps bt s)
  case (Suc fuel)
  let ?en = "enabled (maxParallel a) ps"
  have "post (call_step E a c parent (calls ! i) (ps ! i) bt) u (\<lambda>q t.
      post (par_loop E a c parent calls fuel (ps[i := fst q]) (snd q)) t (\<lambda>q v. grown r h0 n u v))"
    if i: "i \<in> set ?en" and u: "tree r h0 n u" for i and u :: "'a st"
  proof -
    have "phase_addr_ok a r n (ps ! i)" using Suc.prems(3) enabled_rank(1) [OF i] by simp
    from call_step_tree [OF assms(1) this u assms(2) Suc.prems(1)]
    show ?thesis
    proof (rule post_mono)
      fix q :: "'a phase \<times> tracker" and t :: "'a st"
      assume "\<exists>k\<ge>n. grown r h0 k u t \<and> phase_addr_ok a r k (fst q)"
      then obtain k where k: "n \<le> k" "grown r h0 k u t" "phase_addr_ok a r k (fst q)" by blast
      then have "\<forall>p\<in>set (ps[i := fst q]). phase_addr_ok a r k p"
        using Suc.prems(3) set_update_subset_insert [of ps i "fst q"] phase_addr_mono [OF _ k(1)] by blast
      from Suc.IH [OF less_le_trans [OF Suc.prems(1) k(1)] grown_tree [OF k(2)] this]
      show "post (par_loop E a c parent calls fuel (ps[i := fst q]) (snd q)) t (\<lambda>q v. grown r h0 n u v)"
        by (rule post_mono) (use k(1,2) in \<open>auto intro: grown_weaken grown_trans\<close>)
    qed
  qed
  note inner = this
  have step: "post (call_step E a c parent (calls ! i) (ps ! i) bt) u (\<lambda>q t.
      post (par_loop E a c parent calls fuel (ps[i := fst q]) (snd q)) t (\<lambda>q v. grown r h0 n s v))"
    if "i \<in> set ?en" "stHeap u = stHeap s" for i and u :: "'a st"
  proof -
    have "tree r h0 n u" using Suc.prems(2) that(2) by (simp add: tree_def)
    from inner [OF that(1) this] show ?thesis using that(2) by (simp add: grown_def)
  qed
  show ?case
    using Suc.prems(2) step
    by (auto simp: Let_def post_on_world case_prod_beta grown_refl)
qed (simp add: grown_refl)

lemma grows_runToolCalls:
  assumes "traced_tools a" "r \<le> parent" "parent < n"
  shows "grows r h0 n (runToolCalls E a c parent calls bt)"
proof -
  have "grows r h0 n (par_loop E a (CtxWithCancel c parent) parent calls (9 * length calls)
      (replicate (length calls) PhIdle) bt)"
    using par_loop_tree [OF assms] by (auto simp: grows_def)
  then have "grows r h0 n (par_calls E a c parent calls bt)"
    unfolding par_calls_def Let_def by (intro grows_rules)
  then show ?thesis using grows_seq_calls [OF assms] by (simp add: runToolCalls_def)
qed

section \<open>The parts of a run\<close>

lemma grows_bt_check [simp, intro]: "grows r h0 n (bt_check E bt)"
  unfolding bt_check_def by (intro grows_rules)

lemma grows_classify [simp, intro]: "grows r h0 n (classifyContextErr E c bt)"
  unfolding classifyContextErr_def by (intro grows_rules grows_bt_check)

lemma grows_recv_loop [simp, intro]: "grows r h0 n (recv_loop E a final rs)"
proof (induction rs arbitrary: final)
  case (Cons x rs)
  show ?case unfolding recv_loop.simps by (intro grows_rules Cons)
qed simp

lemma grows_generate [simp, intro]: "grows r h0 n (generate E a c req)"
  unfolding generate_def generateStream_def by (intro grows_rules grows_recv_loop)

lemma grows_maybeCompact:
  assumes "r \<le> tr" "tr < n"
  shows "grows r h0 n (maybeCompact E a c tr s)"
  unfolding maybeCompact_def Let_def
  by (intro grows_bind_child assms grows_rules grows_span_modify grows_span_error grows_span_end) auto

lemma grows_model_call:
  assumes "r \<le> mspan" "mspan < n"
  shows "grows r h0 n (model_call E a c mspan s)"
  unfolding model_call_def wants_fallback_def Let_def
  using assms by (intro grows_rules grows_generate grows_span_modify) auto

lemma grows_root_stop: "r \<le> tr \<Longrightarrow> tr < n \<Longrightarrow> grows r h0 n (root_stop tr reason)"
  unfolding root_stop_def by (rule grows_span_modify) auto

lemma grows_stops:
  assumes "r < n"
  shows "grows r h0 n (stop_ctx E a c r q)" "grows r h0 n (stop_max_steps E a r q)"
    "grows r h0 n (stop_budget E a r q err)"
  unfolding stop_ctx_def stop_max_steps_def stop_budget_def Let_def
  using assms
  by (intro grows_rules grows_classify grows_root_stop grows_span_end grows_span_modify; simp)+

lemma grows_stop_model:
  assumes "r < n" "r \<le> ss" "ss < n" "r \<le> ms" "ms < n"
  shows "grows r h0 n (stop_model E a c r ss ms q err)"
  unfolding stop_model_def
  using assms by (intro grows_rules grows_classify grows_span_error grows_span_end) auto

lemma grows_answer_ok:
  assumes "r < n" "r \<le> ss" "ss < n"
  shows "grows r h0 n (answer_ok E a r ss text out q)"
  unfolding answer_ok_def Let_def
  using assms by (intro grows_rules grows_span_end grows_span_modify) auto

lemma grows_answer_step:
  assumes "r < n" "r \<le> ss" "ss < n"
  shows "grows r h0 n (answer_step E a r ss text q)"
  unfolding answer_step_def
  using assms by (intro grows_rules grows_answer_ok grows_span_end) auto

lemma grows_tools_step:
  assumes "traced_tools a" "r < n" "r \<le> ss" "ss < n"
  shows "grows r h0 n (tools_step E a c r ss calls q)"
  unfolding tools_step_def Let_def
  using assms by (intro grows_rules grows_runToolCalls grows_span_end grows_span_modify) auto

section \<open>The model call of a step\<close>

text \<open>The model span of the step is open: no usage is recorded there yet.\<close>

definition opened :: "addr \<Rightarrow> span list \<Rightarrow> nat \<Rightarrow> 'w st \<Rightarrow> addr \<Rightarrow> addr \<Rightarrow> 'w st \<Rightarrow> bool" where
  "opened r h0 n s ss ms t \<longleftrightarrow> r < ss \<and> ss < ms \<and> n \<le> ms \<and> tree r h0 (Suc ms) t \<and>
     own_addrs (stHeap t) r = own_addrs (stHeap s) r @ [ms] \<and> ms \<notin> set (own_addrs (stHeap s) r) \<and>
     own_usages (stHeap t) r = own_usages (stHeap s) r @ [usage_zero]"

lemma opened_grown: "opened r h0 n s ss ms t \<Longrightarrow> grown r h0 (Suc ms) t u \<Longrightarrow> opened r h0 n s ss ms u"
  by (auto simp: opened_def grown_usages dest: grown_tree) (auto simp: grown_def own_kept_def)

lemma opened_from: "opened r h0 n s ss ms t \<Longrightarrow> grown r h0 k s0 s \<Longrightarrow> opened r h0 n s0 ss ms t"
  by (auto simp: opened_def grown_usages) (auto simp: grown_def own_kept_def)

lemma post_open_model:
  assumes s: "tree r h0 n s" and r: "r < n"
  shows "post (trace_child E r SpanStep nm) s (\<lambda>ss t. post (agent_emit E a mk) t (\<lambda>_ t.
     post (trace_child E ss SpanModel mn) t (\<lambda>ms t. opened r h0 n s ss ms t)))"
proof -
  have h: "run_tree r h0 (stHeap s)" "n \<le> length (stHeap s)" "spKind (stHeap s ! r) = SpanRun"
    using s by (auto simp: tree_def)
  let ?n = "length (stHeap s)"
  have l: "r < ?n" using r h(2) by simp
  have model: "post (trace_child E ?n SpanModel mn) t (\<lambda>ms u. opened r h0 n s ?n ms u)"
    if t: "run_tree r h0 (stHeap t)" "length (stHeap t) = Suc ?n"
      and x: "spKind x = SpanStep" "spChildren x = []" "stHeap t = with_child (stHeap s) r x" for t x
  proof -
    have "?n < length (stHeap t)" "r \<le> ?n" using t(2) l by simp_all
    note c = post_conj [OF post_trace_child [OF t(1) this(2) this(1)] post_trace_child_heap]
    show ?thesis
    proof (rule post_mono [OF c], goal_cases)
      case (1 ms u)
      then obtain y where y: "spKind y = SpanModel" "spUsage y = usage_zero" "stHeap u = with_child (stHeap t) ?n y"
        by blast
      have u: "stHeap u = with_child (with_child (stHeap s) r x) ?n y" using y(3) x(3) by simp
      have n: "?n < length (with_child (stHeap s) r x)" using with_child_nth(4) [OF l] by simp
      have "spKind (stHeap u ! r) = SpanRun"
        using l h(3) with_child_nth(1) [OF n, of r] with_child_nth(2) [OF l] by (simp add: u with_child_nth(4) [OF l])
      then show ?case
        using 1 own_addrs_open_model [OF h(1) x(1,2) y(1,2) u] own_addrs_bounds(2) [OF h(1)] h(2) l t(2)
        by (fastforce simp: opened_def tree_def)
    qed
  qed
  have emit: "post (agent_emit E a mk) t (\<lambda>_ t. post (trace_child E ?n SpanModel mn) t (\<lambda>ms u. opened r h0 n s ?n ms u))"
    if t: "run_tree r h0 (stHeap t)" "length (stHeap t) = Suc ?n"
      and x: "spKind x = SpanStep" "spChildren x = []" "stHeap t = with_child (stHeap s) r x" for t x
  proof (rule post_heap_same)
    show "heap_same (agent_emit E a mk)" by (simp add: agent_emit_def)
    fix v and u :: "'a st"
    assume "stHeap u = stHeap t"
    then show "post (trace_child E ?n SpanModel mn) u (\<lambda>ms u. opened r h0 n s ?n ms u)"
      using t x(3) by (intro model [OF _ _ x(1,2)]) simp_all
  qed
  note c = post_conj [OF post_trace_child [OF h(1) order_refl l] post_trace_child_heap]
  show ?thesis
    by (rule post_mono [OF c]) (use emit in blast)
qed

text \<open>The response arrives: its usage is recorded, and nothing after it.\<close>

lemma post_response_step_own:
  assumes "traced_tools a" "r < n" and t: "opened r h0 n s ss ms t"
  shows "post (response_step E a c r ss ms step resp q) t (\<lambda>out u. tree r h0 n u \<and>
     own_usages (stHeap u) r = own_usages (stHeap s) r @ [rspUsage resp])"
proof -
  let ?f = "\<lambda>x. (x\<lparr>spUsage := rspUsage resp, spStopReason := rspStopReason resp\<rparr>)
     \<lparr>spAttrs := (if ReasoningTokens (rspUsage resp) > 0
        then [''reasoning_tokens'' \<mapsto> AttrInt (ReasoningTokens (rspUsage resp))] else spAttrs x)\<rparr>"
  let ?Q = "\<lambda>u. tree r h0 (Suc ms) u \<and> own_usages (stHeap u) r = own_usages (stHeap s) r @ [rspUsage resp]"
  have b: "r < ss" "ss < ms" "n \<le> ms" and tr: "tree r h0 (Suc ms) t"
    and as: "own_addrs (stHeap t) r = own_addrs (stHeap s) r @ [ms]" "ms \<notin> set (own_addrs (stHeap s) r)"
    and us: "own_usages (stHeap t) r = own_usages (stHeap s) r @ [usage_zero]"
    using t by (auto simp: opened_def)
  have h: "run_tree r h0 (stHeap t)" "ms < length (stHeap t)" "spKind (stHeap t ! r) = SpanRun"
    using tr by (auto simp: tree_def)
  have close: "post (span_modify ms ?f) t (\<lambda>_. ?Q)"
    using run_tree_update [OF h(1) _ h(2), of "?f (stHeap t ! ms)"] h(2,3) b us
      own_usages_close_model [OF as h(2), of "?f (stHeap t ! ms)"]
    by (simp add: span_modify_def tree_def)
  have rest: "grows r h0 (Suc ms) (do {
      _ \<leftarrow> span_end E ms;
      _ \<leftarrow> agent_emit E a mk;
      _ \<leftarrow> agent_emit E a mk';
      if msgToolCalls (rspMessage resp) = [] then answer_step E a r ss ans q' else tools_step E a c r ss calls q'})"
    for mk mk' ans calls q'
    using assms(1) b by (intro grows_rules grows_answer_step grows_tools_step grows_span_end) auto
  have "post (do {
      _ \<leftarrow> span_end E ms;
      _ \<leftarrow> agent_emit E a mk;
      _ \<leftarrow> agent_emit E a mk';
      if msgToolCalls (rspMessage resp) = [] then answer_step E a r ss ans q' else tools_step E a c r ss calls q'}) v
     (\<lambda>out u. tree r h0 n u \<and> own_usages (stHeap u) r = own_usages (stHeap s) r @ [rspUsage resp])"
    if "?Q v" for mk mk' ans calls q' v
    by (rule post_mono [OF growsD [OF rest]])
      (use that b(3) in \<open>auto dest: grown_usages grown_tree intro: tree_weaken\<close>)
  with close show ?thesis
    unfolding response_step_def close_model_span_def Let_def State_Monad.bind_assoc
    by (subst post_bind) (erule post_mono, blast)
qed

section \<open>The run\<close>

text \<open>
  What the trace records of the model calls of a run: the usage of each response and, where the
  last call failed, a call without usage.
\<close>

definition turn_usages :: "turn list \<Rightarrow> usage list" where
  "turn_usages ts = map (\<lambda>t. rspUsage (tnResp t)) ts"

definition call_usages :: "turn list \<Rightarrow> usage list \<Rightarrow> run_vars \<Rightarrow> bool" where
  "call_usages ts us q \<longleftrightarrow> us = turn_usages ts \<or> us = turn_usages ts @ [usage_zero] \<and> within_budget (rnBt q)"

lemma turn_usages_append [simp]: "turn_usages (ts @ us) = turn_usages ts @ turn_usages us"
  by (simp add: turn_usages_def)

lemma call_usages_none [simp]: "call_usages [] [] q"
  by (simp add: call_usages_def turn_usages_def)

lemma body_no_turn: "body_rel E a c step r [] out \<Longrightarrow> rnBt (out_vars out) = rnBt r"
  by (erule body_rel.cases) auto

definition body_recorded ::
  "'w env \<Rightarrow> 'w agent \<Rightarrow> ctx \<Rightarrow> nat \<Rightarrow> run_vars \<Rightarrow> addr \<Rightarrow> span list \<Rightarrow> run_vars step_result \<Rightarrow> span list \<Rightarrow> bool" where
  "body_recorded E a c step q r h out h' \<longleftrightarrow> (\<exists>ts us. body_rel E a c step q ts out \<and>
     own_usages h' r = own_usages h r @ us \<and> call_usages ts us (out_vars out) \<and>
     (us = turn_usages ts \<or> (\<exists>q' err. out = SReturn q' err)))"

lemma stop_model_returns:
  "post (stop_model E a c tr ss ms q err) s (\<lambda>out t. \<exists>q' e. out = SReturn q' e)"
  by (simp add: stop_model_def case_prod_beta post_all)

lemma post_stop_model_own:
  assumes t: "opened r h0 n s ss ms t" and r: "r < n"
    and pre: "within_budget (rnBt q)" "prepared a (rnSess q) s2" "model_failed E a c s2 err"
  shows "post (stop_model E a c r ss ms (q\<lparr>rnSess := s2\<rparr>) err) t (\<lambda>out u. tree r h0 n u \<and>
     body_recorded E a c step q r (stHeap s) out (stHeap u))"
proof -
  have b: "r < ss" "ss < ms" "n \<le> ms" "tree r h0 (Suc ms) t"
    and us: "own_usages (stHeap t) r = own_usages (stHeap s) r @ [usage_zero]"
    using t by (auto simp: opened_def)
  have g: "grows r h0 (Suc ms) (stop_model E a c r ss ms (q\<lparr>rnSess := s2\<rparr>) err)"
    using b by (intro grows_stop_model) auto
  show ?thesis
  proof (rule post_mono [OF post_conj [OF growsD [OF g b(4)] post_conj [OF stop_model_returns post_stop_model [OF pre, where step = step]]]],
      goal_cases)
    case (1 out u)
    then have "tree r h0 n u" using b(3) by (auto dest: grown_tree intro: tree_weaken)
    moreover have "body_rel E a c step q [] out" "own_usages (stHeap u) r = own_usages (stHeap s) r @ [usage_zero]"
      using 1 us by (auto dest: grown_usages)
    moreover have "call_usages [] [usage_zero] (out_vars out)"
      using pre(1) body_no_turn [OF calculation(2)] by (simp add: call_usages_def turn_usages_def)
    ultimately show ?case using 1 unfolding body_recorded_def by blast
  qed
qed

lemma post_response_own:
  assumes "traced_tools a" and t: "opened r h0 n s ss ms t" and r: "r < n"
    and pre: "within_budget (rnBt q)" "prepared a (rnSess q) s2" "generated E a c s2 resp"
  shows "post (response_step E a c r ss ms step resp (q\<lparr>rnSess := s2\<rparr>)) t (\<lambda>out u. tree r h0 n u \<and>
     body_recorded E a c step q r (stHeap s) out (stHeap u))"
proof (rule post_mono [OF post_conj [OF post_response_step_own [OF assms(1) r t] post_response_step [OF pre]]], goal_cases)
  case (1 out u)
  have "call_usages [\<lparr>tnSess = s2, tnBt = rnBt q, tnResp = resp\<rparr>] [rspUsage resp] (out_vars out)"
    "[rspUsage resp] = turn_usages [\<lparr>tnSess = s2, tnBt = rnBt q, tnResp = resp\<rparr>]"
    by (simp_all add: call_usages_def turn_usages_def)
  with 1 show ?case unfolding body_recorded_def by blast
qed

lemma post_after_open:
  assumes tools: "traced_tools a" and t: "opened r h0 n s ss ms t" and r: "r < n"
    and wb: "within_budget (rnBt q)"
    and s1: "s1 = rnSess q \<or> agCompactor a \<noteq> None \<and> (\<exists>nh. s1 = sess_compact (rnSess q) nh)"
  shows "post (do {
      _ \<leftarrow> span_modify ms (\<lambda>x. x\<lparr>spModel := mn\<rparr>);
      (resp, s2) \<leftarrow> model_call E a c ms s1;
      (case resp of
         Inl err \<Rightarrow> stop_model E a c r ss ms (q\<lparr>rnSess := s2\<rparr>) err
       | Inr rsp \<Rightarrow> response_step E a c r ss ms step rsp (q\<lparr>rnSess := s2\<rparr>))}) t
    (\<lambda>out u. tree r h0 n u \<and> body_recorded E a c step q r (stHeap s) out (stHeap u))" (is "post _ _ ?Q")
proof -
  have b: "r < ms" "tree r h0 (Suc ms) t" using t by (auto simp: opened_def)
  have m: "grows r h0 (Suc ms) (span_modify ms (\<lambda>x. x\<lparr>spModel := mn\<rparr>))"
    using b by (intro grows_span_modify) auto
  have g: "grows r h0 (Suc ms) (model_call E a c ms s1)" using b(1) by (intro grows_model_call) auto
  have rest: "post (case x of (resp, s2) \<Rightarrow> (case resp of
         Inl err \<Rightarrow> stop_model E a c r ss ms (q\<lparr>rnSess := s2\<rparr>) err
       | Inr rsp \<Rightarrow> response_step E a c r ss ms step rsp (q\<lparr>rnSess := s2\<rparr>))) v ?Q"
    if v: "opened r h0 n s ss ms v"
      and x: "(snd x = s1 \<or> threadingActive a s1 \<and> snd x = sess_unthread s1) \<and> model_outcome E a c (snd x) (fst x)"
    for x v
  proof -
    obtain resp s2 where x2: "x = (resp, s2)" by (cases x)
    have p: "prepared a (rnSess q) s2" using prepared_intro [OF s1] x x2 by simp
    show ?thesis
      using x x2 post_stop_model_own [OF v r wb p] post_response_own [OF tools v r wb p]
      by (cases resp) simp_all
  qed
  have call: "post (model_call E a c ms s1) v (\<lambda>x u. post (case x of (resp, s2) \<Rightarrow> (case resp of
         Inl err \<Rightarrow> stop_model E a c r ss ms (q\<lparr>rnSess := s2\<rparr>) err
       | Inr rsp \<Rightarrow> response_step E a c r ss ms step rsp (q\<lparr>rnSess := s2\<rparr>))) u ?Q)"
    if v: "opened r h0 n s ss ms v" for v
  proof -
    have tr: "tree r h0 (Suc ms) v" using v by (simp add: opened_def)
    show ?thesis
      by (rule post_mono [OF post_conj [OF growsD [OF g tr] post_model_call]])
        (elim conjE, rule rest [OF opened_grown [OF v]], assumption, blast)
  qed
  show ?thesis
    unfolding post_bind
    by (rule post_mono [OF growsD [OF m b(2)]]) (use call opened_grown [OF t] in blast)
qed

lemma post_run_body_own:
  assumes tools: "traced_tools a" and s: "tree r h0 n s" and r: "r < n"
  shows "post (run_body E a c r step q) s (\<lambda>out t. tree r h0 n t \<and> body_recorded E a c step q r (stHeap s) out (stHeap t))"
    (is "post _ _ ?Q")
  unfolding run_body_def post_bind
proof (rule post_mono [OF post_conj [OF growsD [OF grows_bt_check s] post_bt_check]], elim conjE exE, goal_cases)
  case (1 be t now)
  note t = grown_tree [OF 1(1)]
  show ?case
  proof (cases be)
    case (Some err)
    then have "body_rel E a c step q [] (SReturn (set_stop StopReasonBudget q) (Some err))"
      using body_rel.budget [of now q err E a c step] 1 by simp
    then have "body_recorded E a c step q r (stHeap s) (SReturn (set_stop StopReasonBudget q) (Some err)) (stHeap u)"
      if "grown r h0 n t u" for u
      using grown_usages [OF grown_trans [OF 1(1) that]] unfolding body_recorded_def by fastforce
    then have rec: "?Q out u"
      if "grown r h0 n t u \<and> out = SReturn (set_stop StopReasonBudget q) (Some err)" for out u
      using that grown_tree by blast
    have "post (stop_budget E a r q err) t (\<lambda>out u. out = SReturn (set_stop StopReasonBudget q) (Some err))"
      by (simp add: stop_budget_def post_all)
    from post_mono [OF post_conj [OF growsD [OF grows_stops(3) [OF r] t] this] rec]
    show ?thesis unfolding Some option.case .
  next
    case None
    then have wb: "within_budget (rnBt q)" using 1 by (auto simp: within_budget_def)
    have open_rest: "post (trace_child E r SpanStep nm) u (\<lambda>ss t. post (agent_emit E a mk) t (\<lambda>_ t.
        post (trace_child E ss SpanModel mn) t (\<lambda>ms t. post (do {
          _ \<leftarrow> span_modify ms (\<lambda>x. x\<lparr>spModel := mn\<rparr>);
          (resp, s2) \<leftarrow> model_call E a c ms s1;
          (case resp of
             Inl err \<Rightarrow> stop_model E a c r ss ms (q\<lparr>rnSess := s2\<rparr>) err
           | Inr rsp \<Rightarrow> response_step E a c r ss ms step rsp (q\<lparr>rnSess := s2\<rparr>))}) t ?Q)))"
      if u: "grown r h0 n s u"
        and s1: "s1 = rnSess q \<or> agCompactor a \<noteq> None \<and> (\<exists>nh. s1 = sess_compact (rnSess q) nh)"
      for u s1 nm mk mn
      by (rule post_mono [OF post_open_model [OF grown_tree [OF u] r]], erule post_mono, erule post_mono,
          rule post_after_open [OF tools opened_from [OF _ u] r wb s1])
    show ?thesis
      unfolding None option.case post_bind
      by (rule post_mono [OF post_conj [OF growsD [OF grows_maybeCompact [OF order_refl r] t] post_maybeCompact]],
          elim conjE, drule grown_trans [OF 1(1)], drule (1) open_rest) (simp only: post_bind)
  qed
qed

lemma post_run_loop_own:
  assumes "traced_tools a" "tree r h0 n s" "r < n"
  shows "post (run_loop E a c r step q) s (\<lambda>x t. tree r h0 n t \<and> (\<exists>ts us. turns E a c step q ts (fst x) (snd x) \<and>
     own_usages (stHeap t) r = own_usages (stHeap s) r @ us \<and> call_usages ts us (fst x)))"
  using assms
proof (induction E a c r step q arbitrary: s rule: run_loop.induct)
  case (1 E a c r step q)
  let ?w = "stWorld s" and ?s = "s\<lparr>stWorld := snd (envCtxErr E c (stWorld s))\<rparr>"
  let ?Q = "\<lambda>x t. tree r h0 n t \<and> (\<exists>ts us. turns E a c step q ts (fst x) (snd x) \<and>
     own_usages (stHeap t) r = own_usages (stHeap s) r @ us \<and> call_usages ts us (fst x))"
  have s: "tree r h0 n ?s" and r: "r < n" using "1.prems" by (simp_all add: tree_def)
  have stop: "post m ?s ?Q" if "grows r h0 n m" "post m ?s (\<lambda>x t. turns E a c step q [] (fst x) (snd x))" for m
  proof (rule post_mono [OF post_conj [OF growsD [OF that(1) s] that(2)]], elim conjE, intro conjI exI)
    fix x t
    assume t: "grown r h0 n ?s t" "turns E a c step q [] (fst x) (snd x)"
    show "tree r h0 n t" by (rule grown_tree [OF t(1)])
    show "turns E a c step q [] (fst x) (snd x)" by (rule t(2))
    show "own_usages (stHeap t) r = own_usages (stHeap s) r @ []" using grown_usages [OF t(1)] by simp
  qed simp
  consider (ctx) "fst (envCtxErr E c ?w) \<noteq> None"
    | (maxs) "fst (envCtxErr E c ?w) = None" "int step \<ge> agMaxSteps a"
    | (body) "fst (envCtxErr E c ?w) = None" "int step < agMaxSteps a"
    by fastforce
  then show ?case
  proof cases
    case ctx
    have "post (stop_ctx E a c r q) ?s ?Q"
      by (rule stop [OF grows_stops(1) [OF r] post_stop_ctx [OF ctx]]) simp
    then show ?thesis using ctx by (subst run_loop.simps) (simp add: ctx_Err_def post_on_world)
  next
    case maxs
    have "post (stop_max_steps E a r q) ?s (\<lambda>x t. turns E a c step q [] (fst x) (snd x))"
      using turns.max_steps [OF maxs(2), of E c q] by (simp add: stop_max_steps_def Let_def post_all)
    then have "post (stop_max_steps E a r q) ?s ?Q" by (rule stop [OF grows_stops(2) [OF r]])
    then show ?thesis using maxs by (subst run_loop.simps) (simp add: ctx_Err_def post_on_world)
  next
    case body
    have "post (run_body E a c r step q) ?s (\<lambda>out t. post (case out of
          SReturn q' err \<Rightarrow> State_Monad.return (q', err)
        | SContinue q' \<Rightarrow> run_loop E a c r (Suc step) q') t ?Q)"
    proof (rule post_mono [OF post_run_body_own [OF "1.prems"(1) s r]], goal_cases)
      case (1 out t)
      then obtain ts us where ts: "body_rel E a c step q ts out" "call_usages ts us (out_vars out)"
          "own_usages (stHeap t) r = own_usages (stHeap s) r @ us"
          "us = turn_usages ts \<or> (\<exists>q' err. out = SReturn q' err)" and t: "tree r h0 n t"
        by (auto simp: body_recorded_def)
      show ?case
      proof (cases out)
        case (SReturn q' err)
        then show ?thesis using ts t turns.return [OF body(2), of E c q ts q' err] by auto
      next
        case (SContinue q')
        then have us: "us = turn_usages ts" using ts(4) by simp
        have "post (run_loop E a c r (Suc step) q') t (\<lambda>x u. tree r h0 n u \<and> (\<exists>ts us.
            turns E a c (Suc step) q' ts (fst x) (snd x) \<and>
            own_usages (stHeap u) r = own_usages (stHeap t) r @ us \<and> call_usages ts us (fst x)))"
          using "1.IH" body "1.prems"(1) t r by simp
        then show ?thesis
          unfolding SContinue step_result.case
        proof (rule post_mono, elim conjE exE, goal_cases)
          case (1 x u ts' us')
          then have "turns E a c step q (ts @ ts') (fst x) (snd x)"
            using turns.continue [OF body(2)] ts(1) SContinue by blast
          moreover have "call_usages (ts @ ts') (us @ us') (fst x)" using 1(3,4,5) us by (auto simp: call_usages_def)
          ultimately show ?case using 1 ts(3) by fastforce
        qed
      qed
    qed
    then show ?thesis using body by (subst run_loop.simps) (simp add: ctx_Err_def post_on_world)
  qed
qed

lemma turns_trace: "turns E a c step q ts q' err \<Longrightarrow> resTrace (rnRes q') = resTrace (rnRes q)"
proof (induction rule: turns.induct)
  case (return step r ts r' err)
  then show ?case by (auto elim!: body_returnE)
next
  case (continue step r ts r' us r'' err)
  then show ?case by (auto elim!: body_continueE)
qed auto

text \<open>A run and its own model calls in its trace.\<close>

definition run_recorded ::
  "'w env \<Rightarrow> 'w agent \<Rightarrow> session \<Rightarrow> message \<Rightarrow> budget \<Rightarrow> 'w st \<Rightarrow> (result \<times> goerr option) \<times> session \<Rightarrow> 'w st \<Rightarrow> bool" where
  "run_recorded E a s m b u q t \<longleftrightarrow> traced_run (fst q) u t \<and> (\<exists>ts r. fst (fst q) = rnRes r \<and> snd q = rnSess r \<and>
     run_spec E a s m b ts r (snd (fst q)) \<and> call_usages ts (own_usages (stHeap t) (length (stHeap u))) r)"

lemma post_newTrace_tree:
  "post (newTrace E name) u (\<lambda>tr v. tr = length (stHeap u) \<and> tree tr (stHeap u) (Suc tr) v \<and> own_usages (stHeap v) tr = [])"
  unfolding newTrace_def post_bind
  apply (rule post_heap_same, simp, rule post_heap_same, simp)
  by (simp add: span_alloc_def run_tree_leaf new_span_def tree_def own_usages_def own_addrs_def own_steps_def)

lemma post_runWith_own:
  assumes "traced_tools a"
  shows "post (runWith E a s c0 m b) u (run_recorded E a s m b u)"
proof -
  let ?k = "length (stHeap u)" and ?h = "stHeap u"
  have loop: "post (run_loop E a c ?k 0 (run_start a s m ?k bt)) v (\<lambda>q t. post (do {
        _ \<leftarrow> (if x then ctx_cancel E c' else State_Monad.return ());
        State_Monad.return ((rnRes (fst q), snd q), rnSess (fst q))}) t (run_recorded E a s m b u))"
    if v: "tree ?k ?h (Suc ?k) v" "own_usages (stHeap v) ?k = []" and bt: "\<exists>now. bt = newBudgetTracker now b"
    for c c' bt x v
  proof (rule post_mono [OF post_run_loop_own [OF assms v(1) lessI]], elim conjE exE, goal_cases)
    case (1 q t ts us)
    have "grows ?k ?h (Suc ?k) (if x then ctx_cancel E c' else State_Monad.return ())"
      by (intro grows_rules)
    note g = growsD [OF this 1(1)]
    have "run_recorded E a s m b u ((rnRes (fst q), snd q), rnSess (fst q)) t'" if t': "grown ?k ?h (Suc ?k) t t'" for t'
    proof -
      have "run_spec E a s m b ts (fst q) (snd q)" using 1(2) bt by (auto simp: run_spec_def)
      moreover have "resTrace (rnRes (fst q)) = ?k" using turns_trace [OF 1(2)] by (simp add: run_start_def result_zero_def)
      moreover have "own_usages (stHeap t') ?k = us" using grown_usages [OF t'] 1(3) v(2) by simp
      ultimately show ?thesis
        using grown_tree [OF t'] 1(4) by (auto simp: run_recorded_def traced_run_def tree_def)
    qed
    then show ?case unfolding post_bind by (intro post_mono [OF g]) simp
  qed
  have start: "post (bt_new E b) v (\<lambda>bt t. (\<exists>now. bt = newBudgetTracker now b) \<and> tree ?k ?h (Suc ?k) t \<and>
      own_usages (stHeap t) ?k = [])"
    if v: "tree ?k ?h (Suc ?k) v" "own_usages (stHeap v) ?k = []" for v
  proof -
    have "grows ?k ?h (Suc ?k) (bt_new E b)" unfolding bt_new_def by (intro grows_rules)
    from post_conj [OF growsD [OF this v(1)] post_bt_new] show ?thesis
      by (rule post_mono) (use v(2) in \<open>auto dest: grown_tree grown_usages\<close>)
  qed
  have emit: "post (agent_emit E a mk) v (\<lambda>_ t. tree ?k ?h (Suc ?k) t \<and> own_usages (stHeap t) ?k = [])"
    if v: "tree ?k ?h (Suc ?k) v" "own_usages (stHeap v) ?k = []" for v mk
    by (rule post_mono [OF growsD [OF grows_agent_emit v(1)]]) (use v(2) in \<open>auto dest: grown_tree grown_usages\<close>)
  show ?thesis
    unfolding runWith_def Let_def post_bind run_start_def [symmetric]
    apply (rule post_mono [OF post_newTrace_tree], elim conjE, hypsubst)
    apply (rule post_mono [OF start], assumption, assumption, elim conjE)
    apply (rule post_mono [OF emit], assumption, assumption, elim conjE)
    by (drule (2) loop) (simp only: case_prod_beta post_bind)
qed

lemma post_runWith_tree:
  "traced_tools a \<Longrightarrow> post (runWith E a s c0 m b) u (\<lambda>q t. traced_run (fst q) u t)"
  by (rule post_mono [OF post_runWith_own]) (auto simp: run_recorded_def)

section \<open>Agents built from agents\<close>

text \<open>An agent whose agent tools wrap agents of the same kind, to any depth.\<close>

inductive built :: "'w env \<Rightarrow> 'w agent \<Rightarrow> bool" for E where
  built: "\<forall>n t sub. agTools a n = Some t \<longrightarrow> tlImpl t = ToolAgent sub \<longrightarrow>
     (\<exists>a'. sub = subagent_of E a' \<and> built E a') \<Longrightarrow> built E a"

lemma traced_subagent_of: "traced_tools a \<Longrightarrow> traced_sub (subagent_of E a)"
  unfolding traced_sub_def subagent_of_def
  by (auto simp: case_prod_beta intro: post_mono [OF post_runWith_tree])

lemma built_traced: "built E a \<Longrightarrow> traced_tools a"
proof (induction rule: built.induct)
  case (built a)
  show ?case
    unfolding traced_tools_def
  proof (intro allI impI)
    fix n t sub
    assume "agTools a n = Some t" "tlImpl t = ToolAgent sub"
    then obtain a' where "sub = subagent_of E a'" "traced_tools a'" using built by blast
    then show "traced_sub sub" by (simp add: traced_subagent_of)
  qed
qed

section \<open>Summary of a run\<close>

lemma usage_sum_mset: "mset us = mset vs \<Longrightarrow> usage_sum us = usage_sum vs"
proof (induction us arbitrary: vs)
  case (Cons u us)
  then have "u \<in> set vs" by (metis list.set_intros(1) mset_eq_setD)
  then obtain xs ys where vs: "vs = xs @ u # ys" by (meson split_list)
  then have "usage_sum us = usage_sum (xs @ ys)" using Cons by simp
  then show ?case
    using vs by (simp add: usage_sum_append) (metis usage_add_assoc usage_add_commute)
qed simp

lemma spans_of_kind_mset:
  "mset (map fst xs) = mset h \<Longrightarrow> mset (spans_of_kind k xs) = mset (filter (\<lambda>sp. spKind sp = k) h)"
  by (simp add: spans_of_kind_def)

lemma Summary_of_run:
  assumes "run_tree r h0 h"
  shows "smSteps (Summary (span_tree_of h r)) = length (filter (\<lambda>sp. spKind sp = SpanStep) (drop r h))"
    and "smModelCalls (Summary (span_tree_of h r)) = length (filter (\<lambda>sp. spKind sp = SpanModel) (drop r h))"
    and "smToolCalls (Summary (span_tree_of h r)) = length (filter (\<lambda>sp. spKind sp = SpanTool) (drop r h))"
    and "smUsage (Summary (span_tree_of h r))
       = usage_sum (map spUsage (filter (\<lambda>sp. spKind sp = SpanModel) (drop r h)))"
proof -
  let ?xs = "preorder 0 (span_tree_of h r)"
  have m: "mset (spans_of_kind k ?xs) = mset (filter (\<lambda>sp. spKind sp = k) (drop r h))" for k
    by (rule spans_of_kind_mset [OF run_tree_spans [OF assms]])
  have l: "length (spans_of_kind k ?xs) = length (filter (\<lambda>sp. spKind sp = k) (drop r h))" for k
    using m [of k] by (metis size_mset)
  have u: "usage_sum (map spUsage (spans_of_kind SpanModel ?xs))
      = usage_sum (map spUsage (filter (\<lambda>sp. spKind sp = SpanModel) (drop r h)))"
    using m [of SpanModel] by (intro usage_sum_mset) (simp add: mset_map)
  show "smSteps (Summary (span_tree_of h r)) = length (filter (\<lambda>sp. spKind sp = SpanStep) (drop r h))"
    and "smModelCalls (Summary (span_tree_of h r)) = length (filter (\<lambda>sp. spKind sp = SpanModel) (drop r h))"
    and "smToolCalls (Summary (span_tree_of h r)) = length (filter (\<lambda>sp. spKind sp = SpanTool) (drop r h))"
    and "smUsage (Summary (span_tree_of h r))
       = usage_sum (map spUsage (filter (\<lambda>sp. spKind sp = SpanModel) (drop r h)))"
    by (simp_all add: Summary_def summary_walk_preorder visit_counts visit_usage summary_zero_def l u)
qed

text \<open>
  C13: The trace of a run is one tree that holds every span the run and its subagents, nested to any
  depth and fanned out under any schedule, have created; and \<open>Trace.Summary\<close> over it counts each
  step, model call and tool call once and adds up the usage of all model calls.
\<close>

theorem run_trace_is_tree:
  assumes "built E a"
  shows "case run_state (runWith E a s c m b) st of (((res, err), s'), t) \<Rightarrow>
     let r = resTrace res; new = drop r (stHeap t); S = Summary (span_tree_of (stHeap t) r) in
     r = length (stHeap st) \<and> run_tree r (stHeap st) (stHeap t) \<and>
     smSteps S = length (filter (\<lambda>sp. spKind sp = SpanStep) new) \<and>
     smModelCalls S = length (filter (\<lambda>sp. spKind sp = SpanModel) new) \<and>
     smToolCalls S = length (filter (\<lambda>sp. spKind sp = SpanTool) new) \<and>
     smUsage S = usage_sum (map spUsage (filter (\<lambda>sp. spKind sp = SpanModel) new))"
proof -
  obtain res err s' t where q: "run_state (runWith E a s c m b) st = (((res, err), s'), t)"
    by (metis prod.collapse)
  have "traced_run (res, err) st t"
    using postD [OF post_runWith_tree [OF built_traced [OF assms]] q] by simp
  then have "resTrace res = length (stHeap st)" "run_tree (length (stHeap st)) (stHeap st) (stHeap t)"
    by (simp_all add: traced_run_def)
  then show ?thesis using q Summary_of_run [of "length (stHeap st)"] by (simp add: Let_def)
qed

definition nested_agent :: "nat agent" where
  "nested_agent = demo_agent_with (AgentTool demo_env ''{}'' demo_agent ''echo'' ''Delegate'')"

lemma built_demo: "built demo_env demo_agent"
  by (rule built.built) (simp add: demo_agent_def demo_tool_def RawTool_def)

lemma built_nested: "built demo_env nested_agent"
  by (rule built.built) (auto simp: nested_agent_def AgentTool_def intro: built_demo)

theorem run_trace_is_tree_witness:
  "case run_state (runWith demo_env nested_agent (NewSession nested_agent) CtxBackground (UserMessage ''hi'')
       demo_budget) demo_st of (((res, err), s'), t) \<Rightarrow>
     let r = resTrace res; new = drop r (stHeap t); S = Summary (span_tree_of (stHeap t) r) in
     r = 0 \<and> smUsage S = usage_sum (map spUsage (filter (\<lambda>sp. spKind sp = SpanModel) new))"
  using run_trace_is_tree [OF built_nested, where s = "NewSession nested_agent" and c = CtxBackground
      and m = "UserMessage ''hi''" and b = demo_budget and st = demo_st]
  by (auto simp: Let_def demo_st_def split: prod.splits)

end
