(* ===== verification/Run_Own.thy ===== *)
theory Run_Own
  imports Run_Theorems Run_Trace
begin

text \<open>
  What a run spends, read off its trace: the usages of its own model calls, in their order
  (\<open>own_usages\<close>), against the usage of the session, the limits of the budget and what the caller of
  a subagent is charged.
\<close>

lemma run_recordedE:
  assumes "traced_tools a" "run_state (runWith E a s c m b) st = (((res, err), s'), t)"
  obtains ts r where "resTrace res = length (stHeap st)" "res = rnRes r" "s' = rnSess r" "run_spec E a s m b ts r err"
    "call_usages ts (own_usages (stHeap t) (resTrace res)) r"
proof -
  have "run_recorded E a s m b st ((res, err), s') t"
    using postD [OF post_runWith_own [OF assms(1)] assms(2)] .
  then show ?thesis using that by (auto simp: run_recorded_def traced_run_def)
qed

lemma call_usages_sum: "call_usages ts us q \<Longrightarrow> usage_sum us = usage_sum (turn_usages ts)"
  by (auto simp: call_usages_def usage_sum_append)

section \<open>The limits of a run\<close>

definition below_limits :: "budget \<Rightarrow> usage \<Rightarrow> bool" where
  "below_limits b u \<longleftrightarrow> (MaxTotalTokens b > 0 \<longrightarrow> TotalTokens u < MaxTotalTokens b) \<and>
     (MaxCostUSD b > 0 \<longrightarrow> CostUSD u < MaxCostUSD b)"

lemma within_budget_below: "within_budget bt \<Longrightarrow> below_limits (btB bt) (btUsed bt)"
  by (simp add: below_limits_def within_budget_tokens within_budget_cost)

lemma turns_tracker_end:
  "turns E a c step r ts r' err \<Longrightarrow> no_subagents a \<Longrightarrow> btB (rnBt r') = btB (rnBt r) \<and>
     btUsed (rnBt r') = foldl (\<lambda>u t. usage_add u (rspUsage (tnResp t))) (btUsed (rnBt r)) ts"
proof (induction rule: turns.induct)
  case (return step r ts r' err)
  then show ?case using body_trackers [OF return(2)] by simp
next
  case (continue step r ts r' us r'' err)
  then show ?case using body_trackers [OF continue(2)] by simp
qed auto

lemma tracked_turn:
  assumes "no_subagents a" "turns E a c 0 (run_start a s m tr (newBudgetTracker now b)) ts r err" "k < length ts"
  shows "below_limits b (usage_sum (take k (turn_usages ts)))"
proof -
  let ?t = "ts ! k"
  have ts: "ts = take k ts @ ?t # drop (Suc k) ts" by (rule id_take_nth_drop [OF assms(3)])
  have "trackers_ok b usage_zero (take k ts @ ?t # drop (Suc k) ts)"
    using turns_trackers [OF assms(2,1)] ts by simp
  then have "btB (tnBt ?t) = b" "btUsed (tnBt ?t) = usage_sum (take k (turn_usages ts))"
    by (simp_all add: trackers_ok_append foldl_usage turn_usages_def take_map)
  moreover have "within_budget (tnBt ?t)" using turns_within_budget [OF assms(2)] assms(3) by simp
  ultimately show ?thesis using within_budget_below by metis
qed

lemma calls_below_limits:
  assumes "no_subagents a" "run_spec E a s m b ts r err" "call_usages ts us r" "k < length us"
  shows "below_limits b (usage_sum (take k us))"
proof -
  obtain c tr now where t: "turns E a c 0 (run_start a s m tr (newBudgetTracker now b)) ts r err"
    using assms(2) by (auto simp: run_spec_def)
  have l: "length (turn_usages ts) = length ts" by (simp add: turn_usages_def)
  show ?thesis
  proof (cases "k < length ts")
    case True
    then show ?thesis
      using tracked_turn [OF assms(1) t True] assms(3) by (auto simp: call_usages_def l)
  next
    case False
    then have us: "us = turn_usages ts @ [usage_zero]" "within_budget (rnBt r)" "k = length ts"
      using assms(3,4) by (auto simp: call_usages_def l)
    have "btB (rnBt r) = b" "btUsed (rnBt r) = usage_sum (turn_usages ts)"
      using turns_tracker_end [OF t assms(1)] by (simp_all add: foldl_usage turn_usages_def)
    with within_budget_below [OF us(2)] us(1,3) l show ?thesis by simp
  qed
qed

text \<open>
  C8: The token and the cost budget, over the model calls that the trace of the run holds. Their
  usages add up to what the run added to the usage of the session; they are the usages of the
  responses of the run, one for each step of \<open>Result.Steps\<close>, and, where the last call failed, one call
  without usage. Before each of them, the failed one included, the calls so far were below both limits: the
  run of an agent without subagents makes no model call once a limit is reached, and overshoots its
  budget by its last call only.
\<close>

theorem run_overshoots_by_last_call:
  assumes "no_subagents a" "usage_in_range (ssUsage s)"
  shows "case run_state (runWith E a s c m b) st of (((res, err), s'), t) \<Rightarrow>
     let us = own_usages (stHeap t) (resTrace res) in
     ssUsage s' = usage_add (ssUsage s) (usage_sum us) \<and>
     (\<exists>ts r. run_spec E a s m b ts r err \<and> res = rnRes r \<and> s' = rnSess r \<and>
        take (resSteps res) us = map (\<lambda>t. rspUsage (tnResp t)) ts) \<and>
     (length us = resSteps res \<or> length us = Suc (resSteps res) \<and> last us = usage_zero) \<and>
     (\<forall>k < length us. (MaxTotalTokens b > 0 \<longrightarrow> TotalTokens (usage_sum (take k us)) < MaxTotalTokens b) \<and>
        (MaxCostUSD b > 0 \<longrightarrow> CostUSD (usage_sum (take k us)) < MaxCostUSD b))"
proof -
  have tools: "traced_tools a" using assms(1) by (auto simp: traced_tools_def no_subagents_def)
  obtain res err s' t where q: "run_state (runWith E a s c m b) st = (((res, err), s'), t)"
    by (metis prod.collapse)
  let ?us = "own_usages (stHeap t) (resTrace res)"
  obtain ts r where r: "res = rnRes r" "s' = rnSess r" "run_spec E a s m b ts r err" "call_usages ts ?us r"
    by (rule run_recordedE [OF tools q])
  from r(3) have steps: "resSteps res = length ts"
    unfolding run_spec_def r(1) by (auto dest!: turns_steps)
  from r(3) assms(2) have use: "ssUsage s' = usage_add (ssUsage s) (usage_sum ?us)"
    unfolding run_spec_def r(2) call_usages_sum [OF r(4)] turn_usages_def by (auto dest!: turns_usage)
  have "take (length ts) ?us = turn_usages ts"
    "length ?us = length ts \<or> length ?us = Suc (length ts) \<and> last ?us = usage_zero"
    using r(4) by (auto simp: call_usages_def turn_usages_def)
  then show ?thesis
    using q r(1-3) steps use calls_below_limits [OF assms(1) r(3,4)]
    by (auto simp: Let_def below_limits_def turn_usages_def)
qed

theorem run_overshoots_by_last_call_witness:
  "case run_state (runWith demo_env demo_agent (NewSession demo_agent) CtxBackground (UserMessage ''hi'')
       demo_budget) demo_st of (((res, err), s'), t) \<Rightarrow>
     let us = own_usages (stHeap t) (resTrace res) in
     ssUsage s' = usage_add usage_zero (usage_sum us) \<and>
     (\<forall>k < length us. TotalTokens (usage_sum (take k us)) < 100 \<and> CostUSD (usage_sum (take k us)) < 1)"
  using run_overshoots_by_last_call [where a = demo_agent and s = "NewSession demo_agent" and E = demo_env
      and c = CtxBackground and m = "UserMessage ''hi''" and b = demo_budget and st = demo_st]
  by (auto simp: Let_def no_subagents_def demo_agent_def demo_budget_def demo_tool_def RawTool_def NewSession_def
      split: prod.splits)

section \<open>What a subagent is charged for\<close>











end
