(* ===== verification/Compaction.thy ===== *)
theory Compaction
  imports Run_Props
begin

text \<open>
  \<open>SummarizingCompactor\<close> of \<open>compaction.go\<close>: when it fires, what it asks the summarizing model for
  and which messages it keeps. \<open>as_compactor\<close> is the \<open>Compactor\<close> the run loop calls.
\<close>

section \<open>The compactor\<close>

record 'w summarizing_compactor =
  scModel :: "'w model option"
  scMaxContextTokens :: int
  scTriggerFraction :: rat
  scKeepRecent :: int
  scPrompt :: string

definition em_dash :: string where
  "em_dash = [CHR 0xE2, CHR 0x80, CHR 0x94]"

definition defaultSummarizerPrompt :: string where
  "defaultSummarizerPrompt =
     ''Condense the conversation below into a compact handoff note so the work can '' @
     ''continue with less context.'' @ [newline, newline] @
     ''Do this in a single pass: write only the note, take no actions, and call no '' @
     ''tools. Include what someone resuming the task would need '' @ em_dash @ '' the objective, the '' @
     ''key decisions and why they were made, the files, paths, and identifiers '' @
     ''involved, what has and hasn't worked so far, and the concrete next step. Keep '' @
     ''it specific and true to what actually happened; leave out filler.''"

definition trigger :: "'w summarizing_compactor \<Rightarrow> rat" where
  "trigger c = (if scTriggerFraction c > 0 then scTriggerFraction c else 8 / 10)"

definition keepRecent :: "'w summarizing_compactor \<Rightarrow> nat" where
  "keepRecent c = (if scKeepRecent c > 0 then nat (scKeepRecent c) else 6)"

text \<open>\<open>int(x)\<close> truncates; the product is positive here.\<close>

definition ShouldCompact :: "'w summarizing_compactor \<Rightarrow> message list \<Rightarrow> int \<Rightarrow> bool" where
  "ShouldCompact c msgs estimatedTokens =
     (if scMaxContextTokens c \<le> 0 then False
      else estimatedTokens \<ge> \<lfloor>of_int (scMaxContextTokens c) * trigger c\<rfloor>)"

definition render_call :: "tool_call \<Rightarrow> string" where
  "render_call tc = [newline] @ ''  [tool_call '' @ tcName tc @ ''('' @ tcArguments tc @ '')]''"

definition renderTranscript :: "message list \<Rightarrow> string" where
  "renderTranscript msgs = concat (map (\<lambda>m. msgRole m @ '': '' @ msgText m @
     concat (map render_call (msgToolCalls m)) @ [newline]) msgs)"

definition request_zero :: request where
  "request_zero = \<lparr>rqModel = [], rqMessages = [], rqTools = [], rqToolChoice = [], rqResponseFormat = None,
     rqTemperature = None, rqMaxTokens = 0, rqStop = [], rqReasoningEffort = [], rqReasoningMaxTokens = 0,
     rqPreviousResponseID = []\<rparr>"

text \<open>The leading system messages, and the rest.\<close>

definition system_head :: "message list \<Rightarrow> message list" where
  "system_head msgs = takeWhile (\<lambda>m. msgRole m = RoleSystem) msgs"

definition body_of :: "message list \<Rightarrow> message list" where
  "body_of msgs = dropWhile (\<lambda>m. msgRole m = RoleSystem) msgs"

definition Compact ::
  "'w summarizing_compactor \<Rightarrow> ctx \<Rightarrow> message list \<Rightarrow> 'w \<Rightarrow> (message list \<times> goerr option) \<times> 'w" where
  "Compact sc c msgs w = (case scModel sc of
       None \<Rightarrow> ((msgs, Some (ErrText ''rimeno: SummarizingCompactor has no Model'')), w)
     | Some m \<Rightarrow>
       (let head = system_head msgs; body = body_of msgs; keep = keepRecent sc in
        if length body \<le> keep then ((msgs, None), w)
        else
          (let toSummarize = take (length body - keep) body;
               recent = drop (length body - keep) body;
               prompt = (if scPrompt sc = [] then defaultSummarizerPrompt else scPrompt sc);
               req = request_zero\<lparr>rqModel := mdlID m,
                       rqMessages := [SystemMessage prompt, UserMessage (renderTranscript toSummarize)]\<rparr>
           in case mdlGenerate m c req w of
                (Inl err, w') \<Rightarrow> ((msgs, Some err), w')
              | (Inr resp, w') \<Rightarrow>
                  ((head @ [SystemMessage (msgText (rspMessage resp))] @ recent, None), w'))))"

definition as_compactor :: "'w summarizing_compactor \<Rightarrow> 'w compactor" where
  "as_compactor sc = \<lparr>cmpShouldCompact = (\<lambda>msgs est w. (ShouldCompact sc msgs est, w)), cmpCompact = Compact sc\<rparr>"

section \<open>What it keeps\<close>

lemma head_body: "system_head msgs @ body_of msgs = msgs"
  by (simp add: system_head_def body_of_def)

text \<open>
  C26: Compaction fails with the history unchanged, leaves it unchanged, or keeps the leading system
  messages and the most recent \<open>KeepRecent\<close> messages verbatim around one summary; it never
  makes the history longer.
\<close>

theorem compact_keeps_head_and_recent:
  "case Compact sc c msgs w of ((out, err), w') \<Rightarrow>
     length out \<le> length msgs \<and>
     (out = msgs \<or>
      err = None \<and> (\<exists>older recent summary. msgs = system_head msgs @ older @ recent \<and>
        older \<noteq> [] \<and> length recent = keepRecent sc \<and>
        out = system_head msgs @ [SystemMessage summary] @ recent))"
proof -
  let ?body = "body_of msgs" and ?k = "keepRecent sc"
  have len: "length msgs = length (system_head msgs) + length ?body"
    by (metis head_body length_append)
  have "\<exists>older recent s. msgs = system_head msgs @ older @ recent \<and> older \<noteq> [] \<and> length recent = ?k \<and>
      system_head msgs @ [SystemMessage summary] @ drop (length ?body - ?k) ?body
        = system_head msgs @ [SystemMessage s] @ recent"
    if "\<not> length ?body \<le> ?k" for summary
    using that head_body [of msgs]
    by (intro exI [of _ "take (length ?body - ?k) ?body"] exI [of _ "drop (length ?body - ?k) ?body"]
        exI [of _ summary]) auto
  then show ?thesis
    using len by (auto simp: Compact_def Let_def split: option.splits sum.splits prod.splits)
qed

section \<open>Where it cuts\<close>

text \<open>Every tool result answers a call that an assistant message before it has made.\<close>

fun results_known :: "string set \<Rightarrow> message list \<Rightarrow> bool" where
  "results_known ids [] \<longleftrightarrow> True"
| "results_known ids (m # ms) \<longleftrightarrow> (if msgRole m = RoleTool then msgToolCallID m \<in> ids else True) \<and>
     results_known (ids \<union> tcID ` set (msgToolCalls m)) ms"

definition orphan_history :: "message list" where
  "orphan_history = [UserMessage ''q'', (AssistantMessage [])\<lparr>msgToolCalls := [demo_call]\<rparr>,
     toolResultMessage ''c1'' ''echo'' ''{}'']"

definition orphan_compactor :: "nat summarizing_compactor" where
  "orphan_compactor = \<lparr>scModel = Some demo_model, scMaxContextTokens = 10, scTriggerFraction = 0,
     scKeepRecent = 1, scPrompt = ''s''\<rparr>"

text \<open>
  Compaction counts messages, not turns: it can cut between an assistant message with tool
  calls and their results. In the history below every tool result answers a call; after its
  compaction, with \<open>KeepRecent\<close> 1, the result is left without its call.
\<close>

theorem compact_may_orphan_tool_result:
  "results_known {} orphan_history \<and>
   (case Compact orphan_compactor CtxBackground orphan_history 1 of ((out, err), w') \<Rightarrow>
      err = None \<and> \<not> results_known {} out)"
  by (simp add: Compact_def orphan_compactor_def orphan_history_def demo_model_def demo_response_def
      system_head_def body_of_def keepRecent_def UserMessage_def AssistantMessage_def SystemMessage_def
      toolResultMessage_def demo_call_def Let_def)

end
