(* ===== verification/Workflow.thy ===== *)
theory Workflow
  imports Run
begin

text \<open>
  \<open>workflow/workflow.go\<close> and \<open>workflow/state.go\<close>: a graph of steps, the check that it is acyclic
  (Kahn's algorithm) and its execution in waves. The steps of a wave run in their own
  goroutines: each first runs, then records its outcome under the mutex, and \<open>envPick\<close>
  interleaves these two phases of all of them. A step may read and write the blackboard.
\<close>

section \<open>The blackboard (state.go)\<close>

record wf_state =
  wsValues :: "string \<rightharpoonup> string"
  wsInput :: string

definition newState :: "string \<Rightarrow> wf_state" where
  "newState input = \<lparr>wsValues = Map.empty, wsInput = input\<rparr>"

definition Get :: "wf_state \<Rightarrow> string \<Rightarrow> string" where
  "Get s key = (case wsValues s key of None \<Rightarrow> [] | Some v \<Rightarrow> v)"

definition Set :: "wf_state \<Rightarrow> string \<Rightarrow> string \<Rightarrow> wf_state" where
  "Set s key value = s\<lparr>wsValues := (wsValues s)(key \<mapsto> value)\<rparr>"

section \<open>Steps and workflows\<close>

record step_output =
  soText :: string
  soUsage :: usage
  soTrace :: "addr option"

datatype step_outcome = StepReturns step_output | StepFails goerr | StepPanics string

record 'w wf_step =
  stpName :: string
  stpDependsOn :: "string list"
  stpRun :: "ctx \<Rightarrow> wf_state \<Rightarrow> ('w st, step_outcome \<times> wf_state) state"

definition AgentStep :: "'w env \<Rightarrow> string \<Rightarrow> 'w agent \<Rightarrow> (wf_state \<Rightarrow> string) \<Rightarrow> string list \<Rightarrow> 'w wf_step" where
  "AgentStep E name agent prompt deps = \<lparr>stpName = name, stpDependsOn = deps,
     stpRun = (\<lambda>c s. do {
       (res, err) \<leftarrow> Run E agent c (prompt s);
       State_Monad.return (case err of
           Some e \<Rightarrow> StepFails e
         | None \<Rightarrow> StepReturns \<lparr>soText = resText res, soUsage = resUsage res, soTrace = Some (resTrace res)\<rparr>, s)
     })\<rparr>"

text \<open>The function of a \<open>FuncStep\<close> acts on the world and on the blackboard; \<open>Inl\<close> is a panic.\<close>

definition FuncStep ::
  "string \<Rightarrow> (ctx \<Rightarrow> wf_state \<Rightarrow> 'w \<Rightarrow> ((string + string \<times> goerr option) \<times> wf_state) \<times> 'w) \<Rightarrow> string list \<Rightarrow> 'w wf_step" where
  "FuncStep name fn deps = \<lparr>stpName = name, stpDependsOn = deps,
     stpRun = (\<lambda>c s. do {
       (r, s') \<leftarrow> on_world (fn c s);
       State_Monad.return (case r of
           Inl p \<Rightarrow> StepPanics p
         | Inr (out, Some err) \<Rightarrow> StepFails err
         | Inr (out, None) \<Rightarrow> StepReturns \<lparr>soText = out, soUsage = usage_zero, soTrace = None\<rparr>, s')
     })\<rparr>"

record 'w workflow =
  wfName :: string
  wfSteps :: "'w wf_step list"
  wfIndex :: "string \<rightharpoonup> 'w wf_step"

definition workflow_New :: "string \<Rightarrow> 'w workflow" where
  "workflow_New name = \<lparr>wfName = name, wfSteps = [], wfIndex = Map.empty\<rparr>"

text \<open>\<open>Inl\<close>: the panic on a duplicate name.\<close>

definition workflow_Step :: "'w workflow \<Rightarrow> 'w wf_step \<Rightarrow> string + 'w workflow" where
  "workflow_Step w s = (if wfIndex w (stpName s) \<noteq> None
     then Inl (''workflow: duplicate step '' @ strconv_quote (stpName s))
     else Inr (w\<lparr>wfIndex := (wfIndex w)(stpName s \<mapsto> s), wfSteps := wfSteps w @ [s]\<rparr>))"

section \<open>Validation\<close>

fun unknown_dep :: "'w workflow \<Rightarrow> 'w wf_step list \<Rightarrow> (string \<times> string) option" where
  "unknown_dep w [] = None"
| "unknown_dep w (st # sts) = (case find (\<lambda>d. wfIndex w d = None) (stpDependsOn st) of
       Some d \<Rightarrow> Some (stpName st, d)
     | None \<Rightarrow> unknown_dep w sts)"

definition indegrees :: "'w workflow \<Rightarrow> string \<Rightarrow> int" where
  "indegrees w = foldl (\<lambda>m st. m(stpName st := int (length (stpDependsOn st)))) (\<lambda>_. 0) (wfSteps w)"

definition dependents :: "'w workflow \<Rightarrow> string \<Rightarrow> string list" where
  "dependents w d = concat (map (\<lambda>st. replicate (count_list (stpDependsOn st) d) (stpName st)) (wfSteps w))"

definition kahn_visit :: "(string \<Rightarrow> int) \<times> string list \<Rightarrow> string \<Rightarrow> (string \<Rightarrow> int) \<times> string list" where
  "kahn_visit = (\<lambda>(indeg, queue) m. let indeg' = indeg(m := indeg m - 1) in
     if indeg' m = 0 then (indeg', queue @ [m]) else (indeg', queue))"

text \<open>
  The loop over the queue. Each iteration takes one name off it and every name is queued at
  most once, so as many iterations as there are steps empty it (\<open>kahn_order\<close> below).
\<close>

fun kahn :: "nat \<Rightarrow> (string \<Rightarrow> string list) \<Rightarrow> (string \<Rightarrow> int) \<Rightarrow> string list \<Rightarrow> string list \<Rightarrow> string list \<times> string list" where
  "kahn fuel deps indeg [] visited = (visited, [])"
| "kahn 0 deps indeg queue visited = (visited, queue)"
| "kahn (Suc fuel) deps indeg (n # queue) visited =
     (let (indeg', queue') = foldl kahn_visit (indeg, queue) (deps n)
      in kahn fuel deps indeg' queue' (visited @ [n]))"

text \<open>
  \<open>iter\<close> is the order in which Go ranges over the map of in-degrees: any permutation of its keys.
\<close>

definition validate :: "(string list \<Rightarrow> string list) \<Rightarrow> 'w workflow \<Rightarrow> goerr option" where
  "validate iter w = (case unknown_dep w (wfSteps w) of
       Some (s, d) \<Rightarrow> Some (ErrText (''workflow '' @ strconv_quote (wfName w) @ '': step '' @ strconv_quote s
          @ '' depends on unknown step '' @ strconv_quote d))
     | None \<Rightarrow>
       (let indeg = indegrees w;
            queue = filter (\<lambda>n. indeg n = 0) (iter (map stpName (wfSteps w)));
            (visited, rest) = kahn (length (wfSteps w)) (dependents w) indeg queue []
        in if length visited \<noteq> length (wfSteps w)
           then Some (ErrText (''workflow '' @ strconv_quote (wfName w) @ '': dependency cycle detected''))
           else None))"

section \<open>Execution\<close>

record wf_result =
  wrOutput :: string
  wrOutputs :: "string \<rightharpoonup> string"
  wrState :: wf_state
  wrUsage :: usage
  wrStepTraces :: "string \<rightharpoonup> addr"

record wf_vars =
  wvState :: wf_state
  wvOutputs :: "string \<rightharpoonup> string"
  wvUsage :: usage
  wvTraces :: "string \<rightharpoonup> addr"
  wvDone :: "string list"             \<comment> \<open>the keys of \<open>done\<close>, in the order they were added\<close>
  wvErr :: "goerr option"             \<comment> \<open>\<open>firstErr\<close>\<close>

definition depsMet :: "'w wf_step \<Rightarrow> string list \<Rightarrow> bool" where
  "depsMet s done = list_all (\<lambda>d. d \<in> set done) (stpDependsOn s)"

definition safeRunStep :: "step_outcome \<Rightarrow> goerr + step_output" where
  "safeRunStep r = (case r of
       StepReturns out \<Rightarrow> Inr out
     | StepFails err \<Rightarrow> Inl err
     | StepPanics p \<Rightarrow> Inl (ErrText (''panic: '' @ p)))"

datatype wave_phase = WReady | WRan "goerr + step_output" | WFinished

text \<open>The critical section of a step's goroutine.\<close>

definition commit_step :: "'w workflow \<Rightarrow> string \<Rightarrow> goerr + step_output \<Rightarrow> wf_vars \<Rightarrow> wf_vars \<times> bool" where
  "commit_step w name r v = (case r of
       Inl err \<Rightarrow>
         if wvErr v = None
         then (v\<lparr>wvErr := Some (ErrWrap (''workflow '' @ strconv_quote (wfName w) @ '': step ''
                  @ strconv_quote name @ '': '') err)\<rparr>, True)
         else (v, False)
     | Inr out \<Rightarrow>
         (v\<lparr>wvState := Set (wvState v) name (soText out),
            wvOutputs := (wvOutputs v)(name \<mapsto> soText out),
            wvUsage := usage_add (wvUsage v) (soUsage out),
            wvTraces := (case soTrace out of None \<Rightarrow> wvTraces v | Some t \<Rightarrow> (wvTraces v)(name \<mapsto> t)),
            wvDone := (if name \<in> set (wvDone v) then wvDone v else wvDone v @ [name])\<rparr>, False))"

fun wave_step :: "'w env \<Rightarrow> 'w workflow \<Rightarrow> ctx \<Rightarrow> 'w wf_step \<Rightarrow> wave_phase \<Rightarrow> wf_vars \<Rightarrow>
    ('w st, wave_phase \<times> wf_vars) state" where
  "wave_step E w c st WReady v = do {
     (r, s) \<leftarrow> stpRun st c (wvState v);
     State_Monad.return (WRan (safeRunStep r), v\<lparr>wvState := s\<rparr>)
   }"
| "wave_step E w c st (WRan r) v = (case commit_step w (stpName st) r v of (v', cancels) \<Rightarrow> do {
     _ \<leftarrow> (if cancels then ctx_cancel E c else State_Monad.return ());
     State_Monad.return (WFinished, v')
   })"
| "wave_step E w c st WFinished v = State_Monad.return (WFinished, v)"

fun wave_rank :: "wave_phase \<Rightarrow> nat" where
  "wave_rank WReady = 2"
| "wave_rank (WRan _) = 1"
| "wave_rank WFinished = 0"

definition moving :: "wave_phase list \<Rightarrow> nat list" where
  "moving ps = filter (\<lambda>i. ps ! i \<noteq> WFinished) [0..<length ps]"

fun wave_loop :: "'w env \<Rightarrow> 'w workflow \<Rightarrow> ctx \<Rightarrow> 'w wf_step list \<Rightarrow> nat \<Rightarrow> wave_phase list \<Rightarrow> wf_vars \<Rightarrow>
    ('w st, wave_phase list \<times> wf_vars) state" where
  "wave_loop E w c ready 0 ps v = State_Monad.return (ps, v)"
| "wave_loop E w c ready (Suc n) ps v =
     (if moving ps = [] then State_Monad.return (ps, v)
      else do {
        k \<leftarrow> on_world (envPick E (length (moving ps)));
        (let i = moving ps ! (k mod length (moving ps)) in do {
           (ph, v') \<leftarrow> wave_step E w c (ready ! i) (ps ! i) v;
           wave_loop E w c ready n (ps[i := ph]) v'
         })
      })"

definition ready_steps :: "'w workflow \<Rightarrow> string list \<Rightarrow> 'w wf_step list" where
  "ready_steps w done = filter (\<lambda>st. stpName st \<notin> set done \<and> depsMet st done) (wfSteps w)"

definition wf_result_of :: "wf_vars \<Rightarrow> wf_result" where
  "wf_result_of v = \<lparr>wrOutput = [], wrOutputs = wvOutputs v, wrState = wvState v, wrUsage = wvUsage v,
     wrStepTraces = wvTraces v\<rparr>"

text \<open>
  The loop over the waves. A wave without an error completes at least one step, so that one
  round more than there are steps is enough; \<open>None\<close> would be a loop that goes on.
\<close>

fun waves :: "'w env \<Rightarrow> 'w workflow \<Rightarrow> ctx \<Rightarrow> nat \<Rightarrow> wf_vars \<Rightarrow> ('w st, (wf_vars \<times> goerr option) option) state" where
  "waves E w c 0 v = State_Monad.return None"
| "waves E w c (Suc n) v =
     (if \<not> length (wvDone v) < length (wfSteps w) then State_Monad.return (Some (v, None))
      else
        (let ready = ready_steps w (wvDone v) in
         if ready = [] then State_Monad.return (Some (v, Some (ErrText (''workflow '' @ strconv_quote (wfName w)
             @ '': no runnable steps (cycle or missing dependency)''))))
         else do {
           (ps, v') \<leftarrow> wave_loop E w c ready (2 * length ready) (replicate (length ready) WReady) v;
           (if wvErr v' \<noteq> None then State_Monad.return (Some (v', wvErr v')) else waves E w c n v')
         }))"

text \<open>\<open>cid\<close> names the cancellable context that this call derives.\<close>

definition workflow_Run ::
  "'w env \<Rightarrow> (string list \<Rightarrow> string list) \<Rightarrow> 'w workflow \<Rightarrow> addr \<Rightarrow> ctx \<Rightarrow> string \<Rightarrow>
     ('w st, (wf_result option \<times> goerr option) option) state" where
  "workflow_Run E iter w cid c input = (case validate iter w of
       Some err \<Rightarrow> State_Monad.return (Some (None, Some err))
     | None \<Rightarrow> (let cctx = CtxWithCancel c cid in do {
         r \<leftarrow> waves E w cctx (Suc (length (wfSteps w)))
            \<lparr>wvState = newState input, wvOutputs = Map.empty, wvUsage = usage_zero, wvTraces = Map.empty,
             wvDone = [], wvErr = None\<rparr>;
         _ \<leftarrow> ctx_cancel E cctx;
         State_Monad.return (case r of
             None \<Rightarrow> None
           | Some (v, Some err) \<Rightarrow> Some (Some (wf_result_of v), Some err)
           | Some (v, None) \<Rightarrow> Some (Some ((wf_result_of v)
               \<lparr>wrOutput := (if wfSteps w = [] then []
                  else (case wvOutputs v (stpName (last (wfSteps w))) of None \<Rightarrow> [] | Some t \<Rightarrow> t))\<rparr>), None))
       }))"

end
