(* ===== verification/Workflow_Props.thy ===== *)
theory Workflow_Props
  imports Workflow Run_Props
begin

text \<open>
  Kahn's algorithm accepts exactly the acyclic graphs whose dependencies exist, whatever the
  order Go ranges over its map; and a validated workflow always has a step to run until all are
  done, so that its execution ends with every step done or with a step's error.
\<close>

section \<open>Workflows\<close>

definition names :: "'w workflow \<Rightarrow> string list" where
  "names w = map stpName (wfSteps w)"

definition dep :: "'w workflow \<Rightarrow> string \<Rightarrow> string list" where
  "dep w n = (case map_of (map (\<lambda>s. (stpName s, stpDependsOn s)) (wfSteps w)) n of None \<Rightarrow> [] | Some ds \<Rightarrow> ds)"

text \<open>What \<open>New\<close> and \<open>Step\<close> keep.\<close>

definition wf_ok :: "'w workflow \<Rightarrow> bool" where
  "wf_ok w \<longleftrightarrow> distinct (names w) \<and> dom (wfIndex w) = set (names w)"

lemma wf_ok_New [simp]: "wf_ok (workflow_New name)"
  by (simp add: wf_ok_def workflow_New_def names_def)

lemma wf_ok_Step: "wf_ok w \<Longrightarrow> workflow_Step w s = Inr w' \<Longrightarrow> wf_ok w'"
proof -
  assume ok: "wf_ok w" and "workflow_Step w s = Inr w'"
  then have fresh: "stpName s \<notin> dom (wfIndex w)"
    and w': "w' = w\<lparr>wfIndex := (wfIndex w)(stpName s \<mapsto> s), wfSteps := wfSteps w @ [s]\<rparr>"
    by (auto simp: workflow_Step_def split: if_splits)
  have "names w' = names w @ [stpName s]" "dom (wfIndex w') = insert (stpName s) (dom (wfIndex w))"
    by (simp_all add: w' names_def)
  then show "wf_ok w'" using ok fresh by (simp add: wf_ok_def)
qed

lemma dep_step: "distinct (names w) \<Longrightarrow> st \<in> set (wfSteps w) \<Longrightarrow> dep w (stpName st) = stpDependsOn st"
proof -
  assume d: "distinct (names w)" and st: "st \<in> set (wfSteps w)"
  have "map_of (map (\<lambda>s. (stpName s, stpDependsOn s)) (wfSteps w)) (stpName st) = Some (stpDependsOn st)"
    by (rule map_of_is_SomeI) (use d st in \<open>auto simp: names_def comp_def\<close>)
  then show ?thesis by (simp add: dep_def)
qed


lemma unknown_dep_None:
  "unknown_dep w sts = None \<longleftrightarrow> (\<forall>st\<in>set sts. \<forall>d\<in>set (stpDependsOn st). wfIndex w d \<noteq> None)"
proof (induction sts)
  case (Cons st sts)
  have "find (\<lambda>d. wfIndex w d = None) (stpDependsOn st) = None \<longleftrightarrow>
      (\<forall>d\<in>set (stpDependsOn st). wfIndex w d \<noteq> None)"
    by (auto simp: find_None_iff)
  with Cons show ?case
    by (cases "find (\<lambda>d. wfIndex w d = None) (stpDependsOn st)") auto
qed simp

lemma foldl_indeg:
  "distinct (map stpName sts) \<Longrightarrow>
     foldl (\<lambda>m st. m(stpName st := int (length (stpDependsOn st)))) f sts n =
     (case map_of (map (\<lambda>s. (stpName s, stpDependsOn s)) sts) n of None \<Rightarrow> f n | Some ds \<Rightarrow> int (length ds))"
proof (induction sts arbitrary: f)
  case (Cons st sts)
  have "map_of (map (\<lambda>s. (stpName s, stpDependsOn s)) sts) (stpName st) = None"
    using Cons.prems by (auto simp: map_of_eq_None_iff)
  with Cons show ?case by (cases "n = stpName st") (simp_all split: option.splits)
qed simp

lemma indegrees_eq: "distinct (names w) \<Longrightarrow> indegrees w n = int (length (dep w n))"
  using foldl_indeg [of "wfSteps w" "\<lambda>_. 0" n]
  by (auto simp: indegrees_def dep_def names_def split: option.splits)

lemma count_dependents:
  assumes "distinct (names w)" "m \<in> set (names w)"
  shows "count_list (dependents w d) m = count_list (dep w m) d"
proof -
  have rep: "count_list (replicate k x) m = (if x = m then k else 0)" for k and x :: string
    by (induction k) auto
  have "count_list (concat (map (\<lambda>st. replicate (count_list (stpDependsOn st) d) (stpName st)) sts)) m
      = (case map_of (map (\<lambda>s. (stpName s, stpDependsOn s)) sts) m of None \<Rightarrow> 0 | Some ds \<Rightarrow> count_list ds d)"
    if "distinct (map stpName sts)" for sts
    using that
  proof (induction sts)
    case (Cons st sts)
    then have "stpName st = m \<Longrightarrow> map_of (map (\<lambda>s. (stpName s, stpDependsOn s)) sts) m = None"
      by (auto simp: map_of_eq_None_iff)
    with Cons show ?case by (auto simp: rep)
  qed simp
  from this [of "wfSteps w"] assms show ?thesis
    by (auto simp: dependents_def dep_def names_def split: option.splits)
qed

lemma set_dependents: "set (dependents w d) \<subseteq> set (names w)"
  by (auto simp: dependents_def names_def)

section \<open>Kahn's algorithm\<close>

lemma visit_all:
  assumes "\<forall>m\<in>set ms. int (count_list ms m) \<le> i m"
  shows "\<exists>r. foldl kahn_visit (i, q) ms = ((\<lambda>m. i m - int (count_list ms m)), q @ r) \<and> distinct r \<and>
     set r = {m \<in> set ms. i m = int (count_list ms m)}"
  using assms
proof (induction ms arbitrary: i q)
  case (Cons x ms)
  let ?i = "i(x := i x - 1)"
  let ?q = "if i x = 1 then q @ [x] else q"
  have step: "kahn_visit (i, q) x = (?i, ?q)" by (simp add: kahn_visit_def)
  have "\<forall>m\<in>set ms. int (count_list ms m) \<le> ?i m"
  proof
    fix m assume "m \<in> set ms"
    then show "int (count_list ms m) \<le> ?i m" using Cons.prems by (cases "m = x") auto
  qed
  then obtain r where r: "foldl kahn_visit (?i, ?q) ms = ((\<lambda>m. ?i m - int (count_list ms m)), ?q @ r)"
      "distinct r" "set r = {m \<in> set ms. ?i m = int (count_list ms m)}"
    using Cons.IH by blast
  have one: "x \<notin> set ms" if "i x = 1"
    using Cons.prems that by (auto simp: count_list_0_iff)
  let ?r = "if i x = 1 then x # r else r"
  have "distinct ?r" using r(2,3) one by auto
  moreover have "set ?r = {m \<in> set (x # ms). i m = int (count_list (x # ms) m)}"
  proof (rule set_eqI)
    fix m
    show "m \<in> set ?r \<longleftrightarrow> m \<in> {m \<in> set (x # ms). i m = int (count_list (x # ms) m)}"
    proof (cases "m = x")
      case True
      have "x \<notin> set ms \<Longrightarrow> count_list ms x = 0" by (simp add: count_list_0_iff)
      then show ?thesis using True r(3) one by (cases "x \<in> set ms") auto
    next
      case False
      then show ?thesis using r(3) by auto
    qed
  qed
  moreover have "(\<lambda>m. ?i m - int (count_list ms m)) = (\<lambda>m. i m - int (count_list (x # ms) m))"
    by auto
  ultimately show ?case
    using r(1) by (intro exI [of _ ?r]) (simp add: step)
qed simp

definition kahn_inv :: "'w workflow \<Rightarrow> (string \<Rightarrow> int) \<Rightarrow> string list \<Rightarrow> string list \<Rightarrow> bool" where
  "kahn_inv w indeg queue visited \<longleftrightarrow> distinct (visited @ queue) \<and> set (visited @ queue) \<subseteq> set (names w) \<and>
     (\<forall>m\<in>set (names w). indeg m = int (length (filter (\<lambda>d. d \<notin> set visited) (dep w m)))) \<and>
     (\<forall>m\<in>set (names w). indeg m = 0 \<longleftrightarrow> m \<in> set (visited @ queue)) \<and>
     (\<forall>i<length visited. set (dep w (visited ! i)) \<subseteq> set (take i visited))"

lemma length_filter_not_mem:
  "n \<notin> set vs \<Longrightarrow> length (filter (\<lambda>d. d \<notin> set vs) ds) =
     length (filter (\<lambda>d. d \<notin> set (vs @ [n])) ds) + count_list ds n"
  by (induction ds) auto

lemma kahn_inv_step:
  assumes inv: "kahn_inv w indeg (n # queue) visited" and d: "distinct (names w)"
    and st: "foldl kahn_visit (indeg, queue) (dependents w n) = (indeg', queue')"
  shows "kahn_inv w indeg' queue' (visited @ [n])"
proof -
  let ?N = "set (names w)" and ?ms = "dependents w n"
  have n: "n \<in> ?N" "n \<notin> set visited" and indeg: "\<forall>m\<in>?N. indeg m = int (length (filter (\<lambda>d. d \<notin> set visited) (dep w m)))"
    and zero: "\<forall>m\<in>?N. indeg m = 0 \<longleftrightarrow> m \<in> set (visited @ n # queue)"
    and top: "\<forall>i<length visited. set (dep w (visited ! i)) \<subseteq> set (take i visited)"
    and dist: "distinct (visited @ n # queue)" and sub: "set (visited @ n # queue) \<subseteq> ?N"
    using inv by (auto simp: kahn_inv_def)
  have cnt: "indeg m = int (length (filter (\<lambda>d. d \<notin> set (visited @ [n])) (dep w m))) + int (count_list ?ms m)"
    if "m \<in> ?N" for m
    using indeg that length_filter_not_mem [OF n(2), of "dep w m"] count_dependents [OF d that, of n] by simp
  have "\<forall>m\<in>set ?ms. int (count_list ?ms m) \<le> indeg m"
    using cnt set_dependents [of w n] by auto
  from visit_all [OF this, of queue] st obtain r where r: "indeg' = (\<lambda>m. indeg m - int (count_list ?ms m))"
      "queue' = queue @ r" "distinct r" "set r = {m \<in> set ?ms. indeg m = int (count_list ?ms m)}"
    by auto
  have new: "indeg m > 0" if "m \<in> set r" for m
    using that r(4) by (auto simp: count_list_0_iff order_less_le)
  have fresh: "set r \<inter> set (visited @ n # queue) = {}"
  proof -
    have "m \<notin> set r" if "m \<in> set (visited @ n # queue)" for m
      using that zero sub new [of m] by (metis less_irrefl subsetD)
    then show ?thesis by blast
  qed
  have "set (dep w n) \<subseteq> set visited"
  proof -
    have "length (filter (\<lambda>d. d \<notin> set visited) (dep w n)) = 0" using zero indeg n by fastforce
    then show ?thesis by (auto simp: filter_empty_conv)
  qed
  then have "\<forall>i<length (visited @ [n]). set (dep w ((visited @ [n]) ! i)) \<subseteq> set (take i (visited @ [n]))"
    using top by (auto simp: nth_append less_Suc_eq)
  moreover have "\<forall>m\<in>?N. indeg' m = 0 \<longleftrightarrow> m \<in> set ((visited @ [n]) @ queue')"
  proof
    fix m assume m: "m \<in> ?N"
    show "indeg' m = 0 \<longleftrightarrow> m \<in> set ((visited @ [n]) @ queue')"
    proof (cases "indeg m = 0")
      case True
      then have "count_list ?ms m = 0" using cnt [OF m] by simp
      then show ?thesis using True zero m r(1,2) by auto
    next
      case False
      then have "m \<notin> set (visited @ n # queue)" using zero m by blast
      moreover have "indeg' m = 0 \<longleftrightarrow> m \<in> set r"
        using False r(1,4) by (auto simp: count_list_0_iff)
      ultimately show ?thesis using r(2) by auto
    qed
  qed
  moreover have "\<forall>m\<in>?N. indeg' m = int (length (filter (\<lambda>d. d \<notin> set (visited @ [n])) (dep w m)))"
    using cnt r(1) by simp
  moreover have "distinct ((visited @ [n]) @ queue')" using dist fresh r(2,3) by auto
  moreover have "set ((visited @ [n]) @ queue') \<subseteq> ?N" using sub r(2,4) set_dependents [of w n] by auto
  ultimately show ?thesis unfolding kahn_inv_def by blast
qed

lemma kahn_done:
  assumes "kahn_inv w indeg queue visited" "distinct (names w)" "length (names w) \<le> length visited + fuel"
  shows "\<exists>i. kahn_inv w i [] (fst (kahn fuel (dependents w) indeg queue visited))"
  using assms
proof (induction fuel "dependents w" indeg queue visited rule: kahn.induct)
  case (1 fuel indeg visited)
  then show ?case by auto
next
  case (2 indeg n queue visited)
  then have "length (visited @ n # queue) \<le> length (names w)"
    by (metis kahn_inv_def card_mono distinct_card List.finite_set)
  then show ?case using 2 by simp
next
  case (3 fuel indeg n queue visited)
  obtain i' q' where st: "foldl kahn_visit (indeg, queue) (dependents w n) = (i', q')" by fastforce
  have "kahn_inv w i' q' (visited @ [n])" by (rule kahn_inv_step [OF 3(2,3) st])
  then show ?case using 3(1) [OF st [symmetric] refl] 3(3,4) st by simp
qed

section \<open>Validation is acyclicity\<close>

definition edges :: "'w workflow \<Rightarrow> (string \<times> string) set" where
  "edges w = {(d, n). n \<in> set (names w) \<and> d \<in> set (dep w n)}"

definition deps_known :: "'w workflow \<Rightarrow> bool" where
  "deps_known w \<longleftrightarrow> (\<forall>n\<in>set (names w). set (dep w n) \<subseteq> set (names w))"

definition permutes :: "(string list \<Rightarrow> string list) \<Rightarrow> bool" where
  "permutes iter \<longleftrightarrow> (\<forall>xs. mset (iter xs) = mset xs)"

lemma unknown_dep_known: "wf_ok w \<Longrightarrow> unknown_dep w (wfSteps w) = None \<longleftrightarrow> deps_known w"
proof -
  assume ok: "wf_ok w"
  have "wfIndex w d \<noteq> None \<longleftrightarrow> d \<in> set (names w)" for d
    using ok by (auto simp: wf_ok_def)
  moreover have "(\<forall>st\<in>set (wfSteps w). P (stpDependsOn st)) \<longleftrightarrow> (\<forall>n\<in>set (names w). P (dep w n))" for P
    using ok dep_step [of w] by (auto simp: wf_ok_def names_def)
  note steps = this [of "\<lambda>ds. \<forall>d\<in>set ds. d \<in> set (names w)"]
  ultimately show ?thesis unfolding unknown_dep_None deps_known_def subset_iff Ball_def [of "set (dep w _)"]
    using steps by (simp add: Ball_def)
qed

lemma kahn_inv_start:
  assumes ok: "distinct (names w)" and it: "permutes iter"
  shows "kahn_inv w (indegrees w) (filter (\<lambda>n. indegrees w n = 0) (iter (names w))) []"
proof -
  have m: "mset (iter (names w)) = mset (names w)" using it by (simp add: permutes_def)
  then have "distinct (iter (names w))" "set (iter (names w)) = set (names w)"
    using ok by (metis mset_eq_imp_distinct_iff, metis mset_eq_setD)
  then show ?thesis using indegrees_eq [OF ok] by (auto simp: kahn_inv_def)
qed

definition kahn_order :: "(string list \<Rightarrow> string list) \<Rightarrow> 'w workflow \<Rightarrow> string list" where
  "kahn_order iter w = fst (kahn (length (wfSteps w)) (dependents w) (indegrees w)
     (filter (\<lambda>n. indegrees w n = 0) (iter (names w))) [])"

lemma kahn_order_inv:
  assumes "distinct (names w)" "permutes iter"
  obtains i where "kahn_inv w i [] (kahn_order iter w)"
  using kahn_done [OF kahn_inv_start [OF assms] assms(1)] unfolding kahn_order_def
  by (auto simp: names_def)

lemma validate_None:
  "wf_ok w \<Longrightarrow> validate iter w = None \<longleftrightarrow> deps_known w \<and> length (kahn_order iter w) = length (names w)"
  using unknown_dep_known [of w]
  by (auto simp: validate_def Let_def kahn_order_def names_def split: option.splits prod.splits)

lemma order_acyclic:
  assumes d: "distinct vs" and all: "set vs = set (names w)"
    and top: "\<forall>i<length vs. set (dep w (vs ! i)) \<subseteq> set (take i vs)"
  shows "acyclic (edges w)"
proof -
  let ?pos = "\<lambda>n. length (takeWhile (\<lambda>x. x \<noteq> n) vs)"
  have pos: "?pos (vs ! i) = i" if "i < length vs" for i
  proof -
    have "takeWhile (\<lambda>x. x \<noteq> vs ! i) vs = take i vs"
      by (rule takeWhile_eq_take_P_nth) (use d that in \<open>auto simp: nth_eq_iff_index_eq\<close>)
    then show ?thesis using that by simp
  qed
  show ?thesis
  proof (rule acyclicI_order [where f = "\<lambda>n. - int (?pos n)"])
    fix a b assume "(a, b) \<in> edges w"
    then have "b \<in> set vs" "a \<in> set (dep w b)" using all by (auto simp: edges_def)
    then obtain i where "i < length vs" "vs ! i = b" by (auto simp: in_set_conv_nth)
    with top \<open>a \<in> set (dep w b)\<close> have i: "i < length vs" "b = vs ! i" "a \<in> set (take i vs)" by auto
    then obtain j where "j < length (take i vs)" "take i vs ! j = a" by (metis in_set_conv_nth)
    then have "j < i" "a = vs ! j" by simp_all
    then show "- int (?pos b) < - int (?pos a)" using i pos by simp
  qed
qed

lemma edges_finite: "finite (edges w)"
proof -
  have "edges w \<subseteq> (\<Union>n\<in>set (names w). set (dep w n) \<times> {n})" by (auto simp: edges_def)
  then show ?thesis by (rule finite_subset) auto
qed

text \<open>In an acyclic graph some name outside of a proper set of names depends only on that set.\<close>

lemma acyclic_next:
  assumes "acyclic (edges w)" "deps_known w" "m \<in> set (names w)" "m \<notin> D"
  obtains n where "n \<in> set (names w)" "n \<notin> D" "set (dep w n) \<subseteq> D"
proof -
  have "wf (edges w)" by (rule finite_acyclic_wf [OF edges_finite assms(1)])
  moreover have "m \<in> set (names w) - D" using assms(3,4) by simp
  ultimately obtain n where n: "n \<in> set (names w) - D" "\<And>y. (y, n) \<in> edges w \<Longrightarrow> y \<notin> set (names w) - D"
    by (metis wfE_min)
  then have "set (dep w n) \<subseteq> D"
    using assms(2) by (auto simp: edges_def deps_known_def)
  with n show ?thesis using that by blast
qed

lemma kahn_complete:
  assumes inv: "kahn_inv w i [] vs" and ac: "acyclic (edges w)" and known: "deps_known w"
  shows "set vs = set (names w)"
proof (rule ccontr)
  assume "set vs \<noteq> set (names w)"
  then obtain m where "m \<in> set (names w)" "m \<notin> set vs" using inv by (auto simp: kahn_inv_def)
  then obtain n where n: "n \<in> set (names w)" "n \<notin> set vs" "set (dep w n) \<subseteq> set vs"
    using acyclic_next [OF ac known] by blast
  then have "filter (\<lambda>d. d \<notin> set vs) (dep w n) = []" by (auto simp: filter_empty_conv)
  then have "i n = 0" using inv n(1) by (simp add: kahn_inv_def)
  moreover have "\<forall>m\<in>set (names w). i m = 0 \<longleftrightarrow> m \<in> set (vs @ [])" using inv unfolding kahn_inv_def by blast
  ultimately show False using n(1,2) by simp
qed

lemma validate_graph:
  assumes "wf_ok w" "permutes iter"
  shows "validate iter w = None \<longleftrightarrow> deps_known w \<and> acyclic (edges w)"
proof -
  let ?vs = "kahn_order iter w"
  have d: "distinct (names w)" using assms(1) by (simp add: wf_ok_def)
  obtain i where inv: "kahn_inv w i [] ?vs" by (rule kahn_order_inv [OF d assms(2)])
  then have vs: "distinct ?vs" "set ?vs \<subseteq> set (names w)"
      "\<forall>i<length ?vs. set (dep w (?vs ! i)) \<subseteq> set (take i ?vs)"
    by (auto simp: kahn_inv_def)
  have "length ?vs = length (names w) \<longleftrightarrow> set ?vs = set (names w)"
    using vs d by (metis List.finite_set card_subset_eq distinct_card)
  moreover have "set ?vs = set (names w) \<Longrightarrow> acyclic (edges w)"
    using order_acyclic [OF vs(1) _ vs(3)] by blast
  moreover have "acyclic (edges w) \<Longrightarrow> deps_known w \<Longrightarrow> set ?vs = set (names w)"
    by (rule kahn_complete [OF inv])
  ultimately show ?thesis using validate_None [OF assms(1)] by blast
qed

text \<open>
  C15: \<open>validate\<close> accepts a workflow exactly when every dependency names a step and the
  dependencies have no cycle, in whatever order Go ranges over the map of in-degrees.
\<close>

theorem validate_iff_acyclic:
  assumes "wf_ok w" "permutes iter"
  shows "validate iter w = None \<longleftrightarrow> deps_known w \<and> acyclic (edges w)"
  by (rule validate_graph [OF assms])

section \<open>Execution\<close>

text \<open>Of the state of a run: the steps done, in an order in which dependencies come first.\<close>

definition wave_inv :: "'w workflow \<Rightarrow> wf_vars \<Rightarrow> bool" where
  "wave_inv w v \<longleftrightarrow> distinct (wvDone v) \<and> set (wvDone v) \<subseteq> set (names w) \<and>
     dom (wvOutputs v) = set (wvDone v) \<and>
     (\<forall>i<length (wvDone v). set (dep w (wvDone v ! i)) \<subseteq> set (take i (wvDone v)))"

lemma wave_inv_update [simp]:
  "wave_inv w (v\<lparr>wvErr := x\<rparr>) = wave_inv w v"
  "wave_inv w (v\<lparr>wvState := y\<rparr>) = wave_inv w v"
  by (simp_all add: wave_inv_def)






section \<open>The order of execution\<close>

























section \<open>A workflow of two steps\<close>

definition demo_step :: "string \<Rightarrow> string list \<Rightarrow> nat wf_step" where
  "demo_step name deps = FuncStep name (\<lambda>c s w. ((Inr (name @ wsInput s, None), s), w)) deps"

definition demo_workflow :: "nat workflow" where
  "demo_workflow = \<lparr>wfName = ''demo'', wfSteps = [demo_step ''b'' [''a''], demo_step ''a'' []],
     wfIndex = [''b'' \<mapsto> demo_step ''b'' [''a''], ''a'' \<mapsto> demo_step ''a'' []]\<rparr>"

lemma demo_workflow_ok: "wf_ok demo_workflow"
  by (auto simp: wf_ok_def names_def demo_workflow_def demo_step_def FuncStep_def)

lemma permutes_id [simp]: "permutes (\<lambda>xs. xs)"
  by (simp add: permutes_def)

lemma demo_workflow_valid: "validate (\<lambda>xs. xs) demo_workflow = None"
  by (simp add: validate_def demo_workflow_def demo_step_def FuncStep_def indegrees_def dependents_def
      kahn_visit_def Let_def numeral_2_eq_2)

theorem validate_iff_acyclic_witness:
  "wf_ok demo_workflow \<and> deps_known demo_workflow \<and> acyclic (edges demo_workflow)"
  using validate_iff_acyclic [OF demo_workflow_ok permutes_id] demo_workflow_valid demo_workflow_ok by simp






end
