(* ===== verification/Go_Utf8.thy ===== *)
theory Go_Utf8
  imports Go_Prelude
begin

text \<open>
  UTF-8 as Go's \<open>unicode/utf8\<close> decodes and encodes it: the runes that \<open>[]rune(s)\<close> and
  \<open>for _, r := range s\<close> produce, and the conversion back. A byte that does not start a valid
  sequence is the rune U+FFFD of width one.
\<close>

abbreviation rune_error :: nat where "rune_error \<equiv> 0xFFFD"

text \<open>
  For a leading byte: the width of its sequence, the range of the second byte and the bits it
  contributes; \<open>None\<close> when no sequence starts with it. Every further byte is between 80 and BF.
\<close>

definition utf8_lead :: "nat \<Rightarrow> (nat \<times> nat \<times> nat \<times> nat) option" where
  "utf8_lead b =
     (if b < 0xC2 then None
      else if b < 0xE0 then Some (2, 0x80, 0xBF, b - 0xC0)
      else if b = 0xE0 then Some (3, 0xA0, 0xBF, 0)
      else if b = 0xED then Some (3, 0x80, 0x9F, 0xD)
      else if b < 0xF0 then Some (3, 0x80, 0xBF, b - 0xE0)
      else if b = 0xF0 then Some (4, 0x90, 0xBF, 0)
      else if b < 0xF4 then Some (4, 0x80, 0xBF, b - 0xF0)
      else if b = 0xF4 then Some (4, 0x80, 0x8F, 4)
      else None)"

definition continuation :: "nat \<Rightarrow> bool" where
  "continuation b \<longleftrightarrow> 0x80 \<le> b \<and> b \<le> 0xBF"

fun decode_tail :: "nat \<Rightarrow> nat \<Rightarrow> nat list \<Rightarrow> nat option" where
  "decode_tail 0 acc bs = Some acc"
| "decode_tail (Suc n) acc [] = None"
| "decode_tail (Suc n) acc (b # bs) =
     (if continuation b then decode_tail n (acc * 64 + (b - 0x80)) bs else None)"

text \<open>\<open>utf8.DecodeRuneInString\<close>: the rune at the front of a string and its width.\<close>

definition decode_rune :: "string \<Rightarrow> nat \<times> nat" where
  "decode_rune s = (case map of_char s of
       [] \<Rightarrow> (rune_error, 0)
     | a # bs \<Rightarrow>
         if a < 0x80 then (a, 1)
         else (case utf8_lead a of
             None \<Rightarrow> (rune_error, 1)
           | Some (n, lo, hi, t) \<Rightarrow> (case bs of
               [] \<Rightarrow> (rune_error, 1)
             | b # bs' \<Rightarrow>
                 if lo \<le> b \<and> b \<le> hi then
                   (case decode_tail (n - 2) (t * 64 + (b - 0x80)) bs' of
                      None \<Rightarrow> (rune_error, 1)
                    | Some r \<Rightarrow> (r, n))
                 else (rune_error, 1))))"

lemma utf8_lead_width: "utf8_lead b = Some (n, lo, hi, t) \<Longrightarrow> 2 \<le> n \<and> n \<le> 4"
  by (auto simp: utf8_lead_def split: if_splits)

lemma decode_tail_fits: "decode_tail n acc bs = Some r \<Longrightarrow> n \<le> length bs"
  by (induction n acc bs rule: decode_tail.induct) (auto split: if_splits)

lemma decode_tail_range:
  "decode_tail n acc bs = Some r \<Longrightarrow> acc * 64 ^ n \<le> r \<and> r < (acc + 1) * 64 ^ n"
proof (induction n acc bs rule: decode_tail.induct)
  case (3 n acc b bs)
  then have ih: "(acc * 64 + (b - 0x80)) * 64 ^ n \<le> r" "r < (acc * 64 + (b - 0x80) + 1) * 64 ^ n"
    and b: "b - 0x80 < 64"
    by (auto simp: continuation_def split: if_splits)
  have "acc * 64 * 64 ^ n \<le> (acc * 64 + (b - 0x80)) * 64 ^ n" by (rule mult_le_mono1) simp
  moreover have "(acc * 64 + (b - 0x80) + 1) * 64 ^ n \<le> ((acc + 1) * 64) * 64 ^ n"
    using b by (intro mult_le_mono1) simp
  moreover have "(acc + 1) * 64 ^ Suc n = ((acc + 1) * 64) * 64 ^ n" "acc * 64 ^ Suc n = acc * 64 * 64 ^ n"
    by (simp_all add: algebra_simps)
  ultimately show ?case using ih by linarith
qed auto

lemma decode_rune_width: "decode_rune s = (r, n) \<Longrightarrow> s \<noteq> [] \<Longrightarrow> 1 \<le> n \<and> n \<le> 4 \<and> n \<le> length s"
  by (auto simp: decode_rune_def dest!: utf8_lead_width decode_tail_fits
      split: if_splits option.splits list.splits)

function runes :: "string \<Rightarrow> nat list" where
  "runes s = (if s = [] then [] else case decode_rune s of (r, n) \<Rightarrow> r # runes (drop n s))"
  by pat_completeness auto
termination
proof (relation "measure length")
  fix s :: string and r n
  assume "s \<noteq> []" "(r, n) = decode_rune s"
  then show "(drop n s, s) \<in> measure length" using decode_rune_width [of s r n] by simp
qed simp

declare runes.simps [simp del]

lemma runes_Nil [simp]: "runes [] = []"
  by (simp add: runes.simps)

text \<open>\<open>utf8.AppendRune\<close>: surrogates and values that are too large become U+FFFD.\<close>

definition encode_rune :: "nat \<Rightarrow> string" where
  "encode_rune r =
     (if r < 0x80 then [char_of r]
      else if r < 0x800 then [char_of (0xC0 + r div 64), char_of (0x80 + r mod 64)]
      else if r > 0x10FFFF \<or> 0xD800 \<le> r \<and> r \<le> 0xDFFF then [CHR 0xEF, CHR 0xBF, CHR 0xBD]
      else if r < 0x10000 then
        [char_of (0xE0 + r div 4096), char_of (0x80 + r div 64 mod 64), char_of (0x80 + r mod 64)]
      else
        [char_of (0xF0 + r div 262144), char_of (0x80 + r div 4096 mod 64), char_of (0x80 + r div 64 mod 64),
         char_of (0x80 + r mod 64)])"

definition string_of_runes :: "nat list \<Rightarrow> string" where
  "string_of_runes rs = concat (map encode_rune rs)"

definition valid_rune :: "nat \<Rightarrow> bool" where
  "valid_rune r \<longleftrightarrow> r \<le> 0x10FFFF \<and> \<not> (0xD800 \<le> r \<and> r \<le> 0xDFFF)"

lemma length_encode_rune: "1 \<le> length (encode_rune r)" "length (encode_rune r) \<le> 4"
  by (auto simp: encode_rune_def)

lemma decode_encode_rune:
  assumes "valid_rune r"
  shows "decode_rune (encode_rune r @ s) = (r, length (encode_rune r))"
proof -
  consider "r < 0x80" | "0x80 \<le> r" "r < 0x800" | "0x800 \<le> r" "r < 0x1000" | "0x1000 \<le> r" "r < 0x10000"
    | "0x10000 \<le> r" "r < 0x40000" | "0x40000 \<le> r" "r \<le> 0x10FFFF"
    using assms by (fastforce simp: valid_rune_def)
  then show ?thesis
  proof cases
    case 1
    then show ?thesis by (simp add: encode_rune_def decode_rune_def)
  next
    case 2
    then have "2 \<le> r div 64" "r div 64 < 32" by (simp_all add: div_less_iff_less_mult less_eq_div_iff_mult_less_eq)
    with 2 show ?thesis
      by (simp add: encode_rune_def decode_rune_def utf8_lead_def mult.commute)
  next
    case 3
    then have d: "r div 4096 = 0" "32 \<le> r div 64" "r div 64 < 64" "r div 64 mod 64 = r div 64"
      by (simp_all add: div_less_iff_less_mult less_eq_div_iff_mult_less_eq)
    with 3 show ?thesis
      by (simp add: encode_rune_def decode_rune_def utf8_lead_def continuation_def mult.commute)
  next
    case 4
    let ?a = "r div 4096" and ?b = "r div 64 mod 64" and ?c = "r mod 64"
    have a: "1 \<le> ?a" "?a < 16" using 4 by (simp_all add: div_less_iff_less_mult less_eq_div_iff_mult_less_eq)
    have r: "?a = r div 64 div 64" by (simp add: div_mult2_eq [symmetric])
    have sur: "?b < 32" if "?a = 13"
    proof (rule ccontr)
      assume "\<not> ?b < 32"
      moreover have "r div 64 = 13 * 64 + ?b" using that r by (metis div_mult_mod_eq mult.commute)
      ultimately have "864 \<le> r div 64" "r div 64 < 896" using pos_mod_bound [of 64 "r div 64"] by linarith+
      then have "0xD800 \<le> r" "r \<le> 0xDFFF"
        by (simp_all add: div_less_iff_less_mult less_eq_div_iff_mult_less_eq)
      with assms show False by (simp add: valid_rune_def)
    qed
    have sum: "(?a * 64 + ?b) * 64 + ?c = r" using r by (metis div_mult_mod_eq)
    have "\<not> (0xD800 \<le> r \<and> r \<le> 0xDFFF)" using assms by (simp add: valid_rune_def)
    moreover have "?b \<le> 63" using pos_mod_bound [of 64 "r div 64"] by linarith
    ultimately show ?thesis using 4 a sur sum
      by (auto simp: encode_rune_def decode_rune_def utf8_lead_def continuation_def numeral_2_eq_2)
  next
    case 5
    let ?a = "r div 262144" and ?b = "r div 4096 mod 64" and ?c = "r div 64 mod 64" and ?d = "r mod 64"
    have z: "?a = 0" "16 \<le> r div 4096" "r div 4096 < 64" "?b = r div 4096"
      using 5 by (simp_all add: div_less_iff_less_mult less_eq_div_iff_mult_less_eq)
    have "r div 4096 = r div 64 div 64" by (simp add: div_mult2_eq [symmetric])
    then have sum: "(r div 4096 * 64 + ?c) * 64 + ?d = r" by (metis div_mult_mod_eq)
    have "?c \<le> 63" "?d \<le> 63" using pos_mod_bound [of 64 "r div 64"] pos_mod_bound [of 64 r] by linarith+
    with 5 z sum show ?thesis
      by (simp add: encode_rune_def decode_rune_def utf8_lead_def continuation_def numeral_2_eq_2)
  next
    case 6
    let ?a = "r div 262144" and ?b = "r div 4096 mod 64" and ?c = "r div 64 mod 64" and ?d = "r mod 64"
    have a: "1 \<le> ?a" "?a < 5" using 6 by (simp_all add: div_less_iff_less_mult less_eq_div_iff_mult_less_eq)
    have q: "r div 4096 = r div 64 div 64" "?a = r div 4096 div 64" by (simp_all add: div_mult2_eq [symmetric])
    have sum: "((?a * 64 + ?b) * 64 + ?c) * 64 + ?d = r" using q by (metis div_mult_mod_eq)
    have top: "?b < 16" if "?a = 4"
    proof -
      have "r div 4096 = 4 * 64 + ?b" using that q by (metis div_mult_mod_eq mult.commute)
      moreover have "r div 4096 < 272" using 6 by (simp add: div_less_iff_less_mult)
      ultimately show ?thesis by linarith
    qed
    have "?b \<le> 63" "?c \<le> 63" "?d \<le> 63"
      using pos_mod_bound [of 64 "r div 4096"] pos_mod_bound [of 64 "r div 64"] pos_mod_bound [of 64 r] by linarith+
    moreover have "?a = 4 \<or> ?a = 1 \<or> ?a = 2 \<or> ?a = 3" using a by linarith
    ultimately show ?thesis using 6 top sum
      by (elim disjE) (simp_all add: encode_rune_def decode_rune_def utf8_lead_def continuation_def numeral_2_eq_2)
  qed
qed

lemma runes_encode [simp]: "valid_rune r \<Longrightarrow> runes (encode_rune r @ s) = r # runes s"
  using length_encode_rune(1) [of r] by (subst runes.simps) (auto simp: decode_encode_rune)

lemma runes_string_of_runes: "list_all valid_rune rs \<Longrightarrow> runes (string_of_runes rs @ s) = rs @ runes s"
  by (induction rs) (simp_all add: string_of_runes_def)

lemma runes_ascii [simp]: "(of_char c :: nat) < 0x80 \<Longrightarrow> runes (c # s) = of_char c # runes s"
  by (subst runes.simps) (simp add: decode_rune_def)

lemma length_runes: "length (runes s) \<le> length s"
proof (induction s rule: runes.induct)
  case (1 s)
  show ?case
  proof (cases "s = []")
    case False
    obtain r n where d: "decode_rune s = (r, n)" by force
    have "length (runes (drop n s)) \<le> length (drop n s)" using 1 [OF False d [symmetric]] by simp
    then show ?thesis
      using False d decode_rune_width [OF d False] by (simp add: runes.simps [of s]) linarith
  qed simp
qed

text \<open>Every rune that decoding yields can be encoded again.\<close>

lemma decode_rune_valid: "s \<noteq> [] \<Longrightarrow> decode_rune s = (r, n) \<Longrightarrow> valid_rune r"
  by (auto simp: decode_rune_def valid_rune_def utf8_lead_def dest!: decode_tail_range
      split: if_splits option.splits list.splits)

lemma runes_valid: "list_all valid_rune (runes s)"
proof (induction s rule: runes.induct)
  case (1 s)
  show ?case
  proof (cases "s = []")
    case False
    obtain r n where d: "decode_rune s = (r, n)" by force
    then show ?thesis
      using 1 [OF False d [symmetric]] decode_rune_valid [OF False d] False by (simp add: runes.simps [of s])
  qed simp
qed

text \<open>A string whose runes are ASCII consists of these bytes.\<close>

lemma decode_rune_ascii: "decode_rune (c # cs) = (r, n) \<Longrightarrow> r < 0x80 \<Longrightarrow> n = 1 \<and> r = of_char c"
  by (auto simp: decode_rune_def utf8_lead_def dest!: decode_tail_range split: if_splits option.splits list.splits)

lemma runes_all_ascii: "list_all (\<lambda>r. r < 0x80) (runes s) \<Longrightarrow> runes s = map of_char s"
proof (induction s)
  case (Cons c cs)
  obtain r n where d: "decode_rune (c # cs) = (r, n)" by force
  then have s: "runes (c # cs) = r # runes (drop n (c # cs))" by (subst runes.simps) simp
  then have "r < 0x80" using Cons.prems by simp
  then have "n = 1" "r = of_char c" using decode_rune_ascii [OF d] by simp_all
  with s Cons show ?case by simp
qed simp

end
