(* ===== verification/Go_Sha256.thy ===== *)
theory Go_Sha256
  imports Go_Prelude "HOL-Library.Word"
begin

text \<open>
  \<open>crypto/sha256\<close> (FIPS 180-4) on lists of bytes: padding, the message schedule and the
  compression of one 64-byte block, over 32-bit words.
\<close>

unbundle bit_operations_syntax

type_synonym word32 = "32 word"

text \<open>
  The constants are the first 32 bits of the fractional parts of the cube roots of the first 64
  primes and of the square roots of the first 8; \<open>floor_root k n\<close> is the \<open>k\<close>-th root of \<open>n\<close>, rounded
  down, for roots below \<open>2 ^ 35\<close>.
\<close>

definition floor_root :: "nat \<Rightarrow> int \<Rightarrow> int" where
  "floor_root k n = foldl (\<lambda>r b. if (r + 2 ^ b) ^ k \<le> n then r + 2 ^ b else r) 0 (rev [0..<35])"

definition sha_primes :: "int list" where
  "sha_primes = [
     2, 3, 5, 7, 11, 13, 17, 19, 23, 29, 31, 37, 41, 43, 47, 53,
     59, 61, 67, 71, 73, 79, 83, 89, 97, 101, 103, 107, 109, 113, 127, 131,
     137, 139, 149, 151, 157, 163, 167, 173, 179, 181, 191, 193, 197, 199, 211, 223,
     227, 229, 233, 239, 241, 251, 257, 263, 269, 271, 277, 281, 283, 293, 307, 311]"

definition sha_k :: "word32 list" where
  "sha_k = map (\<lambda>p. of_int (floor_root 3 (p * 2 ^ 96))) sha_primes"

definition sha_init :: "word32 list" where
  "sha_init = map (\<lambda>p. of_int (floor_root 2 (p * 2 ^ 64))) (take 8 sha_primes)"

text \<open>The words of a big-endian byte string, and back.\<close>

fun words_be :: "nat list \<Rightarrow> word32 list" where
  "words_be (a # b # c # d # bs) = of_nat (((a * 256 + b) * 256 + c) * 256 + d) # words_be bs"
| "words_be _ = []"

definition bytes_be :: "word32 \<Rightarrow> string" where
  "bytes_be w = map (\<lambda>k. char_of (unat (drop_bit k w AND 0xFF))) [24, 16, 8, 0]"

definition sha_pad :: "string \<Rightarrow> nat list" where
  "sha_pad s = map of_char s @ [0x80] @ replicate ((119 - length s mod 64) mod 64) 0 @
     map (\<lambda>k. 8 * length s div 256 ^ k mod 256) [7, 6, 5, 4, 3, 2, 1, 0]"

definition rotr :: "nat \<Rightarrow> word32 \<Rightarrow> word32" where
  "rotr n x = drop_bit n x OR push_bit (32 - n) x"

definition sha_schedule :: "word32 list \<Rightarrow> word32 list" where
  "sha_schedule ws = foldl (\<lambda>w t.
     let x = w ! (t - 15); y = w ! (t - 2);
         s0 = rotr 7 x XOR rotr 18 x XOR drop_bit 3 x;
         s1 = rotr 17 y XOR rotr 19 y XOR drop_bit 10 y
     in w @ [w ! (t - 16) + s0 + w ! (t - 7) + s1]) ws [16..<64]"

fun sha_round :: "word32 list \<Rightarrow> word32 \<Rightarrow> word32 list" where
  "sha_round [a, b, c, d, e, f, g, h] kw =
     (let t1 = h + (rotr 6 e XOR rotr 11 e XOR rotr 25 e) + ((e AND f) XOR (NOT e AND g)) + kw;
          t2 = (rotr 2 a XOR rotr 13 a XOR rotr 22 a) + ((a AND b) XOR (a AND c) XOR (b AND c))
      in [t1 + t2, a, b, c, d + t1, e, f, g])"
| "sha_round st kw = st"

definition sha_block :: "word32 list \<Rightarrow> nat list \<Rightarrow> word32 list" where
  "sha_block st block = map2 (+) st (foldl sha_round st (map2 (+) sha_k (sha_schedule (words_be block))))"

function sha_blocks :: "word32 list \<Rightarrow> nat list \<Rightarrow> word32 list" where
  "sha_blocks st bs = (if bs = [] then st else sha_blocks (sha_block st (take 64 bs)) (drop 64 bs))"
  by pat_completeness auto
termination
  by (relation "measure (\<lambda>(st, bs). length bs)") auto

declare sha_blocks.simps [simp del]

definition sha256 :: "string \<Rightarrow> string" where
  "sha256 s = concat (map bytes_be (sha_blocks sha_init (sha_pad s)))"

lemma length_sha_round [simp]: "length (sha_round st kw) = length st"
  by (cases "(st, kw)" rule: sha_round.cases) (auto simp: Let_def)

lemma length_sha_rounds [simp]: "length (foldl sha_round st kws) = length st"
  by (induction kws arbitrary: st) auto

lemma length_sha_blocks [simp]: "length (sha_blocks st bs) = length st"
proof (induction st bs rule: sha_blocks.induct)
  case (1 st bs)
  then show ?case by (cases "bs = []") (simp_all add: sha_blocks.simps [of st] sha_block_def)
qed

lemma length_bytes_be [simp]: "length (bytes_be w) = 4"
  by (simp add: bytes_be_def)

lemma length_sha256 [simp]: "length (sha256 s) = 32"
proof -
  have "length (concat (map bytes_be ws)) = 4 * length ws" for ws
    by (induction ws) auto
  then show ?thesis by (simp add: sha256_def sha_init_def sha_primes_def)
qed

end
