(* ===== verification/Memory_Store.thy ===== *)
theory Memory_Store
  imports Go_Runtime Go_Utf8 Go_Sha256 "HOL-Library.AList" "HOL-Library.Product_Lexorder" "HOL-Library.Multiset"
begin

text \<open>
  \<open>memory/memory.go\<close>, \<open>memory/store.go\<close> and \<open>memory/store_mem.go\<close>: records, queries, the ranking of
  query results, the \<open>Store\<close> interface with its contract (the locale \<open>record_store\<close>) and the
  in-memory store, which is shown to keep the contract.

  A Go map from ids to records is an association list with distinct keys; \<open>seRange\<close> is the order
  in which a \<open>range\<close> over it visits the entries, any permutation that may depend on the world.
  \<open>strings.ToLower\<close> folds the case of Unicode letters; it is the parameter \<open>seLower\<close>.
\<close>

section \<open>Records and queries (memory.go)\<close>

abbreviation KindFact :: string where "KindFact \<equiv> ''fact''"
abbreviation KindTodo :: string where "KindTodo \<equiv> ''todo''"
abbreviation KindNote :: string where "KindNote \<equiv> ''note''"

record mrecord =
  rID :: string
  rNamespace :: string
  rKind :: string
  rTags :: "string list"
  rText :: string
  rData :: raw_message
  rSalience :: rat
  rSource :: string
  rCreatedAt :: gotime
  rUpdatedAt :: gotime

record query =
  qNamespace :: string
  qKinds :: "string list"
  qTags :: "string list"
  qText :: string
  qLimit :: int

definition record_zero :: mrecord where
  "record_zero = \<lparr>rID = [], rNamespace = [], rKind = [], rTags = [], rText = [], rData = [], rSalience = 0,
     rSource = [], rCreatedAt = 0, rUpdatedAt = 0\<rparr>"

definition query_zero :: query where
  "query_zero = \<lparr>qNamespace = [], qKinds = [], qTags = [], qText = [], qLimit = 0\<rparr>"

definition effectiveSalience :: "mrecord \<Rightarrow> rat" where
  "effectiveSalience r =
     (if rSalience r \<le> 0 then 1 / 2 else if rSalience r > 1 then 1 else rSalience r)"

definition contentID :: "mrecord \<Rightarrow> string" where
  "contentID r = take 16 (concat (map hex_byte (sha256
     (rKind r @ [CHR 0x00] @ rText r @ concat (map (\<lambda>t. CHR 0x00 # t) (rTags r))))))"

definition normalize :: "mrecord \<Rightarrow> gotime \<Rightarrow> mrecord" where
  "normalize r now =
     (let r = (if rID r = [] then r\<lparr>rID := contentID r\<rparr> else r);
          r = (if rSalience r = 0 then r\<lparr>rSalience := 1 / 2\<rparr> else r);
          r = (if time_is_zero (rCreatedAt r) then r\<lparr>rCreatedAt := now\<rparr> else r)
      in r\<lparr>rUpdatedAt := now\<rparr>)"

lemma length_contentID: "length (contentID r) = 16"
proof -
  have "length (concat (map hex_byte s)) = 2 * length s" for s
    by (induction s) (simp_all add: hex_byte_def)
  then show ?thesis by (simp add: contentID_def)
qed

lemma normalize_fields [simp]:
  "rID (normalize r now) = (if rID r = [] then contentID r else rID r)"
  "rNamespace (normalize r now) = rNamespace r" "rKind (normalize r now) = rKind r"
  "rTags (normalize r now) = rTags r" "rText (normalize r now) = rText r" "rData (normalize r now) = rData r"
  "rSource (normalize r now) = rSource r" "rUpdatedAt (normalize r now) = now"
  by (simp_all add: normalize_def Let_def)

lemma normalize_ID_nonempty [simp]: "rID (normalize r now) \<noteq> []"
  using length_contentID [of r] by auto

section \<open>Matching and ranking (store.go)\<close>

fun containsStr :: "string list \<Rightarrow> string \<Rightarrow> bool" where
  "containsStr [] s = False"
| "containsStr (x # ss) s = (x = s \<or> containsStr ss s)"

lemma containsStr_iff [simp]: "containsStr ss s \<longleftrightarrow> s \<in> set ss"
  by (induction ss) auto

definition matches :: "(string \<Rightarrow> string) \<Rightarrow> mrecord \<Rightarrow> query \<Rightarrow> bool" where
  "matches lower r q =
     (if length (qKinds q) > 0 \<and> \<not> containsStr (qKinds q) (rKind r) then False
      else if \<not> list_all (containsStr (rTags r)) (qTags q) then False
      else if qText q \<noteq> [] \<and> \<not> strings_contains (lower (rText r)) (lower (qText q)) then False
      else True)"

definition score :: "(string \<Rightarrow> string) \<Rightarrow> query \<Rightarrow> mrecord \<Rightarrow> rat" where
  "score lower q r = (let textLower = lower (qText q); s = effectiveSalience r in
     if textLower \<noteq> [] \<and> strings_contains (lower (rText r)) textLower then s + 1 else s)"

definition rank_less :: "(string \<Rightarrow> string) \<Rightarrow> query \<Rightarrow> mrecord \<Rightarrow> mrecord \<Rightarrow> bool" where
  "rank_less lower q a b =
     (let si = score lower q a; sj = score lower q b in
      if si \<noteq> sj then si > sj
      else if rUpdatedAt a \<noteq> rUpdatedAt b then rUpdatedAt a > rUpdatedAt b
      else rID a < rID b)"

text \<open>\<open>sort.SliceStable\<close> with a \<open>less\<close> function.\<close>

fun insert_by :: "('a \<Rightarrow> 'a \<Rightarrow> bool) \<Rightarrow> 'a \<Rightarrow> 'a list \<Rightarrow> 'a list" where
  "insert_by lt x [] = [x]"
| "insert_by lt x (y # ys) = (if lt y x then y # insert_by lt x ys else x # y # ys)"

definition stable_sort :: "('a \<Rightarrow> 'a \<Rightarrow> bool) \<Rightarrow> 'a list \<Rightarrow> 'a list" where
  "stable_sort lt xs = foldr (insert_by lt) xs []"

definition rank :: "(string \<Rightarrow> string) \<Rightarrow> mrecord list \<Rightarrow> query \<Rightarrow> mrecord list" where
  "rank lower recs q = stable_sort (rank_less lower q) recs"

definition applyLimit :: "mrecord list \<Rightarrow> query \<Rightarrow> mrecord list" where
  "applyLimit recs q =
     (if qLimit q > 0 \<and> int (length recs) > qLimit q then take (nat (qLimit q)) recs else recs)"

lemma insert_by_insort:
  fixes f :: "'a \<Rightarrow> 'b::linorder"
  assumes "\<And>a b. lt a b \<longleftrightarrow> f a < f b"
  shows "insert_by lt x ys = insort_key f x ys"
  by (induction ys) (auto simp: assms)

lemma stable_sort_key:
  fixes f :: "'a \<Rightarrow> 'b::linorder"
  assumes "\<And>a b. lt a b \<longleftrightarrow> f a < f b"
  shows "stable_sort lt xs = sort_key f xs"
proof -
  have "insert_by lt = insort_key f" by (intro ext insert_by_insort assms)
  then show ?thesis by (simp add: stable_sort_def sort_key_def)
qed

text \<open>The ranking as a lexicographic key: salience and relevance, then recency, then id.\<close>

definition rank_key :: "(string \<Rightarrow> string) \<Rightarrow> query \<Rightarrow> mrecord \<Rightarrow> rat \<times> int \<times> string" where
  "rank_key lower q r = (- score lower q r, - rUpdatedAt r, rID r)"

lemma rank_less_key: "rank_less lower q a b \<longleftrightarrow> rank_key lower q a < rank_key lower q b"
  by (auto simp: rank_less_def rank_key_def Let_def less_prod_def)

lemma rank_less_fun: "rank_less lower q = (\<lambda>a b. rank_key lower q a < rank_key lower q b)"
  by (intro ext rank_less_key)

lemma rank_sort_key: "rank lower recs q = sort_key (rank_key lower q) recs"
  unfolding rank_def by (rule stable_sort_key) (rule rank_less_key)

text \<open>
  What a query over a set of records has to return: a best part of the records that match, all
  of them when there is no limit, in strictly descending rank.
\<close>

definition query_spec :: "(string \<Rightarrow> string) \<Rightarrow> query \<Rightarrow> mrecord set \<Rightarrow> mrecord list \<Rightarrow> bool" where
  "query_spec lower q R rs \<longleftrightarrow>
     (let M = {r \<in> R. matches lower r q} in
      sorted_wrt (rank_less lower q) rs \<and> set rs \<subseteq> M \<and>
      (\<forall>r\<in>set rs. \<forall>r'\<in>M - set rs. rank_less lower q r r') \<and>
      (if qLimit q > 0 then length rs = min (nat (qLimit q)) (card M) else set rs = M))"

lemma sorted_wrt_rank:
  assumes "inj_on rID (set xs)" "distinct xs"
  shows "sorted_wrt (rank_less lower q) (rank lower xs q)"
proof -
  have "distinct (map (rank_key lower q) (rank lower xs q))"
    using assms by (auto simp: rank_sort_key distinct_map rank_key_def intro!: inj_onI dest: inj_onD)
  moreover have "sorted (map (rank_key lower q) (rank lower xs q))" by (simp add: rank_sort_key)
  ultimately have "sorted_wrt (<) (map (rank_key lower q) (rank lower xs q))"
    by (simp add: strict_sorted_iff)
  then show ?thesis by (simp add: sorted_wrt_map rank_less_fun)
qed

lemma query_spec_rank:
  assumes inj: "inj_on rID R" and xs: "distinct xs" "set xs = {r \<in> R. matches lower r q}"
  shows "query_spec lower q R (applyLimit (rank lower xs q) q)"
proof -
  let ?M = "{r \<in> R. matches lower r q}" and ?ys = "rank lower xs q"
  have s: "sorted_wrt (rank_less lower q) ?ys"
    by (rule sorted_wrt_rank) (use inj xs in \<open>auto intro: inj_on_subset\<close>)
  have ys: "set ?ys = ?M" "distinct ?ys" "length ?ys = card ?M"
    using xs by (simp_all add: rank_sort_key distinct_card [symmetric])
  show ?thesis
  proof (cases "qLimit q > 0 \<and> int (length ?ys) > qLimit q")
    case True
    let ?k = "nat (qLimit q)"
    have d: "set ?ys = set (take ?k ?ys) \<union> set (drop ?k ?ys)" by (metis append_take_drop_id set_append)
    have "\<forall>r\<in>set (take ?k ?ys). \<forall>r'\<in>set (drop ?k ?ys). rank_less lower q r r'"
      using s by (metis append_take_drop_id sorted_wrt_append)
    then have "\<forall>r\<in>set (take ?k ?ys). \<forall>r'\<in>?M - set (take ?k ?ys). rank_less lower q r r'"
      using d ys(1) by blast
    moreover have "sorted_wrt (rank_less lower q) (take ?k ?ys)"
      using s by (metis append_take_drop_id sorted_wrt_append)
    moreover have "set (take ?k ?ys) \<subseteq> ?M" using ys(1) set_take_subset by fast
    moreover have "length (take ?k ?ys) = min ?k (card ?M)" using ys(3) by simp
    ultimately show ?thesis
      using True unfolding query_spec_def applyLimit_def Let_def by (simp only: if_True conj_assoc simp_thms)
  next
    case False
    then show ?thesis
      using s ys unfolding query_spec_def applyLimit_def Let_def by auto
  qed
qed

text \<open>The specification leaves no choice: the order of a Go map never shows in an answer.\<close>

lemma query_spec_unique:
  assumes "query_spec lower q R rs" "query_spec lower q R rs'" "finite R"
  shows "rs = rs'"
proof -
  let ?M = "{r \<in> R. matches lower r q}" and ?l = "rank_less lower q"
  have sd: "sorted_wrt (<) (map (rank_key lower q) xs)" if "sorted_wrt ?l xs" for xs
    using that by (simp add: sorted_wrt_map rank_less_fun)
  have dis: "distinct xs" if "sorted_wrt ?l xs" for xs
    using sd [OF that] by (auto simp: strict_sorted_iff distinct_map)
  have asym: "\<not> (?l a b \<and> ?l b a)" for a b by (auto simp: rank_less_key)
  have props: "sorted_wrt ?l xs" "set xs \<subseteq> ?M" "\<forall>r\<in>set xs. \<forall>r'\<in>?M - set xs. ?l r r'"
    "card (set xs) = (if qLimit q > 0 then min (nat (qLimit q)) (card ?M) else card ?M)"
    if "query_spec lower q R xs" for xs
  proof -
    show s: "sorted_wrt ?l xs" and "set xs \<subseteq> ?M" and "\<forall>r\<in>set xs. \<forall>r'\<in>?M - set xs. ?l r r'"
      using that by (auto simp: query_spec_def Let_def)
    show "card (set xs) = (if qLimit q > 0 then min (nat (qLimit q)) (card ?M) else card ?M)"
      using that distinct_card [OF dis [OF s]] by (auto simp: query_spec_def Let_def)
  qed
  note p = props [OF assms(1)] and p' = props [OF assms(2)]
  have "set rs = set rs'"
  proof (rule ccontr)
    assume ne: "set rs \<noteq> set rs'"
    have c: "card (set rs) = card (set rs')" using p(4) p'(4) by simp
    obtain a where a: "a \<in> set rs" "a \<notin> set rs'"
      using ne c by (metis List.finite_set card_subset_eq subsetI)
    obtain b where b: "b \<in> set rs'" "b \<notin> set rs"
      using ne c by (metis List.finite_set card_subset_eq subsetI)
    have "?l a b" using p(3) a(1) b p'(2) by blast
    moreover have "?l b a" using p'(3) b(1) a p(2) by blast
    ultimately show False using asym by blast
  qed
  moreover have "map (rank_key lower q) rs = map (rank_key lower q) rs'"
    using sd [OF p(1)] sd [OF p'(1)] \<open>set rs = set rs'\<close>
    by (intro strict_sorted_equal) simp_all
  moreover have "inj_on (rank_key lower q) (set rs \<union> set rs')"
    using sd [OF p(1)] \<open>set rs = set rs'\<close> by (simp add: strict_sorted_iff distinct_map)
  ultimately show ?thesis by (metis map_inj_on)
qed

section \<open>The Store interface (store.go)\<close>

text \<open>
  \<open>Store\<close> as a record of functions on the world; \<open>Get\<close> returns \<open>Inr None\<close> when there is no such
  record and \<open>Inl\<close> an error.
\<close>

record 'w store =
  storePut :: "ctx \<Rightarrow> mrecord \<Rightarrow> 'w \<Rightarrow> goerr option \<times> 'w"
  storeGet :: "ctx \<Rightarrow> string \<Rightarrow> string \<Rightarrow> 'w \<Rightarrow> (goerr + mrecord option) \<times> 'w"
  storeQuery :: "ctx \<Rightarrow> query \<Rightarrow> 'w \<Rightarrow> (goerr + mrecord list) \<times> 'w"
  storeDelete :: "ctx \<Rightarrow> string \<Rightarrow> string \<Rightarrow> 'w \<Rightarrow> goerr option \<times> 'w"

type_synonym namespace = "(string \<times> mrecord) list"

text \<open>An upsert keeps the creation time of the record it replaces.\<close>

definition keep_created :: "mrecord option \<Rightarrow> mrecord \<Rightarrow> mrecord" where
  "keep_created prev r = (case prev of None \<Rightarrow> r | Some p \<Rightarrow> r\<lparr>rCreatedAt := rCreatedAt p\<rparr>)"

lemma keep_created_fields [simp]:
  "rID (keep_created p r) = rID r" "rNamespace (keep_created p r) = rNamespace r" "rKind (keep_created p r) = rKind r"
  "rTags (keep_created p r) = rTags r" "rText (keep_created p r) = rText r" "rData (keep_created p r) = rData r"
  "rSource (keep_created p r) = rSource r" "rUpdatedAt (keep_created p r) = rUpdatedAt r"
  "rSalience (keep_created p r) = rSalience r"
  by (simp_all add: keep_created_def split: option.splits)

definition upsert :: "mrecord \<Rightarrow> (string \<rightharpoonup> mrecord) \<Rightarrow> (string \<rightharpoonup> mrecord)" where
  "upsert r m = m(rID r \<mapsto> keep_created (m (rID r)) r)"

text \<open>
  The contract of a store over an abstract map from namespaces and ids to records. \<open>ns_ok\<close> and
  \<open>rec_ok\<close> are the namespaces and the records the contract covers. An operation that returns an
  error has had its effect or none; it never leaves anything else.
\<close>

locale record_store =
  fixes S :: "'w store"
    and lookup :: "'w \<Rightarrow> string \<Rightarrow> string \<rightharpoonup> mrecord"
    and invar :: "'w \<Rightarrow> bool"
    and ns_ok :: "string \<Rightarrow> bool"
    and rec_ok :: "mrecord \<Rightarrow> bool"
    and lower :: "string \<Rightarrow> string"
  assumes put: "invar w \<Longrightarrow> ns_ok (rNamespace r) \<Longrightarrow> rec_ok r \<Longrightarrow> storePut S c r w = (e, w') \<Longrightarrow>
      invar w' \<and> (\<forall>ns. ns_ok ns \<and> ns \<noteq> rNamespace r \<longrightarrow> lookup w' ns = lookup w ns) \<and>
      (e \<noteq> None \<and> lookup w' (rNamespace r) = lookup w (rNamespace r) \<or>
       (\<exists>now. lookup w' (rNamespace r) = upsert (normalize r now) (lookup w (rNamespace r))))"
    and get: "invar w \<Longrightarrow> ns_ok ns \<Longrightarrow> storeGet S c ns i w = (x, w') \<Longrightarrow>
      invar w' \<and> (\<forall>ns. ns_ok ns \<longrightarrow> lookup w' ns = lookup w ns) \<and> (\<forall>v. x = Inr v \<longrightarrow> v = lookup w ns i)"
    and query: "invar w \<Longrightarrow> ns_ok (qNamespace q) \<Longrightarrow> storeQuery S c q w = (y, w') \<Longrightarrow>
      invar w' \<and> (\<forall>ns. ns_ok ns \<longrightarrow> lookup w' ns = lookup w ns) \<and>
      (\<forall>rs. y = Inr rs \<longrightarrow> query_spec lower q (ran (lookup w (qNamespace q))) rs)"
    and delete: "invar w \<Longrightarrow> ns_ok ns \<Longrightarrow> storeDelete S c ns i w = (e, w') \<Longrightarrow>
      invar w' \<and> (\<forall>ns'. ns_ok ns' \<and> ns' \<noteq> ns \<longrightarrow> lookup w' ns' = lookup w ns') \<and>
      (e \<noteq> None \<and> lookup w' ns = lookup w ns \<or> lookup w' ns = (lookup w ns)(i := None))"
    and lookup_finite: "invar w \<Longrightarrow> ns_ok ns \<Longrightarrow> finite (dom (lookup w ns))"
    and lookup_key: "invar w \<Longrightarrow> ns_ok ns \<Longrightarrow> lookup w ns i = Some r \<Longrightarrow> rID r = i"

section \<open>The in-memory store (store_mem.go)\<close>

text \<open>
  What the stores use of their surroundings: the clock, the order of \<open>range\<close>, \<open>strings.ToLower\<close>;
  for the file store also the JSON codec of a list of records, the error of the next call to the
  operating system (if it fails), what a failed write leaves in the file and the random part of
  the name of a temporary file.
\<close>

record 'w store_env =
  seNow :: "'w \<Rightarrow> gotime \<times> 'w"
  seRange :: "'w \<Rightarrow> namespace \<Rightarrow> namespace"
  seLower :: "string \<Rightarrow> string"
  seMarshal :: "mrecord list \<Rightarrow> goerr + string"
  seUnmarshal :: "string \<Rightarrow> goerr + mrecord list"
  seFault :: "'w \<Rightarrow> goerr option \<times> 'w"
  seTorn :: "string \<Rightarrow> string"
  seTemp :: "'w \<Rightarrow> nat"

record 'w mem_world =
  mwRecs :: "string \<rightharpoonup> namespace"
  mwRest :: 'w

definition NewInMemory :: "'w \<Rightarrow> 'w mem_world" where
  "NewInMemory w = \<lparr>mwRecs = Map.empty, mwRest = w\<rparr>"

definition mem_namespace :: "'w mem_world \<Rightarrow> string \<Rightarrow> namespace" where
  "mem_namespace W ns = (case mwRecs W ns of None \<Rightarrow> [] | Some m \<Rightarrow> m)"

definition put_record :: "mrecord \<Rightarrow> namespace \<Rightarrow> namespace" where
  "put_record r ns = AList.update (rID r) (keep_created (map_of ns (rID r)) r) ns"

definition mem_Put :: "'w store_env \<Rightarrow> ctx \<Rightarrow> mrecord \<Rightarrow> 'w mem_world \<Rightarrow> goerr option \<times> 'w mem_world" where
  "mem_Put X c r W = (case seNow X (mwRest W) of (now, w) \<Rightarrow>
     (let r = normalize r now; ns = mem_namespace W (rNamespace r)
      in (None, W\<lparr>mwRecs := (mwRecs W)(rNamespace r \<mapsto> put_record r ns), mwRest := w\<rparr>)))"

definition mem_Get :: "ctx \<Rightarrow> string \<Rightarrow> string \<Rightarrow> 'w mem_world \<Rightarrow> (goerr + mrecord option) \<times> 'w mem_world" where
  "mem_Get c ns i W = (Inr (map_of (mem_namespace W ns) i), W)"

definition range_matching :: "'w store_env \<Rightarrow> 'w \<Rightarrow> namespace \<Rightarrow> query \<Rightarrow> mrecord list" where
  "range_matching X w ns q = filter (\<lambda>r. matches (seLower X) r q) (map snd (seRange X w ns))"

definition mem_Query :: "'w store_env \<Rightarrow> ctx \<Rightarrow> query \<Rightarrow> 'w mem_world \<Rightarrow> (goerr + mrecord list) \<times> 'w mem_world" where
  "mem_Query X c q W =
     (let out = range_matching X (mwRest W) (mem_namespace W (qNamespace q)) q
      in (Inr (applyLimit (rank (seLower X) out q) q), W))"

definition mem_Delete :: "ctx \<Rightarrow> string \<Rightarrow> string \<Rightarrow> 'w mem_world \<Rightarrow> goerr option \<times> 'w mem_world" where
  "mem_Delete c ns i W = (None, (case mwRecs W ns of
       None \<Rightarrow> W
     | Some m \<Rightarrow> W\<lparr>mwRecs := (mwRecs W)(ns \<mapsto> AList.delete i m)\<rparr>))"

definition memStore :: "'w store_env \<Rightarrow> 'w mem_world store" where
  "memStore X = \<lparr>storePut = mem_Put X, storeGet = mem_Get, storeQuery = mem_Query X, storeDelete = mem_Delete\<rparr>"

text \<open>Namespaces: keys are distinct and are the ids of their records.\<close>

definition namespace_ok :: "namespace \<Rightarrow> bool" where
  "namespace_ok ns \<longleftrightarrow> distinct (map fst ns) \<and> (\<forall>(k, r) \<in> set ns. rID r = k)"

definition range_ok :: "'w store_env \<Rightarrow> bool" where
  "range_ok X \<longleftrightarrow> (\<forall>w ns. mset (seRange X w ns) = mset ns)"

lemma namespace_ok_Nil [simp]: "namespace_ok []"
  by (simp add: namespace_ok_def)

lemma namespace_ok_iff:
  "namespace_ok ns \<longleftrightarrow> distinct (map fst ns) \<and> (\<forall>i r. map_of ns i = Some r \<longrightarrow> rID r = i)"
  by (fastforce simp: namespace_ok_def dest: map_of_SomeD intro: map_of_is_SomeI)

lemma namespace_ok_key: "namespace_ok ns \<Longrightarrow> map_of ns i = Some r \<Longrightarrow> rID r = i"
  by (simp add: namespace_ok_iff)

lemma namespace_ok_put: "namespace_ok ns \<Longrightarrow> namespace_ok (put_record r ns)"
  by (auto simp: namespace_ok_iff put_record_def distinct_update update_conv' split: if_splits)

lemma namespace_ok_delete: "namespace_ok ns \<Longrightarrow> namespace_ok (AList.delete i ns)"
  by (auto simp: namespace_ok_iff distinct_delete delete_conv' split: if_splits)

lemma map_of_put_record: "map_of (put_record r ns) = upsert r (map_of ns)"
  by (auto simp: put_record_def upsert_def update_conv')

lemma namespace_query:
  assumes ns: "namespace_ok ns" and X: "range_ok X"
  shows "query_spec (seLower X) q (ran (map_of ns))
     (applyLimit (rank (seLower X) (range_matching X w ns q) q) q)"
proof (rule query_spec_rank)
  have m: "mset (seRange X w ns) = mset ns" using X by (simp add: range_ok_def)
  then have e: "set (seRange X w ns) = set ns" "distinct (map fst (seRange X w ns)) \<longleftrightarrow> distinct (map fst ns)"
    by (metis set_mset_mset) (metis m mset_eq_imp_distinct_iff mset_map)
  have r: "ran (map_of ns) = snd ` set ns" using ns by (simp add: namespace_ok_def ran_distinct)
  have inj: "rID (snd p) = fst p" if "p \<in> set ns" for p
    using ns that by (auto simp: namespace_ok_def)
  show "inj_on rID (ran (map_of ns))"
  proof (rule inj_onI)
    fix x y assume "x \<in> ran (map_of ns)" "y \<in> ran (map_of ns)" and i: "rID x = rID y"
    then obtain a b where "map_of ns a = Some x" "map_of ns b = Some y" by (auto simp: ran_def)
    with i show "x = y" using namespace_ok_key [OF ns, of a x] namespace_ok_key [OF ns, of b y] by simp
  qed
  have "inj_on snd (set ns)"
    using ns inj by (metis (no_types, lifting) distinct_map inj_on_def namespace_ok_def)
  then show "distinct (range_matching X w ns q)"
    using e ns by (simp add: range_matching_def distinct_map namespace_ok_def)
  show "set (range_matching X w ns q) = {r \<in> ran (map_of ns). matches (seLower X) r q}"
    using e r by (auto simp: range_matching_def)
qed

definition mem_lookup :: "'w mem_world \<Rightarrow> string \<Rightarrow> string \<rightharpoonup> mrecord" where
  "mem_lookup W ns = map_of (mem_namespace W ns)"

definition mem_invar :: "'w store_env \<Rightarrow> 'w mem_world \<Rightarrow> bool" where
  "mem_invar X W \<longleftrightarrow> range_ok X \<and> (\<forall>ns. namespace_ok (mem_namespace W ns))"

interpretation mem: record_store "memStore X" mem_lookup "mem_invar X" "\<lambda>_. True" "\<lambda>_. True" "seLower X" for X
proof (unfold_locales, goal_cases)
  case (1 w r c e w')
  then show ?case
    by (auto simp: memStore_def mem_Put_def mem_invar_def mem_lookup_def mem_namespace_def Let_def
        namespace_ok_put map_of_put_record split: prod.splits)
next
  case (2 w ns c i x w')
  then show ?case by (auto simp: memStore_def mem_Get_def mem_lookup_def)
next
  case (3 w q c y w')
  then show ?case by (auto simp: memStore_def mem_Query_def mem_lookup_def mem_invar_def Let_def namespace_query)
next
  case (4 w ns c i e w')
  then show ?case
    by (auto simp: memStore_def mem_Delete_def mem_invar_def mem_lookup_def mem_namespace_def delete_conv'
        namespace_ok_delete split: option.splits if_splits)
next
  case (5 w ns)
  then show ?case by (simp add: mem_lookup_def finite_dom_map_of)
next
  case (6 w ns i r)
  then show ?case by (auto simp: mem_lookup_def mem_invar_def intro: namespace_ok_key)
qed

end
