(* ===== verification/Memory_File.thy ===== *)
theory Memory_File
  imports Memory_Store "HOL-Library.Countable"
begin

text \<open>
  \<open>memory/store_file.go\<close>: the store with one JSON file per namespace. The directory is a map from
  file names to contents (\<open>filepath.Join\<close> of the directory and a name without separators is the
  entry of that name). Every call to the operating system may fail: \<open>seFault\<close> says whether the
  next one does. A Go map is a reference, so that what \<open>Put\<close> and \<open>Delete\<close> change is changed in the
  cache as well, before it is written.
\<close>

section \<open>Files\<close>

record 'w file_world =
  fwFiles :: "string \<rightharpoonup> string"
  fwCache :: "string \<rightharpoonup> namespace"
  fwRest :: 'w

definition os_call :: "'w store_env \<Rightarrow> 'w file_world \<Rightarrow> goerr option \<times> 'w file_world" where
  "os_call X W = (case seFault X (fwRest W) of (f, w) \<Rightarrow> (f, W\<lparr>fwRest := w\<rparr>))"

definition os_Remove :: "'w store_env \<Rightarrow> string \<Rightarrow> 'w file_world \<Rightarrow> 'w file_world" where
  "os_Remove X name W = (case os_call X W of
       (Some e, W) \<Rightarrow> W
     | (None, W) \<Rightarrow> W\<lparr>fwFiles := (fwFiles W)(name := None)\<rparr>)"

definition unsafe_chars :: "char list" where
  "unsafe_chars = [CHR ''/'', backslash, CHR '':'', CHR ''*'', CHR ''?'', quote_char, CHR ''<'', CHR ''>'', CHR ''|'', CHR '' '']"

definition safeFilename :: "string \<Rightarrow> string" where
  "safeFilename ns = (if ns = [] then ''_default''
     else map (\<lambda>c. if c \<in> set unsafe_chars then CHR ''_'' else c) ns)"

definition path :: "string \<Rightarrow> string" where
  "path ns = safeFilename ns @ ''.json''"

definition temp_name :: "'w store_env \<Rightarrow> 'w file_world \<Rightarrow> string" where
  "temp_name X W = ''.tmp-'' @ nat_dec (seTemp X (fwRest W))"

text \<open>\<open>NewFileStore\<close>: \<open>mkdir\<close> is the result of \<open>os.MkdirAll\<close>, \<open>files\<close> what the directory holds.\<close>

definition NewFileStore :: "string \<Rightarrow> goerr option \<Rightarrow> (string \<rightharpoonup> string) \<Rightarrow> 'w \<Rightarrow> goerr + 'w file_world" where
  "NewFileStore dir mkdir files w =
     (if dir = [] then Inl (ErrText ''memory: NewFileStore requires a directory'')
      else (case mkdir of
          Some err \<Rightarrow> Inl (ErrWrap ''memory: create store dir: '' err)
        | None \<Rightarrow> Inr \<lparr>fwFiles = files, fwCache = Map.empty, fwRest = w\<rparr>))"

section \<open>Operations\<close>

definition records_map :: "mrecord list \<Rightarrow> namespace" where
  "records_map recs = foldl (\<lambda>ns r. AList.update (rID r) r ns) [] recs"

definition load :: "'w store_env \<Rightarrow> string \<Rightarrow> 'w file_world \<Rightarrow> (goerr + namespace) \<times> 'w file_world" where
  "load X nsName W = (case fwCache W nsName of
       Some ns \<Rightarrow> (Inr ns, W)
     | None \<Rightarrow> (case os_call X W of
           (Some err, W) \<Rightarrow> (Inl (ErrWrap (''memory: read namespace '' @ strconv_quote nsName @ '': '') err), W)
         | (None, W) \<Rightarrow> (case fwFiles W (path nsName) of
               None \<Rightarrow> (Inr [], W\<lparr>fwCache := (fwCache W)(nsName \<mapsto> [])\<rparr>)
             | Some b \<Rightarrow> (case seUnmarshal X b of
                   Inl err \<Rightarrow> (Inl (ErrWrap (''memory: decode namespace '' @ strconv_quote nsName @ '': '') err), W)
                 | Inr recs \<Rightarrow> (let ns = records_map recs in
                     (Inr ns, W\<lparr>fwCache := (fwCache W)(nsName \<mapsto> ns)\<rparr>))))))"

definition sorted_records :: "'w store_env \<Rightarrow> 'w \<Rightarrow> namespace \<Rightarrow> mrecord list" where
  "sorted_records X w ns = stable_sort (\<lambda>a b. rID a < rID b) (map snd (seRange X w ns))"

definition write_error :: "string \<Rightarrow> string \<Rightarrow> goerr \<Rightarrow> goerr option" where
  "write_error verb nsName err = Some (ErrWrap (''memory: '' @ verb @ '' namespace '' @ strconv_quote nsName @ '': '') err)"

definition flush :: "'w store_env \<Rightarrow> string \<Rightarrow> namespace \<Rightarrow> 'w file_world \<Rightarrow> goerr option \<times> 'w file_world" where
  "flush X nsName ns W = (case seMarshal X (sorted_records X (fwRest W) ns) of
       Inl err \<Rightarrow> (write_error ''encode'' nsName err, W)
     | Inr b \<Rightarrow> (let tmpName = temp_name X W in case os_call X W of
         (Some err, W) \<Rightarrow> (Some (ErrWrap ''memory: temp file: '' err), W)
       | (None, W) \<Rightarrow> (case os_call X (W\<lparr>fwFiles := (fwFiles W)(tmpName \<mapsto> [])\<rparr>) of
           (Some err, W) \<Rightarrow> (write_error ''write'' nsName err,
              os_Remove X tmpName (W\<lparr>fwFiles := (fwFiles W)(tmpName \<mapsto> seTorn X b)\<rparr>))
         | (None, W) \<Rightarrow> (case os_call X (W\<lparr>fwFiles := (fwFiles W)(tmpName \<mapsto> b)\<rparr>) of
             (Some err, W) \<Rightarrow> (write_error ''close'' nsName err, os_Remove X tmpName W)
           | (None, W) \<Rightarrow> (case os_call X W of
               (Some err, W) \<Rightarrow> (write_error ''commit'' nsName err, os_Remove X tmpName W)
             | (None, W) \<Rightarrow> (None, W\<lparr>fwFiles := (fwFiles W)(tmpName := None, path nsName \<mapsto> b)\<rparr>))))))"

definition file_Put :: "'w store_env \<Rightarrow> ctx \<Rightarrow> mrecord \<Rightarrow> 'w file_world \<Rightarrow> goerr option \<times> 'w file_world" where
  "file_Put X c r W = (case seNow X (fwRest W) of (now, w) \<Rightarrow>
     (let r = normalize r now in case load X (rNamespace r) (W\<lparr>fwRest := w\<rparr>) of
        (Inl err, W) \<Rightarrow> (Some err, W)
      | (Inr ns, W) \<Rightarrow> (let ns' = put_record r ns in
          flush X (rNamespace r) ns' (W\<lparr>fwCache := (fwCache W)(rNamespace r \<mapsto> ns')\<rparr>))))"

definition file_Get :: "'w store_env \<Rightarrow> ctx \<Rightarrow> string \<Rightarrow> string \<Rightarrow> 'w file_world \<Rightarrow> (goerr + mrecord option) \<times> 'w file_world" where
  "file_Get X c nsName i W = (case load X nsName W of
       (Inl err, W) \<Rightarrow> (Inl err, W)
     | (Inr ns, W) \<Rightarrow> (Inr (map_of ns i), W))"

definition file_Query :: "'w store_env \<Rightarrow> ctx \<Rightarrow> query \<Rightarrow> 'w file_world \<Rightarrow> (goerr + mrecord list) \<times> 'w file_world" where
  "file_Query X c q W = (case load X (qNamespace q) W of
       (Inl err, W) \<Rightarrow> (Inl err, W)
     | (Inr ns, W) \<Rightarrow>
        (Inr (applyLimit (rank (seLower X) (range_matching X (fwRest W) ns q) q) q), W))"

definition file_Delete :: "'w store_env \<Rightarrow> ctx \<Rightarrow> string \<Rightarrow> string \<Rightarrow> 'w file_world \<Rightarrow> goerr option \<times> 'w file_world" where
  "file_Delete X c nsName i W = (case load X nsName W of
       (Inl err, W) \<Rightarrow> (Some err, W)
     | (Inr ns, W) \<Rightarrow>
        (if map_of ns i = None then (None, W)
         else (let ns' = AList.delete i ns in
           flush X nsName ns' (W\<lparr>fwCache := (fwCache W)(nsName \<mapsto> ns')\<rparr>))))"

definition fileStore :: "'w store_env \<Rightarrow> 'w file_world store" where
  "fileStore X = \<lparr>storePut = file_Put X, storeGet = file_Get X, storeQuery = file_Query X, storeDelete = file_Delete X\<rparr>"

section \<open>Writing is atomic\<close>

text \<open>A temporary name is not the name of a namespace's file: it ends in a digit.\<close>

lemma nat_dec_last: "\<exists>d<10. last (nat_dec n) = digit_char d"
  by (subst nat_dec.simps) (auto intro: exI [of _ "n mod 10"])

lemma temp_name_not_path [simp]: "temp_name X W \<noteq> path ns" "path ns \<noteq> temp_name X W"
proof -
  obtain d where d: "d < 10" "last (nat_dec (seTemp X (fwRest W))) = digit_char d" using nat_dec_last by blast
  have "of_char (digit_char d) = (48 + d :: nat)" using d(1) by (simp add: digit_char_def of_char_of)
  then have "digit_char d \<noteq> CHR ''n''" using d(1) by auto
  moreover have "last (temp_name X W) = digit_char d" using d by (simp add: temp_name_def)
  moreover have "last (path ns) = CHR ''n''" by (simp add: path_def)
  ultimately show "temp_name X W \<noteq> path ns" "path ns \<noteq> temp_name X W" by metis+
qed

lemma os_call_fields [simp]:
  "fwFiles (snd (os_call X W)) = fwFiles W" "fwCache (snd (os_call X W)) = fwCache W"
  by (simp_all add: os_call_def split: prod.splits)

lemma os_call_eq: "os_call X W = (f, W') \<Longrightarrow> fwFiles W' = fwFiles W \<and> fwCache W' = fwCache W"
  using os_call_fields [of X W] by simp

lemma os_Remove_fields:
  "fwCache (os_Remove X name W) = fwCache W"
  "name \<noteq> name' \<Longrightarrow> fwFiles (os_Remove X name W) name' = fwFiles W name'"
  by (auto simp: os_Remove_def dest: os_call_eq split: prod.splits option.splits)

lemma flush_spec:
  assumes "flush X nsName ns W = (e, W')"
  shows "fwCache W' = fwCache W"
    and "path ns' \<noteq> path nsName \<Longrightarrow> fwFiles W' (path ns') = fwFiles W (path ns')"
    and "e \<noteq> None \<Longrightarrow> fwFiles W' (path nsName) = fwFiles W (path nsName)"
    and "e = None \<Longrightarrow> \<exists>b. seMarshal X (sorted_records X (fwRest W) ns) = Inr b \<and> fwFiles W' (path nsName) = Some b"
  using assms
  by (auto simp: flush_def Let_def write_error_def os_Remove_fields dest!: os_call_eq
      split: sum.splits prod.splits option.splits)

section \<open>The contract\<close>

text \<open>
  The contract holds for any set of namespaces no two of which share a file; every single
  namespace is such a set. \<open>P\<close> is a class of records, closed under the changes a store makes, that the JSON
  codec reads back as it has written them.
\<close>

definition separate :: "string set \<Rightarrow> string \<Rightarrow> bool" where
  "separate N ns \<longleftrightarrow> inj_on path N \<and> ns \<in> N"

lemma separate_path: "separate N ns \<Longrightarrow> separate N ns' \<Longrightarrow> path ns = path ns' \<longleftrightarrow> ns = ns'"
  by (auto simp: separate_def inj_on_def)

lemma separate_single [simp]: "separate {ns} ns"
  by (simp add: separate_def)

definition codec_ok :: "'w store_env \<Rightarrow> (mrecord \<Rightarrow> bool) \<Rightarrow> bool" where
  "codec_ok X P \<longleftrightarrow>
     (\<forall>rs b. list_all P rs \<and> seMarshal X rs = Inr b \<longrightarrow> seUnmarshal X b = Inr rs) \<and>
     (\<forall>r now p. P r \<longrightarrow> P (normalize r now) \<and> P (keep_created p r))"

definition namespace_in :: "(mrecord \<Rightarrow> bool) \<Rightarrow> namespace \<Rightarrow> bool" where
  "namespace_in P ns \<longleftrightarrow> namespace_ok ns \<and> (\<forall>i r. map_of ns i = Some r \<longrightarrow> P r)"

definition file_records :: "'w store_env \<Rightarrow> string option \<Rightarrow> namespace" where
  "file_records X f = (case f of None \<Rightarrow> [] | Some b \<Rightarrow> (case seUnmarshal X b of Inl _ \<Rightarrow> [] | Inr rs \<Rightarrow> records_map rs))"

definition file_namespace :: "'w store_env \<Rightarrow> 'w file_world \<Rightarrow> string \<Rightarrow> namespace" where
  "file_namespace X W ns = (case fwCache W ns of Some m \<Rightarrow> m | None \<Rightarrow> file_records X (fwFiles W (path ns)))"

definition file_lookup :: "'w store_env \<Rightarrow> 'w file_world \<Rightarrow> string \<Rightarrow> string \<rightharpoonup> mrecord" where
  "file_lookup X W ns = map_of (file_namespace X W ns)"

definition file_invar :: "'w store_env \<Rightarrow> (mrecord \<Rightarrow> bool) \<Rightarrow> 'w file_world \<Rightarrow> bool" where
  "file_invar X P W \<longleftrightarrow> range_ok X \<and> codec_ok X P \<and>
     (\<forall>ns. namespace_in P (file_namespace X W ns) \<and> namespace_in P (file_records X (fwFiles W (path ns))))"

lemma namespace_in_Nil [simp]: "namespace_in P []"
  by (simp add: namespace_in_def)

lemma namespace_in_put:
  "codec_ok X P \<Longrightarrow> namespace_in P ns \<Longrightarrow> P r \<Longrightarrow> namespace_in P (put_record r ns)"
  by (auto simp: namespace_in_def namespace_ok_put map_of_put_record upsert_def codec_ok_def)

lemma namespace_in_delete: "namespace_in P ns \<Longrightarrow> namespace_in P (AList.delete i ns)"
  by (auto simp: namespace_in_def namespace_ok_delete delete_conv' split: if_splits)

lemma records_map_aux:
  "distinct (map rID rs) \<Longrightarrow> set (map fst ns) \<inter> set (map rID rs) = {} \<Longrightarrow>
   foldl (\<lambda>ns r. AList.update (rID r) r ns) ns rs = ns @ map (\<lambda>r. (rID r, r)) rs"
proof (induction rs arbitrary: ns)
  case (Cons r rs)
  have "AList.update (rID r) r ns = ns @ [(rID r, r)]" if "rID r \<notin> fst ` set ns"
    using that by (induction ns) auto
  with Cons show ?case by auto
qed simp

lemma records_map_distinct: "distinct (map rID rs) \<Longrightarrow> records_map rs = map (\<lambda>r. (rID r, r)) rs"
  by (simp add: records_map_def records_map_aux)

lemma mset_sorted_records:
  assumes "range_ok X"
  shows "mset (sorted_records X w ns) = mset (map snd ns)"
proof -
  have "sorted_records X w ns = sort_key rID (map snd (seRange X w ns))"
    unfolding sorted_records_def by (rule stable_sort_key) simp
  then show ?thesis using assms by (simp add: range_ok_def)
qed

text \<open>What was written for a namespace is read back as that namespace.\<close>

lemma read_back:
  assumes X: "range_ok X" and ns: "namespace_ok ns"
  shows "map_of (records_map (sorted_records X w ns)) = map_of ns" "namespace_ok (records_map (sorted_records X w ns))"
proof -
  let ?rs = "sorted_records X w ns"
  note m = mset_sorted_records [OF X, of w ns]
  have k: "map rID (map snd ns) = map fst ns" and p: "map (\<lambda>r. (rID r, r)) (map snd ns) = ns"
    using ns unfolding namespace_ok_def by (induction ns) auto
  have "mset (map rID ?rs) = mset (map fst ns)" using m k by (metis mset_map)
  then have d: "distinct (map rID ?rs)" using ns by (metis mset_eq_imp_distinct_iff namespace_ok_def)
  then have e: "records_map ?rs = map (\<lambda>r. (rID r, r)) ?rs" by (rule records_map_distinct)
  have "mset (records_map ?rs) = mset ns" using m p e by (metis mset_map)
  then have s: "set (records_map ?rs) = set ns" by (metis set_mset_mset)
  have f: "map fst (records_map ?rs) = map rID ?rs" using e by simp
  then show "map_of (records_map ?rs) = map_of ns"
    using d s ns by (metis map_of_inject_set namespace_ok_def)
  then show "namespace_ok (records_map ?rs)" using ns d f by (simp add: namespace_ok_iff)
qed

lemma load_spec:
  assumes "file_invar X P W" "load X ns W = (x, W')"
  shows "file_invar X P W'" and "file_namespace X W' ns' = file_namespace X W ns'"
    and "fwFiles W' = fwFiles W" and "x = Inr m \<Longrightarrow> m = file_namespace X W ns \<and> fwCache W' ns = Some m"
proof -
  have "fwFiles W' = fwFiles W \<and> file_namespace X W' = file_namespace X W \<and>
      (\<forall>m. x = Inr m \<longrightarrow> m = file_namespace X W ns \<and> fwCache W' ns = Some m)"
  proof (cases "fwCache W ns")
    case (Some m)
    then have "x = Inr m" "W' = W" using assms(2) by (simp_all add: load_def)
    then show ?thesis using Some by (simp add: file_namespace_def)
  next
    case None
    obtain f W1 where o: "os_call X W = (f, W1)" by force
    note e = os_call_eq [OF o]
    have n: "file_namespace X W ns = file_records X (fwFiles W (path ns))" using None by (simp add: file_namespace_def)
    have "file_namespace X W1 = file_namespace X W"
      "file_namespace X (W1\<lparr>fwCache := (fwCache W1)(ns \<mapsto> m)\<rparr>) = file_namespace X W"
      if "m = file_namespace X W ns" for m
      using e that None by (auto simp: file_namespace_def fun_eq_iff split: option.splits)
    then show ?thesis
      using assms(2) None o e
      by (auto simp: load_def Let_def n file_records_def split: option.splits sum.splits)
  qed
  then show "fwFiles W' = fwFiles W" "file_namespace X W' ns' = file_namespace X W ns'"
    "x = Inr m \<Longrightarrow> m = file_namespace X W ns \<and> fwCache W' ns = Some m" "file_invar X P W'"
    using assms(1) by (auto simp: file_invar_def)
qed

lemma write_through:
  assumes inv: "file_invar X P W" and m: "namespace_in P m"
    and f: "flush X ns m (W\<lparr>fwCache := (fwCache W)(ns \<mapsto> m)\<rparr>) = (e, W')"
  shows "file_namespace X W' ns = m"
    and "path ns' \<noteq> path ns \<Longrightarrow> file_namespace X W' ns' = file_namespace X W ns'"
    and "e = None \<Longrightarrow> map_of (file_records X (fwFiles W' (path ns))) = map_of m"
    and "e \<noteq> None \<Longrightarrow> fwFiles W' (path ns) = fwFiles W (path ns)"
    and "file_invar X P W'"
proof -
  note s = flush_spec [OF f]
  have X: "range_ok X" "codec_ok X P" using inv by (simp_all add: file_invar_def)
  have c: "fwCache W' = (fwCache W)(ns \<mapsto> m)" using s(1) by simp
  have other: "fwFiles W' (path n) = fwFiles W (path n)" if "path n \<noteq> path ns" for n
    using s(2) [OF that] by simp
  show a: "file_namespace X W' ns = m" using c by (simp add: file_namespace_def)
  show b: "file_namespace X W' n = file_namespace X W n" if "path n \<noteq> path ns" for n
    using c other [OF that] that by (auto simp: file_namespace_def split: option.split)
  show d: "fwFiles W' (path ns) = fwFiles W (path ns)" if "e \<noteq> None" using s(3) [OF that] by simp
  have read: "map_of (file_records X (fwFiles W' (path ns))) = map_of m \<and>
      namespace_ok (file_records X (fwFiles W' (path ns)))" if none: "e = None"
  proof -
    obtain w b where b: "seMarshal X (sorted_records X w m) = Inr b" "fwFiles W' (path ns) = Some b"
      using s(4) [OF none] by blast
    have "set (sorted_records X w m) = snd ` set m"
      using mset_sorted_records [OF X(1), of w m] by (metis list.set_map set_mset_mset)
    then have "list_all P (sorted_records X w m)"
      using m by (auto simp: list_all_iff namespace_in_def namespace_ok_def)
    then have "seUnmarshal X b = Inr (sorted_records X w m)" using X(2) b(1) by (auto simp: codec_ok_def)
    then show ?thesis using b(2) read_back [OF X(1), of m] m by (simp add: file_records_def namespace_in_def)
  qed
  then show "e = None \<Longrightarrow> map_of (file_records X (fwFiles W' (path ns))) = map_of m" by blast
  have "namespace_in P (file_records X (fwFiles W' (path ns)))"
  proof (cases "e = None")
    case True
    then show ?thesis using read m by (simp add: namespace_in_def)
  next
    case False
    then show ?thesis using d inv by (simp add: file_invar_def)
  qed
  then have disk: "namespace_in P (file_records X (fwFiles W' (path n)))" for n
    using other [of n] inv by (cases "path n = path ns") (auto simp: file_invar_def)
  have "namespace_in P (file_namespace X W' n)" for n
  proof (cases "fwCache W' n")
    case None
    then show ?thesis using disk by (simp add: file_namespace_def)
  next
    case (Some k)
    then have "n = ns \<and> k = m \<or> fwCache W n = Some k" using c by (simp split: if_splits)
    then have "k = m \<or> k = file_namespace X W n" by (auto simp: file_namespace_def)
    then show ?thesis using Some m inv by (auto simp: file_namespace_def [of X W'] file_invar_def)
  qed
  then show "file_invar X P W'" using X disk by (simp add: file_invar_def)
qed

lemma file_invar_rest:
  "file_invar X P (W\<lparr>fwRest := w\<rparr>) = file_invar X P W" "file_namespace X (W\<lparr>fwRest := w\<rparr>) = file_namespace X W"
proof -
  show "file_namespace X (W\<lparr>fwRest := w\<rparr>) = file_namespace X W"
    by (auto simp: file_namespace_def fun_eq_iff split: option.split)
  then show "file_invar X P (W\<lparr>fwRest := w\<rparr>) = file_invar X P W" by (simp add: file_invar_def)
qed

interpretation fstore: record_store "fileStore X" "file_lookup X" "file_invar X P" "separate N" P "seLower X" for X P N
proof (unfold_locales, goal_cases)
  case (1 w r c e w')
  obtain now w1 where n: "seNow X (fwRest w) = (now, w1)" by force
  have i0: "file_invar X P (w\<lparr>fwRest := w1\<rparr>)" and l0: "file_namespace X (w\<lparr>fwRest := w1\<rparr>) = file_namespace X w"
    using 1(1) by (simp_all add: file_invar_rest)
  obtain x W2 where l: "load X (rNamespace r) (w\<lparr>fwRest := w1\<rparr>) = (x, W2)" by force
  note sp = load_spec [OF i0 l, unfolded l0]
  show ?case
  proof (cases x)
    case (Inl err)
    then have "e = Some err" "w' = W2" using 1(4) n l by (auto simp: fileStore_def file_Put_def Let_def)
    then show ?thesis using sp(1,2) 1(2) by (auto simp: file_lookup_def)
  next
    case (Inr m)
    let ?m = "put_record (normalize r now) m"
    have m: "m = file_namespace X w (rNamespace r)" using sp(4) Inr by blast
    have "namespace_in P ?m"
      using 1(1-3) m by (auto simp: file_invar_def codec_ok_def intro: namespace_in_put)
    moreover have f: "flush X (rNamespace r) ?m (W2\<lparr>fwCache := (fwCache W2)(rNamespace r \<mapsto> ?m)\<rparr>) = (e, w')"
      using 1(4) n l Inr by (simp add: fileStore_def file_Put_def Let_def)
    ultimately have w: "file_namespace X w' (rNamespace r) = ?m" "file_invar X P w'"
      "\<And>n. path n \<noteq> path (rNamespace r) \<Longrightarrow> file_namespace X w' n = file_namespace X W2 n"
      using write_through [OF sp(1) _ f] by blast+
    show ?thesis using w sp(2) m separate_path [OF _ 1(2)] by (auto simp: file_lookup_def map_of_put_record)
  qed
next
  case (2 w ns c i x w')
  obtain y W2 where l: "load X ns w = (y, W2)" by force
  show ?case
    using 2(3) l load_spec [OF 2(1) l] by (auto simp: fileStore_def file_Get_def file_lookup_def split: sum.splits)
next
  case (3 w q c y w')
  obtain z W2 where l: "load X (qNamespace q) w = (z, W2)" by force
  have "namespace_ok (file_namespace X w (qNamespace q))" "range_ok X"
    using 3(1,2) by (auto simp: file_invar_def namespace_in_def)
  then show ?case
    using 3(3) l load_spec [OF 3(1) l]
    by (auto simp: fileStore_def file_Query_def file_lookup_def namespace_query split: sum.splits)
next
  case (4 w ns c i e w')
  obtain x W2 where l: "load X ns w = (x, W2)" by force
  note sp = load_spec [OF 4(1) l]
  show ?case
  proof (cases x)
    case (Inl err)
    then have "e = Some err" "w' = W2" using 4(3) l by (auto simp: fileStore_def file_Delete_def)
    then show ?thesis using sp(1,2) 4(2) by (auto simp: file_lookup_def)
  next
    case (Inr m)
    let ?m = "AList.delete i m"
    have m: "m = file_namespace X w ns" using sp(4) Inr by blast
    show ?thesis
    proof (cases "map_of m i")
      case None
      then have "e = None" "w' = W2" using 4(3) l Inr by (auto simp: fileStore_def file_Delete_def)
      then show ?thesis using sp(1,2) 4(2) m None by (auto simp: file_lookup_def fun_upd_idem)
    next
      case (Some r)
      have "namespace_in P ?m" using 4(1,2) m by (auto simp: file_invar_def intro: namespace_in_delete)
      moreover have f: "flush X ns ?m (W2\<lparr>fwCache := (fwCache W2)(ns \<mapsto> ?m)\<rparr>) = (e, w')"
        using 4(3) l Inr Some by (simp add: fileStore_def file_Delete_def Let_def)
      ultimately have w: "file_namespace X w' ns = ?m" "file_invar X P w'"
        "\<And>n. path n \<noteq> path ns \<Longrightarrow> file_namespace X w' n = file_namespace X W2 n"
        using write_through [OF sp(1) _ f] by blast+
      show ?thesis using w sp(2) m separate_path [OF _ 4(2)] by (auto simp: file_lookup_def delete_conv')
    qed
  qed
next
  case (5 w ns)
  then show ?case by (simp add: file_lookup_def finite_dom_map_of)
next
  case (6 w ns i r)
  then show ?case by (auto simp: file_lookup_def file_invar_def namespace_in_def intro: namespace_ok_key)
qed

section \<open>Restarts\<close>

text \<open>A new process opens the directory that an earlier one has left.\<close>

definition reopen :: "string \<Rightarrow> 'w file_world \<Rightarrow> 'w file_world" where
  "reopen dir W = projr (NewFileStore dir None (fwFiles W) (fwRest W))"

lemma reopen_lookup: "dir \<noteq> [] \<Longrightarrow> file_lookup X (reopen dir W) ns = map_of (file_records X (fwFiles W (path ns)))"
  by (simp add: reopen_def NewFileStore_def file_lookup_def file_namespace_def)

text \<open>After a change of a namespace, the file holds what the store holds, or what it held before; other files are as they were.\<close>

lemma changed_files:
  assumes inv: "file_invar X P W" and l: "load X ns W = (Inr m0, W2)" and m: "namespace_in P m"
    and f: "flush X ns m (W2\<lparr>fwCache := (fwCache W2)(ns \<mapsto> m)\<rparr>) = (e, W')"
  shows "map_of (file_records X (fwFiles W' (path ns))) = (if e = None then map_of m else map_of (file_records X (fwFiles W (path ns))))"
    and "file_lookup X W' ns = map_of m" and "path ns' \<noteq> path ns \<Longrightarrow> fwFiles W' (path ns') = fwFiles W (path ns')"
    and "file_invar X P W'"
proof -
  note sp = load_spec [OF inv l]
  note w = write_through [OF sp(1) m f]
  show "map_of (file_records X (fwFiles W' (path ns))) = (if e = None then map_of m else map_of (file_records X (fwFiles W (path ns))))"
    using w(3,4) sp(3) by simp
  show "file_lookup X W' ns = map_of m" using w(1) by (simp add: file_lookup_def)
  show "path ns' \<noteq> path ns \<Longrightarrow> fwFiles W' (path ns') = fwFiles W (path ns')"
    using flush_spec(2) [OF f, of ns'] sp(3) by simp
  show "file_invar X P W'" by (rule w(5))
qed

lemma file_Put_cases:
  assumes inv: "file_invar X P W" and r: "P r" and put: "file_Put X c r W = (e, W')"
  obtains "e \<noteq> None" "fwFiles W' = fwFiles W" "file_lookup X W' = file_lookup X W" "file_invar X P W'"
  | "file_lookup X W' (rNamespace r) = upsert (normalize r (fst (seNow X (fwRest W)))) (file_lookup X W (rNamespace r))"
    "map_of (file_records X (fwFiles W' (path (rNamespace r)))) =
       (if e = None then file_lookup X W' (rNamespace r) else map_of (file_records X (fwFiles W (path (rNamespace r)))))"
    "\<And>ns. path ns \<noteq> path (rNamespace r) \<Longrightarrow> fwFiles W' (path ns) = fwFiles W (path ns)" "file_invar X P W'"
proof -
  obtain now w1 where n: "seNow X (fwRest W) = (now, w1)" by force
  have i0: "file_invar X P (W\<lparr>fwRest := w1\<rparr>)" using inv by (simp add: file_invar_rest)
  obtain x W2 where l: "load X (rNamespace r) (W\<lparr>fwRest := w1\<rparr>) = (x, W2)" by force
  note sp = load_spec [OF i0 l, unfolded file_invar_rest]
  show thesis
  proof (cases x)
    case (Inl err)
    then show thesis using that(1) put n l sp(1-3) by (auto simp: file_Put_def Let_def file_lookup_def fun_eq_iff)
  next
    case (Inr m)
    let ?m = "put_record (normalize r now) m"
    have f: "flush X (rNamespace r) ?m (W2\<lparr>fwCache := (fwCache W2)(rNamespace r \<mapsto> ?m)\<rparr>) = (e, W')"
      using put n l Inr by (simp add: file_Put_def Let_def)
    have m: "m = file_namespace X W (rNamespace r)" using sp(4) Inr by blast
    have "namespace_in P ?m" using inv r m by (auto simp: file_invar_def codec_ok_def intro: namespace_in_put)
    note w = changed_files [OF i0 l [unfolded Inr] this f]
    show thesis by (rule that(2)) (use w m n in \<open>simp_all add: file_lookup_def map_of_put_record\<close>)
  qed
qed

lemma file_Delete_cases:
  assumes inv: "file_invar X P W" and del: "file_Delete X c ns i W = (e, W')"
  obtains "fwFiles W' = fwFiles W" "file_lookup X W' = file_lookup X W" "file_invar X P W'"
  | "file_lookup X W' ns = (file_lookup X W ns)(i := None)"
    "map_of (file_records X (fwFiles W' (path ns))) =
       (if e = None then file_lookup X W' ns else map_of (file_records X (fwFiles W (path ns))))" "file_invar X P W'"
proof -
  obtain x W2 where l: "load X ns W = (x, W2)" by force
  note sp = load_spec [OF inv l]
  show thesis
  proof (cases x)
    case (Inl err)
    then show thesis using that(1) del l sp(1-3) by (auto simp: file_Delete_def file_lookup_def fun_eq_iff)
  next
    case (Inr m)
    have m: "m = file_namespace X W ns" using sp(4) Inr by blast
    show thesis
    proof (cases "map_of m i")
      case None
      then show thesis using that(1) del l Inr sp(1-3) by (auto simp: file_Delete_def file_lookup_def fun_eq_iff)
    next
      case (Some r)
      let ?m = "AList.delete i m"
      have f: "flush X ns ?m (W2\<lparr>fwCache := (fwCache W2)(ns \<mapsto> ?m)\<rparr>) = (e, W')"
        using del l Inr Some by (simp add: file_Delete_def Let_def)
      have "namespace_in P ?m" using inv m by (auto simp: file_invar_def intro: namespace_in_delete)
      note w = changed_files [OF inv l [unfolded Inr] this f]
      show thesis by (rule that(2)) (use w m in \<open>simp_all add: file_lookup_def delete_conv'\<close>)
    qed
  qed
qed

text \<open>
  C27: A \<open>Put\<close> on the file store that returns no error is durable: a store opened on the same
  directory afterwards holds for the namespace the records it had before with the new one in its place, with
  all fields, and so does the store itself. A \<open>Put\<close> that fails at any call to the operating system,
  clean-up included, leaves on disk the complete old contents. Namespaces with another file name are
  not touched in either case; namespaces with the same file name share their records
  (\<open>file_store_mixes_namespaces\<close>).
\<close>

theorem file_put_survives_restart:
  assumes "file_invar X P W" "P r" "dir \<noteq> []" "file_Put X c r W = (e, W')"
  shows "file_lookup X (reopen dir W') (rNamespace r) =
      (if e = None then upsert (normalize r (fst (seNow X (fwRest W)))) (file_lookup X W (rNamespace r))
       else file_lookup X (reopen dir W) (rNamespace r)) \<and>
    (e = None \<longrightarrow> file_lookup X W' (rNamespace r) = file_lookup X (reopen dir W') (rNamespace r)) \<and>
    (\<forall>ns. path ns \<noteq> path (rNamespace r) \<longrightarrow> file_lookup X (reopen dir W') ns = file_lookup X (reopen dir W) ns)"
  unfolding reopen_lookup [OF assms(3)]
  by (rule file_Put_cases [OF assms(1,2,4)]) auto

section \<open>A concrete environment\<close>

text \<open>
  The codec of the examples writes a list of records as a number in unary; it reads every list
  back. The world is a number: the calls to the operating system that succeed before one fails.
\<close>

definition rec_tuple ::
  "mrecord \<Rightarrow> string \<times> string \<times> string \<times> string list \<times> string \<times> string \<times> rat \<times> string \<times> int \<times> int" where
  "rec_tuple r = (rID r, rNamespace r, rKind r, rTags r, rText r, rData r, rSalience r, rSource r, rCreatedAt r, rUpdatedAt r)"

definition tuple_rec ::
  "string \<times> string \<times> string \<times> string list \<times> string \<times> string \<times> rat \<times> string \<times> int \<times> int \<Rightarrow> mrecord" where
  "tuple_rec = (\<lambda>(i, n, k, ts, t, d, s, src, cr, up). \<lparr>rID = i, rNamespace = n, rKind = k, rTags = ts, rText = t,
     rData = d, rSalience = s, rSource = src, rCreatedAt = cr, rUpdatedAt = up\<rparr>)"

definition demo_store_env :: "nat store_env" where
  "demo_store_env = \<lparr>seNow = (\<lambda>w. (7, w)), seRange = (\<lambda>w ns. ns), seLower = (\<lambda>s. s),
     seMarshal = (\<lambda>rs. Inr (replicate (to_nat (map rec_tuple rs)) (CHR ''1''))),
     seUnmarshal = (\<lambda>b. Inr (map tuple_rec (from_nat (length b)))),
     seFault = (\<lambda>w. (if w = 0 then Some (ErrText ''no space left on device'') else None, w - 1)),
     seTorn = (\<lambda>b. []), seTemp = (\<lambda>w. w)\<rparr>"

lemma demo_codec: "seUnmarshal demo_store_env (replicate (to_nat (map rec_tuple rs)) c) = Inr rs"
proof -
  have "tuple_rec (rec_tuple r) = r" for r by (simp add: tuple_rec_def rec_tuple_def)
  then show ?thesis by (simp add: demo_store_env_def comp_def)
qed

lemma demo_store_env_fields [simp]:
  "seNow demo_store_env w = (7, w)" "seRange demo_store_env w ns = ns"
  "seMarshal demo_store_env rs = Inr (replicate (to_nat (map rec_tuple rs)) (CHR ''1''))"
  "seFault demo_store_env w = (if w = 0 then Some (ErrText ''no space left on device'') else None, w - 1)"
  by (simp_all add: demo_store_env_def)

lemma demo_store_env_ok: "range_ok demo_store_env" "codec_ok demo_store_env (\<lambda>_. True)"
  using demo_codec by (auto simp: range_ok_def codec_ok_def demo_store_env_def)

definition demo_record :: "string \<Rightarrow> mrecord" where
  "demo_record ns = record_zero\<lparr>rID := ''k'', rNamespace := ns, rKind := KindFact, rText := ''the sky is blue''\<rparr>"

definition demo_files :: "nat \<Rightarrow> nat file_world" where
  "demo_files n = projr (NewFileStore ''dir'' None Map.empty n)"

lemma demo_files_invar: "file_invar demo_store_env (\<lambda>_. True) (demo_files n)"
  using demo_store_env_ok
  by (simp add: file_invar_def demo_files_def NewFileStore_def file_namespace_def file_records_def)

theorem file_put_survives_restart_witness:
  "let (e, W') = file_Put demo_store_env CtxBackground (demo_record ''a/b'') (demo_files 9) in
     file_lookup demo_store_env (reopen ''dir'' W') ''a/b'' =
       (if e = None then upsert (normalize (demo_record ''a/b'') 7) (file_lookup demo_store_env (demo_files 9) ''a/b'')
        else file_lookup demo_store_env (reopen ''dir'' (demo_files 9)) ''a/b'')"
  using file_put_survives_restart [OF demo_files_invar TrueI, of "''dir''" CtxBackground "demo_record ''a/b''" 9]
  by (simp add: Let_def demo_record_def split: prod.split)

section \<open>Where the file store departs from the contract\<close>

lemma demo_write:
  "sorted_records demo_store_env w [(''k'', normalize (demo_record ns) 7)] = [normalize (demo_record ns) 7]"
  "put_record (normalize (demo_record ns) 7) [] = [(''k'', normalize (demo_record ns) 7)]"
  "records_map [normalize (demo_record ns) 7] = [(''k'', normalize (demo_record ns) 7)]"
  "rNamespace (demo_record ns) = ns"
  by (simp_all add: sorted_records_def stable_sort_def put_record_def keep_created_def records_map_def demo_record_def)

text \<open>
  Different namespaces can share one file: \<open>a/b\<close> and \<open>a_b\<close> have the same file name. A record
  put into the first is then returned by \<open>Get\<close> on the second, which never received it.
\<close>

theorem file_store_mixes_namespaces:
  "path ''a/b'' = path ''a_b'' \<and>
   (case file_Put demo_store_env CtxBackground (demo_record ''a/b'') (demo_files 6) of (e, W) \<Rightarrow>
      e = None \<and>
      fst (file_Get demo_store_env CtxBackground ''a_b'' ''k'' W) = Inr (Some (normalize (demo_record ''a/b'') 7)))"
proof -
  have p: "path ''a/b'' = path ''a_b''" by (simp add: path_def safeFilename_def unsafe_chars_def)
  then show ?thesis
    using demo_codec [of "[normalize (demo_record ''a/b'') 7]"]
    by (simp add: file_Put_def file_Get_def load_def flush_def os_call_def Let_def demo_files_def
        NewFileStore_def demo_write)
qed

text \<open>
  The cache is changed before the file: when writing fails (here no temporary file can be
  created), \<open>Put\<close> returns the error, but \<open>Get\<close> on the same store returns the record all the same,
  until a restart makes it disappear.
\<close>

theorem failed_put_stays_visible:
  "case file_Put demo_store_env CtxBackground (demo_record ''task'') (demo_files 1) of (e, W) \<Rightarrow>
     e \<noteq> None \<and>
     fst (file_Get demo_store_env CtxBackground ''task'' ''k'' W) = Inr (Some (normalize (demo_record ''task'') 7)) \<and>
     file_lookup demo_store_env (reopen ''dir'' W) ''task'' = Map.empty"
  by (simp add: file_Put_def file_Get_def load_def flush_def os_call_def Let_def demo_files_def NewFileStore_def
      demo_write reopen_def file_lookup_def file_namespace_def file_records_def)

end
