(* ===== verification/Memory_Handle.thy ===== *)
theory Memory_Handle
  imports Memory_File Compaction
begin

text \<open>
  \<open>memory/handle.go\<close>, \<open>memory/tools.go\<close>, \<open>memory/preamble.go\<close> and \<open>memory/compactor.go\<close>: the handle on
  a store that is bound to one namespace, the tools a model calls on it, the block of recalled
  records and the compactor that puts it back into the history. What these promise is proved
  once from the contract of the store and then holds for both stores.
\<close>

section \<open>The handle (handle.go)\<close>

record 'w memory =
  memStoreOf :: "'w store"
  memNamespace :: string
  memSource :: string

type_synonym 'w mem_option = "'w memory \<Rightarrow> 'w memory"

definition WithSource :: "string \<Rightarrow> 'w mem_option" where
  "WithSource source = (\<lambda>m. m\<lparr>memSource := source\<rparr>)"

definition memory_New :: "'w store \<Rightarrow> string \<Rightarrow> 'w mem_option list \<Rightarrow> 'w memory" where
  "memory_New store namespace opts =
     foldl (\<lambda>m f. f m) \<lparr>memStoreOf = store, memNamespace = namespace, memSource = []\<rparr> opts"

definition Namespace :: "'w memory \<Rightarrow> string" where
  "Namespace m = memNamespace m"

definition scoped :: "'w memory \<Rightarrow> mrecord \<Rightarrow> mrecord" where
  "scoped m r =
     (let r = r\<lparr>rNamespace := memNamespace m\<rparr>;
          r = (if rSource r = [] then r\<lparr>rSource := memSource m\<rparr> else r)
      in if rID r = [] then r\<lparr>rID := contentID r\<rparr> else r)"

definition Remember :: "'w memory \<Rightarrow> ctx \<Rightarrow> mrecord \<Rightarrow> 'w \<Rightarrow> (goerr + string) \<times> 'w" where
  "Remember m c r w = (let r = scoped m r in case storePut (memStoreOf m) c r w of
       (Some err, w) \<Rightarrow> (Inl err, w)
     | (None, w) \<Rightarrow> (Inr (rID r), w))"

definition Recall :: "'w memory \<Rightarrow> ctx \<Rightarrow> query \<Rightarrow> 'w \<Rightarrow> (goerr + mrecord list) \<times> 'w" where
  "Recall m c q w = storeQuery (memStoreOf m) c (q\<lparr>qNamespace := memNamespace m\<rparr>) w"

definition memory_Get :: "'w memory \<Rightarrow> ctx \<Rightarrow> string \<Rightarrow> 'w \<Rightarrow> (goerr + mrecord option) \<times> 'w" where
  "memory_Get m c i w = storeGet (memStoreOf m) c (memNamespace m) i w"

definition Forget :: "'w memory \<Rightarrow> ctx \<Rightarrow> string \<Rightarrow> 'w \<Rightarrow> goerr option \<times> 'w" where
  "Forget m c i w = storeDelete (memStoreOf m) c (memNamespace m) i w"

section \<open>The recalled block (preamble.go)\<close>

definition preambleHeader :: string where
  "preambleHeader = ''Recalled memory (durable facts from earlier in this task):''"

definition approxTokens :: "string \<Rightarrow> int" where
  "approxTokens s = int (length s) div 4 + 1"

definition formatRecord :: "mrecord \<Rightarrow> string" where
  "formatRecord r = ''- ['' @ rKind r @ ''] '' @ trim_space (rText r) @
     (if rTags r \<noteq> [] then '' ('' @ strings_join (rTags r) '', '' @ '')'' else [])"

definition preamble_line :: "mrecord \<Rightarrow> string" where
  "preamble_line r = newline # formatRecord r"

text \<open>The loop: the lines that are written, with the tokens used and the lines written so far.\<close>

fun preamble_lines :: "int \<Rightarrow> int \<Rightarrow> nat \<Rightarrow> mrecord list \<Rightarrow> string list" where
  "preamble_lines budget used written [] = []"
| "preamble_lines budget used written (r # rs) =
     (let line = preamble_line r; cost = approxTokens line in
      if budget > 0 \<and> used + cost > budget \<and> written > 0 then []
      else line # preamble_lines budget (used + cost) (written + 1) rs)"

definition Preamble :: "'w memory \<Rightarrow> ctx \<Rightarrow> query \<Rightarrow> int \<Rightarrow> 'w \<Rightarrow> (goerr + string) \<times> 'w" where
  "Preamble m c q tokenBudget w = (case Recall m c q w of
       (Inl err, w) \<Rightarrow> (Inl err, w)
     | (Inr recs, w) \<Rightarrow>
        (if recs = [] then (Inr [], w)
         else (let lines = preamble_lines tokenBudget (approxTokens preambleHeader) 0 recs in
           if lines = [] then (Inr [], w) else (Inr (preambleHeader @ concat lines), w))))"

section \<open>The tools (tools.go)\<close>

definition defaultRecallLimit :: int where "defaultRecallLimit = 10"
definition maxRecallLimit :: int where "maxRecallLimit = 50"
definition maxRecallTextLen :: nat where "maxRecallTextLen = 500"

definition ellipsis :: string where "ellipsis = [CHR 0xE2, CHR 0x80, CHR 0xA6]"

definition truncate_text :: "string \<Rightarrow> nat \<Rightarrow> string" where
  "truncate_text s n = (let r = runes s in if length r \<le> n then s else string_of_runes (take n r) @ ellipsis)"

record remember_args =
  raKind :: string
  raText :: string
  raTags :: "string list"
  raSalience :: rat
  raData :: raw_message

record recall_args =
  caKinds :: "string list"
  caTags :: "string list"
  caText :: string
  caLimit :: int

record recalled_record =
  rrID :: string
  rrKind :: string
  rrText :: string
  rrTags :: "string list"
  rrUpdatedAt :: string

record note_args =
  naText :: string
  naTags :: "string list"

record todo_args =
  taID :: string
  taText :: string
  taStatus :: string

text \<open>
  What the tools use of \<open>encoding/json\<close> and \<open>time\<close>: the schemas of the argument types, the
  arguments decoded, the results encoded, a todo's status as JSON, a formatted time.
\<close>

record tool_codec =
  xcSchema :: "string \<Rightarrow> goerr + raw_message"
  xcRemember :: "raw_message \<Rightarrow> goerr + remember_args"
  xcRecall :: "raw_message \<Rightarrow> goerr + recall_args"
  xcNote :: "raw_message \<Rightarrow> goerr + note_args"
  xcTodo :: "raw_message \<Rightarrow> goerr + todo_args"
  xcForget :: "raw_message \<Rightarrow> goerr + string"
  xcID :: "string \<Rightarrow> goany"
  xcRecords :: "recalled_record list \<Rightarrow> goany"
  xcOK :: "bool \<Rightarrow> goany"
  xcStatus :: "string \<Rightarrow> raw_message"
  xcTime :: "gotime \<Rightarrow> string"

definition id_outcome :: "tool_codec \<Rightarrow> (goerr + string) \<times> 'w \<Rightarrow> tool_outcome \<times> 'w" where
  "id_outcome C x = (case x of
       (Inl err, w) \<Rightarrow> (ToolFails err, w)
     | (Inr i, w) \<Rightarrow> (ToolReturns (xcID C i), w))"

definition remember_fn :: "tool_codec \<Rightarrow> 'w memory \<Rightarrow> ctx \<Rightarrow> remember_args \<Rightarrow> 'w \<Rightarrow> tool_outcome \<times> 'w" where
  "remember_fn C m c a w =
     (let kind = (if raKind a = [] then KindFact else raKind a)
      in id_outcome C (Remember m c (record_zero\<lparr>rKind := kind, rText := raText a, rTags := raTags a,
           rSalience := raSalience a, rData := raData a\<rparr>) w))"

definition rememberTool :: "tool_codec \<Rightarrow> 'w memory \<Rightarrow> string + 'w tool" where
  "rememberTool C m = NewTool (xcSchema C ''remember'')
     \<lparr>raKind = [], raText = [], raTags = [], raSalience = 0, raData = []\<rparr> (xcRemember C) ''remember''
     ''Store a durable fact in memory so it survives context compaction and can be recalled later.''
     (remember_fn C m)"

definition recall_limit :: "int \<Rightarrow> int" where
  "recall_limit l = (let l = (if l \<le> 0 then defaultRecallLimit else l) in if l > maxRecallLimit then maxRecallLimit else l)"

definition recalled :: "tool_codec \<Rightarrow> mrecord \<Rightarrow> recalled_record" where
  "recalled C r = \<lparr>rrID = rID r, rrKind = rKind r, rrText = truncate_text (rText r) maxRecallTextLen, rrTags = rTags r,
     rrUpdatedAt = xcTime C (rUpdatedAt r)\<rparr>"

definition recall_records ::
  "tool_codec \<Rightarrow> 'w memory \<Rightarrow> ctx \<Rightarrow> recall_args \<Rightarrow> 'w \<Rightarrow> (goerr + recalled_record list) \<times> 'w" where
  "recall_records C m c a w =
     (case Recall m c (query_zero\<lparr>qKinds := caKinds a, qTags := caTags a, qText := caText a,
         qLimit := recall_limit (caLimit a)\<rparr>) w of
        (Inl err, w) \<Rightarrow> (Inl err, w)
      | (Inr recs, w) \<Rightarrow> (Inr (map (recalled C) recs), w))"

definition recall_fn :: "tool_codec \<Rightarrow> 'w memory \<Rightarrow> ctx \<Rightarrow> recall_args \<Rightarrow> 'w \<Rightarrow> tool_outcome \<times> 'w" where
  "recall_fn C m c a w = (case recall_records C m c a w of
       (Inl err, w) \<Rightarrow> (ToolFails err, w)
     | (Inr rs, w) \<Rightarrow> (ToolReturns (xcRecords C rs), w))"

definition recallTool :: "tool_codec \<Rightarrow> 'w memory \<Rightarrow> string + 'w tool" where
  "recallTool C m = NewTool (xcSchema C ''recall'')
     \<lparr>caKinds = [], caTags = [], caText = [], caLimit = 0\<rparr> (xcRecall C) ''recall''
     ''Retrieve durable facts from memory, ranked by importance and recency.'' (recall_fn C m)"

definition note_fn :: "tool_codec \<Rightarrow> 'w memory \<Rightarrow> ctx \<Rightarrow> note_args \<Rightarrow> 'w \<Rightarrow> tool_outcome \<times> 'w" where
  "note_fn C m c a w =
     id_outcome C (Remember m c (record_zero\<lparr>rKind := KindNote, rText := naText a, rTags := naTags a\<rparr>) w)"

definition noteTool :: "tool_codec \<Rightarrow> 'w memory \<Rightarrow> string + 'w tool" where
  "noteTool C m = NewTool (xcSchema C ''note'') \<lparr>naText = [], naTags = []\<rparr> (xcNote C) ''note''
     ''Jot a quick fact into memory (a low-ceremony remember).'' (note_fn C m)"

definition todo_fn :: "tool_codec \<Rightarrow> 'w memory \<Rightarrow> ctx \<Rightarrow> todo_args \<Rightarrow> 'w \<Rightarrow> tool_outcome \<times> 'w" where
  "todo_fn C m c a w =
     (let status = (if taStatus a = [] then ''open'' else taStatus a)
      in id_outcome C (Remember m c (record_zero\<lparr>rID := taID a, rKind := KindTodo, rText := taText a,
           rData := xcStatus C status\<rparr>) w))"

definition updateTodoTool :: "tool_codec \<Rightarrow> 'w memory \<Rightarrow> string + 'w tool" where
  "updateTodoTool C m = NewTool (xcSchema C ''update_todo'') \<lparr>taID = [], taText = [], taStatus = []\<rparr> (xcTodo C)
     ''update_todo'' (''Create or update a task item in memory'' @ [CHR 0x27] @ ''s todo list.'') (todo_fn C m)"

definition forget_fn :: "tool_codec \<Rightarrow> 'w memory \<Rightarrow> ctx \<Rightarrow> string \<Rightarrow> 'w \<Rightarrow> tool_outcome \<times> 'w" where
  "forget_fn C m c i w = (case Forget m c i w of
       (Some err, w) \<Rightarrow> (ToolFails err, w)
     | (None, w) \<Rightarrow> (ToolReturns (xcOK C True), w))"

definition forgetTool :: "tool_codec \<Rightarrow> 'w memory \<Rightarrow> string + 'w tool" where
  "forgetTool C m = NewTool (xcSchema C ''forget'') [] (xcForget C) ''forget''
     ''Delete a record from memory by id.'' (forget_fn C m)"

definition memory_Tools :: "tool_codec \<Rightarrow> 'w memory \<Rightarrow> (string + 'w tool) list" where
  "memory_Tools C m = [rememberTool C m, recallTool C m, noteTool C m, updateTodoTool C m, forgetTool C m]"

section \<open>The compactor (compactor.go)\<close>

definition defaultPreambleBudget :: int where "defaultPreambleBudget = 1024"

record 'w mem_compactor =
  mcMem :: "'w memory"
  mcInner :: "'w compactor option"
  mcQuery :: query
  mcBudget :: int

type_synonym 'w compact_opt = "'w mem_compactor \<Rightarrow> 'w mem_compactor"

definition WithRecallQuery :: "query \<Rightarrow> 'w compact_opt" where
  "WithRecallQuery q = (\<lambda>c. c\<lparr>mcQuery := q\<rparr>)"

definition WithPreambleBudget :: "int \<Rightarrow> 'w compact_opt" where
  "WithPreambleBudget tokens = (\<lambda>c. c\<lparr>mcBudget := tokens\<rparr>)"

definition memory_Compactor :: "'w memory \<Rightarrow> 'w compactor option \<Rightarrow> 'w compact_opt list \<Rightarrow> 'w mem_compactor" where
  "memory_Compactor m inner opts =
     foldl (\<lambda>c f. f c) \<lparr>mcMem = m, mcInner = inner, mcQuery = query_zero, mcBudget = defaultPreambleBudget\<rparr> opts"

definition memory_ShouldCompact :: "'w mem_compactor \<Rightarrow> message list \<Rightarrow> int \<Rightarrow> 'w \<Rightarrow> bool \<times> 'w" where
  "memory_ShouldCompact mc msgs estimatedTokens w = (case mcInner mc of
       None \<Rightarrow> (False, w)
     | Some inner \<Rightarrow> cmpShouldCompact inner msgs estimatedTokens w)"

definition leadingSystem :: "message list \<Rightarrow> nat" where
  "leadingSystem msgs = length (takeWhile (\<lambda>m. msgRole m = RoleSystem) msgs)"

definition splice :: "nat \<Rightarrow> message list \<Rightarrow> string \<Rightarrow> message list" where
  "splice head out preamble =
     (let head = (if head > length out then leadingSystem out else head)
      in take head out @ [SystemMessage preamble] @ drop head out)"

definition memory_Compact ::
  "'w mem_compactor \<Rightarrow> ctx \<Rightarrow> message list \<Rightarrow> 'w \<Rightarrow> (message list \<times> goerr option) \<times> 'w" where
  "memory_Compact mc c msgs w =
     (let head = leadingSystem msgs;
          ((out, err), w) = (case mcInner mc of None \<Rightarrow> ((msgs, None), w) | Some inner \<Rightarrow> cmpCompact inner c msgs w)
      in if err \<noteq> None then ((out, err), w)
         else (case Preamble (mcMem mc) c (mcQuery mc) (mcBudget mc) w of
             (Inl err, w) \<Rightarrow> ((out, Some err), w)
           | (Inr preamble, w) \<Rightarrow>
               if preamble = [] then ((out, None), w)
               else ((splice head out preamble, None), w)))"

definition memory_as_compactor :: "'w mem_compactor \<Rightarrow> 'w compactor" where
  "memory_as_compactor mc = \<lparr>cmpShouldCompact = memory_ShouldCompact mc, cmpCompact = memory_Compact mc\<rparr>"

end
