(* ===== verification/Memory_Props.thy ===== *)
theory Memory_Props
  imports Memory_Handle
begin

text \<open>
  What the memory handle, its tools, the recalled block and the compactor promise: proved in the
  locale of the store's contract and read off for the in-memory and the file store.
\<close>

section \<open>Remember and recall\<close>

lemma scoped_fields [simp]:
  "rNamespace (scoped m r) = memNamespace m" "rKind (scoped m r) = rKind r" "rTags (scoped m r) = rTags r"
  "rText (scoped m r) = rText r" "rData (scoped m r) = rData r"
  "rSource (scoped m r) = (if rSource r = [] then memSource m else rSource r)"
  "rID (scoped m r) = (if rID r = [] then contentID r else rID r)"
  "rSalience (scoped m r) = rSalience r" "rCreatedAt (scoped m r) = rCreatedAt r"
  by (simp_all add: scoped_def Let_def contentID_def)

lemma scoped_ID_nonempty [simp]: "rID (scoped m r) \<noteq> []"
  using length_contentID [of r] by auto

text \<open>
  What a caller wrote, with the defaults of the handle and the store; \<open>prev\<close> is the record that was
  stored under the id before, whose time of creation is kept.
\<close>

definition same_fact :: "'w memory \<Rightarrow> mrecord \<Rightarrow> mrecord option \<Rightarrow> mrecord \<Rightarrow> bool" where
  "same_fact m r prev s \<longleftrightarrow> rID s = (if rID r = [] then contentID r else rID r) \<and> rNamespace s = memNamespace m \<and>
     rKind s = rKind r \<and> rTags s = rTags r \<and> rText s = rText r \<and> rData s = rData r \<and>
     rSalience s = (if rSalience r = 0 then 1 / 2 else rSalience r) \<and>
     rSource s = (if rSource r = [] then memSource m else rSource r) \<and>
     rCreatedAt s = (case prev of Some p \<Rightarrow> rCreatedAt p
       | None \<Rightarrow> if time_is_zero (rCreatedAt r) then rUpdatedAt s else rCreatedAt r)"

lemma same_fact_stored: "same_fact m r prev (keep_created prev (normalize (scoped m r) now))"
  using length_contentID [of r] by (auto simp: same_fact_def keep_created_def normalize_def Let_def split: option.split)

lemma same_fact_matches: "same_fact m r prev s \<Longrightarrow> matches lower s q = matches lower r q"
  by (simp add: same_fact_def matches_def)

lemma matches_namespace [simp]: "matches lower r (q\<lparr>qNamespace := ns\<rparr>) = matches lower r q"
  by (simp add: matches_def)

lemma matches_limit [simp]: "matches lower r (q\<lparr>qLimit := n\<rparr>) = matches lower r q"
  by (simp add: matches_def)

context record_store
begin

lemma remember_spec:
  assumes m: "memStoreOf m = S" "ns_ok (memNamespace m)" and r: "rec_ok (scoped m r)" and w: "invar w"
    and rem: "Remember m c r w = (Inr i, w')"
  shows "invar w'" and "i = (if rID r = [] then contentID r else rID r)"
    and "\<exists>s. lookup w' (memNamespace m) = (lookup w (memNamespace m))(i \<mapsto> s) \<and>
      same_fact m r (lookup w (memNamespace m) i) s"
    and "ns_ok ns \<Longrightarrow> ns \<noteq> memNamespace m \<Longrightarrow> lookup w' ns = lookup w ns"
proof -
  obtain e where p: "storePut S c (scoped m r) w = (e, w')" and e: "e = None" and i: "i = rID (scoped m r)"
    using rem m by (auto simp: Remember_def Let_def split: prod.splits option.splits)
  note sp = put [OF w _ r p, unfolded scoped_fields, OF m(2)]
  show "invar w'" and "i = (if rID r = [] then contentID r else rID r)" using sp i by simp_all
  show "ns_ok ns \<Longrightarrow> ns \<noteq> memNamespace m \<Longrightarrow> lookup w' ns = lookup w ns" using sp by blast
  obtain now where u: "lookup w' (memNamespace m) = upsert (normalize (scoped m r) now) (lookup w (memNamespace m))"
    using sp e by blast
  let ?n = "normalize (scoped m r) now" and ?ns = "memNamespace m"
  let ?s = "keep_created (lookup w ?ns i) ?n"
  have n: "rID ?n = i" using i scoped_ID_nonempty [of m r] by (simp del: scoped_fields)
  have "lookup w' ?ns = (lookup w ?ns)(i \<mapsto> ?s)" using u n by (simp only: upsert_def)
  then show "\<exists>s. lookup w' ?ns = (lookup w ?ns)(i \<mapsto> s) \<and> same_fact m r (lookup w ?ns i) s"
    using same_fact_stored by blast
qed

lemma recall_spec:
  assumes "memStoreOf m = S" "ns_ok (memNamespace m)" "invar w" "Recall m c q w = (Inr rs, w')"
  shows "invar w'" "query_spec lower (q\<lparr>qNamespace := memNamespace m\<rparr>) (ran (lookup w (memNamespace m))) rs"
    "ns_ok ns \<Longrightarrow> lookup w' ns = lookup w ns"
  using query [of w "q\<lparr>qNamespace := memNamespace m\<rparr>" c "Inr rs" w'] assms by (auto simp: Recall_def)

lemma recall_finds:
  assumes "memStoreOf m = S" "ns_ok (memNamespace m)" "invar w" "Recall m c q w = (Inr rs, w')"
    and "lookup w (memNamespace m) i = Some s" "qLimit q \<le> 0" "matches lower s q"
  shows "s \<in> set rs"
  using recall_spec(2) [OF assms(1-4)] assms(5-7) by (auto simp: query_spec_def Let_def intro: ranI)

lemma recall_limit_bound:
  assumes "memStoreOf m = S" "ns_ok (memNamespace m)" "invar w" "Recall m c q w = (Inr rs, w')" "qLimit q > 0"
  shows "length rs \<le> nat (qLimit q)"
  using recall_spec(2) [OF assms(1-4)] assms(5) by (simp add: query_spec_def Let_def)

end

text \<open>
  What can happen between writing and reading: calls on the handle, which may fail, and a
  restart, which reopens the directory in a new process.
\<close>

datatype memory_call = CallRemember mrecord | CallRecall query | CallGet string | CallForget string | Restart string

fun do_call :: "'w file_world memory \<Rightarrow> ctx \<Rightarrow> memory_call \<Rightarrow> 'w file_world \<Rightarrow> 'w file_world" where
  "do_call m c (CallRemember r) W = snd (Remember m c r W)"
| "do_call m c (CallRecall q) W = snd (Recall m c q W)"
| "do_call m c (CallGet i) W = snd (memory_Get m c i W)"
| "do_call m c (CallForget i) W = snd (Forget m c i W)"
| "do_call m c (Restart dir) W = reopen dir W"

text \<open>Calls that do not overwrite or delete the record under an id; \<open>P\<close> holds of the records written.\<close>

fun spares :: "(mrecord \<Rightarrow> bool) \<Rightarrow> 'w memory \<Rightarrow> string \<Rightarrow> memory_call \<Rightarrow> bool" where
  "spares P m i (CallRemember r) \<longleftrightarrow> rID (scoped m r) \<noteq> i \<and> P (scoped m r)"
| "spares P m i (CallForget j) \<longleftrightarrow> j \<noteq> i"
| "spares P m i (Restart dir) \<longleftrightarrow> dir \<noteq> []"
| "spares P m i _ \<longleftrightarrow> True"

text \<open>A record is in the store and on disk.\<close>

definition stored :: "'w store_env \<Rightarrow> (mrecord \<Rightarrow> bool) \<Rightarrow> string \<Rightarrow> string \<Rightarrow> mrecord \<Rightarrow> 'w file_world \<Rightarrow> bool" where
  "stored X P ns i s W \<longleftrightarrow> file_invar X P W \<and> file_lookup X W ns i = Some s \<and>
     map_of (file_records X (fwFiles W (path ns))) i = Some s"

lemma stored_load:
  "stored X P ns i s W \<Longrightarrow> load X ns W = (x, W') \<Longrightarrow> stored X P ns i s W'"
  using load_spec [of X P W ns x W'] by (auto simp: stored_def file_lookup_def)

lemma upsert_other: "rID r \<noteq> i \<Longrightarrow> upsert r f i = f i"
  by (simp add: upsert_def)

lemma stored_Put:
  assumes "stored X P ns i s W" "rNamespace r = ns" "rID r \<noteq> []" "rID r \<noteq> i" "P r" "file_Put X c r W = (e, W')"
  shows "stored X P ns i s W'"
proof -
  have "file_invar X P W" using assms(1) by (simp add: stored_def)
  from this assms(5,6) show ?thesis
    by (rule file_Put_cases) (use assms(1-4) in \<open>auto simp: stored_def upsert_other split: if_splits\<close>)
qed

lemma stored_Delete:
  assumes "stored X P ns i s W" "j \<noteq> i" "file_Delete X c ns j W = (e, W')"
  shows "stored X P ns i s W'"
proof -
  have "file_invar X P W" using assms(1) by (simp add: stored_def)
  from this assms(3) show ?thesis
    by (rule file_Delete_cases) (use assms(1,2) in \<open>auto simp: stored_def split: if_splits\<close>)
qed

lemma stored_restart:
  assumes "stored X P ns i s W" "dir \<noteq> []"
  shows "stored X P ns i s (reopen dir W)"
proof -
  have "fwCache (reopen dir W) = Map.empty" "fwFiles (reopen dir W) = fwFiles W"
    using assms(2) by (simp_all add: reopen_def NewFileStore_def)
  then show ?thesis using assms(1) by (simp add: stored_def file_invar_def file_lookup_def file_namespace_def)
qed

lemma stored_call:
  assumes m: "memStoreOf m = fileStore X" and w: "stored X P (memNamespace m) i s W" and k: "spares P m i k"
  shows "stored X P (memNamespace m) i s (do_call m c k W)"
proof (cases k)
  case (CallRemember r)
  obtain e W' where p: "file_Put X c (scoped m r) W = (e, W')" by force
  then have "do_call m c k W = W'"
    using m CallRemember by (simp add: Remember_def fileStore_def Let_def split: option.split)
  then show ?thesis
    using stored_Put [OF w scoped_fields(1) scoped_ID_nonempty _ _ p] k CallRemember by (simp del: scoped_fields)
next
  case (CallRecall q)
  obtain x W' where l: "load X (memNamespace m) W = (x, W')" by force
  then have "do_call m c k W = W'"
    using m CallRecall by (simp add: Recall_def fileStore_def file_Query_def split: sum.split)
  then show ?thesis using stored_load [OF w l] by simp
next
  case (CallGet j)
  obtain x W' where l: "load X (memNamespace m) W = (x, W')" by force
  then have "do_call m c k W = W'"
    using m CallGet by (simp add: memory_Get_def fileStore_def file_Get_def split: sum.split)
  then show ?thesis using stored_load [OF w l] by simp
next
  case (CallForget j)
  then show ?thesis using m w k stored_Delete [OF w, of j c] by (simp add: Forget_def fileStore_def prod_eq_iff)
next
  case (Restart dir)
  then show ?thesis using stored_restart [OF w] k by simp
qed

lemma stored_calls:
  "memStoreOf m = fileStore X \<Longrightarrow> stored X P (memNamespace m) i s W \<Longrightarrow> \<forall>(c, k) \<in> set ks. spares P m i k \<Longrightarrow>
    stored X P (memNamespace m) i s (fold (\<lambda>(c, k). do_call m c k) ks W)"
  by (induction ks arbitrary: W) (auto simp: stored_call)

lemma remember_stored:
  assumes m: "memStoreOf m = fileStore X" and w: "file_invar X P W" and r: "P (scoped m r)"
    and rem: "Remember m c r W = (Inr i, W')"
  shows "\<exists>s. stored X P (memNamespace m) i s W' \<and> same_fact m r (file_lookup X W (memNamespace m) i) s"
proof -
  have p: "file_Put X c (scoped m r) W = (None, W')"
    using rem m by (auto simp: Remember_def fileStore_def Let_def split: prod.splits option.splits)
  have ns: "separate {memNamespace m} (memNamespace m)" by simp
  obtain s where "file_lookup X W' (memNamespace m) = (file_lookup X W (memNamespace m))(i \<mapsto> s)"
    "same_fact m r (file_lookup X W (memNamespace m) i) s"
    using fstore.remember_spec(3) [OF m ns r w rem] by blast
  moreover have "map_of (file_records X (fwFiles W' (path (memNamespace m)))) = file_lookup X W' (memNamespace m)"
    "file_invar X P W'"
    by (rule file_Put_cases [OF w r p]; simp)+
  ultimately show ?thesis by (auto simp: stored_def)
qed

text \<open>
  C28: What was remembered is recalled. On the file store, under any pattern of failing system
  calls: when \<open>Remember\<close> has returned an id, then after any calls on the handle that do not write or
  forget this id, successful or not, and any restarts in between, a \<open>Recall\<close> without limit whose query
  the record matches, if it returns records, returns one with all the fields the caller wrote, with the
  defaults for those left empty; the time of creation is that of the record it has replaced, if any.
\<close>

theorem remembered_is_recalled:
  assumes "memStoreOf m = fileStore X" "file_invar X P W" "P (scoped m r)"
    and "Remember m c r W = (Inr i, W1)" "\<forall>(c, k) \<in> set ks. spares P m i k"
    and "Recall m c' q (fold (\<lambda>(c, k). do_call m c k) ks W1) = (Inr rs, W2)"
    and "qLimit q \<le> 0" "matches (seLower X) r q"
  shows "\<exists>s\<in>set rs. rID s = i \<and> same_fact m r (file_lookup X W (memNamespace m) i) s"
proof -
  have ns: "separate {memNamespace m} (memNamespace m)" by simp
  obtain s where s: "stored X P (memNamespace m) i s W1" "same_fact m r (file_lookup X W (memNamespace m) i) s"
    using remember_stored [OF assms(1-4)] by blast
  have w: "file_invar X P (fold (\<lambda>(c, k). do_call m c k) ks W1)"
    "file_lookup X (fold (\<lambda>(c, k). do_call m c k) ks W1) (memNamespace m) i = Some s"
    using stored_calls [OF assms(1) s(1) assms(5)] by (simp_all add: stored_def)
  have "s \<in> set rs"
    by (rule fstore.recall_finds [OF assms(1) ns w(1) assms(6) w(2) assms(7)])
      (use same_fact_matches [OF s(2)] assms(8) in simp)
  moreover have "rID s = i" using fstore.lookup_key [OF w(1) ns w(2)] .
  ultimately show ?thesis using s(2) by blast
qed

definition demo_memory :: "nat file_world memory" where
  "demo_memory = memory_New (fileStore demo_store_env) ''task'' [WithSource ''demo'']"

lemma demo_memory_fields [simp]:
  "memStoreOf demo_memory = fileStore demo_store_env" "memNamespace demo_memory = ''task''" "memSource demo_memory = ''demo''"
  by (simp_all add: demo_memory_def memory_New_def WithSource_def)

text \<open>The record is written, another one is forgotten, the process restarts, and the record is recalled.\<close>

lemma demo_remember: "\<exists>W1. Remember demo_memory c (demo_record ''task'') (demo_files 9) = (Inr ''k'', W1) \<and> fwRest W1 = 4"
proof -
  let ?r = "scoped demo_memory (demo_record ''task'')"
  have r: "rID ?r = ''k''" "rNamespace ?r = ''task''" by (simp_all add: demo_record_def)
  show ?thesis
    unfolding Remember_def Let_def r demo_memory_fields
    by (simp add: fileStore_def file_Put_def load_def flush_def os_call_def Let_def demo_files_def NewFileStore_def r
        del: scoped_fields)
qed

lemma demo_recall:
  assumes "fwCache W ''task'' = None" "fwRest W > 0"
  shows "\<exists>rs W2. Recall demo_memory c q W = (Inr rs, W2)"
proof -
  have u: "seUnmarshal demo_store_env b = Inr (map tuple_rec (from_nat (length b)))" for b by (simp add: demo_store_env_def)
  have "\<exists>ns W2. load demo_store_env ''task'' W = (Inr ns, W2)"
    using assms by (cases "fwFiles W (path ''task'')") (simp_all add: load_def os_call_def Let_def u)
  then show ?thesis by (auto simp: Recall_def fileStore_def file_Query_def)
qed

theorem remembered_is_recalled_witness:
  "\<exists>W1 rs W2. Remember demo_memory CtxBackground (demo_record ''task'') (demo_files 9) = (Inr ''k'', W1) \<and>
     Recall demo_memory CtxBackground query_zero (reopen ''dir'' W1) = (Inr rs, W2) \<and>
     (\<exists>s\<in>set rs. rID s = ''k'' \<and> rText s = ''the sky is blue'' \<and> rSalience s = 1 / 2)"
proof -
  obtain W1 where W1: "Remember demo_memory CtxBackground (demo_record ''task'') (demo_files 9) = (Inr ''k'', W1)"
    "fwRest W1 = 4"
    using demo_remember by blast
  let ?ks = "[(CtxBackground, Restart ''dir'')]"
  have f: "fold (\<lambda>(c, k). do_call demo_memory c k) ?ks W1 = reopen ''dir'' W1" by simp
  obtain rs W2 where R: "Recall demo_memory CtxBackground query_zero (reopen ''dir'' W1) = (Inr rs, W2)"
    using demo_recall [of "reopen ''dir'' W1" CtxBackground query_zero] W1(2) by (auto simp: reopen_def NewFileStore_def)
  have q: "qLimit query_zero \<le> 0" "matches (seLower demo_store_env) (demo_record ''task'') query_zero"
    by (simp_all add: query_zero_def matches_def)
  have "\<exists>s\<in>set rs. rID s = ''k'' \<and> same_fact demo_memory (demo_record ''task'')
      (file_lookup demo_store_env (demo_files 9) ''task'' ''k'') s"
    using remembered_is_recalled [OF demo_memory_fields(1) demo_files_invar TrueI W1(1), of ?ks CtxBackground query_zero rs W2]
      R q unfolding f by simp
  then show ?thesis using W1(1) R by (auto simp: same_fact_def demo_record_def record_zero_def)
qed

section \<open>The recall tool\<close>

lemma valid_runes_take: "list_all valid_rune (take n (runes s))"
  using runes_valid [of s] by (metis append_take_drop_id list_all_append)

lemma runes_ellipsis [simp]: "runes ellipsis = [0x2026]"
  by (subst runes.simps) (simp add: decode_rune_def ellipsis_def utf8_lead_def continuation_def)

lemma length_runes_truncate: "length (runes (truncate_text s n)) \<le> n + 1"
proof (cases "length (runes s) \<le> n")
  case False
  then have "runes (truncate_text s n) = take n (runes s) @ [0x2026]"
    using runes_string_of_runes [OF valid_runes_take [of n s], of ellipsis] by (simp add: truncate_text_def Let_def)
  then show ?thesis by simp
qed (simp add: truncate_text_def)

lemma recall_limit_range: "1 \<le> recall_limit l" "recall_limit l \<le> 50"
  by (simp_all add: recall_limit_def defaultRecallLimit_def maxRecallLimit_def Let_def)

text \<open>
  The recall tool cannot flood the context: on the in-memory store it returns at most 50
  records (10 when no limit is given), each with at most 500 runes of text and an ellipsis, in
  descending rank, and all of them match the query.
\<close>

theorem recall_tool_is_bounded:
  assumes "memStoreOf m = memStore X" "mem_invar X W"
  shows "\<exists>rs W'. recall_records C m c a W = (Inr (map (recalled C) rs), W') \<and>
      int (length rs) \<le> recall_limit (caLimit a) \<and> recall_limit (caLimit a) \<le> 50 \<and>
      (\<forall>r\<in>set rs. matches (seLower X) r (query_zero\<lparr>qKinds := caKinds a, qTags := caTags a, qText := caText a\<rparr>)) \<and>
      (\<forall>r\<in>set rs. length (runes (rrText (recalled C r))) \<le> 501)"
proof -
  let ?q = "query_zero\<lparr>qKinds := caKinds a, qTags := caTags a, qText := caText a, qLimit := recall_limit (caLimit a)\<rparr>"
  obtain rs W' where r: "Recall m c ?q W = (Inr rs, W')"
    using assms(1) by (auto simp: Recall_def memStore_def mem_Query_def Let_def)
  have l: "length rs \<le> nat (recall_limit (caLimit a))"
    using mem.recall_limit_bound [OF assms(1) TrueI assms(2) r] recall_limit_range(1) [of "caLimit a"] by simp
  have s: "set rs \<subseteq> {x. matches (seLower X) x (?q\<lparr>qNamespace := memNamespace m\<rparr>)}"
    using mem.recall_spec(2) [OF assms(1) TrueI assms(2) r] by (auto simp: query_spec_def Let_def)
  have t: "length (runes (rrText (recalled C x))) \<le> 501" for x
    using length_runes_truncate [of "rText x" maxRecallTextLen] by (simp add: recalled_def maxRecallTextLen_def)
  show ?thesis
    using r l s t recall_limit_range [of "caLimit a"]
    by (intro exI [of _ rs] exI [of _ W']) (auto simp: recall_records_def)
qed

definition demo_codec_tools :: tool_codec where
  "demo_codec_tools = \<lparr>xcSchema = (\<lambda>n. Inr ''{}''), xcRemember = (\<lambda>b. Inl (ErrText b)), xcRecall = (\<lambda>b. Inl (ErrText b)),
     xcNote = (\<lambda>b. Inr \<lparr>naText = b, naTags = []\<rparr>), xcTodo = (\<lambda>b. Inr \<lparr>taID = [], taText = b, taStatus = []\<rparr>),
     xcForget = (\<lambda>b. Inr b), xcID = AnyString, xcRecords = (\<lambda>rs. AnyString (concat (map rrText rs))),
     xcOK = (\<lambda>b. AnyNil), xcStatus = (\<lambda>s. s), xcTime = itoa\<rparr>"

definition demo_mem :: "nat mem_world memory" where
  "demo_mem = memory_New (memStore demo_store_env) ''task'' []"

theorem recall_tool_is_bounded_witness:
  "\<exists>rs W'. recall_records demo_codec_tools demo_mem CtxBackground
       \<lparr>caKinds = [], caTags = [], caText = [], caLimit = 1000\<rparr> (NewInMemory 0)
       = (Inr (map (recalled demo_codec_tools) rs), W') \<and> int (length rs) \<le> 50"
proof -
  have "mem_invar demo_store_env (NewInMemory 0)" and m: "memStoreOf demo_mem = memStore demo_store_env"
    using demo_store_env_ok by (simp_all add: mem_invar_def NewInMemory_def mem_namespace_def demo_mem_def memory_New_def)
  from recall_tool_is_bounded [OF m this(1), of demo_codec_tools CtxBackground
      "\<lparr>caKinds = [], caTags = [], caText = [], caLimit = 1000\<rparr>"]
  obtain rs W' where "recall_records demo_codec_tools demo_mem CtxBackground
       \<lparr>caKinds = [], caTags = [], caText = [], caLimit = 1000\<rparr> (NewInMemory 0)
       = (Inr (map (recalled demo_codec_tools) rs), W')" "int (length rs) \<le> recall_limit 1000"
    by auto
  then show ?thesis using recall_limit_range(2) [of 1000] by fastforce
qed

section \<open>Content hashes\<close>

text \<open>
  The content hash does not separate the text from the tags: a text that contains a zero byte
  has the id of the record whose text ends there and whose first tag is the rest. Two different
  facts then collapse into one record.
\<close>

theorem contentID_confuses_text_and_tags:
  "contentID (r\<lparr>rText := t @ CHR 0x00 # tag, rTags := tags\<rparr>) = contentID (r\<lparr>rText := t, rTags := tag # tags\<rparr>)"
  by (simp add: contentID_def)

section \<open>The recalled block\<close>

definition lines_cost :: "mrecord list \<Rightarrow> int" where
  "lines_cost rs = (\<Sum>r\<leftarrow>rs. approxTokens (preamble_line r))"

lemma lines_cost_simps [simp]:
  "lines_cost [] = 0" "lines_cost (r # rs) = approxTokens (preamble_line r) + lines_cost rs"
  by (simp_all add: lines_cost_def)

text \<open>
  The lines written are those of a first part of the records; it is all of them, or one more
  would exceed the budget. Beyond the first line the budget is kept.
\<close>

lemma preamble_lines_spec:
  "\<exists>n\<le>length rs. preamble_lines b used written rs = map preamble_line (take n rs) \<and>
     (n = length rs \<or> b > 0 \<and> b < used + lines_cost (take (n + 1) rs)) \<and>
     (b \<le> 0 \<or> n = 0 \<or> written = 0 \<and> n = 1 \<or> used + lines_cost (take n rs) \<le> b) \<and>
     (written > 0 \<or> rs = [] \<or> 0 < n)"
proof (induction b used written rs rule: preamble_lines.induct)
  case (2 b used written r rs)
  let ?c = "approxTokens (preamble_line r)"
  show ?case
  proof (cases "b > 0 \<and> used + ?c > b \<and> written > 0")
    case True
    then show ?thesis by (intro exI [of _ 0]) simp
  next
    case False
    then obtain n where n: "n \<le> length rs"
      "preamble_lines b (used + ?c) (written + 1) rs = map preamble_line (take n rs)"
      "n = length rs \<or> b > 0 \<and> b < used + ?c + lines_cost (take (n + 1) rs)"
      "b \<le> 0 \<or> n = 0 \<or> used + ?c + lines_cost (take n rs) \<le> b"
      using 2 by (auto simp: Let_def)
    show ?thesis
      using n False by (intro exI [of _ "Suc n"]) (auto simp: Let_def add.assoc)
  qed
qed simp

lemma approxTokens_append: "approxTokens (s @ t) \<le> approxTokens s + approxTokens t"
  by (simp add: approxTokens_def)

lemma approxTokens_block: "approxTokens (h @ concat (map preamble_line rs)) \<le> approxTokens h + lines_cost rs"
proof (induction rs arbitrary: h)
  case (Cons r rs)
  have "approxTokens (h @ concat (map preamble_line (r # rs))) \<le> approxTokens (h @ preamble_line r) + lines_cost rs"
    using Cons [of "h @ preamble_line r"] by simp
  also have "\<dots> \<le> approxTokens h + lines_cost (r # rs)" using approxTokens_append [of h "preamble_line r"] by simp
  finally show ?case .
qed simp

text \<open>
  The recalled block is empty exactly when no record matches. Otherwise it is the header and the
  lines of the best \<open>n\<close> records, at least one. The budget, when positive, is only exceeded by a
  block of one line, and records are left out only when the next one would exceed it.
\<close>

theorem preamble_within_budget:
  "case Preamble m c q b w of
      (Inl err, w') \<Rightarrow> Recall m c q w = (Inl err, w')
    | (Inr s, w') \<Rightarrow> \<exists>recs n. Recall m c q w = (Inr recs, w') \<and> n \<le> length recs \<and>
        (recs = [] \<and> s = [] \<or> 1 \<le> n \<and> s = preambleHeader @ concat (map preamble_line (take n recs))) \<and>
        (b \<le> 0 \<or> n \<le> 1 \<or> approxTokens s \<le> b) \<and>
        (n = length recs \<or> b < approxTokens preambleHeader + lines_cost (take (n + 1) recs))"
proof -
  obtain x w' where R: "Recall m c q w = (x, w')" by force
  show ?thesis
  proof (cases x)
    case (Inl err)
    then show ?thesis using R by (simp add: Preamble_def)
  next
    case (Inr recs)
    let ?h = "approxTokens preambleHeader"
    obtain n where n: "n \<le> length recs" "preamble_lines b ?h 0 recs = map preamble_line (take n recs)"
      "n = length recs \<or> b > 0 \<and> b < ?h + lines_cost (take (n + 1) recs)"
      "b \<le> 0 \<or> n = 0 \<or> n = 1 \<or> ?h + lines_cost (take n recs) \<le> b" "recs = [] \<or> 0 < n"
      using preamble_lines_spec [of recs b ?h 0] by auto
    have t: "b \<le> 0 \<or> n \<le> 1 \<or> approxTokens (preambleHeader @ concat (map preamble_line (take n recs))) \<le> b"
      using n(4) approxTokens_block [of preambleHeader "take n recs"] by auto
    show ?thesis
    proof (cases "recs = []")
      case True
      then show ?thesis using R Inr by (simp add: Preamble_def)
    next
      case False
      then have P: "Preamble m c q b w = (Inr (preambleHeader @ concat (map preamble_line (take n recs))), w')"
        using R Inr n by (simp add: Preamble_def Let_def)
      have m: "n = length recs \<or> b < ?h + lines_cost (take (n + 1) recs)" using n(3) by blast
      have "1 \<le> n" using n(5) False by simp
      then show ?thesis
        unfolding P prod.case sum.case using R [unfolded Inr] n(1) t m by (intro exI [of _ recs] exI [of _ n] conjI) auto
    qed
  qed
qed

section \<open>Compaction with memory\<close>

lemma leadingSystem_head: "leadingSystem msgs = length (system_head msgs)"
  by (simp add: leadingSystem_def system_head_def)

lemma system_head_append:
  "list_all (\<lambda>m. msgRole m = RoleSystem) xs \<Longrightarrow> system_head (xs @ ys) = xs @ system_head ys"
  by (induction xs) (simp_all add: system_head_def)

lemma system_head_system: "list_all (\<lambda>m. msgRole m = RoleSystem) (system_head msgs)"
  by (auto simp: system_head_def list_all_iff dest: set_takeWhileD)

lemma Compact_prefix: "prefix (system_head msgs) (fst (fst (Compact sc c msgs w)))"
  by (auto simp: Compact_def Let_def system_head_def takeWhile_is_prefix
      split: option.splits sum.splits prod.splits)

lemma memory_Compact_prefix:
  assumes "mcInner mc = Some (as_compactor sc)"
  shows "prefix (system_head msgs) (fst (fst (memory_Compact mc c msgs w)))"
proof -
  obtain out err w1 where o: "Compact sc c msgs w = ((out, err), w1)" by (metis prod.collapse)
  then have p: "prefix (system_head msgs) out" using Compact_prefix [of msgs sc c w] by simp
  then have l: "length (system_head msgs) \<le> length out" by (rule prefix_length_le)
  have "take (leadingSystem msgs) out = system_head msgs"
    using p by (auto simp: prefix_def leadingSystem_head)
  then have "prefix (system_head msgs) (splice (leadingSystem msgs) out s)" for s
    using l by (simp add: splice_def Let_def leadingSystem_head)
  then show ?thesis
    using o p assms by (auto simp: memory_Compact_def Let_def as_compactor_def split: prod.splits sum.splits)
qed

text \<open>
  C29: Compaction of a summarizing compactor with memory puts the recalled block and the summary
  behind the leading system messages. Both are system messages themselves, so that every later
  compaction of the history, however it has grown, keeps them verbatim and adds a new block and
  a new summary: old summaries and old copies of the memory accumulate.
\<close>

theorem compaction_accumulates_memory:
  assumes "mcInner mc = Some (as_compactor sc)"
    and "Compact sc c msgs w = ((system_head msgs @ [SystemMessage summary] @ recent, None), w1)"
    and "Preamble (mcMem mc) c (mcQuery mc) (mcBudget mc) w1 = (Inr block, w2)" "block \<noteq> []"
  shows "memory_Compact mc c msgs w
       = ((system_head msgs @ [SystemMessage block, SystemMessage summary] @ recent, None), w2) \<and>
     (\<forall>more c' w3. prefix (system_head msgs @ [SystemMessage block, SystemMessage summary])
        (fst (fst (memory_Compact mc c'
           (system_head msgs @ [SystemMessage block, SystemMessage summary] @ recent @ more) w3))))"
proof -
  let ?h = "system_head msgs @ [SystemMessage block, SystemMessage summary]"
  have "list_all (\<lambda>m. msgRole m = RoleSystem) ?h"
    using system_head_system [of msgs] by (simp add: SystemMessage_def)
  then have "prefix ?h (system_head (?h @ recent @ more))" for more
    using system_head_append [of ?h "recent @ more"] by simp
  then have "prefix ?h (fst (fst (memory_Compact mc c' (?h @ recent @ more) w3)))" for more c' w3
    using memory_Compact_prefix [OF assms(1)] prefix_order.trans by blast
  moreover have "splice (leadingSystem msgs) (system_head msgs @ [SystemMessage summary] @ recent) block
      = system_head msgs @ [SystemMessage block, SystemMessage summary] @ recent"
    by (simp add: splice_def Let_def leadingSystem_head)
  ultimately show ?thesis
    using assms by (simp add: memory_Compact_def as_compactor_def Let_def)
qed

text \<open>
  A history with one instruction and two turns, of which the older is summarized, over a memory
  that holds one record.
\<close>

definition fixed_model :: "'w model" where
  "fixed_model = \<lparr>mdlID = ''demo'', mdlGenerate = (\<lambda>c req w. (Inr (demo_response [] ''summary''), w)),
     mdlStream = None, mdlThreadsResponses = None, mdlThreadingUnsupported = None\<rparr>"

definition fixed_compactor :: "nat mem_world summarizing_compactor" where
  "fixed_compactor = \<lparr>scModel = Some fixed_model, scMaxContextTokens = 10, scTriggerFraction = 0,
     scKeepRecent = 1, scPrompt = ''s''\<rparr>"

definition fixed_memory :: "nat mem_world" where
  "fixed_memory = \<lparr>mwRecs = [''task'' \<mapsto> [(''k'', demo_record ''task'')]], mwRest = 0\<rparr>"

theorem compaction_accumulates_memory_witness:
  "\<exists>block. block \<noteq> [] \<and> fst (memory_Compact (memory_Compactor demo_mem (Some (as_compactor fixed_compactor)) [])
       CtxBackground [SystemMessage ''i'', UserMessage ''old'', UserMessage ''new''] fixed_memory)
     = ([SystemMessage ''i'', SystemMessage block, SystemMessage ''summary'', UserMessage ''new''], None)"
proof -
  let ?msgs = "[SystemMessage ''i'', UserMessage ''old'', UserMessage ''new'']"
  let ?mc = "memory_Compactor demo_mem (Some (as_compactor fixed_compactor)) []"
  have h: "system_head ?msgs = [SystemMessage ''i'']"
    by (simp add: system_head_def SystemMessage_def UserMessage_def)
  have mc: "mcInner ?mc = Some (as_compactor fixed_compactor)" "mcMem ?mc = demo_mem" by (simp_all add: memory_Compactor_def)
  have C: "Compact fixed_compactor CtxBackground ?msgs fixed_memory
      = ((system_head ?msgs @ [SystemMessage ''summary''] @ [UserMessage ''new''], None), fixed_memory)"
    by (simp add: Compact_def fixed_compactor_def fixed_model_def Let_def keepRecent_def system_head_def body_of_def
        SystemMessage_def UserMessage_def demo_response_def AssistantMessage_def)
  have R: "Recall demo_mem CtxBackground (mcQuery ?mc) fixed_memory = (Inr [demo_record ''task''], fixed_memory)"
    by (simp add: Recall_def demo_mem_def memory_New_def memStore_def mem_Query_def fixed_memory_def mem_namespace_def
        range_matching_def memory_Compactor_def query_zero_def matches_def rank_def stable_sort_def applyLimit_def)
  obtain block where P: "Preamble (mcMem ?mc) CtxBackground (mcQuery ?mc) (mcBudget ?mc) fixed_memory = (Inr block, fixed_memory)"
    and ne: "block \<noteq> []"
    using R by (auto simp: Preamble_def mc Let_def preambleHeader_def)
  from compaction_accumulates_memory [OF mc(1) C P ne] h ne show ?thesis by auto
qed

end
