(* ===== verification/Schema.thy ===== *)
theory Schema
  imports Core_Types "HOL-Library.AList"
begin

text \<open>
  \<open>schema/schema.go\<close> and \<open>schema/validate.go\<close>: JSON Schemas of Go types by reflection, and the
  validation of JSON values against them.

  A \<open>reflect.Type\<close> is a number into a table of type descriptors, so that types may be recursive as
  they may in Go. \<open>strconv.ParseFloat\<close> and the formatting of a type and of a number are
  parameters. A JSON object is a list of entries with distinct keys; for a value to validate, the
  list is in the order in which \<open>range\<close> visits the map.
\<close>

section \<open>JSON values\<close>

datatype json = JNull | JBool bool | JNum rat | JStr string | JArr "json list" | JObj "(string \<times> json) list"

type_synonym jobject = "(string \<times> json) list"

section \<open>Types (reflect)\<close>

record gofield =
  fdName :: string
  fdType :: nat
  fdExported :: bool
  fdAnonymous :: bool
  fdJSON :: string         \<comment> \<open>\<open>Tag.Get("json")\<close>\<close>
  fdSchema :: string       \<comment> \<open>\<open>Tag.Get("jsonschema")\<close>\<close>
  fdDesc :: string         \<comment> \<open>\<open>Tag.Get("desc")\<close>\<close>

datatype tdesc =
    KString | KBool | KInt | KUint8 | KFloat | KTime | KInterface
  | KPointer nat
  | KSlice nat
  | KArray nat             \<comment> \<open>the length of an array is not used\<close>
  | KMap nat nat
  | KStruct "gofield list"
  | KOther string          \<comment> \<open>a kind without a schema, with its name\<close>

record gotypes =
  gtDesc :: "nat \<Rightarrow> tdesc"
  gtString :: "nat \<Rightarrow> string"
  gtParseFloat :: "string \<Rightarrow> rat option"

section \<open>Tags\<close>

record field_tag =
  ftDescription :: string
  ftEnum :: "string list"
  ftMinimum :: "rat option"
  ftMaximum :: "rat option"
  ftFormat :: string
  ftRequired :: "bool option"

definition fieldTag_zero :: field_tag where
  "fieldTag_zero = \<lparr>ftDescription = [], ftEnum = [], ftMinimum = None, ftMaximum = None, ftFormat = [], ftRequired = None\<rparr>"

definition jsonName :: "gofield \<Rightarrow> string \<times> string list" where
  "jsonName f = (let tag = fdJSON f in
     if tag = [] then (fdName f, [])
     else (let parts = strings_split (CHR '','') tag; opts = tl parts in
       if hd parts = [] then (fdName f, opts) else (hd parts, opts)))"

definition tag_flag :: "string \<Rightarrow> field_tag \<Rightarrow> field_tag" where
  "tag_flag key ft =
     (if key = ''required'' then ft\<lparr>ftRequired := Some True\<rparr>
      else if key = ''optional'' then ft\<lparr>ftRequired := Some False\<rparr>
      else if ftDescription ft = [] then ft\<lparr>ftDescription := key\<rparr> else ft)"

definition tag_value :: "gotypes \<Rightarrow> string \<Rightarrow> string \<Rightarrow> field_tag \<Rightarrow> field_tag" where
  "tag_value T key val ft =
     (if key = ''description'' \<or> key = ''desc'' then ft\<lparr>ftDescription := val\<rparr>
      else if key = ''enum'' then ft\<lparr>ftEnum := strings_split (CHR ''|'') val\<rparr>
      else if key = ''format'' then ft\<lparr>ftFormat := val\<rparr>
      else if key = ''minimum'' \<or> key = ''min'' then
        (case gtParseFloat T val of Some n \<Rightarrow> ft\<lparr>ftMinimum := Some n\<rparr> | None \<Rightarrow> ft)
      else if key = ''maximum'' \<or> key = ''max'' then
        (case gtParseFloat T val of Some n \<Rightarrow> ft\<lparr>ftMaximum := Some n\<rparr> | None \<Rightarrow> ft)
      else if key = ''required'' then ft\<lparr>ftRequired := Some (val = ''true'')\<rparr>
      else ft)"

definition tag_part :: "gotypes \<Rightarrow> field_tag \<Rightarrow> string \<Rightarrow> field_tag" where
  "tag_part T ft part = (let part = trim_space part in
     if part = [] then ft
     else (case strings_split2 (CHR ''='') part of
         (k, None) \<Rightarrow> tag_flag (trim_space k) ft
       | (k, Some v) \<Rightarrow> tag_value T (trim_space k) (trim_space v) ft))"

definition parseFieldTag :: "gotypes \<Rightarrow> gofield \<Rightarrow> field_tag" where
  "parseFieldTag T f =
     (if fdSchema f = [] then
        (if fdDesc f \<noteq> [] then fieldTag_zero\<lparr>ftDescription := fdDesc f\<rparr> else fieldTag_zero)
      else foldl (tag_part T) fieldTag_zero (strings_split (CHR '','') (fdSchema f)))"

text \<open>\<open>m[key] = value\<close> on an object under construction.\<close>

definition put :: "string \<Rightarrow> json \<Rightarrow> jobject \<Rightarrow> jobject" where
  "put k v m = AList.update k v m"

definition applyTag :: "jobject \<Rightarrow> field_tag \<Rightarrow> jobject" where
  "applyTag m tag =
     (let m = (if ftDescription tag \<noteq> [] then put ''description'' (JStr (ftDescription tag)) m else m);
          m = (if ftEnum tag \<noteq> [] then put ''enum'' (JArr (map JStr (ftEnum tag))) m else m);
          m = (case ftMinimum tag of Some n \<Rightarrow> put ''minimum'' (JNum n) m | None \<Rightarrow> m);
          m = (case ftMaximum tag of Some n \<Rightarrow> put ''maximum'' (JNum n) m | None \<Rightarrow> m)
      in if ftFormat tag \<noteq> [] then put ''format'' (JStr (ftFormat tag)) m else m)"

section \<open>Schemas\<close>

abbreviation maxDepth :: nat where "maxDepth \<equiv> 32"

definition is_pointer :: "gotypes \<Rightarrow> nat \<Rightarrow> bool" where
  "is_pointer T t = (case gtDesc T t of KPointer _ \<Rightarrow> True | _ \<Rightarrow> False)"

definition isRequired :: "gotypes \<Rightarrow> gofield \<Rightarrow> string list \<Rightarrow> field_tag \<Rightarrow> bool" where
  "isRequired T f opts tag = (case ftRequired tag of
       Some b \<Rightarrow> b
     | None \<Rightarrow> if is_pointer T (fdType f) then False else ''omitempty'' \<notin> set opts)"

text \<open>
  The loop of \<open>deref\<close> and the recursion of \<open>build\<close> and \<open>buildStruct\<close> need not end; \<open>None\<close> is the
  value when the fuel is used up.
\<close>

fun deref :: "gotypes \<Rightarrow> nat \<Rightarrow> nat \<Rightarrow> nat option" where
  "deref T 0 t = None"
| "deref T (Suc n) t = (case gtDesc T t of KPointer e \<Rightarrow> deref T n e | _ \<Rightarrow> Some t)"

definition type_is :: "string \<Rightarrow> jobject" where
  "type_is s = [(''type'', JStr s)]"

text \<open>The fields of a struct under construction: \<open>props\<close> and \<open>required\<close>.\<close>

type_synonym struct_parts = "jobject \<times> string list"

definition struct_schema :: "field_tag \<Rightarrow> struct_parts \<Rightarrow> jobject" where
  "struct_schema tag p = (case p of (props, required) \<Rightarrow>
     (let m = [(''type'', JStr ''object''), (''properties'', JObj props), (''additionalProperties'', JBool False)];
          m = (if required \<noteq> [] then put ''required'' (JArr (map JStr required)) m else m)
      in applyTag m tag))"

definition flatten :: "struct_parts \<Rightarrow> struct_parts \<Rightarrow> struct_parts" where
  "flatten p sub = (foldl (\<lambda>ps (k, v). put k v ps) (fst p) (fst sub), snd p @ snd sub)"

definition res_bind :: "(goerr + 'a) option \<Rightarrow> ('a \<Rightarrow> (goerr + 'b) option) \<Rightarrow> (goerr + 'b) option" where
  "res_bind m f = (case m of None \<Rightarrow> None | Some (Inl err) \<Rightarrow> Some (Inl err) | Some (Inr v) \<Rightarrow> f v)"

lemma res_bind_simps [simp]:
  "res_bind None f = None" "res_bind (Some (Inl err)) f = Some (Inl err)" "res_bind (Some (Inr v)) f = f v"
  by (simp_all add: res_bind_def)

text \<open>\<open>build\<close> after \<open>deref\<close>, with what it calls recursively; slices and arrays share a case.\<close>

definition build_list ::
  "gotypes \<Rightarrow> (nat \<Rightarrow> field_tag \<Rightarrow> nat \<Rightarrow> (goerr + jobject) option) \<Rightarrow> nat \<Rightarrow> field_tag \<Rightarrow> nat \<Rightarrow> (goerr + jobject) option" where
  "build_list T bld e tag depth =
     (if gtDesc T e = KUint8
      then Some (Inr (applyTag [(''type'', JStr ''string''), (''contentEncoding'', JStr ''base64'')] tag))
      else res_bind (bld e fieldTag_zero (depth + 1)) (\<lambda>items.
        Some (Inr (applyTag [(''type'', JStr ''array''), (''items'', JObj items)] tag))))"

definition build_kind ::
  "gotypes \<Rightarrow> (nat \<Rightarrow> field_tag \<Rightarrow> nat \<Rightarrow> (goerr + jobject) option) \<Rightarrow> (gofield list \<Rightarrow> nat \<Rightarrow> (goerr + struct_parts) option) \<Rightarrow>
     nat \<Rightarrow> field_tag \<Rightarrow> nat \<Rightarrow> (goerr + jobject) option" where
  "build_kind T bld bldStruct t tag depth = (case gtDesc T t of
       KTime \<Rightarrow> Some (Inr (applyTag [(''type'', JStr ''string''), (''format'', JStr ''date-time'')] tag))
     | KString \<Rightarrow> Some (Inr (applyTag (type_is ''string'') tag))
     | KBool \<Rightarrow> Some (Inr (applyTag (type_is ''boolean'') tag))
     | KInt \<Rightarrow> Some (Inr (applyTag (type_is ''integer'') tag))
     | KUint8 \<Rightarrow> Some (Inr (applyTag (type_is ''integer'') tag))
     | KFloat \<Rightarrow> Some (Inr (applyTag (type_is ''number'') tag))
     | KSlice e \<Rightarrow> build_list T bld e tag depth
     | KArray e \<Rightarrow> build_list T bld e tag depth
     | KMap k e \<Rightarrow>
         if gtDesc T k \<noteq> KString
         then Some (Inl (ErrText (''schema: map key must be string, got '' @ gtString T k)))
         else res_bind (bld e fieldTag_zero (depth + 1)) (\<lambda>vals.
           Some (Inr (applyTag [(''type'', JStr ''object''), (''additionalProperties'', JObj vals)] tag)))
     | KStruct fs \<Rightarrow> res_bind (bldStruct fs depth) (\<lambda>p. Some (Inr (struct_schema tag p)))
     | KInterface \<Rightarrow> Some (Inr (applyTag [] tag))
     | KPointer e \<Rightarrow> None
     | KOther k \<Rightarrow> Some (Inl (ErrText (''schema: unsupported kind '' @ k @ '' ('' @ gtString T t @ '')''))))"

text \<open>
  One field: skipped, flattened when it is an embedded struct without a name of its own, or a
  property. \<open>Some (Inr q)\<close> is what is collected after it. \<open>time.Time\<close> is a struct too, all of whose fields
  are unexported: embedded, it adds nothing.
\<close>

definition wrap_field :: "gofield \<Rightarrow> (goerr + jobject) option \<Rightarrow> (goerr + jobject) option" where
  "wrap_field f r = (case r of
       Some (Inl err) \<Rightarrow> Some (Inl (ErrWrap (''field '' @ fdName f @ '': '') err))
     | _ \<Rightarrow> r)"

definition embedded :: "gotypes \<Rightarrow> nat \<Rightarrow> gofield \<Rightarrow> gofield list option option" where
  "embedded T fuel f =
     (if fdAnonymous f \<and> fdJSON f = [] then
        (case deref T fuel (fdType f) of
           None \<Rightarrow> None
         | Some d \<Rightarrow> Some (case gtDesc T d of KStruct sub \<Rightarrow> Some sub | KTime \<Rightarrow> Some [] | _ \<Rightarrow> None))
      else Some None)"

definition build_field ::
  "gotypes \<Rightarrow> nat \<Rightarrow> (nat \<Rightarrow> field_tag \<Rightarrow> nat \<Rightarrow> (goerr + jobject) option) \<Rightarrow> (gofield list \<Rightarrow> nat \<Rightarrow> (goerr + struct_parts) option) \<Rightarrow>
     gofield \<Rightarrow> nat \<Rightarrow> struct_parts \<Rightarrow> (goerr + struct_parts) option" where
  "build_field T fuel bld bldStruct f depth p =
     (if \<not> fdExported f then Some (Inr p)
      else (case jsonName f of (name, opts) \<Rightarrow>
        if name = ''-'' then Some (Inr p)
        else (case embedded T fuel f of
            None \<Rightarrow> None
          | Some (Some sub) \<Rightarrow> res_bind (bldStruct sub (depth + 1)) (\<lambda>q. Some (Inr (flatten p q)))
          | Some None \<Rightarrow> (let ft = parseFieldTag T f in
              res_bind (wrap_field f (bld (fdType f) ft (depth + 1))) (\<lambda>child.
                Some (Inr (put name (JObj child) (fst p),
                  if isRequired T f opts ft then snd p @ [name] else snd p)))))))"

fun build :: "gotypes \<Rightarrow> nat \<Rightarrow> nat \<Rightarrow> field_tag \<Rightarrow> nat \<Rightarrow> (goerr + jobject) option"
  and buildStruct :: "gotypes \<Rightarrow> nat \<Rightarrow> gofield list \<Rightarrow> nat \<Rightarrow> (goerr + struct_parts) option"
  and buildFields :: "gotypes \<Rightarrow> nat \<Rightarrow> gofield list \<Rightarrow> nat \<Rightarrow> struct_parts \<Rightarrow> (goerr + struct_parts) option" where
  "build T 0 t tag depth = None"
| "build T (Suc n) t tag depth =
     (if depth > maxDepth then Some (Inl (ErrText (''schema: max nesting depth exceeded at '' @ gtString T t)))
      else (case deref T (Suc n) t of
          None \<Rightarrow> None
        | Some t \<Rightarrow> build_kind T (\<lambda>e ft d. build T n e ft d) (\<lambda>fs d. buildStruct T n fs d) t tag depth))"
| "buildStruct T 0 fs depth = None"
| "buildStruct T (Suc n) fs depth = buildFields T n fs depth ([], [])"
| "buildFields T 0 fs depth p = None"
| "buildFields T (Suc n) [] depth p = Some (Inr p)"
| "buildFields T (Suc n) (f # fs) depth p =
     res_bind (build_field T (Suc n) (\<lambda>e ft d. build T n e ft d) (\<lambda>sub d. buildStruct T n sub d) f depth p)
       (\<lambda>q. buildFields T n fs depth q)"

text \<open>\<open>For\<close>, \<open>Of\<close> and \<open>MustOf\<close>; \<open>marshal\<close> is \<open>json.Marshal\<close>. \<open>Inl\<close> of \<open>MustOf\<close> is the panic.\<close>

definition For :: "gotypes \<Rightarrow> (jobject \<Rightarrow> goerr + string) \<Rightarrow> nat \<Rightarrow> nat \<Rightarrow> (goerr + string) option" where
  "For T marshal fuel t = (case build T fuel t fieldTag_zero 0 of
       None \<Rightarrow> None
     | Some (Inl err) \<Rightarrow> Some (Inl err)
     | Some (Inr node) \<Rightarrow> Some (marshal node))"

definition MustOf :: "gotypes \<Rightarrow> (jobject \<Rightarrow> goerr + string) \<Rightarrow> nat \<Rightarrow> nat \<Rightarrow> (string + string) option" where
  "MustOf T marshal fuel t = (case For T marshal fuel t of
       None \<Rightarrow> None
     | Some (Inl err) \<Rightarrow> Some (Inl (''rimeno/schema: '' @ Error err))
     | Some (Inr s) \<Rightarrow> Some (Inr s))"

end
