(* ===== verification/Schema_Validate.thy ===== *)
theory Schema_Validate
  imports Schema
begin

text \<open>
  \<open>schema/validate.go\<close>: the first violation of a schema by a JSON value, and a declarative
  reading of what conformance means, to which the code is equivalent.
\<close>

section \<open>Validation\<close>

record validation_error =
  vePath :: string
  veMsg :: string

definition ve_Error :: "validation_error \<Rightarrow> string" where
  "ve_Error e = (if vePath e = [] then ''schema: '' @ veMsg e
     else ''schema: '' @ vePath e @ '': '' @ veMsg e)"

definition violation :: "string \<Rightarrow> string \<Rightarrow> validation_error option" where
  "violation path msg = Some \<lparr>vePath = path, veMsg = msg\<rparr>"

text \<open>Type assertions on the entries of a schema; \<open>None\<close> is a failed assertion or an absent key.\<close>

definition as_array :: "json option \<Rightarrow> json list option" where
  "as_array j = (case j of Some (JArr xs) \<Rightarrow> Some xs | _ \<Rightarrow> None)"

definition as_object :: "json option \<Rightarrow> jobject option" where
  "as_object j = (case j of Some (JObj m) \<Rightarrow> Some m | _ \<Rightarrow> None)"

definition as_string :: "json option \<Rightarrow> string" where
  "as_string j = (case j of Some (JStr s) \<Rightarrow> s | _ \<Rightarrow> [])"

definition as_bool :: "json option \<Rightarrow> bool option" where
  "as_bool j = (case j of Some (JBool b) \<Rightarrow> Some b | _ \<Rightarrow> None)"

definition as_float :: "json option \<Rightarrow> rat option" where
  "as_float j = (case j of Some (JNum x) \<Rightarrow> Some x | _ \<Rightarrow> None)"

text \<open>
  \<open>equalJSON\<close> compares the output of \<open>json.Marshal\<close>, which sorts the keys of objects and is
  otherwise injective on what \<open>json.Unmarshal\<close> produces. Numbers are rationals here, so that 0 and -0 are one
  number, where \<open>json.Marshal\<close> tells them apart.
\<close>

fun canon :: "json \<Rightarrow> json" where
  "canon (JArr xs) = JArr (map canon xs)"
| "canon (JObj m) = JObj (sort_key fst (map (\<lambda>(k, v). (k, canon v)) m))"
| "canon j = j"

definition equalJSON :: "json \<Rightarrow> json \<Rightarrow> bool" where
  "equalJSON a b = (canon a = canon b)"

definition childPath :: "string \<Rightarrow> string \<Rightarrow> string" where
  "childPath path name = path @ ''.'' @ name"

definition item_path :: "string \<Rightarrow> nat \<Rightarrow> string" where
  "item_path path i = path @ ''['' @ itoa (int i) @ '']''"

text \<open>\<open>ff\<close> formats a number with \<open>%v\<close>.\<close>

definition checkBounds :: "(rat \<Rightarrow> string) \<Rightarrow> jobject \<Rightarrow> rat \<Rightarrow> string \<Rightarrow> validation_error option" where
  "checkBounds ff sch f path = (case as_float (map_of sch ''minimum'') of
       Some mn \<Rightarrow> (if f < mn then violation path (''value '' @ ff f @ '' below minimum '' @ ff mn)
         else (case as_float (map_of sch ''maximum'') of
             Some mx \<Rightarrow> if f > mx then violation path (''value '' @ ff f @ '' above maximum '' @ ff mx) else None
           | None \<Rightarrow> None))
     | None \<Rightarrow> (case as_float (map_of sch ''maximum'') of
             Some mx \<Rightarrow> if f > mx then violation path (''value '' @ ff f @ '' above maximum '' @ ff mx) else None
           | None \<Rightarrow> None))"

definition missing_required :: "jobject \<Rightarrow> jobject \<Rightarrow> string option" where
  "missing_required sch obj = (case as_array (map_of sch ''required'') of
       None \<Rightarrow> None
     | Some req \<Rightarrow> find (\<lambda>name. map_of obj name = None) (map (\<lambda>r. as_string (Some r)) req))"

definition enum_ok :: "jobject \<Rightarrow> json \<Rightarrow> bool" where
  "enum_ok sch v = (case as_array (map_of sch ''enum'') of
       None \<Rightarrow> True
     | Some enum \<Rightarrow> list_ex (\<lambda>e. equalJSON e v) enum)"

definition allow_extra :: "jobject \<Rightarrow> bool" where
  "allow_extra sch = (case as_bool (map_of sch ''additionalProperties'') of Some ap \<Rightarrow> ap | None \<Rightarrow> True)"

definition properties :: "jobject \<Rightarrow> jobject" where
  "properties sch = (case as_object (map_of sch ''properties'') of Some m \<Rightarrow> m | None \<Rightarrow> [])"

text \<open>The cases of \<open>validateValue\<close> for values without parts.\<close>

definition validate_scalar :: "(rat \<Rightarrow> string) \<Rightarrow> jobject \<Rightarrow> string \<Rightarrow> json \<Rightarrow> string \<Rightarrow> validation_error option" where
  "validate_scalar ff sch typ v path =
     (if typ = ''string'' then (case v of JStr _ \<Rightarrow> None | _ \<Rightarrow> violation path ''expected string'')
      else if typ = ''integer'' then (case v of
          JNum f \<Rightarrow> if of_int \<lfloor>f\<rfloor> \<noteq> f then violation path ''expected integer, got fractional number''
            else checkBounds ff sch f path
        | _ \<Rightarrow> violation path ''expected integer'')
      else if typ = ''number'' then (case v of
          JNum f \<Rightarrow> checkBounds ff sch f path
        | _ \<Rightarrow> violation path ''expected number'')
      else if typ = ''boolean'' then (case v of JBool _ \<Rightarrow> None | _ \<Rightarrow> violation path ''expected boolean'')
      else None)"

fun validateValue :: "(rat \<Rightarrow> string) \<Rightarrow> jobject \<Rightarrow> json \<Rightarrow> string \<Rightarrow> validation_error option"
  and validateProps :: "(rat \<Rightarrow> string) \<Rightarrow> jobject \<Rightarrow> bool \<Rightarrow> (string \<times> json) list \<Rightarrow> string \<Rightarrow> validation_error option"
  and validateItems :: "(rat \<Rightarrow> string) \<Rightarrow> jobject \<Rightarrow> json list \<Rightarrow> nat \<Rightarrow> string \<Rightarrow> validation_error option" where
  "validateValue ff sch v path =
     (if \<not> enum_ok sch v then violation path ''value not permitted by enum''
      else (let typ = as_string (map_of sch ''type'') in
        if typ = ''object'' then (case v of
            JObj obj \<Rightarrow> (case missing_required sch obj of
                Some name \<Rightarrow> violation path (''missing required property '' @ strconv_quote name)
              | None \<Rightarrow> validateProps ff (properties sch) (allow_extra sch) obj path)
          | _ \<Rightarrow> violation path ''expected object'')
        else if typ = ''array'' then (case v of
            JArr arr \<Rightarrow> (case as_object (map_of sch ''items'') of
                Some items \<Rightarrow> validateItems ff items arr 0 path
              | None \<Rightarrow> None)
          | _ \<Rightarrow> violation path ''expected array'')
        else validate_scalar ff sch typ v path))"
| "validateProps ff props extra [] path = None"
| "validateProps ff props extra ((name, val) # obj) path =
     (case as_object (map_of props name) of
        None \<Rightarrow> if \<not> extra then violation (childPath path name) ''unexpected property''
          else validateProps ff props extra obj path
      | Some ps \<Rightarrow> (case validateValue ff ps val (childPath path name) of
            Some e \<Rightarrow> Some e
          | None \<Rightarrow> validateProps ff props extra obj path))"
| "validateItems ff items [] i path = None"
| "validateItems ff items (el # arr) i path =
     (case validateValue ff items el (item_path path i) of
        Some e \<Rightarrow> Some e
      | None \<Rightarrow> validateItems ff items arr (Suc i) path)"

declare validateValue.simps [simp del]

text \<open>
  \<open>Validate\<close>: \<open>toMap\<close> and \<open>toAny\<close> are \<open>json.Unmarshal\<close> into a map and into an interface value.
\<close>

definition Validate ::
  "(rat \<Rightarrow> string) \<Rightarrow> (string \<Rightarrow> goerr + jobject) \<Rightarrow> (string \<Rightarrow> goerr + json) \<Rightarrow> string \<Rightarrow> string \<Rightarrow> validation_error option" where
  "Validate ff toMap toAny schemaJSON data =
     (if length schemaJSON = 0 then violation [] ''empty schema''
      else (case toMap schemaJSON of
          Inl err \<Rightarrow> violation [] (''invalid schema: '' @ Error err)
        | Inr sch \<Rightarrow> (case toAny data of
            Inl err \<Rightarrow> violation [] (''invalid JSON: '' @ Error err)
          | Inr v \<Rightarrow> validateValue ff sch v ''$'')))"

section \<open>Conformance\<close>

text \<open>
  The subset of JSON Schema in declarative form: every keyword restricts the value on its own,
  and the keywords of objects, arrays and numbers apply where the type says so.
\<close>

definition bounds_ok :: "jobject \<Rightarrow> rat \<Rightarrow> bool" where
  "bounds_ok sch f \<longleftrightarrow> (\<forall>mn. map_of sch ''minimum'' = Some (JNum mn) \<longrightarrow> mn \<le> f) \<and>
     (\<forall>mx. map_of sch ''maximum'' = Some (JNum mx) \<longrightarrow> f \<le> mx)"

inductive conforms :: "jobject \<Rightarrow> json \<Rightarrow> bool" where
  conforms_object:
    "enum_ok sch (JObj obj) \<Longrightarrow> as_string (map_of sch ''type'') = ''object'' \<Longrightarrow>
     (\<And>req r. map_of sch ''required'' = Some (JArr req) \<Longrightarrow> r \<in> set req \<Longrightarrow> as_string (Some r) \<in> dom (map_of obj)) \<Longrightarrow>
     (\<And>name val ps. (name, val) \<in> set obj \<Longrightarrow> as_object (map_of (properties sch) name) = Some ps \<Longrightarrow> conforms ps val) \<Longrightarrow>
     (\<And>name val. (name, val) \<in> set obj \<Longrightarrow> as_object (map_of (properties sch) name) = None \<Longrightarrow> allow_extra sch) \<Longrightarrow>
     conforms sch (JObj obj)"
| conforms_array:
    "enum_ok sch (JArr arr) \<Longrightarrow> as_string (map_of sch ''type'') = ''array'' \<Longrightarrow>
     (\<And>items el. as_object (map_of sch ''items'') = Some items \<Longrightarrow> el \<in> set arr \<Longrightarrow> conforms items el) \<Longrightarrow>
     conforms sch (JArr arr)"
| conforms_string:
    "enum_ok sch (JStr s) \<Longrightarrow> as_string (map_of sch ''type'') = ''string'' \<Longrightarrow> conforms sch (JStr s)"
| conforms_integer:
    "enum_ok sch (JNum f) \<Longrightarrow> as_string (map_of sch ''type'') = ''integer'' \<Longrightarrow> f \<in> \<int> \<Longrightarrow> bounds_ok sch f \<Longrightarrow>
     conforms sch (JNum f)"
| conforms_number:
    "enum_ok sch (JNum f) \<Longrightarrow> as_string (map_of sch ''type'') = ''number'' \<Longrightarrow> bounds_ok sch f \<Longrightarrow>
     conforms sch (JNum f)"
| conforms_boolean:
    "enum_ok sch (JBool b) \<Longrightarrow> as_string (map_of sch ''type'') = ''boolean'' \<Longrightarrow> conforms sch (JBool b)"
| conforms_any:
    "enum_ok sch v \<Longrightarrow>
     as_string (map_of sch ''type'') \<notin> {''object'', ''array'', ''string'', ''integer'', ''number'', ''boolean''} \<Longrightarrow>
     conforms sch v"

lemma violation_None [simp]: "violation path msg \<noteq> None" "(violation path msg = None) = False"
  by (simp_all add: violation_def)

lemma checkBounds_ok: "checkBounds ff sch f path = None \<longleftrightarrow> bounds_ok sch f"
  by (auto simp: checkBounds_def bounds_ok_def as_float_def split: option.splits json.splits)

lemma missing_required_None:
  "missing_required sch obj = None \<longleftrightarrow>
     (\<forall>req r. map_of sch ''required'' = Some (JArr req) \<longrightarrow> r \<in> set req \<longrightarrow> as_string (Some r) \<in> dom (map_of obj))"
  by (auto simp: missing_required_def as_array_def find_None_iff dom_def split: option.splits json.splits)

abbreviation type_of_schema :: "jobject \<Rightarrow> string" where
  "type_of_schema sch \<equiv> as_string (map_of sch ''type'')"

lemma validate_scalar_ok:
  assumes "type_of_schema sch = typ" "typ \<noteq> ''object''" "typ \<noteq> ''array''" "enum_ok sch v"
  shows "validate_scalar ff sch typ v path = None \<longleftrightarrow> conforms sch v"
  using assms
  by (auto simp: validate_scalar_def conforms.simps [of sch v] checkBounds_ok Ints_def split: json.splits)

lemma conforms_object_iff:
  assumes "type_of_schema sch = ''object''"
  shows "conforms sch (JObj obj) \<longleftrightarrow> enum_ok sch (JObj obj) \<and> missing_required sch obj = None \<and>
     (\<forall>(name, val)\<in>set obj. case as_object (map_of (properties sch) name) of
        Some ps \<Rightarrow> conforms ps val | None \<Rightarrow> allow_extra sch)"
  using assms
  by (auto simp: conforms.simps [of sch "JObj obj"] missing_required_None split: option.splits)

lemma conforms_array_iff:
  assumes "type_of_schema sch = ''array''"
  shows "conforms sch (JArr arr) \<longleftrightarrow> enum_ok sch (JArr arr) \<and>
     (case as_object (map_of sch ''items'') of Some items \<Rightarrow> \<forall>el\<in>set arr. conforms items el | None \<Rightarrow> True)"
  using assms
  by (auto simp: conforms.simps [of sch "JArr arr"] split: option.splits)

lemma validate_conforms:
  "validateValue ff sch v path = None \<longleftrightarrow> conforms sch v"
  "validateProps ff props extra obj path = None \<longleftrightarrow>
     (\<forall>(name, val)\<in>set obj. case as_object (map_of props name) of Some ps \<Rightarrow> conforms ps val | None \<Rightarrow> extra)"
  "validateItems ff items arr i path = None \<longleftrightarrow> (\<forall>el\<in>set arr. conforms items el)"
proof (induction ff sch v path and ff props extra obj path and ff items arr i path
    rule: validateValue_validateProps_validateItems.induct)
  case (1 ff sch v path)
  note ih = 1
  let ?t = "type_of_schema sch"
  show ?case
  proof (cases "enum_ok sch v")
    case False
    then show ?thesis by (auto simp: validateValue.simps [of ff sch v] elim: conforms.cases)
  next
    case e: True
    consider "?t = ''object''" | "?t = ''array''" | "?t \<noteq> ''object''" "?t \<noteq> ''array''" by blast
    then show ?thesis
    proof cases
      case 1
      show ?thesis
      proof (cases v)
        case (JObj obj)
        then show ?thesis
          using e 1 ih(1) [of ?t obj]
          by (cases "missing_required sch obj") (simp_all add: validateValue.simps [of ff sch "JObj obj"] conforms_object_iff)
      qed (use 1 e in \<open>simp_all add: validateValue.simps [of ff sch] conforms.simps [of sch]\<close>)
    next
      case 2
      show ?thesis
      proof (cases v)
        case (JArr arr)
        then show ?thesis
          using e 2 ih(2) [of ?t arr]
          by (cases "as_object (map_of sch ''items'')")
            (simp_all add: validateValue.simps [of ff sch "JArr arr"] conforms_array_iff)
      qed (use 2 e in \<open>simp_all add: validateValue.simps [of ff sch] conforms.simps [of sch]\<close>)
    next
      case 3
      then show ?thesis using e validate_scalar_ok [OF refl 3 e] by (simp add: validateValue.simps [of ff sch v] Let_def)
    qed
  qed
next
  case (3 ff props extra name val obj path)
  then show ?case
    by (cases "as_object (map_of props name)"; cases extra; cases "validateValue ff (the (as_object (map_of props name))) val (childPath path name)")
      simp_all
qed (auto split: option.splits)

end
