(* ===== verification/Schema_Props.thy ===== *)
theory Schema_Props
  imports Schema_Validate
begin

text \<open>
  Validation is conformance; when the derivation of a schema comes to an end and when it does
  not; and what a schema derived for a map type lets through.
\<close>

section \<open>Validation\<close>

text \<open>
  C34: \<open>Validate\<close> accepts a document exactly when the schema is present and decodes, the document
  decodes, and the value conforms to the schema in the declarative sense: every constraint of the
  schema holds at every place of the value, in whatever order the code visits them.
\<close>

theorem Validate_iff_conforms:
  "Validate ff toMap toAny schemaJSON data = None \<longleftrightarrow>
     schemaJSON \<noteq> [] \<and> (\<exists>sch v. toMap schemaJSON = Inr sch \<and> toAny data = Inr v \<and> conforms sch v)"
  by (auto simp: Validate_def validate_conforms split: sum.splits)

section \<open>Fuel\<close>

lemma res_bind_mono:
  assumes "res_bind m f = Some r" "\<And>x. m = Some x \<Longrightarrow> m' = Some x" "\<And>v r. f v = Some r \<Longrightarrow> f' v = Some r"
  shows "res_bind m' f' = Some r"
proof (cases m)
  case (Some x)
  then show ?thesis using assms by (cases x) simp_all
qed (use assms in simp)

lemma deref_mono: "deref T n t = Some d \<Longrightarrow> n \<le> m \<Longrightarrow> deref T m t = Some d"
proof (induction n arbitrary: t m)
  case (Suc n)
  then obtain m' where "m = Suc m'" "n \<le> m'" by (cases m) auto
  with Suc show ?case by (auto split: tdesc.splits)
qed simp

lemma embedded_mono: "embedded T n f = Some x \<Longrightarrow> n \<le> m \<Longrightarrow> embedded T m f = Some x"
  by (auto simp: embedded_def dest: deref_mono split: if_splits option.splits)

lemma build_list_mono:
  "build_list T b t tag depth = Some r \<Longrightarrow> (\<And>e ft d x. b e ft d = Some x \<Longrightarrow> b' e ft d = Some x) \<Longrightarrow>
    build_list T b' t tag depth = Some r"
  by (auto simp: build_list_def intro: res_bind_mono split: if_splits)

lemma build_kind_mono:
  assumes "build_kind T b s t tag depth = Some r"
    and b: "\<And>e ft d x. b e ft d = Some x \<Longrightarrow> b' e ft d = Some x" and s: "\<And>fs d x. s fs d = Some x \<Longrightarrow> s' fs d = Some x"
  shows "build_kind T b' s' t tag depth = Some r"
proof (cases "gtDesc T t")
  case (KStruct fs)
  then show ?thesis using assms(1) by (auto simp: build_kind_def intro: res_bind_mono s)
next
  case (KSlice e)
  then show ?thesis using assms(1) by (auto simp: build_kind_def intro: build_list_mono b)
next
  case (KArray e)
  then show ?thesis using assms(1) by (auto simp: build_kind_def intro: build_list_mono b)
next
  case (KMap k e)
  then show ?thesis using assms(1) by (auto simp: build_kind_def intro: res_bind_mono b split: if_splits)
qed (use assms(1) in \<open>simp_all add: build_kind_def\<close>)

lemma wrap_field_mono: "wrap_field f m = Some x \<Longrightarrow> (\<And>y. m = Some y \<Longrightarrow> m' = Some y) \<Longrightarrow> wrap_field f m' = Some x"
  by (cases m) (auto simp: wrap_field_def)

lemma build_field_mono:
  assumes "build_field T n b s f depth p = Some r" "n \<le> m"
    and b: "\<And>e ft d x. b e ft d = Some x \<Longrightarrow> b' e ft d = Some x" and s: "\<And>fs d x. s fs d = Some x \<Longrightarrow> s' fs d = Some x"
  shows "build_field T m b' s' f depth p = Some r"
proof (cases "embedded T n f")
  case None
  then show ?thesis using assms(1) by (auto simp: build_field_def split: prod.splits if_splits)
next
  case (Some x)
  note e = embedded_mono [OF Some assms(2)]
  show ?thesis
    using assms(1) Some e
    by (cases x) (auto simp: build_field_def Let_def intro: res_bind_mono [OF _ s] res_bind_mono [OF _ wrap_field_mono] b
        split: prod.splits if_splits)
qed

lemma build_mono_Suc:
  "(\<forall>t tag depth r. build T n t tag depth = Some r \<longrightarrow> build T (Suc n) t tag depth = Some r) \<and>
   (\<forall>fs depth r. buildStruct T n fs depth = Some r \<longrightarrow> buildStruct T (Suc n) fs depth = Some r) \<and>
   (\<forall>fs depth p r. buildFields T n fs depth p = Some r \<longrightarrow> buildFields T (Suc n) fs depth p = Some r)"
proof (induction n)
  case (Suc n)
  have "build T (Suc (Suc n)) t tag depth = Some r" if "build T (Suc n) t tag depth = Some r" for t tag depth r
  proof (cases "deref T (Suc n) t")
    case None
    then show ?thesis using that by (simp split: if_splits)
  next
    case (Some d)
    then have "deref T (Suc (Suc n)) t = Some d" by (rule deref_mono) simp
    moreover have "build_kind T (\<lambda>e ft d. build T (Suc n) e ft d) (\<lambda>fs d. buildStruct T (Suc n) fs d) d tag depth = Some x"
      if "build_kind T (\<lambda>e ft d. build T n e ft d) (\<lambda>fs d. buildStruct T n fs d) d tag depth = Some x" for x
      by (rule build_kind_mono [OF that]) (use Suc in blast)+
    ultimately show ?thesis
      using that Some unfolding build.simps(2) by (simp del: deref.simps build.simps buildStruct.simps split: if_splits)
  qed
  moreover have "buildStruct T (Suc (Suc n)) fs depth = Some r" if "buildStruct T (Suc n) fs depth = Some r" for fs depth r
    using that Suc by simp
  moreover have "buildFields T (Suc (Suc n)) fs depth p = Some r" if "buildFields T (Suc n) fs depth p = Some r"
    for fs depth p r
  proof (cases fs)
    case (Cons f fs')
    show ?thesis
      using that Suc unfolding Cons buildFields.simps
      by (auto intro!: res_bind_mono [OF _ build_field_mono])
  qed (use that in simp)
  ultimately show ?case by blast
qed simp

lemma build_mono:
  assumes "n \<le> m"
  shows "build T n t tag depth = Some r \<Longrightarrow> build T m t tag depth = Some r"
    and "buildStruct T n fs depth = Some q \<Longrightarrow> buildStruct T m fs depth = Some q"
    and "buildFields T n fs depth p = Some q \<Longrightarrow> buildFields T m fs depth p = Some q"
  using assms
proof (induction m rule: dec_induct)
  case (step m)
  { case 1 then show ?case using step build_mono_Suc [of T m] by blast }
  { case 2 then show ?case using step build_mono_Suc [of T m] by blast }
  { case 3 then show ?case using step build_mono_Suc [of T m] by blast }
qed simp_all

section \<open>When a schema is derived\<close>

text \<open>
  Types in which chains of pointers and of embedded fields come to an end; types may be recursive
  through named fields, slices and maps.
\<close>

definition ranked :: "gotypes \<Rightarrow> (nat \<Rightarrow> nat) \<Rightarrow> bool" where
  "ranked T rk \<longleftrightarrow> (\<forall>t e. gtDesc T t = KPointer e \<longrightarrow> rk e < rk t) \<and>
     (\<forall>t fs. gtDesc T t = KStruct fs \<longrightarrow> (\<forall>f\<in>set fs. fdAnonymous f \<longrightarrow> rk (fdType f) < rk t))"

lemma deref_returns:
  assumes "ranked T rk"
  shows "\<exists>n d. deref T n t = Some d \<and> rk d \<le> rk t \<and> (\<forall>e. gtDesc T d \<noteq> KPointer e)"
proof (induction "rk t" arbitrary: t rule: less_induct)
  case less
  show ?case
  proof (cases "\<exists>e. gtDesc T t = KPointer e")
    case True
    then obtain e where e: "gtDesc T t = KPointer e" ..
    then have lt: "rk e < rk t" using assms by (simp add: ranked_def)
    then obtain n d where "deref T n e = Some d" "rk d \<le> rk e" "\<forall>e. gtDesc T d \<noteq> KPointer e" using less by blast
    then show ?thesis using e lt by (intro exI [of _ "Suc n"] exI [of _ d]) auto
  next
    case False
    then have "deref T 1 t = Some t" by (auto split: tdesc.splits)
    then show ?thesis using False by blast
  qed
qed

lemma deref_rank: "ranked T rk \<Longrightarrow> deref T n t = Some d \<Longrightarrow> rk d \<le> rk t \<and> (\<forall>e. gtDesc T d \<noteq> KPointer e)"
  using deref_returns [of T rk t] deref_mono [of T n t d] deref_mono by (metis nle_le option.inject)

lemma buildFields_returns:
  assumes b: "\<And>t tag. \<exists>n. build T n t tag (Suc depth) \<noteq> None"
    and e: "\<And>f. f \<in> set fs \<Longrightarrow> \<exists>n x. embedded T n f = Some x"
    and s: "\<And>f n sub. f \<in> set fs \<Longrightarrow> embedded T n f = Some (Some sub) \<Longrightarrow> \<exists>k. buildStruct T k sub (Suc depth) \<noteq> None"
  shows "\<exists>n. buildFields T n fs depth p \<noteq> None"
  using e s
proof (induction fs arbitrary: p)
  case Nil
  show ?case by (intro exI [of _ 1]) simp
next
  case (Cons f fs)
  obtain n0 x where x: "embedded T n0 f = Some x" using Cons.prems(1) [of f] by (auto simp del: split_paired_Ex)
  obtain n1 where n1: "build T n1 (fdType f) (parseFieldTag T f) (Suc depth) \<noteq> None" using b by blast
  obtain n2 where n2: "\<And>sub. x = Some sub \<Longrightarrow> buildStruct T n2 sub (Suc depth) \<noteq> None"
    using Cons.prems(2) [of f n0] x by (cases x) auto
  define n where "n = max n0 (max n1 n2)"
  have "embedded T (Suc n) f = Some x" using embedded_mono [OF x, of "Suc n"] by (simp add: n_def)
  moreover obtain y where "build T n (fdType f) (parseFieldTag T f) (Suc depth) = Some y"
    using n1 build_mono(1) [of n1 n] by (auto simp: n_def)
  moreover have "\<exists>q. buildStruct T n sub (Suc depth) = Some q" if "x = Some sub" for sub
    using n2 [OF that] build_mono(2) [of n2 n] by (auto simp: n_def)
  ultimately have bf: "build_field T (Suc n) (\<lambda>e ft d. build T n e ft d) (\<lambda>sub d. buildStruct T n sub d) f depth p \<noteq> None"
    by (cases x; cases y) (auto simp: build_field_def Let_def wrap_field_def res_bind_def split: prod.splits sum.splits)
  then obtain z where z: "build_field T (Suc n) (\<lambda>e ft d. build T n e ft d) (\<lambda>sub d. buildStruct T n sub d) f depth p = Some z"
    by blast
  show ?case
  proof (cases z)
    case (Inl err)
    then show ?thesis using z by (intro exI [of _ "Suc n"]) simp
  next
    case (Inr q)
    obtain k r where k: "buildFields T k fs depth q = Some r" using Cons.IH [of q] Cons.prems by (metis list.set_intros(2) option.exhaust)
    have "build_field T (Suc (max n k)) (\<lambda>e ft d. build T (max n k) e ft d) (\<lambda>sub d. buildStruct T (max n k) sub d) f depth p
        = Some (Inr q)"
      using z Inr by (auto intro!: build_field_mono [OF z [unfolded Inr]] build_mono(1,2) [of n "max n k"])
    then show ?thesis using build_mono(3) [OF _ k, of "max n k"] by (intro exI [of _ "Suc (max n k)"]) simp
  qed
qed

lemma embedded_returns:
  assumes "ranked T rk"
  shows "\<exists>n x. embedded T n f = Some x"
proof -
  obtain n d where "deref T n (fdType f) = Some d" using deref_returns [OF assms] by blast
  then have "embedded T n f \<noteq> None" by (simp add: embedded_def)
  then show ?thesis by blast
qed

lemma buildStruct_returns:
  assumes T: "ranked T rk" and b: "\<And>d t tag. depth < d \<Longrightarrow> \<exists>n. build T n t tag d \<noteq> None"
    and r: "\<forall>f\<in>set fs. fdAnonymous f \<longrightarrow> rk (fdType f) < r"
  shows "\<exists>n. buildStruct T n fs depth \<noteq> None"
  using b r
proof (induction r arbitrary: fs depth rule: less_induct)
  case (less r)
  have "\<exists>k. buildStruct T k sub (Suc depth) \<noteq> None" if f: "f \<in> set fs" and e: "embedded T n f = Some (Some sub)" for f n sub
  proof -
    obtain d where d: "fdAnonymous f" "deref T n (fdType f) = Some d" "gtDesc T d = KStruct sub \<or> sub = []"
      using e by (auto simp: embedded_def split: if_splits option.splits tdesc.splits)
    have "rk d < r" using deref_rank [OF T d(2)] less.prems(2) f d(1) by fastforce
    moreover have "\<forall>g\<in>set sub. fdAnonymous g \<longrightarrow> rk (fdType g) < rk d" using T d(3) by (auto simp: ranked_def)
    ultimately show ?thesis using less.IH [of "rk d" "Suc depth" sub] less.prems(1) by auto
  qed
  then obtain n where "buildFields T n fs depth ([], []) \<noteq> None"
    using buildFields_returns [of T depth fs] less.prems(1) embedded_returns [OF T] by blast
  then show ?case by (intro exI [of _ "Suc n"]) simp
qed

lemma build_list_returns:
  assumes "\<And>t tag. \<exists>n. build T n t tag (Suc depth) \<noteq> None"
  shows "\<exists>n. build_list T (\<lambda>e ft d. build T n e ft d) e tag depth \<noteq> None"
proof -
  obtain n where "build T n e fieldTag_zero (Suc depth) \<noteq> None" using assms by blast
  then show ?thesis by (intro exI [of _ n]) (auto simp: build_list_def res_bind_def split: sum.splits)
qed

lemma build_returns:
  assumes T: "ranked T rk"
  shows "\<exists>n. build T n t tag depth \<noteq> None"
proof (induction "33 - depth" arbitrary: depth t tag rule: less_induct)
  case less
  show ?case
  proof (cases "depth > maxDepth")
    case True
    then show ?thesis by (intro exI [of _ 1]) simp
  next
    case False
    then have b: "\<exists>n. build T n t tag d \<noteq> None" if "depth < d" for d t tag
      using less [of d] that by fastforce
    obtain n0 d where d: "deref T n0 t = Some d" and np: "\<forall>e. gtDesc T d \<noteq> KPointer e"
      using deref_returns [OF T] by blast
    have "\<exists>n. build_kind T (\<lambda>e ft d. build T n e ft d) (\<lambda>fs d. buildStruct T n fs d) d tag depth \<noteq> None"
    proof (cases "gtDesc T d")
      case (KArray e)
      then show ?thesis using build_list_returns [OF b [OF lessI]] by (simp add: build_kind_def)
    next
      case (KStruct fs)
      then have "\<forall>f\<in>set fs. fdAnonymous f \<longrightarrow> rk (fdType f) < rk d" using T by (simp add: ranked_def)
      then obtain n where "buildStruct T n fs depth \<noteq> None" using buildStruct_returns [OF T b] by blast
      then show ?thesis using KStruct by (intro exI [of _ n]) (auto simp: build_kind_def res_bind_def split: sum.splits)
    next
      case (KSlice e)
      then show ?thesis using build_list_returns [OF b [OF lessI]] by (simp add: build_kind_def)
    next
      case (KMap k e)
      obtain n where "build T n e fieldTag_zero (Suc depth) \<noteq> None" using b [OF lessI] by blast
      then show ?thesis using KMap by (intro exI [of _ n]) (auto simp: build_kind_def res_bind_def split: sum.splits)
    qed (use np in \<open>simp_all add: build_kind_def\<close>)
    then obtain n r where n: "build_kind T (\<lambda>e ft d. build T n e ft d) (\<lambda>fs d. buildStruct T n fs d) d tag depth = Some r"
      by blast
    let ?m = "max n0 n"
    have "build_kind T (\<lambda>e ft d. build T ?m e ft d) (\<lambda>fs d. buildStruct T ?m fs d) d tag depth = Some r"
      by (rule build_kind_mono [OF n]) (auto intro: build_mono(1,2) [of n ?m])
    moreover have "deref T (Suc ?m) t = Some d" by (rule deref_mono [OF d]) simp
    ultimately show ?thesis using False by (intro exI [of _ "Suc ?m"]) (simp del: deref.simps)
  qed
qed

text \<open>
  C35: The derivation of a schema comes to an end, with a schema or an error, for every type in which
  chains of pointers and of embedded structs end, however recursive the type is otherwise: from
  some amount of fuel on the result is always the same.
\<close>

theorem schema_derivation_returns:
  assumes "ranked T rk"
  shows "\<exists>n r. \<forall>m\<ge>n. build T m t tag depth = Some r"
proof -
  obtain n r where "build T n t tag depth = Some r" using build_returns [OF assms, of t tag depth] by blast
  then show ?thesis using build_mono(1) by blast
qed

text \<open>A type that is recursive through a pointer: \<open>type Node struct { Next *Node }\<close>.\<close>

definition field :: "string \<Rightarrow> nat \<Rightarrow> bool \<Rightarrow> gofield" where
  "field name t anonymous = \<lparr>fdName = name, fdType = t, fdExported = True, fdAnonymous = anonymous,
     fdJSON = [], fdSchema = [], fdDesc = []\<rparr>"

definition node_types :: gotypes where
  "node_types = \<lparr>gtDesc = (\<lambda>t. if t = 0 then KStruct [field ''Next'' 1 False] else if t = 1 then KPointer 0 else KBool),
     gtString = (\<lambda>t. ''Node''), gtParseFloat = (\<lambda>s. None)\<rparr>"

theorem schema_derivation_returns_witness:
  "\<exists>n r. \<forall>m\<ge>n. build node_types m 0 fieldTag_zero 0 = Some r"
proof -
  have "ranked node_types (\<lambda>t. t)" by (auto simp: ranked_def node_types_def field_def split: if_splits)
  then show ?thesis by (rule schema_derivation_returns)
qed

text \<open>A struct that embeds a pointer to itself, which Go allows: \<open>type A struct { *A }\<close>.\<close>

definition self_embedding :: gotypes where
  "self_embedding = \<lparr>gtDesc = (\<lambda>t. if t = 0 then KStruct [field ''A'' 1 True] else if t = 1 then KPointer 0 else KBool),
     gtString = (\<lambda>t. ''A''), gtParseFloat = (\<lambda>s. None)\<rparr>"

text \<open>
  The nesting depth is checked by \<open>build\<close> but not by \<open>buildStruct\<close>, which calls itself for an
  embedded struct: on a struct that embeds a pointer to itself the derivation never returns,
  with any amount of fuel, where the guard promises an error (\<open>build\<close> only fails at once when the
  struct is already met beyond the limit).
\<close>

theorem embedded_recursion_never_returns:
  "build self_embedding n 0 tag depth = None \<or> 32 < depth"
proof -
  let ?fs = "[field ''A'' 1 True]"
  have e: "embedded self_embedding k (field ''A'' 1 True) \<in> {None, Some (Some ?fs)}" for k
  proof (cases k)
    case (Suc k')
    then show ?thesis by (cases k') (simp_all add: embedded_def self_embedding_def field_def)
  qed (simp add: embedded_def field_def)
  have s: "buildStruct self_embedding k ?fs d = None \<and> buildFields self_embedding k ?fs d p = None" for k d p
  proof (induction k arbitrary: d p)
    case (Suc k)
    have "jsonName (field ''A'' 1 True) = (''A'', [])" "fdExported (field ''A'' 1 True)"
      by (simp_all add: jsonName_def field_def)
    then have "build_field self_embedding (Suc k) b (\<lambda>sub d. buildStruct self_embedding k sub d) (field ''A'' 1 True) d p = None" for b
      using e [of "Suc k"] Suc by (auto simp: build_field_def)
    then show ?case using Suc by simp
  qed simp
  show ?thesis
  proof (cases n)
    case (Suc k)
    have "gtDesc self_embedding 0 = KStruct ?fs" by (simp add: self_embedding_def)
    then show ?thesis using Suc s by (simp add: build_kind_def)
  qed simp
qed

section \<open>Values of maps\<close>

text \<open>\<open>map[string]int\<close>: type 0 with the key type 1 and the element type 2.\<close>

definition map_types :: gotypes where
  "map_types = \<lparr>gtDesc = (\<lambda>t. if t = 0 then KMap 1 2 else if t = 1 then KString else KInt),
     gtString = (\<lambda>t. []), gtParseFloat = (\<lambda>s. None)\<rparr>"

text \<open>
  Validation does not look at the values of a map. The schema derived for a map from strings to
  integers demands integers in \<open>additionalProperties\<close>, but \<open>validateValue\<close> reads this keyword only
  when it is a boolean: every object, whatever its values, is accepted.
\<close>

theorem map_values_are_not_validated:
  "\<exists>sch. build map_types 5 0 fieldTag_zero 0 = Some (Inr sch) \<and>
     map_of sch ''additionalProperties'' = Some (JObj (type_is ''integer'')) \<and>
     (\<forall>obj. validateValue ff sch (JObj obj) path = None)"
proof -
  let ?sch = "[(''type'', JStr ''object''), (''additionalProperties'', JObj (type_is ''integer''))]"
  have "build map_types 5 0 fieldTag_zero 0 = Some (Inr ?sch)"
    by (simp add: numeral_eq_Suc map_types_def build_kind_def applyTag_def fieldTag_zero_def Let_def)
  moreover have "validateValue ff ?sch (JObj obj) path = None" for obj
  proof -
    have "conforms ?sch (JObj obj)"
      by (rule conforms_object) (simp_all add: enum_ok_def as_array_def as_string_def properties_def as_object_def
          allow_extra_def as_bool_def)
    then show ?thesis by (simp add: validate_conforms)
  qed
  ultimately show ?thesis by (intro exI [of _ ?sch]) simp
qed

end
