(* ===== verification/Go_Bufio.thy ===== *)
theory Go_Bufio
  imports Core_Types
begin

text \<open>
  \<open>bufio.Scanner\<close> with \<open>ScanLines\<close> over an input that is read to its end. \<open>scan_lines m s e\<close> are the
  lines of \<open>s\<close> without their ends and what \<open>Err\<close> returns after them, where \<open>m\<close> is the size of the
  buffer and \<open>e\<close> the error, if any, that ended the input. A line that does not fit into the buffer
  stops the scanner; when the input breaks off, the line before the break is still delivered.
\<close>

definition drop_cr :: "string \<Rightarrow> string" where
  "drop_cr s = (if s \<noteq> [] \<and> last s = CHR 0x0D then butlast s else s)"

definition scan_lines :: "nat \<Rightarrow> string \<Rightarrow> goerr option \<Rightarrow> string list \<times> goerr option" where
  "scan_lines m s readErr =
     (let parts = strings_split newline s;
          parts = (if last parts = [] then butlast parts else parts);
          ok = takeWhile (\<lambda>l. length l < m) parts
      in (map drop_cr ok, if length ok < length parts then Some (ErrText ''bufio.Scanner: token too long'') else readErr))"

end
