(* ===== verification/Dotenv.thy ===== *)
theory Dotenv
  imports Go_Bufio Go_Utf8 "HOL-Library.AList" "HOL-Library.Multiset"
begin

text \<open>
  \<open>dotenv/dotenv.go\<close>: reading \<open>KEY=VALUE\<close> lines and adding them to the environment of the process.
  The environment is a map; the map of parsed variables is an association list; a directory is its
  list of path components from the root (\<open>os.Getwd\<close> returns an absolute path).
\<close>

section \<open>Parsing\<close>

definition validKey :: "string \<Rightarrow> bool" where
  "validKey k = (k \<noteq> [] \<and>
     (let rs = runes k; letter = (\<lambda>r. 65 \<le> r \<and> r \<le> 90 \<or> 97 \<le> r \<and> r \<le> 122 \<or> r = 95)
      in letter (hd rs) \<and> list_all (\<lambda>r. letter r \<or> 48 \<le> r \<and> r \<le> 57) (tl rs)))"

text \<open>\<open>strings.NewReplacer\<close> with the five escapes.\<close>

fun unescape :: "string \<Rightarrow> string" where
  "unescape (a # c # s) =
     (if a = backslash \<and> c = CHR ''n'' then CHR 0x0A # unescape s
      else if a = backslash \<and> c = CHR ''r'' then CHR 0x0D # unescape s
      else if a = backslash \<and> c = CHR ''t'' then CHR 0x09 # unescape s
      else if a = backslash \<and> (c = quote_char \<or> c = backslash) then c # unescape s
      else a # unescape (c # s))"
| "unescape s = s"

definition unquote :: "string \<Rightarrow> string" where
  "unquote v =
     (if length v \<ge> 2 \<and> hd v = quote_char \<and> last v = quote_char then unescape (butlast (tl v))
      else if length v \<ge> 2 \<and> hd v = CHR 0x27 \<and> last v = CHR 0x27 then butlast (tl v)
      else v)"

definition trim_right :: "char \<Rightarrow> string \<Rightarrow> string" where
  "trim_right c s = rev (dropWhile (\<lambda>x. x = c) (rev s))"

definition trim_prefix :: "string \<Rightarrow> string \<Rightarrow> string" where
  "trim_prefix p s = (if has_prefix s p then drop (length p) s else s)"

text \<open>One iteration of the loop: the entry of a line, if it has one.\<close>

definition parse_line :: "string \<Rightarrow> (string \<times> string) option" where
  "parse_line text = (let line = trim_space (trim_right (CHR 0x0D) text) in
     if line = [] \<or> has_prefix line ''#'' then None
     else (let line = trim_prefix ''export '' line in
       case strings_split2 (CHR ''='') line of
         (_, None) \<Rightarrow> None
       | (k, Some v) \<Rightarrow>
           if k = [] then None
           else (let key = trim_space k in
             if \<not> validKey key then None else Some (key, unquote (trim_space v)))))"

text \<open>
  The scanner has a buffer of at most 1 MB. A reader is the bytes it gives and the error that ends them, \<open>None\<close>
  at the end of the file.
\<close>

type_synonym reader = "string \<times> goerr option"

definition max_line :: nat where "max_line = 2 ^ 20"

definition Parse :: "reader \<Rightarrow> (string \<times> string) list \<times> goerr option" where
  "Parse r = (case scan_lines max_line (fst r) (snd r) of (ls, err) \<Rightarrow>
     (foldl (\<lambda>out l. case parse_line l of None \<Rightarrow> out | Some (k, v) \<Rightarrow> AList.update k v out) [] ls, err))"

section \<open>Loading\<close>

text \<open>\<open>os.Setenv\<close> fails, and the failure is ignored, on a value with a zero byte.\<close>

definition Setenv :: "string \<Rightarrow> string \<Rightarrow> (string \<rightharpoonup> string) \<Rightarrow> (string \<rightharpoonup> string)" where
  "Setenv k v env = (if CHR 0x00 \<in> set v then env else env(k \<mapsto> v))"

fun apply_vars :: "(string \<times> string) list \<Rightarrow> (string \<rightharpoonup> string) \<Rightarrow> (string \<rightharpoonup> string)" where
  "apply_vars [] env = env"
| "apply_vars ((k, v) # vars) env = apply_vars vars (if env k = None then Setenv k v env else env)"

text \<open>
  The files: \<open>Inl\<close> the error of \<open>os.Open\<close>, otherwise what reading gives; a directory opens and fails to
  read. \<open>iter\<close> is the order of the range over the parsed map.
\<close>

definition LoadFile ::
  "(string \<Rightarrow> goerr + reader) \<Rightarrow> ((string \<times> string) list \<Rightarrow> (string \<times> string) list) \<Rightarrow> string \<Rightarrow> (string \<rightharpoonup> string) \<Rightarrow>
     goerr option \<times> (string \<rightharpoonup> string)" where
  "LoadFile open_file iter path env = (case open_file path of
       Inl err \<Rightarrow> (Some err, env)
     | Inr f \<Rightarrow> (case Parse f of
           (_, Some err) \<Rightarrow> (Some (ErrWrap (''dotenv '' @ path @ '': '') err), env)
         | (vars, None) \<Rightarrow> (None, apply_vars (iter vars) env)))"

definition dir_path :: "string list \<Rightarrow> string \<Rightarrow> string" where
  "dir_path dir name = concat (map (\<lambda>c. ''/'' @ c) (dir @ [name]))"

text \<open>\<open>stat p\<close> is \<open>None\<close> when \<open>os.Stat\<close> fails, \<open>Some d\<close> with \<open>IsDir\<close> otherwise.\<close>

function find_from :: "(string \<Rightarrow> bool option) \<Rightarrow> string list \<Rightarrow> string" where
  "find_from stat dir =
     (if stat (dir_path dir ''.env'') = Some False then dir_path dir ''.env''
      else if stat (dir_path dir ''.git'') \<noteq> None then []
      else if dir = [] then []
      else find_from stat (butlast dir))"
  by pat_completeness auto
termination
  by (relation "measure (\<lambda>(stat, dir). length dir)") auto

declare find_from.simps [simp del]

definition find_env :: "(string \<Rightarrow> bool option) \<Rightarrow> string list option \<Rightarrow> string" where
  "find_env stat cwd = (case cwd of None \<Rightarrow> [] | Some dir \<Rightarrow> find_from stat dir)"

fun load_first ::
  "(string \<Rightarrow> bool option) \<Rightarrow> (string \<Rightarrow> goerr + reader) \<Rightarrow> ((string \<times> string) list \<Rightarrow> (string \<times> string) list) \<Rightarrow> string list \<Rightarrow>
     (string \<rightharpoonup> string) \<Rightarrow> (goerr + string) \<times> (string \<rightharpoonup> string)" where
  "load_first stat open_file iter [] env = (Inr [], env)"
| "load_first stat open_file iter (p # paths) env =
     (if p = [] \<or> stat p = None then load_first stat open_file iter paths env
      else (case LoadFile open_file iter p env of
          (Some err, env) \<Rightarrow> (Inl err, env)
        | (None, env) \<Rightarrow> (Inr p, env)))"

definition Load ::
  "(string \<Rightarrow> bool option) \<Rightarrow> string list option \<Rightarrow> (string \<Rightarrow> goerr + reader) \<Rightarrow> ((string \<times> string) list \<Rightarrow> (string \<times> string) list) \<Rightarrow>
     string list \<Rightarrow> (string \<rightharpoonup> string) \<Rightarrow> (goerr + string) \<times> (string \<rightharpoonup> string)" where
  "Load stat cwd open_file iter paths env =
     (let paths = (if paths = [] then (let p = find_env stat cwd in if p \<noteq> [] then [p] else paths) else paths)
      in load_first stat open_file iter paths env)"

section \<open>The environment wins\<close>

text \<open>The variables that are set stay; those of the file are added where they can be.\<close>

definition merged :: "(string \<rightharpoonup> string) \<Rightarrow> (string \<rightharpoonup> string) \<Rightarrow> (string \<rightharpoonup> string)" where
  "merged env vars k = (case env k of
       Some v \<Rightarrow> Some v
     | None \<Rightarrow> (case vars k of Some v \<Rightarrow> if CHR 0x00 \<in> set v then None else Some v | None \<Rightarrow> None))"

lemma apply_vars_merged: "distinct (map fst vars) \<Longrightarrow> apply_vars vars env = merged env (map_of vars)"
proof (induction vars env rule: apply_vars.induct)
  case (2 k v vars env)
  have n: "map_of vars k = None" using 2(2) by (simp add: map_of_eq_None_iff)
  show ?case
  proof
    fix x
    show "apply_vars ((k, v) # vars) env x = merged env (map_of ((k, v) # vars)) x"
      using 2 n by (cases "x = k") (auto simp: merged_def Setenv_def split: option.splits)
  qed
qed (simp add: merged_def fun_eq_iff split: option.splits)

lemma Parse_distinct: "distinct (map fst (fst (Parse b)))"
proof -
  have "distinct (map fst out) \<Longrightarrow> distinct (map fst (foldl (\<lambda>out l. case parse_line l of None \<Rightarrow> out
      | Some (k, v) \<Rightarrow> AList.update k v out) out ls))" for out ls
    by (induction ls arbitrary: out) (auto simp: distinct_update split: option.splits)
  then show ?thesis by (auto simp: Parse_def split: prod.splits)
qed

lemma Parse_reads: "Parse (b, e) = (vars, None) \<Longrightarrow> e = None"
  by (auto simp: Parse_def scan_lines_def Let_def split: if_splits)

text \<open>The order of a range over the parsed map does not matter.\<close>

definition permutes_entries :: "((string \<times> string) list \<Rightarrow> (string \<times> string) list) \<Rightarrow> bool" where
  "permutes_entries iter \<longleftrightarrow> (\<forall>vs. mset (iter vs) = mset vs)"

lemma apply_vars_iter:
  assumes "permutes_entries iter" "Parse f = (vars, err)"
  shows "apply_vars (iter vars) env = merged env (map_of vars)"
proof -
  have d: "distinct (map fst vars)" using Parse_distinct [of f] assms(2) by simp
  have m: "mset (iter vars) = mset vars" using assms(1) by (simp add: permutes_entries_def)
  then have s: "set (iter vars) = set vars" by (metis set_mset_mset)
  have d': "distinct (map fst (iter vars))" using d m by (metis mset_eq_imp_distinct_iff mset_map)
  then have "map_of (iter vars) = map_of vars" using d s by (metis map_of_inject_set)
  then show ?thesis using apply_vars_merged [OF d'] by simp
qed

text \<open>
  C37: Loading never changes a variable that is set, whatever the files contain, in whatever order the
  entries are visited and whether or not it fails. On success, the variables of the file that was
  loaded are set where they were not (a value with a zero byte is left out), and nothing else.
\<close>

theorem load_never_overrides:
  assumes "permutes_entries iter"
  shows "case Load stat cwd open_file iter paths env of
      (Inl err, env') \<Rightarrow> env' = env
    | (Inr p, env') \<Rightarrow> p = [] \<and> env' = env \<or>
        (\<exists>b vars. open_file p = Inr (b, None) \<and> Parse (b, None) = (vars, None) \<and> env' = merged env (map_of vars))"
proof -
  have one: "case LoadFile open_file iter p env of
      (Some err, env') \<Rightarrow> env' = env
    | (None, env') \<Rightarrow> \<exists>b vars. open_file p = Inr (b, None) \<and> Parse (b, None) = (vars, None) \<and> env' = merged env (map_of vars)" for p
    using apply_vars_iter [OF assms] Parse_reads
    by (fastforce simp: LoadFile_def split: sum.splits option.splits prod.splits)
  have "case load_first stat open_file iter ps env of
      (Inl err, env') \<Rightarrow> env' = env
    | (Inr p, env') \<Rightarrow> p = [] \<and> env' = env \<or>
        (\<exists>b vars. open_file p = Inr (b, None) \<and> Parse (b, None) = (vars, None) \<and> env' = merged env (map_of vars))" for ps
  proof (induction ps)
    case (Cons p ps)
    then show ?case using one [of p] by (auto split: prod.splits option.splits)
  qed simp
  then show ?thesis by (simp add: Load_def)
qed

section \<open>What is written is read back\<close>

fun escape :: "string \<Rightarrow> string" where
  "escape [] = []"
| "escape (c # s) =
     (if c = CHR 0x0A then [backslash, CHR ''n'']
      else if c = CHR 0x0D then [backslash, CHR ''r'']
      else if c = CHR 0x09 then [backslash, CHR ''t'']
      else if c = quote_char \<or> c = backslash then [backslash, c]
      else [c]) @ escape s"

definition print_var :: "string \<times> string \<Rightarrow> string" where
  "print_var kv = fst kv @ ''='' @ [quote_char] @ escape (snd kv) @ [quote_char]"

definition print_vars :: "(string \<times> string) list \<Rightarrow> string" where
  "print_vars vs = concat (map (\<lambda>kv. print_var kv @ [newline]) vs)"

lemma unescape_Cons: "c \<noteq> backslash \<Longrightarrow> unescape (c # s) = c # unescape s"
  by (cases s) simp_all

lemma unescape_escape: "unescape (escape s) = s"
  by (induction s) (auto simp: unescape_Cons)

lemma newline_escape: "newline \<notin> set (escape s)"
  by (induction s) auto

lemma key_chars:
  assumes "validKey k" "c \<in> set k"
  shows "(of_char c :: nat) \<in> {48..57} \<union> {65..90} \<union> {95} \<union> {97..122}"
proof -
  have r: "list_all (\<lambda>r. r \<in> {48..57} \<union> {65..90} \<union> {95} \<union> {97..122}) (runes k)"
  proof (cases "runes k")
    case (Cons r rs)
    then show ?thesis using assms(1) by (fastforce simp: validKey_def Let_def list_all_iff)
  qed simp
  then have "list_all (\<lambda>r. r < 0x80) (runes k)" by (auto simp: list_all_iff)
  then have "runes k = map of_char k" by (rule runes_all_ascii)
  with r assms(2) show ?thesis by (auto simp: list_all_iff)
qed

lemma key_char_not:
  assumes "validKey k" "(of_char c :: nat) \<notin> {48..57} \<union> {65..90} \<union> {95} \<union> {97..122}"
  shows "c \<notin> set k"
  using key_chars [OF assms(1)] assms(2) by blast

lemma key_char_no_space:
  assumes "validKey k" "c \<in> set k"
  shows "c \<notin> hd ` set space_seqs" "c \<notin> last ` set space_seqs"
  using key_chars [OF assms] by (auto simp: space_seqs_def)

lemma key_trim: "validKey k \<Longrightarrow> trim_space k = k"
proof (rule trim_space_id)
  assume v: "validKey k"
  then show ne: "k \<noteq> []" by (simp add: validKey_def)
  have "hd k \<in> set k" "last k \<in> set k" using ne by simp_all
  then show "hd k \<notin> hd ` set space_seqs" "last k \<notin> last ` set space_seqs"
    using key_char_no_space [OF v] by blast+
qed

lemma parse_print_var:
  assumes "validKey k"
  shows "parse_line (print_var (k, v)) = Some (k, v)"
proof -
  let ?l = "print_var (k, v)"
  have ne: "k \<noteq> []" using assms by (simp add: validKey_def)
  have q: "?l = k @ CHR ''='' # quote_char # escape v @ [quote_char]" by (simp add: print_var_def)
  have l: "?l \<noteq> []" "last ?l = quote_char" "hd ?l = hd k" using ne by (simp_all add: q)
  have h: "hd k \<in> set k" using ne by simp
  have t: "trim_right (CHR 0x0D) ?l = ?l" by (simp add: trim_right_def print_var_def)
  have s: "trim_space ?l = ?l"
  proof (rule trim_space_id)
    show "last ?l \<notin> last ` set space_seqs" unfolding l(2) by (simp add: space_seqs_def)
  qed (use l key_char_no_space [OF assms h] in auto)
  have c: "\<not> has_prefix ?l ''#''"
    using key_char_not [OF assms, of "CHR ''#''"] ne unfolding q by (cases k) auto
  have e: "\<not> has_prefix ?l ''export ''"
  proof
    assume "has_prefix ?l ''export ''"
    then obtain z where z: "?l = ''export '' @ z" by (auto simp: prefix_def)
    have sp: "CHR '' '' \<notin> set k" "CHR ''='' \<notin> set k" using key_char_not [OF assms] by simp_all
    have "takeWhile (\<lambda>c. c \<noteq> CHR ''='' \<and> c \<noteq> CHR '' '') ?l = k" using sp by (auto simp: q takeWhile_append)
    moreover have "takeWhile (\<lambda>c. c \<noteq> CHR ''='' \<and> c \<noteq> CHR '' '') ?l = ''export''" by (simp add: z)
    ultimately have "k = ''export''" by simp
    then show False using z q by simp
  qed
  have "CHR ''='' \<notin> set k" using key_char_not [OF assms] by simp
  then have sp: "strings_split2 (CHR ''='') ?l = (k, Some (quote_char # escape v @ [quote_char]))"
    by (auto simp: strings_split2_def q takeWhile_append dropWhile_append)
  have v: "trim_space (quote_char # escape v @ [quote_char]) = quote_char # escape v @ [quote_char]"
    by (rule trim_space_id) (auto simp: space_seqs_def)
  show ?thesis
    using l(1) c e assms ne
    by (simp add: parse_line_def Let_def t s trim_prefix_def sp v key_trim unquote_def unescape_escape)
qed

lemma strings_split_line: "sep \<notin> set l \<Longrightarrow> strings_split sep (l @ sep # s) = l # strings_split sep s"
  by (induction l) auto

lemma split_print_vars:
  "\<forall>kv\<in>set vs. validKey (fst kv) \<Longrightarrow> strings_split newline (print_vars vs) = map print_var vs @ [[]]"
proof (induction vs)
  case (Cons kv vs)
  have "newline \<notin> set (print_var kv)"
    using key_char_not [of "fst kv" newline] Cons.prems newline_escape [of "snd kv"] by (simp add: print_var_def)
  then show ?case using Cons by (simp add: print_vars_def strings_split_line)
qed (simp add: print_vars_def)

text \<open>
  C38: What is written in the documented format is read back: a file with one line
  \<open>KEY="escaped value"\<close> for each variable parses to exactly these variables, for all values whatever
  bytes they hold, as long as no line is longer than the scanner's buffer; a later line for the same
  key wins. The error is that of the reader, if it has one.
\<close>

theorem parse_print_roundtrip:
  assumes "\<forall>kv\<in>set vs. validKey (fst kv)" "\<forall>kv\<in>set vs. length (print_var kv) < 2 ^ 20"
  shows "case Parse (print_vars vs, e) of (vars, err) \<Rightarrow> map_of vars = map_of (rev vs) \<and> err = e"
proof -
  have "last (print_var kv) = quote_char" "print_var kv \<noteq> []" for kv by (simp_all add: print_var_def)
  then have cr: "drop_cr (print_var kv) = print_var kv" for kv by (simp add: drop_cr_def)
  have "scan_lines max_line (print_vars vs) e = (map print_var vs, e)"
    using split_print_vars [OF assms(1)] assms(2)
    by (simp add: scan_lines_def Let_def max_line_def takeWhile_eq_all_conv [THEN iffD2] cr comp_def)
  moreover have "map_of (foldl (\<lambda>out l. case parse_line l of None \<Rightarrow> out | Some (k, v) \<Rightarrow> AList.update k v out) m
      (map print_var vs)) = map_of m ++ map_of (rev vs)" for m
    using assms(1)
  proof (induction vs arbitrary: m)
    case (Cons kv vs)
    have "parse_line (print_var kv) = Some kv" using parse_print_var [of "fst kv" "snd kv"] Cons.prems by simp
    then show ?case
      using Cons by (cases kv) (simp add: update_conv' map_add_assoc [symmetric])
  qed simp
  ultimately show ?thesis by (simp add: Parse_def)
qed

lemma validKey_A: "validKey ''A''"
  by (simp add: validKey_def Let_def)

theorem parse_print_roundtrip_witness:
  "map_of (fst (Parse (print_vars [(''A'', [quote_char, newline, CHR 0xFF]), (''A'', ''#1'')], None))) = [''A'' \<mapsto> ''#1'']"
  using parse_print_roundtrip [of "[(''A'', [quote_char, newline, CHR 0xFF]), (''A'', ''#1'')]" None]
  by (simp add: validKey_A print_var_def case_prod_beta)

theorem load_never_overrides_witness:
  "snd (Load (\<lambda>p. Some False) None (\<lambda>p. Inr (''A=2'', None)) (\<lambda>vs. vs) [''f''] [''A'' \<mapsto> ''1'']) ''A'' = Some ''1''"
proof -
  have "permutes_entries (\<lambda>vs. vs)" by (simp add: permutes_entries_def)
  from load_never_overrides [OF this, where stat = "\<lambda>p. Some False" and cwd = None and open_file = "\<lambda>p. Inr (''A=2'', None)"
      and paths = "[''f'']" and env = "[''A'' \<mapsto> ''1'']"]
  show ?thesis by (auto simp: merged_def split: prod.splits sum.splits)
qed

end
