(* ===== verification/Go_Strconv.thy ===== *)
theory Go_Strconv
  imports Go_Prelude
begin

text \<open>\<open>strconv.Atoi\<close>, and that it reads back what \<open>strconv.Itoa\<close> prints.\<close>

definition is_digit :: "char \<Rightarrow> bool" where
  "is_digit c \<longleftrightarrow> 48 \<le> (of_char c :: nat) \<and> (of_char c :: nat) \<le> 57"

definition atoi :: "string \<Rightarrow> int option" where
  "atoi s = (let neg = (s \<noteq> [] \<and> hd s = CHR ''-'');
       ds = (if s \<noteq> [] \<and> (hd s = CHR ''-'' \<or> hd s = CHR ''+'') then tl s else s);
       v = foldl (\<lambda>n c. n * 10 + (int (of_char c) - 48)) 0 ds;
       n = (if neg then - v else v)
     in if ds = [] \<or> \<not> list_all is_digit ds \<or> \<not> in_i64 n then None else Some n)"

lemma of_digit_char: "d < 10 \<Longrightarrow> (of_char (digit_char d) :: nat) = 48 + d"
  by (simp add: digit_char_def of_char_of)

lemma digit_char_digit: "d < 10 \<Longrightarrow> is_digit (digit_char d)"
  by (simp add: is_digit_def of_digit_char)

lemma nat_dec_digits: "list_all is_digit (nat_dec n)"
proof (induction n rule: nat_dec.induct)
  case (1 n)
  then show ?case by (subst nat_dec.simps) (simp add: digit_char_digit)
qed

lemma nat_dec_value: "foldl (\<lambda>n c. n * 10 + (int (of_char c) - 48)) 0 (nat_dec n) = int n"
proof (induction n rule: nat_dec.induct)
  case (1 n)
  have d: "int (of_char (digit_char d)) = 48 + int d" if "d < 10" for d
    using of_digit_char [OF that] by (metis of_nat_add of_nat_numeral of_nat_of_char)
  show ?case
  proof (cases "n < 10")
    case True
    then show ?thesis by (subst nat_dec.simps) (simp add: d)
  next
    case False
    with 1 have "foldl (\<lambda>n c. n * 10 + (int (of_char c) - 48)) 0 (nat_dec n) = int (n div 10) * 10 + int (n mod 10)"
      by (subst nat_dec.simps) (simp add: d)
    then show ?thesis by presburger
  qed
qed

lemma hd_nat_dec: "is_digit (hd (nat_dec n))"
  using nat_dec_digits [of n] nat_dec_nonempty [of n] by (cases "nat_dec n") simp_all

lemma not_digits: "\<not> is_digit CHR ''-''" "\<not> is_digit CHR ''+''" "\<not> is_digit CHR ''_''" "\<not> is_digit CHR '' ''"
  by (simp_all add: is_digit_def)

theorem atoi_itoa: "in_i64 n \<Longrightarrow> atoi (itoa n) = Some n"
proof (cases "n < 0")
  case True
  then show "in_i64 n \<Longrightarrow> ?thesis" by (simp add: atoi_def itoa_def nat_dec_digits nat_dec_value)
next
  case False
  have "hd (nat_dec m) \<noteq> CHR ''-''" "hd (nat_dec m) \<noteq> CHR ''+''" for m using hd_nat_dec [of m] not_digits by auto
  with False show "in_i64 n \<Longrightarrow> ?thesis" by (simp add: atoi_def itoa_def nat_dec_digits nat_dec_value)
qed

end
