(* ===== verification/OpenAI.thy ===== *)
theory OpenAI
  imports Agent Go_Utf8 Go_Strconv "HOL-Library.AList"
begin

text \<open>
  \<open>openai/openai.go\<close> and \<open>openai/wire.go\<close>: the client of the Chat Completions API: its options, the
  request on the wire, the retries with backoff, and the response that is made of the answer.

  The network, the clock, the random numbers and the semaphore are functions on the world
  (\<open>http_env\<close>); the JSON codec of the wire types is a parameter, too. \<open>time.Duration\<close> products are
  wrapped to 64 bits.
\<close>

section \<open>Wire types (wire.go)\<close>

record wire_reasoning =
  wrEffort :: string
  wrMaxTokens :: int
  wrExclude :: bool

record wire_tool_call =
  wtIndex :: int
  wtID :: string
  wtType :: string
  wtName :: string            \<comment> \<open>\<open>Function.Name\<close>\<close>
  wtArguments :: string       \<comment> \<open>\<open>Function.Arguments\<close>\<close>

record wire_message =
  wmRole :: string
  wmContent :: string
  wmToolCalls :: "wire_tool_call list"
  wmToolCallID :: string
  wmName :: string
  wmReasoning :: string
  wmReasoningContent :: string

record wire_tool =
  wlType :: string
  wlName :: string
  wlDescription :: string
  wlParameters :: raw_message

record wire_response_format =
  wfmtType :: string
  wfmtName :: string
  wfmtSchema :: raw_message
  wfmtStrict :: bool

record chat_request =
  crModel :: string
  crMessages :: "wire_message list"
  crTools :: "wire_tool list"
  crToolChoice :: string
  crResponseFormat :: "wire_response_format option"
  crTemperature :: "rat option"
  crMaxTokens :: int
  crStop :: "string list"
  crStream :: bool
  crIncludeUsage :: "bool option"   \<comment> \<open>\<open>StreamOptions\<close>\<close>
  crReasoning :: "wire_reasoning option"

record wire_usage =
  wuPromptTokens :: int
  wuCompletionTokens :: int
  wuTotalTokens :: int
  wuCachedTokens :: "int option"
  wuReasoningTokens :: "int option"

record wire_choice =
  wcIndex :: int
  wcMessage :: wire_message
  wcFinishReason :: string

record chat_response =
  cpID :: string
  cpModel :: string
  cpChoices :: "wire_choice list"
  cpUsage :: "wire_usage option"

section \<open>The client and its options\<close>

record price =
  prInputPerMillion :: rat
  prOutputPerMillion :: rat

record backoff =
  boBase :: duration
  boCap :: duration
  boMaxRetries :: int
  boJitter :: bool

record client =
  clBaseURL :: string
  clAPIKey :: string
  clModel :: string
  clOrg :: string
  clHeaders :: "(string \<times> string) list"     \<comment> \<open>a map: its keys are distinct\<close>
  clBackoff :: backoff
  clSem :: "int option"       \<comment> \<open>the capacity of \<open>sem\<close>\<close>
  clPrices :: "string \<rightharpoonup> price"
  clUseResponses :: bool

type_synonym client_option = "client \<Rightarrow> client"

definition DefaultBaseURL :: string where
  "DefaultBaseURL = ''https://api.openai.com/v1''"

definition WithBaseURL :: "string \<Rightarrow> client_option" where
  "WithBaseURL u = (\<lambda>c. c\<lparr>clBaseURL := rev (dropWhile (\<lambda>x. x = CHR ''/'') (rev u))\<rparr>)"

definition WithAPIKey :: "string \<Rightarrow> client_option" where "WithAPIKey k = (\<lambda>c. c\<lparr>clAPIKey := k\<rparr>)"

definition WithModel :: "string \<Rightarrow> client_option" where "WithModel m = (\<lambda>c. c\<lparr>clModel := m\<rparr>)"

definition WithOrganization :: "string \<Rightarrow> client_option" where "WithOrganization org = (\<lambda>c. c\<lparr>clOrg := org\<rparr>)"

definition WithHeader :: "string \<Rightarrow> string \<Rightarrow> client_option" where
  "WithHeader k v = (\<lambda>c. c\<lparr>clHeaders := AList.update k v (clHeaders c)\<rparr>)"

definition WithMaxRetries :: "int \<Rightarrow> client_option" where
  "WithMaxRetries n = (\<lambda>c. c\<lparr>clBackoff := (clBackoff c)\<lparr>boMaxRetries := n\<rparr>\<rparr>)"

definition WithBackoff :: "backoff \<Rightarrow> client_option" where
  "WithBackoff b = (\<lambda>c.
     let o' = clBackoff c;
         o' = (if boBase b > 0 then o'\<lparr>boBase := boBase b\<rparr> else o');
         o' = (if boCap b > 0 then o'\<lparr>boCap := boCap b\<rparr> else o');
         o' = (if boMaxRetries b > 0 then o'\<lparr>boMaxRetries := boMaxRetries b\<rparr> else o')
     in c\<lparr>clBackoff := o'\<lparr>boJitter := boJitter b\<rparr>\<rparr>)"

definition WithMaxConcurrency :: "int \<Rightarrow> client_option" where
  "WithMaxConcurrency k = (\<lambda>c. c\<lparr>clSem := (if k > 0 then Some k else None)\<rparr>)"

definition WithPricing :: "string \<Rightarrow> price \<Rightarrow> client_option" where
  "WithPricing model p = (\<lambda>c. c\<lparr>clPrices := (clPrices c)(model \<mapsto> p)\<rparr>)"

definition openai_New :: "client_option list \<Rightarrow> client" where
  "openai_New opts = foldl (\<lambda>c f. f c)
     \<lparr>clBaseURL = DefaultBaseURL, clAPIKey = [], clModel = [], clOrg = [], clHeaders = [],
      clBackoff = \<lparr>boBase = 500 * time_millisecond, boCap = 30 * time_second, boMaxRetries = 4, boJitter = True\<rparr>,
      clSem = None, clPrices = Map.empty, clUseResponses = False\<rparr> opts"

definition endpoint :: "client \<Rightarrow> string" where
  "endpoint c = (if clUseResponses c then clBaseURL c @ ''/responses'' else clBaseURL c @ ''/chat/completions'')"

text \<open>
  \<open>http.Header.Set\<close> stores a value under the canonical form of the key: the first letter and each
  letter after a hyphen in upper case, the others in lower case; a key with a byte that no header
  name may have stays as it is.
\<close>

definition header_byte :: "char \<Rightarrow> bool" where
  "header_byte c \<longleftrightarrow> (let n = (of_char c :: nat) in
     97 \<le> n \<and> n \<le> 122 \<or> 65 \<le> n \<and> n \<le> 90 \<or> 48 \<le> n \<and> n \<le> 57 \<or> n \<in> {33, 35, 36, 37, 38, 39, 42, 43, 45, 46, 94, 95, 96, 124, 126})"

fun canonical_letters :: "bool \<Rightarrow> string \<Rightarrow> string" where
  "canonical_letters upper [] = []"
| "canonical_letters upper (c # s) = (let n = (of_char c :: nat) in
     (if upper \<and> 97 \<le> n \<and> n \<le> 122 then char_of (n - 32)
      else if \<not> upper \<and> 65 \<le> n \<and> n \<le> 90 then char_of (n + 32) else c)
     # canonical_letters (c = CHR ''-'') s)"

definition canonical_key :: "string \<Rightarrow> string" where
  "canonical_key k = (if list_all header_byte k then canonical_letters True k else k)"

definition header_set :: "string \<Rightarrow> string \<Rightarrow> (string \<rightharpoonup> string) \<Rightarrow> (string \<rightharpoonup> string)" where
  "header_set k v h = h(canonical_key k \<mapsto> v)"

text \<open>\<open>headers\<close> is the map \<open>c.headers\<close> in the order in which Go ranges over it.\<close>

definition setHeaders :: "client \<Rightarrow> (string \<times> string) list \<Rightarrow> (string \<rightharpoonup> string) \<Rightarrow> (string \<rightharpoonup> string)" where
  "setHeaders c headers h =
     (let h = header_set ''Content-Type'' ''application/json'' h;
          h = (if clAPIKey c \<noteq> [] then header_set ''Authorization'' (''Bearer '' @ clAPIKey c) h else h);
          h = (if clOrg c \<noteq> [] then header_set ''OpenAI-Organization'' (clOrg c) h else h)
      in foldl (\<lambda>h (k, v). header_set k v h) h headers)"

section \<open>Building the request\<close>

definition firstNonEmpty :: "string \<Rightarrow> string \<Rightarrow> string" where
  "firstNonEmpty a b = (if a \<noteq> [] then a else b)"

text \<open>A rune outside of the permitted set, also that of an invalid byte, becomes one underscore.\<close>

definition name_rune :: "nat \<Rightarrow> bool" where
  "name_rune r \<longleftrightarrow> 97 \<le> r \<and> r \<le> 122 \<or> 65 \<le> r \<and> r \<le> 90 \<or> 48 \<le> r \<and> r \<le> 57 \<or> r = 95 \<or> r = 45"

definition sanitizeName :: "string \<Rightarrow> string" where
  "sanitizeName name = (if name = [] then ''output''
     else concat (map (\<lambda>r. if name_rune r then encode_rune r else ''_'') (runes name)))"

definition to_wire_call :: "tool_call \<Rightarrow> wire_tool_call" where
  "to_wire_call tc = \<lparr>wtIndex = 0, wtID = tcID tc, wtType = ''function'', wtName = tcName tc, wtArguments = tcArguments tc\<rparr>"

definition wire_message_zero :: wire_message where
  "wire_message_zero = \<lparr>wmRole = [], wmContent = [], wmToolCalls = [], wmToolCallID = [], wmName = [],
     wmReasoning = [], wmReasoningContent = []\<rparr>"

definition to_wire_message :: "message \<Rightarrow> wire_message" where
  "to_wire_message m = (let wm = wire_message_zero\<lparr>wmRole := msgRole m, wmContent := msgText m\<rparr> in
     if msgRole m = RoleTool then wm\<lparr>wmToolCallID := msgToolCallID m, wmName := msgName m\<rparr>
     else if msgRole m = RoleAssistant then wm\<lparr>wmToolCalls := map to_wire_call (msgToolCalls m)\<rparr>
     else wm)"

definition toWireMessages :: "message list \<Rightarrow> wire_message list" where
  "toWireMessages msgs = map to_wire_message msgs"

definition buildChatRequest :: "client \<Rightarrow> request \<Rightarrow> bool \<Rightarrow> chat_request" where
  "buildChatRequest c req stream =
     \<lparr>crModel = (if rqModel req = [] then clModel c else rqModel req),
      crMessages = toWireMessages (rqMessages req),
      crTools = map (\<lambda>t. \<lparr>wlType = ''function'', wlName = tdName t, wlDescription = tdDescription t,
         wlParameters = tdParameters t\<rparr>) (rqTools req),
      crToolChoice = (if rqToolChoice req \<noteq> [] \<and> rqTools req \<noteq> [] then rqToolChoice req else []),
      crResponseFormat = (case rqResponseFormat req of
          None \<Rightarrow> None
        | Some rf \<Rightarrow> Some \<lparr>wfmtType = ''json_schema'', wfmtName = sanitizeName (rfName rf), wfmtSchema = rfSchema rf,
            wfmtStrict = rfStrict rf\<rparr>),
      crTemperature = rqTemperature req, crMaxTokens = rqMaxTokens req, crStop = rqStop req, crStream = stream,
      crIncludeUsage = (if stream then Some True else None),
      crReasoning = (if rqReasoningEffort req \<noteq> [] \<or> rqReasoningMaxTokens req > 0
         then Some \<lparr>wrEffort = rqReasoningEffort req, wrMaxTokens = rqReasoningMaxTokens req, wrExclude = False\<rparr>
         else None)\<rparr>"

section \<open>Retries\<close>

record http_response =
  hrStatus :: int
  hrBody :: string
  hrReadErr :: "goerr option"
  hrRetryAfter :: string

record http_request =
  hqURL :: string
  hqHeaders :: "string \<rightharpoonup> string"
  hqBody :: string

text \<open>
  \<open>hxAcquire\<close> is the select on the semaphore: \<open>None\<close> when a slot was taken, otherwise the error of
  the context; \<open>hxWait\<close> the select on \<open>time.After\<close>; \<open>hxRand n\<close> is \<open>rand.Int64N(n)\<close>; \<open>hxUntil\<close> is
  \<open>time.Until\<close> of a parsed HTTP date.
\<close>

record 'w http_env =
  hxRange :: "'w \<Rightarrow> (string \<times> string) list \<Rightarrow> (string \<times> string) list"   \<comment> \<open>the order of a range over a map\<close>
  hxNewRequest :: "string \<Rightarrow> goerr option"
  hxDo :: "ctx \<Rightarrow> http_request \<Rightarrow> 'w \<Rightarrow> (goerr + http_response) \<times> 'w"
  hxAcquire :: "ctx \<Rightarrow> 'w \<Rightarrow> goerr option \<times> 'w"
  hxRelease :: "'w \<Rightarrow> 'w"
  hxWait :: "ctx \<Rightarrow> duration \<Rightarrow> 'w \<Rightarrow> goerr option \<times> 'w"
  hxRand :: "int \<Rightarrow> 'w \<Rightarrow> int \<times> 'w"
  hxUntil :: "string \<Rightarrow> 'w \<Rightarrow> duration option \<times> 'w"
  hxJSONValid :: "string \<Rightarrow> bool"
  hxErrorEnvelope :: "string \<Rightarrow> string \<times> string"   \<comment> \<open>message and type\<close>
  hxStatusText :: "int \<Rightarrow> string"
  hxEncode :: "chat_request \<Rightarrow> goerr + string"
  hxDecode :: "string \<Rightarrow> goerr + chat_response"

definition parseRetryAfter :: "'w http_env \<Rightarrow> string \<Rightarrow> 'w \<Rightarrow> duration \<times> 'w" where
  "parseRetryAfter H v w = (let v = trim_space v in
     if v = [] then (0, w)
     else (case atoi v of
         Some secs \<Rightarrow> (if secs < 0 then 0 else i64 (secs * time_second), w)
       | None \<Rightarrow> (case hxUntil H v w of
           (Some d, w) \<Rightarrow> (if d > 0 then d else 0, w)
         | (None, w) \<Rightarrow> (0, w))))"

definition parseAPIError :: "'w http_env \<Rightarrow> int \<Rightarrow> string \<Rightarrow> goerr" where
  "parseAPIError H status body = (case hxErrorEnvelope H body of (msg, typ) \<Rightarrow>
     (let msg = (if msg = [] then trim_space body else msg);
          msg = (if msg = [] then hxStatusText H status else msg)
      in APIError status typ msg body))"

text \<open>The wait before the next attempt and the new running wait.\<close>

definition nextWait :: "'w http_env \<Rightarrow> backoff \<Rightarrow> duration \<Rightarrow> duration \<Rightarrow> 'w \<Rightarrow> (duration \<times> duration) \<times> 'w" where
  "nextWait H b prev override w =
     (if override > 0 then ((override, prev), w)
      else (let (wait, w) =
         (if boJitter b then
            (let span = i64 (prev * 3 - boBase b + 1); span = (if span < 1 then 1 else span) in
             case hxRand H span w of (r, w) \<Rightarrow> (i64 (boBase b + r), w))
          else if prev \<le> boBase b then (boBase b, w)
          else (i64 (prev * 2), w));
         wait = (if boCap b > 0 \<and> wait > boCap b then boCap b else wait)
       in ((wait, wait), w)))"

text \<open>What an attempt comes to: a result to return, or an error after which it is tried again.\<close>

datatype attempt = Done "goerr + string" | Again goerr duration

definition one_attempt :: "'w http_env \<Rightarrow> client \<Rightarrow> ctx \<Rightarrow> string \<Rightarrow> 'w \<Rightarrow> attempt \<times> 'w" where
  "one_attempt H c ctx body w = (case hxNewRequest H (endpoint c) of
       Some err \<Rightarrow> (Done (Inl err), w)
     | None \<Rightarrow> (case hxDo H ctx \<lparr>hqURL = endpoint c, hqHeaders = setHeaders c (hxRange H w (clHeaders c)) Map.empty, hqBody = body\<rparr> w of
         (Inl err, w) \<Rightarrow> (Again err 0, w)
       | (Inr resp, w) \<Rightarrow>
           if hrStatus resp div 100 = 2 then
             (case hrReadErr resp of
                Some err \<Rightarrow> (Again (ErrWrap ''openai: read response body: '' err) 0, w)
              | None \<Rightarrow>
                  if \<not> hxJSONValid H (hrBody resp)
                  then (Again (ErrText (''openai: invalid/empty JSON in 2xx response ('' @ itoa (int (length (hrBody resp))) @ '' bytes)'')) 0, w)
                  else (Done (Inr (hrBody resp)), w))
           else (let apiErr = parseAPIError H (hrStatus resp) (hrBody resp) in
             if hrStatus resp = 429 then
               (case parseRetryAfter H (hrRetryAfter resp) w of (d, w) \<Rightarrow>
                  (Again apiErr (if d > 0 then min d (boCap (clBackoff c)) else 0), w))
             else if hrStatus resp \<ge> 500 then (Again apiErr 0, w)
             else (Done (Inl apiErr), w))))"

text \<open>
  The loop. \<open>n\<close> is the number of attempts that are left, \<open>lastErr\<close> the error of the last one; with
  no attempt at all the result is \<open>nil, nil\<close>, an empty body.
\<close>

fun do_attempts ::
  "'w http_env \<Rightarrow> client \<Rightarrow> ctx \<Rightarrow> string \<Rightarrow> nat \<Rightarrow> bool \<Rightarrow> duration \<Rightarrow> duration \<Rightarrow> goerr option \<Rightarrow> 'w \<Rightarrow> (goerr + string) \<times> 'w" where
  "do_attempts H c ctx body 0 first prev override lastErr w =
     (case lastErr of None \<Rightarrow> (Inr [], w) | Some err \<Rightarrow> (Inl err, w))"
| "do_attempts H c ctx body (Suc n) first prev override lastErr w =
     (let (waited, prev, w) =
        (if first then (None, prev, w)
         else (case nextWait H (clBackoff c) prev override w of ((wait, prev), w) \<Rightarrow>
           (case hxWait H ctx wait w of (e, w) \<Rightarrow> (e, prev, w))))
      in case waited of
           Some err \<Rightarrow> (Inl err, w)
         | None \<Rightarrow> (case one_attempt H c ctx body w of
             (Done r, w) \<Rightarrow> (r, w)
           | (Again err d, w) \<Rightarrow> do_attempts H c ctx body n False prev d (Some err) w))"

definition client_do :: "'w http_env \<Rightarrow> client \<Rightarrow> ctx \<Rightarrow> string \<Rightarrow> 'w \<Rightarrow> (goerr + string) \<times> 'w" where
  "client_do H c ctx body w =
     (let run = do_attempts H c ctx body (nat (boMaxRetries (clBackoff c) + 1)) True (boBase (clBackoff c)) 0 None
      in case clSem c of
           None \<Rightarrow> run w
         | Some k \<Rightarrow> (case hxAcquire H ctx w of
             (Some err, w) \<Rightarrow> (Inl err, w)
           | (None, w) \<Rightarrow> (case run w of (r, w) \<Rightarrow> (r, hxRelease H w))))"

section \<open>The response\<close>

definition cost :: "client \<Rightarrow> wire_usage \<Rightarrow> rat" where
  "cost c u = (case clPrices c (clModel c) of
       None \<Rightarrow> 0
     | Some p \<Rightarrow> of_int (wuPromptTokens u) / 1000000 * prInputPerMillion p
         + of_int (wuCompletionTokens u) / 1000000 * prOutputPerMillion p)"

definition toUsage :: "client \<Rightarrow> wire_usage option \<Rightarrow> usage" where
  "toUsage c u = (case u of
       None \<Rightarrow> usage_zero
     | Some u \<Rightarrow> \<lparr>InputTokens = wuPromptTokens u, OutputTokens = wuCompletionTokens u, TotalTokens = wuTotalTokens u,
         CostUSD = cost c u,
         CachedInputTokens = (case wuCachedTokens u of Some n \<Rightarrow> n | None \<Rightarrow> 0),
         ReasoningTokens = (case wuReasoningTokens u of Some n \<Rightarrow> n | None \<Rightarrow> 0)\<rparr>)"

definition mapStop :: "string \<Rightarrow> string" where
  "mapStop finish =
     (if finish = ''stop'' then StopReasonStop
      else if finish = ''tool_calls'' \<or> finish = ''function_call'' then StopReasonToolCalls
      else if finish = ''length'' then StopReasonLength
      else if finish = ''content_filter'' then StopReasonContentFilter
      else StopReasonStop)"

definition assistantText :: "wire_message \<Rightarrow> string" where
  "assistantText m = (if wmContent m \<noteq> [] \<or> wmToolCalls m \<noteq> [] then wmContent m
     else firstNonEmpty (wmReasoning m) (wmReasoningContent m))"

definition from_wire_call :: "wire_tool_call \<Rightarrow> tool_call" where
  "from_wire_call tc = \<lparr>tcID = wtID tc, tcName = wtName tc, tcArguments = wtArguments tc\<rparr>"

definition wire_to_message :: "wire_message \<Rightarrow> message" where
  "wire_to_message m = (AssistantMessage (assistantText m))
     \<lparr>msgReasoning := firstNonEmpty (wmReasoning m) (wmReasoningContent m),
      msgToolCalls := map from_wire_call (wmToolCalls m)\<rparr>"

definition chat_to_response :: "client \<Rightarrow> string \<Rightarrow> chat_response \<Rightarrow> goerr + response" where
  "chat_to_response c raw cr = (case cpChoices cr of
       [] \<Rightarrow> Inl (ErrText ''openai: response contained no choices'')
     | choice # _ \<Rightarrow> Inr \<lparr>rspMessage = wire_to_message (wcMessage choice), rspUsage = toUsage c (cpUsage cr),
         rspStopReason = mapStop (wcFinishReason choice), rspModel = firstNonEmpty (cpModel cr) (clModel c),
         rspID = [], rspRaw = raw\<rparr>)"

definition generate_chat :: "'w http_env \<Rightarrow> client \<Rightarrow> ctx \<Rightarrow> request \<Rightarrow> 'w \<Rightarrow> (goerr + response) \<times> 'w" where
  "generate_chat H c ctx req w = (case hxEncode H (buildChatRequest c req False) of
       Inl err \<Rightarrow> (Inl (ErrWrap ''openai: encode request: '' err), w)
     | Inr body \<Rightarrow> (case client_do H c ctx body w of
         (Inl err, w) \<Rightarrow> (Inl err, w)
       | (Inr raw, w) \<Rightarrow> (case hxDecode H raw of
           Inl err \<Rightarrow> (Inl (ErrWrap ''openai: decode response: '' err), w)
         | Inr cr \<Rightarrow> (chat_to_response c raw cr, w))))"

end
