(* ===== verification/OpenAI_Stream.thy ===== *)
theory OpenAI_Stream
  imports OpenAI Go_Bufio
begin

text \<open>
  \<open>openai/stream.go\<close>: a streamed chat completion. The body of the answer is read line by line as
  server-sent events; \<open>Recv\<close> yields the next delta and, at the end, the assembled response. The
  body is what the server sends until it closes the connection, so it is a finite string, and
  \<open>chat_drain\<close>, the calls of \<open>Recv\<close> up to \<open>io.EOF\<close>, terminates.
\<close>

section \<open>The line scanner\<close>

text \<open>The lines that are still to come and what \<open>Err\<close> returns after them; the buffer has 4 MB.\<close>

record scanner =
  scLines :: "string list"
  scErr :: "goerr option"

definition max_token_size :: nat where
  "max_token_size = 4 * 1024 * 1024"

definition scan_body :: "string \<Rightarrow> goerr option \<Rightarrow> scanner" where
  "scan_body body readErr = (case scan_lines max_token_size body readErr of (ls, err) \<Rightarrow> \<lparr>scLines = ls, scErr = err\<rparr>)"

definition openSSE :: "'w http_env \<Rightarrow> client \<Rightarrow> ctx \<Rightarrow> string \<Rightarrow> 'w \<Rightarrow> (goerr + scanner) \<times> 'w" where
  "openSSE H c ctx body w = (case hxNewRequest H (endpoint c) of
       Some err \<Rightarrow> (Inl err, w)
     | None \<Rightarrow> (case hxDo H ctx \<lparr>hqURL = endpoint c,
           hqHeaders = header_set ''Accept'' ''text/event-stream'' (setHeaders c (hxRange H w (clHeaders c)) Map.empty),
           hqBody = body\<rparr> w of
         (Inl err, w) \<Rightarrow> (Inl err, w)
       | (Inr resp, w) \<Rightarrow>
           if hrStatus resp div 100 \<noteq> 2 then (Inl (parseAPIError H (hrStatus resp) (hrBody resp)), w)
           else (Inr (scan_body (hrBody resp) (hrReadErr resp)), w)))"

text \<open>The payload of a \<open>data:\<close> line; both streams skip the other lines.\<close>

definition sse_data :: "string \<Rightarrow> string option" where
  "sse_data line = (let line = trim_space line in
     if line = [] \<or> \<not> has_prefix line ''data:'' then None else Some (trim_space (drop 5 line)))"

section \<open>The stream of a chat completion\<close>

record stream_choice =
  sxIndex :: int
  sxDelta :: wire_message
  sxFinishReason :: string

record stream_response =
  srChoices :: "stream_choice list"
  srUsage :: "wire_usage option"

record chat_stream =
  csScan :: scanner
  csClient :: client
  csText :: string
  csReasoning :: string
  csToolCalls :: "int \<rightharpoonup> tool_call"
  csOrder :: "int list"
  csFinish :: string
  csUsage :: "wire_usage option"
  csDone :: bool

datatype recv_result = RecvChunk stream_chunk | RecvEOF | RecvErr goerr

definition chunk_zero :: stream_chunk where
  "chunk_zero = \<lparr>skTextDelta = [], skReasoningDelta = [], skToolCall = None, skUsage = None, skFinal = None\<rparr>"

definition tool_call_zero :: tool_call where
  "tool_call_zero = \<lparr>tcID = [], tcName = [], tcArguments = []\<rparr>"

definition apply_call_delta :: "wire_tool_call \<Rightarrow> tool_call \<Rightarrow> tool_call" where
  "apply_call_delta tc acc =
     (let acc = (if wtID tc \<noteq> [] then acc\<lparr>tcID := wtID tc\<rparr> else acc);
          acc = (if wtName tc \<noteq> [] then acc\<lparr>tcName := wtName tc\<rparr> else acc)
      in if wtArguments tc \<noteq> [] then acc\<lparr>tcArguments := tcArguments acc @ wtArguments tc\<rparr> else acc)"

definition add_call_delta :: "wire_tool_call \<Rightarrow> chat_stream \<Rightarrow> chat_stream" where
  "add_call_delta tc s =
     (let (acc, s) = (case csToolCalls s (wtIndex tc) of
            Some acc \<Rightarrow> (acc, s)
          | None \<Rightarrow> (tool_call_zero, s\<lparr>csOrder := csOrder s @ [wtIndex tc]\<rparr>))
      in s\<lparr>csToolCalls := (csToolCalls s)(wtIndex tc \<mapsto> apply_call_delta tc acc)\<rparr>)"

text \<open>The first choice of a frame: the chunk with its deltas, whether it is emitted, and the stream.\<close>

definition choice_step :: "stream_choice \<Rightarrow> stream_chunk \<Rightarrow> bool \<Rightarrow> chat_stream \<Rightarrow> (stream_chunk \<times> bool) \<times> chat_stream" where
  "choice_step ch chunk send s =
     (let d = sxDelta ch;
          s = (if sxFinishReason ch \<noteq> [] then s\<lparr>csFinish := sxFinishReason ch\<rparr> else s);
          (chunk, send, s) = (if wmContent d \<noteq> []
             then (chunk\<lparr>skTextDelta := wmContent d\<rparr>, True, s\<lparr>csText := csText s @ wmContent d\<rparr>)
             else (chunk, send, s));
          rd = firstNonEmpty (wmReasoning d) (wmReasoningContent d);
          (chunk, send, s) = (if rd \<noteq> []
             then (chunk\<lparr>skReasoningDelta := rd\<rparr>, True, s\<lparr>csReasoning := csReasoning s @ rd\<rparr>)
             else (chunk, send, s))
      in ((chunk, send), foldl (\<lambda>s tc. add_call_delta tc s) s (wmToolCalls d)))"

definition frame_step :: "stream_response \<Rightarrow> chat_stream \<Rightarrow> (stream_chunk \<times> bool) \<times> chat_stream" where
  "frame_step sr s =
     (let (chunk, send, s) = (case srUsage sr of
            None \<Rightarrow> (chunk_zero, False, s)
          | Some u \<Rightarrow> (chunk_zero\<lparr>skUsage := Some (toUsage (csClient s) (Some u))\<rparr>, True, s\<lparr>csUsage := Some u\<rparr>))
      in case srChoices sr of
           [] \<Rightarrow> ((chunk, send), s)
         | ch # _ \<Rightarrow> choice_step ch chunk send s)"

definition final_response :: "chat_stream \<Rightarrow> response" where
  "final_response s =
     (let text = (if csText s = [] \<and> csOrder s = [] then csReasoning s else csText s);
          msg = (AssistantMessage text)\<lparr>msgReasoning := csReasoning s,
             msgToolCalls := map (\<lambda>i. the (csToolCalls s i)) (csOrder s)\<rparr>
      in \<lparr>rspMessage = msg, rspUsage = toUsage (csClient s) (csUsage s), rspStopReason = mapStop (csFinish s),
          rspModel = clModel (csClient s), rspID = [], rspRaw = []\<rparr>)"

definition finalChunk :: "chat_stream \<Rightarrow> recv_result \<times> chat_stream" where
  "finalChunk s = (if csDone s then (RecvEOF, s)
     else (RecvChunk (chunk_zero\<lparr>skFinal := Some (final_response s), skUsage := Some (rspUsage (final_response s))\<rparr>),
           s\<lparr>csDone := True\<rparr>))"

abbreviation set_lines :: "string list \<Rightarrow> chat_stream \<Rightarrow> chat_stream" where
  "set_lines ls s \<equiv> s\<lparr>csScan := (csScan s)\<lparr>scLines := ls\<rparr>\<rparr>"

text \<open>\<open>D\<close> is \<open>json.Unmarshal\<close> into a \<open>streamResponse\<close>.\<close>

fun recv_lines :: "(string \<Rightarrow> goerr + stream_response) \<Rightarrow> string list \<Rightarrow> chat_stream \<Rightarrow> recv_result \<times> chat_stream" where
  "recv_lines D [] s = (case scErr (csScan s) of
       Some err \<Rightarrow> (RecvErr err, set_lines [] s)
     | None \<Rightarrow> finalChunk (set_lines [] s))"
| "recv_lines D (line # ls) s = (case sse_data line of
       None \<Rightarrow> recv_lines D ls s
     | Some data \<Rightarrow>
         if data = ''[DONE]'' then finalChunk (set_lines ls s)
         else (case D data of
             Inl err \<Rightarrow> recv_lines D ls s
           | Inr sr \<Rightarrow> (case frame_step sr (set_lines ls s) of ((chunk, send), s) \<Rightarrow>
               if send then (RecvChunk chunk, s) else recv_lines D ls s)))"

definition chat_Recv :: "(string \<Rightarrow> goerr + stream_response) \<Rightarrow> chat_stream \<Rightarrow> recv_result \<times> chat_stream" where
  "chat_Recv D s = recv_lines D (scLines (csScan s)) s"

section \<open>Draining a stream\<close>

lemma add_call_delta_frame [simp]:
  "csScan (add_call_delta tc s) = csScan s" "csDone (add_call_delta tc s) = csDone s"
  "csClient (add_call_delta tc s) = csClient s"
  by (simp_all add: add_call_delta_def split: option.splits)

lemma fold_call_delta_frame [simp]:
  "csScan (foldl (\<lambda>s tc. add_call_delta tc s) s tcs) = csScan s"
  "csDone (foldl (\<lambda>s tc. add_call_delta tc s) s tcs) = csDone s"
  "csClient (foldl (\<lambda>s tc. add_call_delta tc s) s tcs) = csClient s"
  by (induction tcs arbitrary: s) simp_all

lemma frame_step_frame:
  assumes "frame_step sr s = (r, t)"
  shows "csScan t = csScan s \<and> csDone t = csDone s \<and> csClient t = csClient s"
  using assms by (auto simp: frame_step_def choice_step_def Let_def split: option.splits list.splits if_splits)

definition stream_size :: "chat_stream \<Rightarrow> nat" where
  "stream_size s = length (scLines (csScan s)) + (if csDone s then 0 else 1)"

lemma recv_lines_progress:
  "recv_lines D ls s = (RecvChunk c, t) \<Longrightarrow> stream_size t < length ls + (if csDone s then 0 else 1)"
proof (induction ls arbitrary: s)
  case Nil
  then show ?case by (auto simp: finalChunk_def stream_size_def split: option.splits if_splits)
next
  case (Cons l ls)
  show ?case
  proof (cases "sse_data l = None \<or> (\<exists>d err. sse_data l = Some d \<and> d \<noteq> ''[DONE]'' \<and> D d = Inl err)")
    case True
    with Cons.prems have "recv_lines D ls s = (RecvChunk c, t)" by auto
    from Cons.IH [OF this] show ?thesis by simp
  next
    case False
    then obtain d where d: "sse_data l = Some d" by auto
    show ?thesis
    proof (cases "d = ''[DONE]''")
      case True
      with d Cons.prems show ?thesis by (auto simp: finalChunk_def stream_size_def split: if_splits)
    next
      case nd: False
      with False d obtain sr where sr: "D d = Inr sr" by (cases "D d") auto
      obtain chunk send t' where f: "frame_step sr (set_lines ls s) = ((chunk, send), t')"
        by (metis prod.exhaust)
      note fr = frame_step_frame [OF f]
      show ?thesis
      proof (cases send)
        case True
        with d nd sr f Cons.prems have "t = t'" by simp
        with fr show ?thesis by (simp add: stream_size_def)
      next
        case False
        with d nd sr f Cons.prems have "recv_lines D ls t' = (RecvChunk c, t)" by simp
        from Cons.IH [OF this] fr show ?thesis by simp
      qed
    qed
  qed
qed

text \<open>What the consumer of a stream sees: the chunks up to \<open>io.EOF\<close> or the first error.\<close>

function chat_drain :: "(string \<Rightarrow> goerr + stream_response) \<Rightarrow> chat_stream \<Rightarrow> (goerr + stream_chunk) list" where
  "chat_drain D s = (case chat_Recv D s of
       (RecvChunk chunk, s) \<Rightarrow> Inr chunk # chat_drain D s
     | (RecvEOF, s) \<Rightarrow> []
     | (RecvErr err, s) \<Rightarrow> [Inl err])"
  by pat_completeness auto
termination
  by (relation "measure (\<lambda>(D, s). stream_size s)")
    (auto simp: chat_Recv_def stream_size_def dest!: recv_lines_progress [OF sym])

declare chat_drain.simps [simp del]

text \<open>\<open>Stream\<close>: the stream of a request.\<close>

definition stream_new :: "client \<Rightarrow> scanner \<Rightarrow> chat_stream" where
  "stream_new c sc = \<lparr>csScan = sc, csClient = c, csText = [], csReasoning = [], csToolCalls = Map.empty,
     csOrder = [], csFinish = [], csUsage = None, csDone = False\<rparr>"

definition stream_chat ::
  "'w http_env \<Rightarrow> client \<Rightarrow> ctx \<Rightarrow> request \<Rightarrow> 'w \<Rightarrow> (goerr + chat_stream) \<times> 'w" where
  "stream_chat H c ctx req w = (case hxEncode H (buildChatRequest c req True) of
       Inl err \<Rightarrow> (Inl (ErrWrap ''openai: encode request: '' err), w)
     | Inr body \<Rightarrow> (case openSSE H c ctx body w of
         (Inl err, w) \<Rightarrow> (Inl err, w)
       | (Inr sc, w) \<Rightarrow> (Inr (stream_new c sc), w)))"

end
