(* ===== verification/OpenAI_Responses.thy ===== *)
theory OpenAI_Responses
  imports OpenAI_Stream
begin

text \<open>
  \<open>openai/responses.go\<close> and \<open>openai/responses_stream.go\<close>: the same client over the Responses API,
  where a turn is a list of typed items, and the client as a \<open>rimeno.Model\<close> (\<open>openai_model\<close>), which
  chooses between the two interfaces. The JSON codec of these wire types is the parameter
  \<open>resp_codec\<close>.
\<close>

section \<open>Wire types\<close>

record resp_content =
  rcType :: string
  rcText :: string

record resp_item =
  riType :: string
  riRole :: string
  riContent :: "resp_content list"
  riCallID :: string
  riName :: string
  riArguments :: string
  riOutput :: string
  riSummary :: "resp_content list"

record resp_request =
  rrModel :: string
  rrInput :: "resp_item list"
  rrTools :: "wire_tool list"
  rrToolChoice :: string
  rrMaxOutputTokens :: int
  rrTemperature :: "rat option"
  rrReasoning :: "wire_reasoning option"
  rrText :: "wire_response_format option"
  rrPreviousResponseID :: string
  rrStream :: bool

record resp_usage =
  ruInputTokens :: int
  ruOutputTokens :: int
  ruTotalTokens :: int
  ruCachedTokens :: "int option"
  ruReasoningTokens :: "int option"

record resp_response =
  rsID :: string
  rsOutput :: "resp_item list"
  rsUsage :: "resp_usage option"
  rsModel :: string

definition resp_response_zero :: resp_response where
  "resp_response_zero = \<lparr>rsID = [], rsOutput = [], rsUsage = None, rsModel = []\<rparr>"

record resp_stream_event =
  reType :: string
  reDelta :: string
  reResponse :: "resp_response option"

record resp_codec =
  rcEncode :: "resp_request \<Rightarrow> goerr + string"
  rcDecode :: "string \<Rightarrow> goerr + resp_response"
  rcEvent :: "string \<Rightarrow> goerr + resp_stream_event"

definition WithResponsesAPI :: client_option where
  "WithResponsesAPI = (\<lambda>c. c\<lparr>clUseResponses := True\<rparr>)"

definition ThreadsResponses :: "client \<Rightarrow> bool" where
  "ThreadsResponses c = clUseResponses c"

definition ThreadingUnsupported :: "goerr \<Rightarrow> bool" where
  "ThreadingUnsupported err =
     (case errors_as (\<lambda>e. case e of APIError status typ msg raw \<Rightarrow> Some (status, raw) | _ \<Rightarrow> None) err of
        None \<Rightarrow> False
      | Some (status, raw) \<Rightarrow> status = 400 \<and> strings_contains raw ''previous_response_id'')"

section \<open>The request\<close>

definition item_zero :: resp_item where
  "item_zero = \<lparr>riType = [], riRole = [], riContent = [], riCallID = [], riName = [], riArguments = [], riOutput = [],
     riSummary = []\<rparr>"

definition call_item :: "tool_call \<Rightarrow> resp_item" where
  "call_item tc = item_zero\<lparr>riType := ''function_call'', riCallID := tcID tc, riName := tcName tc,
     riArguments := tcArguments tc\<rparr>"

definition text_item :: "string \<Rightarrow> string \<Rightarrow> string \<Rightarrow> resp_item" where
  "text_item role kind text = item_zero\<lparr>riType := ''message'', riRole := role,
     riContent := [\<lparr>rcType = kind, rcText = text\<rparr>]\<rparr>"

definition message_items :: "message \<Rightarrow> resp_item list" where
  "message_items m =
     (if msgRole m = RoleTool
      then [item_zero\<lparr>riType := ''function_call_output'', riCallID := msgToolCallID m, riOutput := msgText m\<rparr>]
      else if msgRole m = RoleAssistant
      then (if msgText m \<noteq> [] then [text_item ''assistant'' ''output_text'' (msgText m)] else [])
           @ map call_item (msgToolCalls m)
      else [text_item (msgRole m) ''input_text'' (msgText m)])"

definition toRespInput :: "message list \<Rightarrow> resp_item list" where
  "toRespInput msgs = concat (map message_items msgs)"

definition buildRespRequest :: "client \<Rightarrow> request \<Rightarrow> resp_request" where
  "buildRespRequest c req =
     \<lparr>rrModel = (if rqModel req = [] then clModel c else rqModel req),
      rrInput = toRespInput (rqMessages req),
      rrTools = map (\<lambda>t. \<lparr>wlType = ''function'', wlName = tdName t, wlDescription = tdDescription t,
         wlParameters = tdParameters t\<rparr>) (rqTools req),
      rrToolChoice = (if rqToolChoice req \<noteq> [] \<and> rqTools req \<noteq> [] then rqToolChoice req else []),
      rrMaxOutputTokens = rqMaxTokens req, rrTemperature = rqTemperature req,
      rrReasoning = (if rqReasoningEffort req \<noteq> [] \<or> rqReasoningMaxTokens req > 0
         then Some \<lparr>wrEffort = rqReasoningEffort req, wrMaxTokens = rqReasoningMaxTokens req, wrExclude = False\<rparr>
         else None),
      rrText = (case rqResponseFormat req of
          None \<Rightarrow> None
        | Some rf \<Rightarrow> Some \<lparr>wfmtType = ''json_schema'', wfmtName = sanitizeName (rfName rf), wfmtSchema = rfSchema rf,
            wfmtStrict = rfStrict rf\<rparr>),
      rrPreviousResponseID = rqPreviousResponseID req, rrStream = False\<rparr>"

section \<open>The response\<close>

definition output_text :: "resp_content list \<Rightarrow> string" where
  "output_text cs = concat (map rcText (filter (\<lambda>ct. rcType ct = ''output_text'') cs))"

definition item_step :: "message \<Rightarrow> resp_item \<Rightarrow> message" where
  "item_step msg it =
     (if riType it = ''message'' then msg\<lparr>msgText := msgText msg @ output_text (riContent it)\<rparr>
      else if riType it = ''reasoning'' then msg\<lparr>msgReasoning := msgReasoning msg @ concat (map rcText (riSummary it))\<rparr>
      else if riType it = ''function_call''
      then msg\<lparr>msgToolCalls := msgToolCalls msg @ [\<lparr>tcID = riCallID it, tcName = riName it, tcArguments = riArguments it\<rparr>]\<rparr>
      else msg)"

definition parseRespMessage :: "resp_response \<Rightarrow> message" where
  "parseRespMessage rr = foldl item_step (AssistantMessage []) (rsOutput rr)"

definition respUsage :: "client \<Rightarrow> resp_usage option \<Rightarrow> usage" where
  "respUsage c u = (case u of
       None \<Rightarrow> usage_zero
     | Some u \<Rightarrow> \<lparr>InputTokens = ruInputTokens u, OutputTokens = ruOutputTokens u, TotalTokens = ruTotalTokens u,
         CostUSD = cost c \<lparr>wuPromptTokens = ruInputTokens u, wuCompletionTokens = ruOutputTokens u, wuTotalTokens = 0,
           wuCachedTokens = None, wuReasoningTokens = None\<rparr>,
         CachedInputTokens = (case ruCachedTokens u of Some n \<Rightarrow> n | None \<Rightarrow> 0),
         ReasoningTokens = (case ruReasoningTokens u of Some n \<Rightarrow> n | None \<Rightarrow> 0)\<rparr>)"

definition respStop :: "message \<Rightarrow> string" where
  "respStop msg = (if msgToolCalls msg \<noteq> [] then StopReasonToolCalls else StopReasonStop)"

definition generateResponses ::
  "'w http_env \<Rightarrow> resp_codec \<Rightarrow> client \<Rightarrow> ctx \<Rightarrow> request \<Rightarrow> 'w \<Rightarrow> (goerr + response) \<times> 'w" where
  "generateResponses H R c ctx req w = (case rcEncode R (buildRespRequest c req) of
       Inl err \<Rightarrow> (Inl (ErrWrap ''openai: encode responses request: '' err), w)
     | Inr body \<Rightarrow> (case client_do H c ctx body w of
         (Inl err, w) \<Rightarrow> (Inl err, w)
       | (Inr raw, w) \<Rightarrow> (case rcDecode R raw of
           Inl err \<Rightarrow> (Inl (ErrWrap ''openai: decode responses: '' err), w)
         | Inr rr \<Rightarrow> (let msg = parseRespMessage rr in
             (Inr \<lparr>rspMessage = msg, rspUsage = respUsage c (rsUsage rr), rspStopReason = respStop msg,
                   rspModel = firstNonEmpty (rsModel rr) (clModel c), rspID = rsID rr, rspRaw = raw\<rparr>, w)))))"

section \<open>The stream (responses_stream.go)\<close>

record resp_stream =
  psScan :: scanner
  psClient :: client
  psDone :: bool

definition resp_final :: "resp_response option \<Rightarrow> resp_stream \<Rightarrow> recv_result \<times> resp_stream" where
  "resp_final r s = (if psDone s then (RecvEOF, s)
     else (let rr = (case r of None \<Rightarrow> resp_response_zero | Some rr \<Rightarrow> rr);
               msg = parseRespMessage rr;
               u = respUsage (psClient s) (rsUsage rr)
           in (RecvChunk (chunk_zero\<lparr>skFinal := Some \<lparr>rspMessage = msg, rspUsage = u, rspStopReason = respStop msg,
                 rspModel = firstNonEmpty (rsModel rr) (clModel (psClient s)), rspID = rsID rr, rspRaw = []\<rparr>,
                 skUsage := Some u\<rparr>),
               s\<lparr>psDone := True\<rparr>)))"

fun resp_recv_lines :: "(string \<Rightarrow> goerr + resp_stream_event) \<Rightarrow> string list \<Rightarrow> resp_stream \<Rightarrow> recv_result \<times> resp_stream" where
  "resp_recv_lines D [] s = (let s = s\<lparr>psScan := (psScan s)\<lparr>scLines := []\<rparr>\<rparr> in
     case scErr (psScan s) of Some err \<Rightarrow> (RecvErr err, s) | None \<Rightarrow> resp_final None s)"
| "resp_recv_lines D (line # ls) s =
     (let here = s\<lparr>psScan := (psScan s)\<lparr>scLines := ls\<rparr>\<rparr> in
      case sse_data line of
        None \<Rightarrow> resp_recv_lines D ls s
      | Some data \<Rightarrow>
          if data = ''[DONE]'' then resp_final None here
          else (case D data of
              Inl err \<Rightarrow> resp_recv_lines D ls s
            | Inr ev \<Rightarrow>
                if suffix ''output_text.delta'' (reType ev) then
                  (if reDelta ev \<noteq> [] then (RecvChunk (chunk_zero\<lparr>skTextDelta := reDelta ev\<rparr>), here)
                   else resp_recv_lines D ls s)
                else if strings_contains (reType ev) ''reasoning'' \<and> suffix ''.delta'' (reType ev) then
                  (if reDelta ev \<noteq> [] then (RecvChunk (chunk_zero\<lparr>skReasoningDelta := reDelta ev\<rparr>), here)
                   else resp_recv_lines D ls s)
                else if reType ev = ''response.completed'' \<or> reType ev = ''response.incomplete''
                then resp_final (reResponse ev) here
                else if reType ev = ''error'' \<or> reType ev = ''response.failed''
                then (RecvErr (ErrText (''openai: responses stream error: '' @ data)), here)
                else resp_recv_lines D ls s))"

definition resp_Recv :: "(string \<Rightarrow> goerr + resp_stream_event) \<Rightarrow> resp_stream \<Rightarrow> recv_result \<times> resp_stream" where
  "resp_Recv D s = resp_recv_lines D (scLines (psScan s)) s"

definition resp_stream_size :: "resp_stream \<Rightarrow> nat" where
  "resp_stream_size s = length (scLines (psScan s)) + (if psDone s then 0 else 1)"

lemma resp_recv_progress:
  "resp_recv_lines D ls s = (RecvChunk c, t) \<Longrightarrow> resp_stream_size t < length ls + (if psDone s then 0 else 1)"
proof (induction ls arbitrary: s)
  case Nil
  then show ?case by (auto simp: resp_final_def resp_stream_size_def Let_def split: option.splits if_splits)
next
  case (Cons l ls)
  show ?case
  proof (cases "resp_recv_lines D (l # ls) s = resp_recv_lines D ls s")
    case True
    with Cons.prems Cons.IH [of s] show ?thesis by simp
  next
    case False
    with Cons.prems show ?thesis
      by (auto simp: resp_final_def resp_stream_size_def Let_def split: option.splits if_splits sum.splits)
  qed
qed

function resp_drain :: "(string \<Rightarrow> goerr + resp_stream_event) \<Rightarrow> resp_stream \<Rightarrow> (goerr + stream_chunk) list" where
  "resp_drain D s = (case resp_Recv D s of
       (RecvChunk chunk, s) \<Rightarrow> Inr chunk # resp_drain D s
     | (RecvEOF, s) \<Rightarrow> []
     | (RecvErr err, s) \<Rightarrow> [Inl err])"
  by pat_completeness auto
termination
  by (relation "measure (\<lambda>(D, s). resp_stream_size s)")
    (auto simp: resp_Recv_def resp_stream_size_def dest!: resp_recv_progress [OF sym])

declare resp_drain.simps [simp del]

definition streamResponses ::
  "'w http_env \<Rightarrow> resp_codec \<Rightarrow> client \<Rightarrow> ctx \<Rightarrow> request \<Rightarrow> 'w \<Rightarrow> (goerr + resp_stream) \<times> 'w" where
  "streamResponses H R c ctx req w = (case rcEncode R ((buildRespRequest c req)\<lparr>rrStream := True\<rparr>) of
       Inl err \<Rightarrow> (Inl (ErrWrap ''openai: encode responses request: '' err), w)
     | Inr body \<Rightarrow> (case openSSE H c ctx body w of
         (Inl err, w) \<Rightarrow> (Inl err, w)
       | (Inr sc, w) \<Rightarrow> (Inr \<lparr>psScan = sc, psClient = c, psDone = False\<rparr>, w)))"

section \<open>The client as a model\<close>

definition openai_Generate ::
  "'w http_env \<Rightarrow> resp_codec \<Rightarrow> client \<Rightarrow> ctx \<Rightarrow> request \<Rightarrow> 'w \<Rightarrow> (goerr + response) \<times> 'w" where
  "openai_Generate H R c ctx req w =
     (if clUseResponses c then generateResponses H R c ctx req w else generate_chat H c ctx req w)"

text \<open>A drained stream as the sequence of calls that the run loop makes; \<open>Close\<close> closes the body.\<close>

definition drained :: "(goerr + stream_chunk) list \<Rightarrow> 'w model_stream" where
  "drained rs = \<lparr>strmRecv = map (\<lambda>r w. (r, w)) rs, strmClose = (\<lambda>w. w)\<rparr>"

definition openai_Stream ::
  "'w http_env \<Rightarrow> (string \<Rightarrow> goerr + stream_response) \<Rightarrow> resp_codec \<Rightarrow> client \<Rightarrow> ctx \<Rightarrow> request \<Rightarrow> 'w \<Rightarrow>
     (goerr + 'w model_stream) \<times> 'w" where
  "openai_Stream H D R c ctx req w =
     (if clUseResponses c
      then (case streamResponses H R c ctx req w of
          (Inl err, w) \<Rightarrow> (Inl err, w)
        | (Inr s, w) \<Rightarrow> (Inr (drained (resp_drain (rcEvent R) s)), w))
      else (case stream_chat H c ctx req w of
          (Inl err, w) \<Rightarrow> (Inl err, w)
        | (Inr s, w) \<Rightarrow> (Inr (drained (chat_drain D s)), w)))"

definition openai_model ::
  "'w http_env \<Rightarrow> (string \<Rightarrow> goerr + stream_response) \<Rightarrow> resp_codec \<Rightarrow> client \<Rightarrow> 'w model" where
  "openai_model H D R c =
     \<lparr>mdlID = clModel c, mdlGenerate = openai_Generate H R c, mdlStream = Some (openai_Stream H D R c),
      mdlThreadsResponses = Some (ThreadsResponses c), mdlThreadingUnsupported = Some ThreadingUnsupported\<rparr>"

end
