(* ===== verification/Go_Retry.thy ===== *)
theory Go_Retry
  imports Main
begin

text \<open>
  Loops that ask a server again after an error that may pass. The clients of the program that retry
  (\<open>openai\<close> and \<open>jev\<close>) differ in their waits and in what they take for an error of this kind; what their
  loops come to does not depend on it, and is shown once. A server is the list of its answers.
\<close>

text \<open>The first answer that settles the request, or else the error of the last one; the answers not used.\<close>

fun settle :: "('r \<Rightarrow> 'e + ('e + 'b)) \<Rightarrow> 'e + 'b \<Rightarrow> nat \<Rightarrow> 'r list \<Rightarrow> ('e + 'b) \<times> 'r list" where
  "settle verdict prior 0 rs = (prior, rs)"
| "settle verdict prior (Suc n) [] = (prior, [])"
| "settle verdict prior (Suc n) (r # rs) = (case verdict r of
       Inr res \<Rightarrow> (res, rs)
     | Inl err \<Rightarrow> settle verdict (Inl err) n rs)"

text \<open>
  \<open>loop n k lastErr w\<close>: \<open>n\<close> attempts are left, \<open>k\<close> is what the client keeps for its waits, \<open>lastErr\<close> the error
  of the attempt before. The laws: without an attempt the last error is returned; with one the next
  answer is taken, and it is returned or becomes the last error, as its verdict says.
\<close>

locale retry_loop =
  fixes loop :: "nat \<Rightarrow> 'k \<Rightarrow> 'e option \<Rightarrow> 'w \<Rightarrow> ('e + 'b) \<times> 'w"
    and verdict :: "'r \<Rightarrow> 'e + ('e + 'b)"
    and script :: "'w \<Rightarrow> 'r list"
    and nothing :: 'b
  assumes loop_end: "loop 0 k lastErr w = (case lastErr of None \<Rightarrow> Inr nothing | Some err \<Rightarrow> Inl err, w)"
    and loop_done: "script w = r # rs \<Longrightarrow> verdict r = Inr res \<Longrightarrow> \<exists>w'. loop (Suc n) k lastErr w = (res, w') \<and> script w' = rs"
    and loop_again: "script w = r # rs \<Longrightarrow> verdict r = Inl err \<Longrightarrow>
       \<exists>k' w'. loop (Suc n) k lastErr w = loop n k' (Some err) w' \<and> script w' = rs"
begin

lemma loop_settles:
  "n \<le> length (script w) \<Longrightarrow> (fst (loop n k lastErr w), script (snd (loop n k lastErr w))) =
     settle verdict (case lastErr of None \<Rightarrow> Inr nothing | Some err \<Rightarrow> Inl err) n (script w)"
proof (induction n arbitrary: k lastErr w)
  case 0
  then show ?case by (simp add: loop_end)
next
  case (Suc n)
  from Suc.prems obtain r rs where r: "script w = r # rs" by (cases "script w") auto
  show ?case
  proof (cases "verdict r")
    case (Inl err)
    from loop_again [OF r Inl, of n k lastErr] obtain k' w' where w': "loop (Suc n) k lastErr w = loop n k' (Some err) w'" "script w' = rs"
      by blast
    have "n \<le> length (script w')" using Suc.prems r w'(2) by simp
    from Suc.IH [OF this, of k' "Some err"] show ?thesis using w' r Inl by simp
  next
    case (Inr res)
    from loop_done [OF r Inr, of n k lastErr] show ?thesis using r Inr by auto
  qed
qed

end

end
