(* ===== verification/OpenAI_Props.thy ===== *)
theory OpenAI_Props
  imports OpenAI_Responses Run Demo Go_Retry
begin

text \<open>
  What the client promises: the verdict of a sequence of answers under retries, the bounds of the
  waits between them, that a streamed response is the response of the message its deltas add up
  to, and that assistant turns survive both wire formats.
\<close>

section \<open>Retries\<close>

text \<open>
  The reference: what a single answer means. \<open>Inr\<close> settles the request, \<open>Inl\<close> is the error that is
  kept in case it was the last one.
\<close>

definition verdict :: "'w http_env \<Rightarrow> goerr + http_response \<Rightarrow> goerr + (goerr + string)" where
  "verdict H r = (case r of
       Inl err \<Rightarrow> Inl err
     | Inr resp \<Rightarrow>
         if hrStatus resp div 100 = 2 then
           (case hrReadErr resp of
              Some err \<Rightarrow> Inl (ErrWrap ''openai: read response body: '' err)
            | None \<Rightarrow> if hxJSONValid H (hrBody resp) then Inr (Inr (hrBody resp))
                else Inl (ErrText (''openai: invalid/empty JSON in 2xx response ('' @ itoa (int (length (hrBody resp))) @ '' bytes)'')))
         else if hrStatus resp = 429 \<or> hrStatus resp \<ge> 500 then Inl (parseAPIError H (hrStatus resp) (hrBody resp))
         else Inr (Inl (parseAPIError H (hrStatus resp) (hrBody resp))))"

text \<open>
  A server whose answers are a list in the world, and which is not disturbed by the clock, the
  random numbers or the semaphore; no wait is cut short by the context.
\<close>

definition scripted :: "'w http_env \<Rightarrow> ('w \<Rightarrow> (goerr + http_response) list) \<Rightarrow> bool" where
  "scripted H script \<longleftrightarrow>
     (\<forall>ctx q w. script w \<noteq> [] \<longrightarrow> fst (hxDo H ctx q w) = hd (script w) \<and> script (snd (hxDo H ctx q w)) = tl (script w)) \<and>
     (\<forall>ctx w. fst (hxAcquire H ctx w) = None \<and> script (snd (hxAcquire H ctx w)) = script w) \<and>
     (\<forall>w. script (hxRelease H w) = script w) \<and>
     (\<forall>ctx d w. fst (hxWait H ctx d w) = None \<and> script (snd (hxWait H ctx d w)) = script w) \<and>
     (\<forall>n w. script (snd (hxRand H n w)) = script w) \<and>
     (\<forall>v w. script (snd (hxUntil H v w)) = script w)"

lemma scripted_nextWait: "scripted H script \<Longrightarrow> script (snd (nextWait H b prev ov w)) = script w"
  by (auto simp: scripted_def nextWait_def Let_def split: prod.splits) (metis snd_conv)+

lemma scripted_parseRetryAfter: "scripted H script \<Longrightarrow> script (snd (parseRetryAfter H v w)) = script w"
  by (auto simp: scripted_def parseRetryAfter_def Let_def split: prod.splits option.splits) (metis snd_conv)+

lemma scripted_attempt:
  assumes "scripted H script" "hxNewRequest H (endpoint c) = None" "script w = r # rs"
  shows "script (snd (one_attempt H c ctx body w)) = rs \<and>
    (case verdict H r of
       Inr res \<Rightarrow> fst (one_attempt H c ctx body w) = Done res
     | Inl err \<Rightarrow> \<exists>d. fst (one_attempt H c ctx body w) = Again err d)"
proof -
  let ?q = "\<lparr>hqURL = endpoint c, hqHeaders = setHeaders c (hxRange H w (clHeaders c)) Map.empty, hqBody = body\<rparr>"
  obtain w1 where d: "hxDo H ctx ?q w = (r, w1)" "script w1 = rs"
    using assms(1,3) unfolding scripted_def by (metis list.distinct(1) list.sel(1,3) prod.collapse)
  show ?thesis
  proof (cases r)
    case (Inl err)
    with d assms(2) show ?thesis by (simp add: one_attempt_def verdict_def)
  next
    case (Inr resp)
    show ?thesis
      using d assms(2) Inr scripted_parseRetryAfter [OF assms(1), of "hrRetryAfter resp" w1]
      by (auto simp: one_attempt_def verdict_def Let_def split: option.splits prod.splits)
  qed
qed

text \<open>The answers of a server that is scripted.\<close>

definition heard :: "'w http_env \<Rightarrow> client \<Rightarrow> ('w \<Rightarrow> (goerr + http_response) list) \<Rightarrow> 'w \<Rightarrow> (goerr + http_response) list" where
  "heard H c script w = (if scripted H script \<and> hxNewRequest H (endpoint c) = None then script w else [])"

lemma heard_Cons: "heard H c script w = r # rs \<Longrightarrow> scripted H script \<and> hxNewRequest H (endpoint c) = None \<and> script w = r # rs"
  by (simp add: heard_def split: if_splits)

text \<open>The wait before an attempt changes nothing of the script.\<close>

lemma scripted_wait:
  assumes "scripted H script"
    "(if first then (None, prev, w)
      else (case nextWait H b prev ov w of ((wait, prev), w) \<Rightarrow>
        (case hxWait H ctx wait w of (e, w) \<Rightarrow> (e, prev, w)))) = (waited, prev', w1)"
  shows "waited = None \<and> script w1 = script w"
proof (cases first)
  case True
  with assms(2) show ?thesis by simp
next
  case False
  obtain wt p wa where n: "nextWait H b prev ov w = ((wt, p), wa)" by (metis prod.exhaust)
  obtain e wb where h: "hxWait H ctx wt wa = (e, wb)" by (metis prod.exhaust)
  from False assms(2) n h have "waited = e" "w1 = wb" by auto
  moreover have "e = None" "script wb = script wa"
    using assms(1) h unfolding scripted_def by (metis fst_conv snd_conv)+
  moreover have "script wa = script w" using scripted_nextWait [OF assms(1), of b prev ov w] n by simp
  ultimately show ?thesis by simp
qed

lemma attempt_taken:
  assumes "heard H c script w = r # rs"
  obtains a w' prev' where "heard H c script w' = rs"
    "do_attempts H c ctx body (Suc n) first prev ov lastErr w =
       (case a of Done res \<Rightarrow> (res, w') | Again err d \<Rightarrow> do_attempts H c ctx body n False prev' d (Some err) w')"
    "case verdict H r of Inr res \<Rightarrow> a = Done res | Inl err \<Rightarrow> \<exists>d. a = Again err d"
proof -
  note h = heard_Cons [OF assms]
  obtain waited prev' w1 where w1:
    "(if first then (None, prev, w)
      else (case nextWait H (clBackoff c) prev ov w of ((wait, prev), w) \<Rightarrow>
        (case hxWait H ctx wait w of (e, w) \<Rightarrow> (e, prev, w)))) = (waited, prev', w1)"
    by (metis prod.exhaust)
  have s1: "waited = None" "script w1 = r # rs" using scripted_wait [OF conjunct1 [OF h] w1] h by simp_all
  obtain a w2 where a: "one_attempt H c ctx body w1 = (a, w2)" by (metis prod.exhaust)
  note att = scripted_attempt [of H script c w1 r rs ctx body, unfolded a, simplified]
  show thesis
  proof (rule that)
    show "heard H c script w2 = rs" using att h s1(2) by (simp add: heard_def)
    show "do_attempts H c ctx body (Suc n) first prev ov lastErr w =
       (case a of Done res \<Rightarrow> (res, w2) | Again err d \<Rightarrow> do_attempts H c ctx body n False prev' d (Some err) w2)"
      using w1 s1(1) a by (simp split: attempt.split)
    show "case verdict H r of Inr res \<Rightarrow> a = Done res | Inl err \<Rightarrow> \<exists>d. a = Again err d" using att h s1(2) by (simp split: sum.split sum.split_asm)
  qed
qed

interpretation openai: retry_loop "\<lambda>n (first, prev, ov). do_attempts H c ctx body n first prev ov" "verdict H" "heard H c script" "[]"
  for H c ctx body script
proof
  show "(case k of (first, prev, ov) \<Rightarrow> do_attempts H c ctx body 0 first prev ov) lastErr w =
      (case lastErr of None \<Rightarrow> Inr [] | Some err \<Rightarrow> Inl err, w)" for k lastErr w
    by (simp split: prod.split option.split)
  show "\<exists>w'. (case k of (first, prev, ov) \<Rightarrow> do_attempts H c ctx body (Suc n) first prev ov) lastErr w = (res, w') \<and>
      heard H c script w' = rs" if "heard H c script w = r # rs" "verdict H r = Inr res" for w r rs res n k lastErr
  proof (cases k)
    case (fields first prev ov)
    show ?thesis by (rule attempt_taken [OF that(1), of ctx body n first prev ov lastErr]) (use that(2) fields in auto)
  qed
  show "\<exists>k' w'. (case k of (first, prev, ov) \<Rightarrow> do_attempts H c ctx body (Suc n) first prev ov) lastErr w =
      (case k' of (first, prev, ov) \<Rightarrow> do_attempts H c ctx body n first prev ov) (Some err) w' \<and> heard H c script w' = rs"
    if h: "heard H c script w = r # rs" and v: "verdict H r = Inl err" for w r rs err n k lastErr
  proof (cases k)
    case (fields first prev ov)
    obtain a w' prev' where a: "heard H c script w' = rs"
      "do_attempts H c ctx body (Suc n) first prev ov lastErr w =
        (case a of Done res \<Rightarrow> (res, w') | Again err d \<Rightarrow> do_attempts H c ctx body n False prev' d (Some err) w')"
      "case verdict H r of Inr res \<Rightarrow> a = Done res | Inl err \<Rightarrow> \<exists>d. a = Again err d"
      by (rule attempt_taken [OF h, of ctx body n first prev ov lastErr]) blast
    from a(3) v obtain d where "a = Again err d" by auto
    with a(1,2) fields show ?thesis by (intro exI [of _ "(False, prev', d)"] exI [of _ w']) (simp del: do_attempts.simps)
  qed
qed

lemma scripted_attempts:
  assumes "scripted H script" "hxNewRequest H (endpoint c) = None" "n \<le> length (script w)"
  shows "(fst (do_attempts H c ctx body n first prev ov lastErr w), script (snd (do_attempts H c ctx body n first prev ov lastErr w))) =
     settle (verdict H) (case lastErr of None \<Rightarrow> Inr [] | Some err \<Rightarrow> Inl err) n (script w)"
proof -
  have "heard H c script = script" using assms(1,2) by (simp add: heard_def fun_eq_iff)
  then show ?thesis using openai.loop_settles [where k = "(first, prev, ov)" and H = H and c = c and script = script and n = n and w = w and ctx = ctx and body = body and lastErr = lastErr] assms(3) by simp
qed

text \<open>
  C32: against a server that answers with a given sequence, and a context that is not cancelled,
  \<open>do\<close> returns what the first settling answer among the first \<open>MaxRetries + 1\<close> says (a valid 2xx
  body, or the error of a status that is not retried), or the error of the last of them; it uses
  no answer after that. With a negative \<open>MaxRetries\<close> it sends nothing and returns an empty body.
\<close>

theorem do_settles:
  assumes "scripted H script" "hxNewRequest H (endpoint c) = None"
    and "nat (boMaxRetries (clBackoff c) + 1) \<le> length (script w)"
  shows "(fst (client_do H c ctx body w), script (snd (client_do H c ctx body w))) =
     settle (verdict H) (Inr []) (nat (boMaxRetries (clBackoff c) + 1)) (script w)"
proof (cases "clSem c")
  case None
  then show ?thesis using scripted_attempts [OF assms, where lastErr = None]
    by (simp add: client_do_def split: prod.splits)
next
  case (Some k)
  obtain w1 where w1: "hxAcquire H ctx w = (None, w1)" "script w1 = script w"
    using assms(1) unfolding scripted_def by (metis prod.collapse)
  have "script (hxRelease H v) = script v" for v using assms(1) unfolding scripted_def by simp
  then show ?thesis
    using scripted_attempts [OF assms(1,2), where w = w1 and lastErr = None] assms(3) w1 Some
    by (simp add: client_do_def split: prod.splits) (metis fst_conv snd_conv)
qed

text \<open>A server that answers by \<open>f\<close>, and one of which the world is the list of answers, for the witnesses.\<close>

definition env_of :: "('w \<Rightarrow> (goerr + http_response) \<times> 'w) \<Rightarrow> 'w http_env" where
  "env_of f = \<lparr>hxRange = (\<lambda>w l. l), hxNewRequest = (\<lambda>u. None), hxDo = (\<lambda>ctx q. f),
     hxAcquire = (\<lambda>ctx w. (None, w)), hxRelease = (\<lambda>w. w), hxWait = (\<lambda>ctx d w. (None, w)), hxRand = (\<lambda>n w. (0, w)),
     hxUntil = (\<lambda>v w. (None, w)), hxJSONValid = (\<lambda>s. s = ''{}''), hxErrorEnvelope = (\<lambda>s. ([], [])),
     hxStatusText = (\<lambda>n. ''status''), hxEncode = (\<lambda>q. Inr ''{}''),
     hxDecode = (\<lambda>s. Inl (ErrText ''no codec''))\<rparr>"

definition list_env :: "(goerr + http_response) list http_env" where
  "list_env = env_of (\<lambda>w. case w of [] \<Rightarrow> (Inl (ErrText ''EOF''), []) | r # rs \<Rightarrow> (r, rs))"

definition answer :: "int \<Rightarrow> string \<Rightarrow> goerr + http_response" where
  "answer status body = Inr \<lparr>hrStatus = status, hrBody = body, hrReadErr = None, hrRetryAfter = []\<rparr>"

lemma scripted_list_env: "scripted list_env (\<lambda>w. w)"
  by (simp add: scripted_def list_env_def env_of_def split: list.splits)

theorem do_settles_witness:
  "fst (client_do list_env (openai_New []) CtxBackground ''{}'' [answer 429 [], answer 200 [], answer 200 ''{}'', answer 500 [], answer 400 []])
     = Inr ''{}''"
proof -
  let ?w = "[answer 429 [], answer 200 [], answer 200 ''{}'', answer 500 [], answer 400 []]"
  have r: "nat (boMaxRetries (clBackoff (openai_New [])) + 1) = 5" by (simp add: openai_New_def)
  have "fst (settle (verdict list_env) (Inr []) 5 ?w) = Inr ''{}''"
    by (simp add: numeral_eq_Suc answer_def verdict_def list_env_def env_of_def)
  moreover have nr: "hxNewRequest list_env (endpoint (openai_New [])) = None" by (simp add: list_env_def env_of_def)
  have len: "nat (boMaxRetries (clBackoff (openai_New [])) + 1) \<le> length ?w" by (simp add: r)
  have "fst (client_do list_env (openai_New []) CtxBackground ''{}'' ?w) = fst (settle (verdict list_env) (Inr []) 5 ?w)"
    using do_settles [OF scripted_list_env nr len, of CtxBackground "''{}''", unfolded r, THEN arg_cong, of fst]
    by (simp only: fst_conv)
  ultimately show ?thesis by simp
qed

section \<open>Waits\<close>

text \<open>
  With jitter the wait before a retry lies between \<open>Base\<close> and \<open>Cap\<close>, is not more than three times the
  previous one, and keeps the running wait in this range; a \<open>Retry-After\<close> hint that \<open>do\<close> has cut to
  \<open>Cap\<close> is used as it is and leaves the running wait alone. (\<open>rand.Int64N(n)\<close> is in \<open>[0, n)\<close>, and \<open>Cap\<close> is
  less than 90 years, so that nothing overflows.)
\<close>

theorem nextWait_bounds:
  assumes rand: "\<And>n w. 0 < n \<Longrightarrow> 0 \<le> fst (hxRand H n w) \<and> fst (hxRand H n w) < n"
    and b: "boJitter b" "0 < boBase b" "boBase b \<le> boCap b" "boCap b < 2 ^ 61"
    and p: "boBase b \<le> prev" "prev \<le> boCap b"
    and r: "nextWait H b prev override w = ((wait, prev'), w')"
  shows "(if override > 0 then wait = override \<and> prev' = prev
          else boBase b \<le> wait \<and> wait \<le> boCap b \<and> wait \<le> prev * 3 \<and> prev' = wait) \<and>
         boBase b \<le> prev' \<and> prev' \<le> boCap b"
proof (cases "override > 0")
  case True
  with r p show ?thesis by (simp add: nextWait_def)
next
  case False
  define span where "span = prev * 3 - boBase b + 1"
  have "in_i64 span" "1 \<le> span" using b p by (simp_all add: span_def in_i64_def)
  obtain x w1 where x: "hxRand H span w = (x, w1)" by (metis prod.exhaust)
  with rand [of span w] \<open>1 \<le> span\<close> have "0 \<le> x" "x < span" by simp_all
  then have "in_i64 (boBase b + x)" "boBase b \<le> boBase b + x" "boBase b + x \<le> prev * 3"
    using b p by (simp_all add: span_def in_i64_def)
  then show ?thesis
    using False r x b p \<open>in_i64 span\<close> \<open>1 \<le> span\<close> by (auto simp: nextWait_def Let_def span_def split: if_splits)
qed

theorem nextWait_bounds_witness:
  "fst (nextWait list_env (clBackoff (openai_New [])) (boBase (clBackoff (openai_New []))) 0 []) = (500000000, 500000000)
   \<and> boCap (clBackoff (openai_New [])) = 30 * time_second"
proof -
  let ?b = "clBackoff (openai_New [])"
  obtain wt p w' where n: "nextWait list_env ?b (boBase ?b) 0 [] = ((wt, p), w')" by (metis prod.exhaust)
  have "boBase ?b \<le> wt" "p = wt"
    using nextWait_bounds [of list_env ?b "boBase ?b" 0 "[]" wt p w', OF _ _ _ _ _ _ _ n]
    by (simp_all add: list_env_def env_of_def openai_New_def time_second_def time_millisecond_def)
  moreover have "wt = 500000000"
    using n by (simp add: nextWait_def list_env_def env_of_def openai_New_def time_second_def time_millisecond_def Let_def i64_def)
  ultimately show ?thesis using n by (simp add: openai_New_def)
qed

text \<open>The waits of a request whose answers carry no hint.\<close>

fun wait_seq :: "'w http_env \<Rightarrow> backoff \<Rightarrow> duration \<Rightarrow> nat \<Rightarrow> 'w \<Rightarrow> duration list" where
  "wait_seq H b prev 0 w = []"
| "wait_seq H b prev (Suc n) w = (case nextWait H b prev 0 w of ((wait, prev), w) \<Rightarrow> wait # wait_seq H b prev n w)"

text \<open>
  Without jitter every wait is \<open>Base\<close>: the running wait starts at \<open>Base\<close>, and a running wait of
  \<open>Base\<close> gives the wait \<open>Base\<close> again, so the exponential schedule \<open>Base, Base*2, Base*4\<close> never starts.
\<close>

theorem backoff_without_jitter_never_grows:
  "wait_seq H \<lparr>boBase = base, boCap = max base top', boMaxRetries = r, boJitter = False\<rparr> base n w = replicate n base"
  by (induction n arbitrary: w) (simp_all add: nextWait_def Let_def)

section \<open>Messages on the wire\<close>

lemma fold_call_items:
  "foldl item_step m (map call_item tcs) = m\<lparr>msgToolCalls := msgToolCalls m @ tcs\<rparr>"
  by (induction tcs arbitrary: m) (simp_all add: item_step_def call_item_def item_zero_def)

lemma from_to_wire_call [simp]: "from_wire_call (to_wire_call tc) = tc"
  by (simp add: from_wire_call_def to_wire_call_def)

text \<open>
  C39: an assistant turn of the history, sent to a server and echoed by it, is read back with the
  same text and the same tool calls in the same order, over the Chat Completions and over the
  Responses interface; its reasoning is not sent.
\<close>

theorem assistant_turn_roundtrip:
  "wire_to_message (to_wire_message (AssistantMessage t\<lparr>msgToolCalls := tcs, msgReasoning := rs\<rparr>))
     = AssistantMessage t\<lparr>msgToolCalls := tcs\<rparr> \<and>
   parseRespMessage (resp_response_zero\<lparr>rsOutput := toRespInput [AssistantMessage t\<lparr>msgToolCalls := tcs, msgReasoning := rs\<rparr>]\<rparr>)
     = AssistantMessage t\<lparr>msgToolCalls := tcs\<rparr>"
proof
  show "wire_to_message (to_wire_message (AssistantMessage t\<lparr>msgToolCalls := tcs, msgReasoning := rs\<rparr>))
     = AssistantMessage t\<lparr>msgToolCalls := tcs\<rparr>"
    by (simp add: wire_to_message_def to_wire_message_def wire_message_zero_def assistantText_def firstNonEmpty_def
        AssistantMessage_def o_def Let_def)
  show "parseRespMessage (resp_response_zero\<lparr>rsOutput := toRespInput [AssistantMessage t\<lparr>msgToolCalls := tcs, msgReasoning := rs\<rparr>]\<rparr>)
     = AssistantMessage t\<lparr>msgToolCalls := tcs\<rparr>"
    by (simp add: parseRespMessage_def toRespInput_def message_items_def AssistantMessage_def fold_call_items
        item_step_def text_item_def item_zero_def output_text_def resp_response_zero_def)
qed

section \<open>Streaming\<close>

text \<open>
  The reference: the message that the deltas of a sequence of frames add up to. Of every frame the
  first choice counts; the fragments of the tool calls are put together by their index, in the
  order in which the indices first occur.
\<close>

definition last_nonempty :: "string list \<Rightarrow> string" where
  "last_nonempty xs = (let ys = filter (\<lambda>x. x \<noteq> []) xs in if ys = [] then [] else last ys)"

definition first_occurrences :: "'a list \<Rightarrow> 'a list" where
  "first_occurrences xs = rev (remdups (rev xs))"

definition choices :: "stream_response list \<Rightarrow> stream_choice list" where
  "choices frs = concat (map (\<lambda>f. take 1 (srChoices f)) frs)"

definition delta_reasoning :: "stream_choice \<Rightarrow> string" where
  "delta_reasoning ch = firstNonEmpty (wmReasoning (sxDelta ch)) (wmReasoningContent (sxDelta ch))"

definition call_deltas :: "stream_response list \<Rightarrow> wire_tool_call list" where
  "call_deltas frs = concat (map (\<lambda>ch. wmToolCalls (sxDelta ch)) (choices frs))"

definition merged_call :: "wire_tool_call list \<Rightarrow> int \<Rightarrow> tool_call" where
  "merged_call tcs i = (let ds = filter (\<lambda>tc. wtIndex tc = i) tcs in
     \<lparr>tcID = last_nonempty (map wtID ds), tcName = last_nonempty (map wtName ds), tcArguments = concat (map wtArguments ds)\<rparr>)"

definition merged_message :: "stream_response list \<Rightarrow> wire_message" where
  "merged_message frs = wire_message_zero
     \<lparr>wmContent := concat (map (\<lambda>ch. wmContent (sxDelta ch)) (choices frs)),
      wmReasoning := concat (map delta_reasoning (choices frs)),
      wmToolCalls := map (\<lambda>i. to_wire_call (merged_call (call_deltas frs) i)) (first_occurrences (map wtIndex (call_deltas frs)))\<rparr>"

definition merged_usage :: "stream_response list \<Rightarrow> wire_usage option" where
  "merged_usage frs = (let us = filter (\<lambda>u. u \<noteq> None) (map srUsage frs) in if us = [] then None else last us)"

definition merged_response :: "client \<Rightarrow> stream_response list \<Rightarrow> chat_response" where
  "merged_response c frs = \<lparr>cpID = [], cpModel = clModel c,
     cpChoices = [\<lparr>wcIndex = 0, wcMessage = merged_message frs,
        wcFinishReason = last_nonempty (map sxFinishReason (choices frs))\<rparr>],
     cpUsage = merged_usage frs\<rparr>"

lemma last_nonempty_snoc [simp]:
  "last_nonempty (xs @ [x]) = (if x \<noteq> [] then x else last_nonempty xs)"
  by (simp add: last_nonempty_def Let_def)

lemma last_nonempty_Nil [simp]: "last_nonempty [] = []"
  by (simp add: last_nonempty_def)

lemma first_occurrences_Nil [simp]: "first_occurrences [] = []"
  by (simp add: first_occurrences_def)

lemma first_occurrences_snoc [simp]:
  "first_occurrences (xs @ [x]) = (if x \<in> set xs then first_occurrences xs else first_occurrences xs @ [x])"
  by (simp add: first_occurrences_def)

lemma set_first_occurrences [simp]: "set (first_occurrences xs) = set xs"
  by (simp add: first_occurrences_def)

lemma merged_call_snoc:
  "merged_call (tcs @ [tc]) i = (if wtIndex tc = i then apply_call_delta tc (merged_call tcs i) else merged_call tcs i)"
  by (simp add: merged_call_def apply_call_delta_def Let_def)

text \<open>The invariant of a stream after the frames \<open>frs\<close>.\<close>

definition calls_ok :: "wire_tool_call list \<Rightarrow> chat_stream \<Rightarrow> bool" where
  "calls_ok tcs s \<longleftrightarrow> csOrder s = first_occurrences (map wtIndex tcs) \<and>
     csToolCalls s = (\<lambda>i. if i \<in> wtIndex ` set tcs then Some (merged_call tcs i) else None)"

definition stream_ok :: "client \<Rightarrow> stream_response list \<Rightarrow> chat_stream \<Rightarrow> bool" where
  "stream_ok c frs s \<longleftrightarrow> csClient s = c \<and>
     csText s = concat (map (\<lambda>ch. wmContent (sxDelta ch)) (choices frs)) \<and>
     csReasoning s = concat (map delta_reasoning (choices frs)) \<and>
     csFinish s = last_nonempty (map sxFinishReason (choices frs)) \<and>
     csUsage s = merged_usage frs \<and> calls_ok (call_deltas frs) s"

lemma merged_call_none: "i \<notin> wtIndex ` set tcs \<Longrightarrow> merged_call tcs i = tool_call_zero"
proof -
  assume "i \<notin> wtIndex ` set tcs"
  then have "filter (\<lambda>tc. wtIndex tc = i) tcs = []" by (auto simp: filter_empty_conv)
  then show ?thesis by (simp add: merged_call_def tool_call_zero_def)
qed

lemma calls_ok_add: "calls_ok tcs s \<Longrightarrow> calls_ok (tcs @ [tc]) (add_call_delta tc s)"
  by (auto simp: calls_ok_def add_call_delta_def merged_call_snoc merged_call_none fun_eq_iff)

lemma calls_ok_fold: "calls_ok tcs s \<Longrightarrow> calls_ok (tcs @ new) (foldl (\<lambda>s tc. add_call_delta tc s) s new)"
proof (induction new arbitrary: tcs s)
  case (Cons tc new)
  from Cons.IH [OF calls_ok_add [OF Cons.prems], of tc] show ?case by simp
qed simp

lemma calls_ok_cong: "csOrder s = csOrder t \<Longrightarrow> csToolCalls s = csToolCalls t \<Longrightarrow> calls_ok tcs s = calls_ok tcs t"
  by (simp add: calls_ok_def)

lemma fold_call_delta_keeps [simp]:
  "csText (foldl (\<lambda>s tc. add_call_delta tc s) s tcs) = csText s"
  "csReasoning (foldl (\<lambda>s tc. add_call_delta tc s) s tcs) = csReasoning s"
  "csFinish (foldl (\<lambda>s tc. add_call_delta tc s) s tcs) = csFinish s"
  "csUsage (foldl (\<lambda>s tc. add_call_delta tc s) s tcs) = csUsage s"
proof -
  have "csText (add_call_delta tc s) = csText s \<and> csReasoning (add_call_delta tc s) = csReasoning s \<and>
      csFinish (add_call_delta tc s) = csFinish s \<and> csUsage (add_call_delta tc s) = csUsage s" for tc s
    by (simp add: add_call_delta_def split: option.splits)
  then have "csText (foldl (\<lambda>s tc. add_call_delta tc s) s tcs) = csText s \<and>
      csReasoning (foldl (\<lambda>s tc. add_call_delta tc s) s tcs) = csReasoning s \<and>
      csFinish (foldl (\<lambda>s tc. add_call_delta tc s) s tcs) = csFinish s \<and>
      csUsage (foldl (\<lambda>s tc. add_call_delta tc s) s tcs) = csUsage s"
    by (induction tcs arbitrary: s) simp_all
  then show "csText (foldl (\<lambda>s tc. add_call_delta tc s) s tcs) = csText s"
    "csReasoning (foldl (\<lambda>s tc. add_call_delta tc s) s tcs) = csReasoning s"
    "csFinish (foldl (\<lambda>s tc. add_call_delta tc s) s tcs) = csFinish s"
    "csUsage (foldl (\<lambda>s tc. add_call_delta tc s) s tcs) = csUsage s" by simp_all
qed

lemma choices_snoc: "choices (frs @ [f]) = choices frs @ take 1 (srChoices f)"
  by (simp add: choices_def)

lemma merged_usage_snoc: "merged_usage (frs @ [f]) = (if srUsage f \<noteq> None then srUsage f else merged_usage frs)"
  by (simp add: merged_usage_def Let_def)

text \<open>A choice that comes with the usage \<open>u\<close> of its frame.\<close>

lemma choice_step_effect:
  assumes "choice_step ch chunk0 send0 s = ((chunk, send), t)" "skTextDelta chunk0 = []" "skReasoningDelta chunk0 = []"
    "skFinal chunk0 = None" "\<not> send0 \<longrightarrow> chunk0 = chunk_zero"
  shows "t = foldl (\<lambda>s tc. add_call_delta tc s)
      (s\<lparr>csFinish := (if sxFinishReason ch \<noteq> [] then sxFinishReason ch else csFinish s),
         csText := csText s @ wmContent (sxDelta ch), csReasoning := csReasoning s @ delta_reasoning ch\<rparr>)
      (wmToolCalls (sxDelta ch)) \<and>
    skTextDelta chunk = wmContent (sxDelta ch) \<and> skReasoningDelta chunk = delta_reasoning ch \<and> skFinal chunk = None \<and>
    (\<not> send \<longrightarrow> chunk = chunk_zero)"
  using assms by (auto simp: choice_step_def delta_reasoning_def Let_def split: if_splits)

lemma frame_step_ok:
  assumes "frame_step f s = ((chunk, send), t)" "stream_ok c frs s"
  shows "stream_ok c (frs @ [f]) t \<and> csScan t = csScan s \<and> csDone t = csDone s \<and> skFinal chunk = None \<and>
    skTextDelta chunk = concat (map (\<lambda>ch. wmContent (sxDelta ch)) (choices [f])) \<and>
    skReasoningDelta chunk = concat (map delta_reasoning (choices [f])) \<and> (\<not> send \<longrightarrow> chunk = chunk_zero)"
proof -
  define s1 where "s1 = (case srUsage f of None \<Rightarrow> s | Some u \<Rightarrow> s\<lparr>csUsage := Some u\<rparr>)"
  define chunk1 where "chunk1 = (case srUsage f of None \<Rightarrow> chunk_zero
      | Some u \<Rightarrow> chunk_zero\<lparr>skUsage := Some (toUsage (csClient s) (Some u))\<rparr>)"
  have c1: "skTextDelta chunk1 = []" "skReasoningDelta chunk1 = []" "skFinal chunk1 = None"
      "srUsage f = None \<longrightarrow> chunk1 = chunk_zero"
    by (simp_all add: chunk1_def chunk_zero_def split: option.splits)
  have s1: "csText s1 = csText s" "csReasoning s1 = csReasoning s" "csFinish s1 = csFinish s" "csOrder s1 = csOrder s"
      "csToolCalls s1 = csToolCalls s" "csScan s1 = csScan s" "csDone s1 = csDone s" "csClient s1 = csClient s"
      "csUsage s1 = (if srUsage f \<noteq> None then srUsage f else csUsage s)"
    by (simp_all add: s1_def split: option.splits)
  have fs: "frame_step f s = (case srChoices f of
      [] \<Rightarrow> ((chunk1, srUsage f \<noteq> None), s1) | ch # _ \<Rightarrow> choice_step ch chunk1 (srUsage f \<noteq> None) s1)"
    by (cases "srUsage f"; cases "srChoices f") (simp_all add: frame_step_def s1_def chunk1_def)
  show ?thesis
  proof (cases "srChoices f")
    case Nil
    then have ch: "choices (frs @ [f]) = choices frs" "choices [f] = []" by (simp_all add: choices_def)
    from Nil fs assms(1) have t: "t = s1" "chunk = chunk1" "send \<longleftrightarrow> srUsage f \<noteq> None" by auto
    have "stream_ok c (frs @ [f]) s1"
      using assms(2) s1 by (simp add: stream_ok_def ch merged_usage_snoc calls_ok_def call_deltas_def)
    with t c1 s1 ch show ?thesis by simp
  next
    case (Cons ch chs)
    then have chs: "choices (frs @ [f]) = choices frs @ [ch]" "choices [f] = [ch]" by (simp_all add: choices_def)
    from Cons fs assms(1) have "choice_step ch chunk1 (srUsage f \<noteq> None) s1 = ((chunk, send), t)" by simp
    from choice_step_effect [OF this] c1
    have t: "t = foldl (\<lambda>s tc. add_call_delta tc s)
        (s1\<lparr>csFinish := (if sxFinishReason ch \<noteq> [] then sxFinishReason ch else csFinish s1),
           csText := csText s1 @ wmContent (sxDelta ch), csReasoning := csReasoning s1 @ delta_reasoning ch\<rparr>)
        (wmToolCalls (sxDelta ch))" (is "_ = foldl _ ?s _")
      "skTextDelta chunk = wmContent (sxDelta ch)" "skReasoningDelta chunk = delta_reasoning ch" "skFinal chunk = None"
      "\<not> send \<longrightarrow> chunk = chunk_zero"
      by simp_all
    have "calls_ok (call_deltas frs) ?s" using assms(2) s1 by (simp add: stream_ok_def calls_ok_def)
    from calls_ok_fold [OF this, of "wmToolCalls (sxDelta ch)"]
    have "calls_ok (call_deltas (frs @ [f])) t" by (simp add: t(1) call_deltas_def chs)
    then have "stream_ok c (frs @ [f]) t"
      using assms(2) s1 by (simp add: stream_ok_def chs merged_usage_snoc t(1))
    with t s1 chs show ?thesis by simp
  qed
qed

lemma final_response_merged:
  assumes "stream_ok c frs s"
  shows "chat_to_response c [] (merged_response c frs) = Inr (final_response s)"
proof -
  have eqs: "concat (map (\<lambda>ch. wmContent (sxDelta ch)) (choices frs)) = csText s"
    "concat (map delta_reasoning (choices frs)) = csReasoning s"
    "last_nonempty (map sxFinishReason (choices frs)) = csFinish s" "merged_usage frs = csUsage s" "csClient s = c"
    "first_occurrences (map wtIndex (call_deltas frs)) = csOrder s"
    using assms by (simp_all add: stream_ok_def calls_ok_def)
  have calls: "map (\<lambda>i. the (csToolCalls s i)) (csOrder s) = map (merged_call (call_deltas frs)) (csOrder s)"
    using assms by (auto simp: stream_ok_def calls_ok_def)
  show ?thesis
    by (simp add: chat_to_response_def merged_response_def merged_message_def final_response_def eqs calls
        wire_to_message_def assistantText_def firstNonEmpty_def wire_message_zero_def Let_def o_def)
qed

text \<open>The frames of the lines, and the end of a stream: no more lines, or \<open>[DONE]\<close> and nothing of note after it.\<close>

definition line_frame :: "(string \<Rightarrow> goerr + stream_response) \<Rightarrow> string \<Rightarrow> stream_response option" where
  "line_frame D line = (case sse_data line of None \<Rightarrow> None
     | Some data \<Rightarrow> (case D data of Inl err \<Rightarrow> None | Inr f \<Rightarrow> Some f))"

definition frames :: "(string \<Rightarrow> goerr + stream_response) \<Rightarrow> string list \<Rightarrow> stream_response list" where
  "frames D ls = List.map_filter (line_frame D) ls"

definition no_done :: "string list \<Rightarrow> bool" where
  "no_done ls \<longleftrightarrow> list_all (\<lambda>l. sse_data l \<noteq> Some ''[DONE]'') ls"

definition stream_end :: "string list \<Rightarrow> bool" where
  "stream_end ls \<longleftrightarrow> (case ls of [] \<Rightarrow> True
     | l # rest \<Rightarrow> sse_data l = Some ''[DONE]'' \<and> list_all (\<lambda>l. sse_data l = None) rest)"

lemma recv_lines_set_lines [simp]: "recv_lines D ls (set_lines x s) = recv_lines D ls s"
  by (induction ls) (simp_all split: option.splits sum.splits)

lemma drain_skip:
  assumes "scLines (csScan s) = l # ls" "recv_lines D (l # ls) s = recv_lines D ls t" "scLines (csScan t) = ls"
  shows "chat_drain D s = chat_drain D t"
proof -
  have "chat_Recv D s = chat_Recv D t" using assms by (simp add: chat_Recv_def)
  then show ?thesis by (simp add: chat_drain.simps [of D s] chat_drain.simps [of D t])
qed

lemma drain_frames:
  assumes "stream_ok c frs s" "scLines (csScan s) = ls @ rest" "no_done ls"
  shows "\<exists>cs t. chat_drain D s = map Inr cs @ chat_drain D t \<and> stream_ok c (frs @ frames D ls) t \<and>
    scLines (csScan t) = rest \<and> scErr (csScan t) = scErr (csScan s) \<and> csDone t = csDone s \<and>
    list_all (\<lambda>k. skFinal k = None) cs \<and>
    concat (map skTextDelta cs) = concat (map (\<lambda>ch. wmContent (sxDelta ch)) (choices (frames D ls))) \<and>
    concat (map skReasoningDelta cs) = concat (map delta_reasoning (choices (frames D ls)))"
  using assms
proof (induction ls arbitrary: frs s)
  case Nil
  then show ?case by (intro exI [of _ "[]"] exI [of _ s]) (simp add: frames_def map_filter_simps choices_def)
next
  case (Cons l ls)
  let ?s = "set_lines (ls @ rest) s"
  have nd: "sse_data l \<noteq> Some ''[DONE]''" "no_done ls" using Cons.prems(3) by (simp_all add: no_done_def)
  show ?case
  proof (cases "line_frame D l")
    case None
    then have fr: "frames D (l # ls) = frames D ls" by (simp add: frames_def map_filter_simps)
    have "recv_lines D (l # ls @ rest) s = recv_lines D (ls @ rest) ?s"
      using None nd by (auto simp: line_frame_def split: option.splits sum.splits)
    then have "chat_drain D s = chat_drain D ?s"
      using Cons.prems(2) by (intro drain_skip) simp_all
    moreover have "stream_ok c frs ?s" using Cons.prems(1) by (simp add: stream_ok_def calls_ok_def)
    ultimately show ?thesis using Cons.IH [of frs ?s] nd(2) fr by simp
  next
    case (Some f)
    then obtain d where d: "sse_data l = Some d" "D d = Inr f" by (auto simp: line_frame_def split: option.splits sum.splits)
    from Some have fr: "frames D (l # ls) = f # frames D ls" by (simp add: frames_def map_filter_simps)
    obtain chunk send t where ft: "frame_step f ?s = ((chunk, send), t)" by (metis prod.exhaust)
    have "stream_ok c frs ?s" using Cons.prems(1) by (simp add: stream_ok_def calls_ok_def)
    note ok = frame_step_ok [OF ft this]
    from Cons.IH [of "frs @ [f]" t] ok nd(2) obtain cs t' where ih:
      "chat_drain D t = map Inr cs @ chat_drain D t'" "stream_ok c ((frs @ [f]) @ frames D ls) t'"
      "scLines (csScan t') = rest" "scErr (csScan t') = scErr (csScan s)" "csDone t' = csDone s"
      "list_all (\<lambda>k. skFinal k = None) cs"
      "concat (map skTextDelta cs) = concat (map (\<lambda>ch. wmContent (sxDelta ch)) (choices (frames D ls)))"
      "concat (map skReasoningDelta cs) = concat (map delta_reasoning (choices (frames D ls)))"
      by auto
    have ch: "choices (f # frames D ls) = choices [f] @ choices (frames D ls)" by (simp add: choices_def)
    show ?thesis
    proof (cases send)
      case True
      then have "chat_drain D s = Inr chunk # chat_drain D t"
        using d nd ft Cons.prems(2) by (simp add: chat_drain.simps [of D s] chat_Recv_def)
      with ih ok show ?thesis
        by (intro exI [of _ "chunk # cs"] exI [of _ t']) (simp add: fr ch)
    next
      case False
      with d nd ft have "recv_lines D (l # ls @ rest) s = recv_lines D (ls @ rest) t" by auto
      then have "chat_drain D s = chat_drain D t" using Cons.prems(2) ok by (intro drain_skip) simp_all
      moreover have "skTextDelta chunk = []" "skReasoningDelta chunk = []" using ok False by (simp_all add: chunk_zero_def)
      ultimately show ?thesis using ih ok
        by (intro exI [of _ cs] exI [of _ t']) (simp only: fr ch map_append concat_append append_Nil append_assoc append_Cons)
    qed
  qed
qed

lemma recv_blank:
  "list_all (\<lambda>l. sse_data l = None) ls \<Longrightarrow> csDone s \<Longrightarrow> scErr (csScan s) = None \<Longrightarrow> fst (recv_lines D ls s) = RecvEOF"
  by (induction ls) (auto simp: finalChunk_def)

lemma drain_end:
  assumes "stream_end (scLines (csScan s))" "\<not> csDone s" "scErr (csScan s) = None"
  shows "chat_drain D s = [Inr (chunk_zero\<lparr>skFinal := Some (final_response s), skUsage := Some (rspUsage (final_response s))\<rparr>)]"
proof -
  have fr: "final_response (set_lines x s) = final_response s" for x by (simp add: final_response_def)
  define rest where "rest = tl (scLines (csScan s))"
  have b: "list_all (\<lambda>l. sse_data l = None) rest"
    using assms(1) by (auto simp: stream_end_def rest_def split: list.splits)
  have recv: "chat_Recv D s = (RecvChunk (chunk_zero\<lparr>skFinal := Some (final_response s), skUsage := Some (rspUsage (final_response s))\<rparr>),
      (set_lines rest s)\<lparr>csDone := True\<rparr>)"
    using assms by (cases "scLines (csScan s)") (simp_all add: chat_Recv_def finalChunk_def stream_end_def rest_def fr)
  obtain t where "chat_Recv D ((set_lines rest s)\<lparr>csDone := True\<rparr>) = (RecvEOF, t)"
    using recv_blank [OF b, of "(set_lines rest s)\<lparr>csDone := True\<rparr>" D] assms(3)
    by (simp add: chat_Recv_def) (metis prod.collapse)
  then have "chat_drain D ((set_lines rest s)\<lparr>csDone := True\<rparr>) = []"
    by (subst chat_drain.simps) simp
  with recv show ?thesis by (subst chat_drain.simps) simp
qed

lemma stream_ok_new: "stream_ok c [] (stream_new c sc)"
  by (simp add: stream_ok_def stream_new_def choices_def merged_usage_def calls_ok_def call_deltas_def fun_eq_iff)

lemma stream_assembles_response_lemma:
  assumes "no_done ls" "stream_end rest"
  shows "\<exists>cs r. chat_drain D (stream_new c \<lparr>scLines = ls @ rest, scErr = None\<rparr>) =
      map Inr cs @ [Inr (chunk_zero\<lparr>skFinal := Some r, skUsage := Some (rspUsage r)\<rparr>)] \<and>
    chat_to_response c [] (merged_response c (frames D ls)) = Inr r \<and>
    list_all (\<lambda>k. skFinal k = None) cs \<and>
    concat (map skTextDelta cs) = wmContent (merged_message (frames D ls)) \<and>
    concat (map skReasoningDelta cs) = wmReasoning (merged_message (frames D ls))"
proof -
  let ?s = "stream_new c \<lparr>scLines = ls @ rest, scErr = None\<rparr>"
  obtain cs t where t: "chat_drain D ?s = map Inr cs @ chat_drain D t" "stream_ok c (frames D ls) t"
    "scLines (csScan t) = rest" "scErr (csScan t) = None" "\<not> csDone t" "list_all (\<lambda>k. skFinal k = None) cs"
    "concat (map skTextDelta cs) = concat (map (\<lambda>ch. wmContent (sxDelta ch)) (choices (frames D ls)))"
    "concat (map skReasoningDelta cs) = concat (map delta_reasoning (choices (frames D ls)))"
    using drain_frames [OF stream_ok_new [of c "\<lparr>scLines = ls @ rest, scErr = None\<rparr>"], of ls rest D] assms(1)
    by (auto simp: stream_new_def)
  with drain_end [of t D] assms(2) final_response_merged [OF t(2)] show ?thesis
    by (intro exI [of _ cs] exI [of _ "final_response t"]) (simp add: merged_message_def)
qed

text \<open>
  C30: a stream that is read to its end yields deltas and then exactly one final chunk, however the
  server cut its answer into frames. The text deltas add up to the content, the reasoning deltas
  to the reasoning; the final response is the response that \<open>Generate\<close> makes of the message all
  the deltas add up to, with the fragments of the tool calls put together by index.
\<close>

theorem stream_assembles_response:
  assumes "no_done ls" "stream_end rest"
  shows "\<exists>cs r. chat_drain D (stream_new c \<lparr>scLines = ls @ rest, scErr = None\<rparr>) =
      map Inr cs @ [Inr (chunk_zero\<lparr>skFinal := Some r, skUsage := Some (rspUsage r)\<rparr>)] \<and>
    chat_to_response c [] (merged_response c (frames D ls)) = Inr r \<and>
    list_all (\<lambda>k. skFinal k = None) cs \<and>
    concat (map skTextDelta cs) = wmContent (merged_message (frames D ls)) \<and>
    concat (map skReasoningDelta cs) = wmReasoning (merged_message (frames D ls))"
  using stream_assembles_response_lemma [OF assms] .

text \<open>Two frames of a tool call and \<open>[DONE]\<close>, for the witnesses.\<close>

definition demo_frame :: "string \<Rightarrow> stream_response" where
  "demo_frame data = \<lparr>srChoices = [\<lparr>sxIndex = 0, sxDelta = wire_message_zero\<lparr>wmToolCalls :=
       [\<lparr>wtIndex = 0, wtID = (if data = ''{'' then ''id'' else []), wtType = [], wtName = (if data = ''{'' then ''f'' else []),
         wtArguments = data\<rparr>]\<rparr>, sxFinishReason = ''tool_calls''\<rparr>], srUsage = None\<rparr>"

definition demo_lines :: "string list" where
  "demo_lines = [''data:{'', [], '': ping'', ''data:}'']"

lemma sse_data_demo:
  "sse_data ''data:{'' = Some ''{''" "sse_data [] = None" "sse_data '': ping'' = None" "sse_data ''data:}'' = Some ''}''"
  "sse_data ''data:[DONE]'' = Some ''[DONE]''"
proof -
  have t: "trim_space ''data:{'' = ''data:{''" "trim_space ''{'' = ''{''" "trim_space '': ping'' = '': ping''"
    "trim_space ''data:}'' = ''data:}''" "trim_space ''}'' = ''}''" "trim_space ''data:[DONE]'' = ''data:[DONE]''"
    "trim_space ''[DONE]'' = ''[DONE]''"
    by (rule trim_space_id; simp add: space_seqs_def)+
  show "sse_data ''data:{'' = Some ''{''" "sse_data [] = None" "sse_data '': ping'' = None" "sse_data ''data:}'' = Some ''}''"
    "sse_data ''data:[DONE]'' = Some ''[DONE]''"
    by (simp_all add: sse_data_def t Let_def)
qed

lemma demo_ends: "no_done demo_lines" "stream_end [''data:[DONE]'']"
  by (simp_all add: no_done_def demo_lines_def stream_end_def sse_data_demo)

lemma demo_frames: "frames (\<lambda>d. Inr (demo_frame d)) demo_lines = [demo_frame ''{'', demo_frame ''}'']"
  by (simp add: frames_def demo_lines_def map_filter_simps line_frame_def sse_data_demo)

lemma demo_calls:
  "msgToolCalls (wire_to_message (merged_message [demo_frame ''{'', demo_frame ''}''])) =
     [\<lparr>tcID = ''id'', tcName = ''f'', tcArguments = ''{}''\<rparr>]"
proof -
  have "first_occurrences [0, 0 :: int] = [0]" by (simp add: first_occurrences_def)
  then show ?thesis
    by (simp add: merged_message_def wire_to_message_def choices_def call_deltas_def merged_call_def demo_frame_def
        last_nonempty_def Let_def)
qed

theorem stream_assembles_response_witness:
  "\<exists>cs r. chat_drain (\<lambda>d. Inr (demo_frame d)) (stream_new (openai_New []) \<lparr>scLines = demo_lines @ [''data:[DONE]''], scErr = None\<rparr>) =
      map Inr cs @ [Inr (chunk_zero\<lparr>skFinal := Some r, skUsage := Some (rspUsage r)\<rparr>)] \<and>
    msgToolCalls (rspMessage r) = [\<lparr>tcID = ''id'', tcName = ''f'', tcArguments = ''{}''\<rparr>]"
proof -
  have "msgToolCalls (rspMessage r) = [\<lparr>tcID = ''id'', tcName = ''f'', tcArguments = ''{}''\<rparr>]"
    if "chat_to_response (openai_New []) [] (merged_response (openai_New []) [demo_frame ''{'', demo_frame ''}'']) = Inr r" for r
    using that demo_calls by (auto simp: chat_to_response_def merged_response_def)
  then show ?thesis
    using stream_assembles_response [OF demo_ends, of "\<lambda>d. Inr (demo_frame d)" "openai_New []"]
    unfolding demo_frames by blast
qed

section \<open>A streaming agent\<close>

text \<open>
  An agent with \<open>Stream\<close> set gets from the client, when the server answers with a complete
  stream, the response that \<open>Generate\<close> makes of the message the deltas add up to.
\<close>

theorem streaming_agent_gets_response:
  assumes "agStream a" "agModel a = openai_model H D R c" "\<not> clUseResponses c"
    and "hxEncode H (buildChatRequest c req True) = Inr body"
    and "openSSE H c ctx body (stWorld s) = (Inr \<lparr>scLines = ls @ rest, scErr = None\<rparr>, w)" "no_done ls" "stream_end rest"
  shows "chat_to_response c [] (merged_response c (frames D ls)) = fst (run_state (generate E a ctx req) s)"
proof -
  obtain cs r where r: "chat_drain D (stream_new c \<lparr>scLines = ls @ rest, scErr = None\<rparr>) =
      map Inr cs @ [Inr (chunk_zero\<lparr>skFinal := Some r, skUsage := Some (rspUsage r)\<rparr>)]"
    "chat_to_response c [] (merged_response c (frames D ls)) = Inr r" "list_all (\<lambda>k. skFinal k = None) cs"
    using stream_assembles_response_lemma [OF assms(6,7), of D c] by blast
  define rs :: "(goerr + stream_chunk) list"
    where "rs = map Inr cs @ [Inr (chunk_zero\<lparr>skFinal := Some r, skUsage := Some (rspUsage r)\<rparr>)]"
  have "recv_outcome None rs = Inr r" using r(3) by (simp add: rs_def recv_outcome_deltas)
  then show ?thesis
    using assms(1-5) r(2) recv_loop_drained [of E a None rs "s\<lparr>stWorld := w\<rparr>"]
    by (simp add: generate_def openai_model_def generateStream_def openai_Stream_def stream_chat_def drained_def
        r(1) [folded rs_def] split: prod.splits)
qed

definition sse_env :: "nat http_env" where
  "sse_env = env_of (\<lambda>w. (answer 200 (''data:{'' @ [newline, newline] @ '': ping'' @ [newline] @ ''data:}'' @ [newline]
     @ ''data:[DONE]'' @ [newline]), w))"

definition no_codec :: resp_codec where
  "no_codec = \<lparr>rcEncode = (\<lambda>_. Inl (ErrText ''no codec'')), rcDecode = (\<lambda>_. Inl (ErrText ''no codec'')),
     rcEvent = (\<lambda>_. Inl (ErrText ''no codec''))\<rparr>"

theorem streaming_agent_gets_response_witness:
  "\<exists>r. fst (run_state (generate demo_env (demo_agent\<lparr>agStream := True,
       agModel := openai_model sse_env (\<lambda>d. Inr (demo_frame d)) no_codec (openai_New [])\<rparr>) CtxBackground
       (buildRequest demo_agent []) ) demo_st) = Inr r \<and>
     msgToolCalls (rspMessage r) = [\<lparr>tcID = ''id'', tcName = ''f'', tcArguments = ''{}''\<rparr>]"
proof -
  let ?c = "openai_New []" and ?a = "demo_agent\<lparr>agStream := True,
       agModel := openai_model sse_env (\<lambda>d. Inr (demo_frame d)) no_codec (openai_New [])\<rparr>"
  have o: "openSSE sse_env ?c CtxBackground ''{}'' (stWorld demo_st) =
      (Inr \<lparr>scLines = demo_lines @ [''data:[DONE]''], scErr = None\<rparr>, 0)"
    by (simp add: openSSE_def sse_env_def env_of_def answer_def scan_body_def scan_lines_def drop_cr_def max_token_size_def
        demo_lines_def demo_st_def Let_def)
  have e: "hxEncode sse_env (buildChatRequest ?c (buildRequest demo_agent []) True) = Inr ''{}''" "\<not> clUseResponses ?c"
    by (simp_all add: sse_env_def env_of_def openai_New_def)
  have "fst (run_state (generate demo_env ?a CtxBackground (buildRequest demo_agent [])) demo_st)
      = chat_to_response ?c [] (merged_response ?c [demo_frame ''{'', demo_frame ''}''])"
    using streaming_agent_gets_response [where a = ?a and E = demo_env and D = "\<lambda>d. Inr (demo_frame d)" and R = no_codec, OF _ _ e(2,1) o demo_ends] demo_frames by simp
  with demo_calls show ?thesis by (simp add: chat_to_response_def merged_response_def)
qed

end
