(* ===== verification/Go_Steps.thy ===== *)
theory Go_Steps
  imports Main
begin

text \<open>
  Goroutines that share state. A component is a function from an action and a state to the next
  state, \<open>None\<close> when the action is not possible there; an action is a block of code that no other
  goroutine can see in part. \<open>steps\<close> runs a given interleaving, \<open>reach\<close> are the states of all of
  them. The locales hold what the concurrent components share: a property kept by every action
  holds in every reachable state, and goroutines that each have finitely much to do and are never
  all blocked come to their end.
\<close>

text \<open>The number of values of an \<open>atomic.Uint64\<close>, which goroutines count with.\<close>

definition uint64_size :: nat where
  "uint64_size = 2 ^ 64"

inductive reach :: "('a \<Rightarrow> 's \<Rightarrow> 's option) \<Rightarrow> 's \<Rightarrow> 's \<Rightarrow> bool" for step s0 where
  start: "reach step s0 s0"
| move: "reach step s0 s \<Longrightarrow> step a s = Some t \<Longrightarrow> reach step s0 t"

fun steps :: "('a \<Rightarrow> 's \<Rightarrow> 's option) \<Rightarrow> 'a list \<Rightarrow> 's \<Rightarrow> 's option" where
  "steps step [] s = Some s"
| "steps step (a # as) s = (case step a s of None \<Rightarrow> None | Some t \<Rightarrow> steps step as t)"

lemma reach_steps: "reach step s0 s \<Longrightarrow> steps step as s = Some t \<Longrightarrow> reach step s0 t"
  by (induction as arbitrary: s) (auto split: option.splits intro: reach.move)

lemma reach_trans: "reach step s t \<Longrightarrow> reach step s0 s \<Longrightarrow> reach step s0 t"
  by (induction rule: reach.induct) (auto intro: reach.move)

locale step_invariant =
  fixes step :: "'a \<Rightarrow> 's \<Rightarrow> 's option" and s0 :: 's and inv :: "'s \<Rightarrow> bool"
  assumes inv_start: "inv s0"
    and inv_step: "inv s \<Longrightarrow> step a s = Some t \<Longrightarrow> inv t"
begin

lemma reach_inv: "reach step s0 s \<Longrightarrow> inv s"
  by (induction rule: reach.induct) (auto intro: inv_start inv_step)

end

text \<open>\<open>work\<close> bounds what the internal actions have left to do; as long as it is not \<open>0\<close>, one can go on.\<close>

locale draining = step_invariant +
  fixes internal :: "'a \<Rightarrow> bool" and work :: "'s \<Rightarrow> nat"
  assumes work_less: "inv s \<Longrightarrow> internal a \<Longrightarrow> step a s = Some t \<Longrightarrow> work t < work s"
    and not_stuck: "inv s \<Longrightarrow> 0 < work s \<Longrightarrow> \<exists>a t. internal a \<and> step a s = Some t"
begin

lemma runs_bounded: "inv s \<Longrightarrow> list_all internal as \<Longrightarrow> steps step as s = Some t \<Longrightarrow> work t + length as \<le> work s"
proof (induction as arbitrary: s)
  case (Cons a as)
  from Cons.prems(3) obtain u where u: "step a s = Some u" "steps step as u = Some t" by (auto split: option.splits)
  with Cons.prems Cons.IH [OF inv_step [OF Cons.prems(1) u(1)]] work_less [OF Cons.prems(1) _ u(1)] show ?case by simp
qed simp

lemma drains: "inv s \<Longrightarrow> \<exists>as t. list_all internal as \<and> steps step as s = Some t \<and> work t = 0"
proof (induction "work s" arbitrary: s rule: less_induct)
  case less
  show ?case
  proof (cases "work s = 0")
    case True
    then show ?thesis by (intro exI [of _ "[]"]) simp
  next
    case False
    with not_stuck [OF less.prems] obtain a u where u: "internal a" "step a s = Some u" by blast
    with less.hyps [OF work_less [OF less.prems u] inv_step [OF less.prems u(2)]] obtain as t
      where "list_all internal as" "steps step as u = Some t" "work t = 0" by blast
    with u show ?thesis by (intro exI [of _ "a # as"]) auto
  qed
qed

end

end
