(* ===== verification/Mcp_Rpc.thy ===== *)
theory Mcp_Rpc
  imports Core_Types Go_Steps
begin

text \<open>
  \<open>mcp/jsonrpc.go\<close>: the JSON-RPC client of the MCP package. Any number of goroutines are in \<open>call\<close>,
  one goroutine reads the answers of the server and routes them. A state holds the fields of
  \<open>rpcClient\<close>, the callers and the reader; an action is a block of code that no other goroutine can
  see in part (an operation of an atomic, a section under the mutex, a channel operation), and what
  the environment does at it (an error of a write, a message of the server, a context that is done).
  The reachable states are those of all interleavings.
\<close>

section \<open>Messages\<close>

record rpc_error =
  jeCode :: int
  jeMessage :: string
  jeData :: raw_message

definition rpc_Error :: "rpc_error \<Rightarrow> string" where
  "rpc_Error e = (if jeData e \<noteq> [] then jeMessage e @ '' ('' @ jeData e @ '')'' else jeMessage e)"

record rpc_message =
  jmID :: raw_message
  jmMethod :: string
  jmParams :: raw_message
  jmResult :: raw_message
  jmError :: "rpc_error option"

text \<open>What is written to the server.\<close>

datatype rpc_out =
    OutRequest nat string raw_message
  | OutNotification string raw_message
  | OutMethodNotFound raw_message

text \<open>\<open>strconv.ParseUint(s, 10, 64)\<close> of the id without the quotes around it.\<close>

definition parse_uint64 :: "string \<Rightarrow> nat option" where
  "parse_uint64 s = (let ds = map (\<lambda>c. of_char c :: nat) s;
       n = foldl (\<lambda>n d. n * 10 + (d - 48)) 0 ds
     in if ds = [] \<or> \<not> list_all (\<lambda>d. 48 \<le> d \<and> d \<le> 57) ds \<or> n \<ge> uint64_size then None else Some n)"

definition trim_quotes :: "string \<Rightarrow> string" where
  "trim_quotes s = rev (dropWhile (\<lambda>c. c = quote_char) (rev (dropWhile (\<lambda>c. c = quote_char) s)))"

definition response_id :: "rpc_message \<Rightarrow> nat option" where
  "response_id msg = parse_uint64 (trim_quotes (jmID msg))"

section \<open>The client\<close>

text \<open>
  A caller: before its entry in \<open>pending\<close>, before its write, in the \<open>select\<close>, before the deferred
  deletion, and returned.
\<close>

datatype call_phase =
    CNew | CRegistered | CWaiting | CLeaving "goerr + raw_message" | CReturned "goerr + raw_message"

record rpc_call =
  kID :: nat
  kMethod :: string
  kParams :: raw_message
  kPhase :: call_phase

datatype reader_phase = RdReading | RdSend nat rpc_message | RdStopped

datatype read_error = ReadEOF | ReadError goerr

text \<open>
  The channel of a caller is the entry of \<open>rpChans\<close> with the index of the caller: a buffer for one
  message. \<open>rpReads\<close>, \<open>rpOut\<close> and \<open>rpNotified\<close> are the messages read, written, and given to the handler.
\<close>

record rpc_client =
  rpNextID :: nat
  rpPending :: "nat \<rightharpoonup> nat"
  rpChans :: "rpc_message option list"
  rpCalls :: "rpc_call list"
  rpReader :: reader_phase
  rpHandler :: bool              \<comment> \<open>\<open>onNotify != nil\<close>\<close>
  rpDone :: bool
  rpReadErr :: "read_error option"
  rpReads :: "rpc_message list"
  rpOut :: "rpc_out list"
  rpNotified :: "(string \<times> raw_message) list"

definition rpc_new :: "bool \<Rightarrow> rpc_client" where
  "rpc_new handler = \<lparr>rpNextID = 0, rpPending = Map.empty, rpChans = [], rpCalls = [], rpReader = RdReading,
     rpHandler = handler, rpDone = False, rpReadErr = None, rpReads = [], rpOut = [], rpNotified = []\<rparr>"

definition rpc_write :: "rpc_out \<Rightarrow> goerr option \<Rightarrow> rpc_client \<Rightarrow> rpc_client" where
  "rpc_write m err s = (if err = None then s\<lparr>rpOut := rpOut s @ [m]\<rparr> else s)"

definition dispatch :: "rpc_message \<Rightarrow> goerr option \<Rightarrow> rpc_client \<Rightarrow> rpc_client" where
  "dispatch msg werr s =
     (if jmMethod msg \<noteq> [] \<and> jmID msg \<noteq> [] then rpc_write (OutMethodNotFound (jmID msg)) werr s
      else if jmMethod msg \<noteq> [] then
        (if rpHandler s then s\<lparr>rpNotified := rpNotified s @ [(jmMethod msg, jmParams msg)]\<rparr> else s)
      else (case response_id msg of
          None \<Rightarrow> s
        | Some rid \<Rightarrow> (let s' = s\<lparr>rpPending := (rpPending s)(rid := None)\<rparr> in
            case rpPending s rid of
              None \<Rightarrow> s'
            | Some ch \<Rightarrow> s'\<lparr>rpReader := RdSend ch msg\<rparr>)))"

definition rpc_fail :: "read_error option \<Rightarrow> rpc_client \<Rightarrow> rpc_client" where
  "rpc_fail err s = (if rpDone s then s else s\<lparr>rpReadErr := err, rpDone := True\<rparr>)"

definition closed_error :: "rpc_client \<Rightarrow> goerr" where
  "closed_error s = (case rpReadErr s of
       Some (ReadError e) \<Rightarrow> e
     | _ \<Rightarrow> ErrText ''mcp: connection closed'')"

definition response_result :: "rpc_message \<Rightarrow> goerr + raw_message" where
  "response_result msg = (case jmError msg of
       Some e \<Rightarrow> Inl (ErrText (rpc_Error e))
     | None \<Rightarrow> Inr (jmResult msg))"

section \<open>Actions\<close>

datatype rpc_action =
    ActCall string raw_message          \<comment> \<open>a goroutine enters \<open>call\<close> and takes an id\<close>
  | ActRegister nat                     \<comment> \<open>it enters its channel into \<open>pending\<close>\<close>
  | ActWrite nat "goerr option"         \<comment> \<open>it writes the request\<close>
  | ActContext nat goerr                \<comment> \<open>the select takes \<open>ctx.Done()\<close>\<close>
  | ActDone nat                         \<comment> \<open>the select takes \<open>c.done\<close>\<close>
  | ActReceive nat                      \<comment> \<open>the select takes the channel\<close>
  | ActLeave nat                        \<comment> \<open>the deferred function; \<open>call\<close> returns\<close>
  | ActNotify string raw_message "goerr option"
  | ActRead rpc_message "goerr option"  \<comment> \<open>the reader has decoded a line\<close>
  | ActSend                             \<comment> \<open>the reader sends to the channel it has found\<close>
  | ActReadFail read_error
  | ActClose

definition set_phase :: "nat \<Rightarrow> call_phase \<Rightarrow> rpc_client \<Rightarrow> rpc_client" where
  "set_phase i ph s = s\<lparr>rpCalls := (rpCalls s)[i := (rpCalls s ! i)\<lparr>kPhase := ph\<rparr>]\<rparr>"

definition in_phase :: "nat \<Rightarrow> call_phase \<Rightarrow> rpc_client \<Rightarrow> bool" where
  "in_phase i ph s \<longleftrightarrow> i < length (rpCalls s) \<and> kPhase (rpCalls s ! i) = ph"

text \<open>The state after an action; \<open>None\<close> when the goroutine is not there or is blocked.\<close>

fun rpc_step :: "rpc_action \<Rightarrow> rpc_client \<Rightarrow> rpc_client option" where
  "rpc_step (ActCall method params) s =
     (let rid = (rpNextID s + 1) mod uint64_size in
      Some (s\<lparr>rpNextID := rid, rpChans := rpChans s @ [None],
        rpCalls := rpCalls s @ [\<lparr>kID = rid, kMethod = method, kParams = params, kPhase = CNew\<rparr>]\<rparr>))"
| "rpc_step (ActRegister i) s =
     (if in_phase i CNew s
      then Some (set_phase i CRegistered (s\<lparr>rpPending := (rpPending s)(kID (rpCalls s ! i) \<mapsto> i)\<rparr>)) else None)"
| "rpc_step (ActWrite i err) s =
     (if in_phase i CRegistered s
      then Some (rpc_write (OutRequest (kID (rpCalls s ! i)) (kMethod (rpCalls s ! i)) (kParams (rpCalls s ! i))) err
        (set_phase i (case err of None \<Rightarrow> CWaiting | Some e \<Rightarrow> CLeaving (Inl e)) s)) else None)"
| "rpc_step (ActContext i e) s = (if in_phase i CWaiting s then Some (set_phase i (CLeaving (Inl e)) s) else None)"
| "rpc_step (ActDone i) s =
     (if in_phase i CWaiting s \<and> rpDone s then Some (set_phase i (CLeaving (Inl (closed_error s))) s) else None)"
| "rpc_step (ActReceive i) s =
     (if in_phase i CWaiting s then
        (case rpChans s ! i of
           None \<Rightarrow> None
         | Some msg \<Rightarrow> Some (set_phase i (CLeaving (response_result msg)) (s\<lparr>rpChans := (rpChans s)[i := None]\<rparr>)))
      else None)"
| "rpc_step (ActLeave i) s =
     (if i < length (rpCalls s) then
        (case kPhase (rpCalls s ! i) of
           CLeaving r \<Rightarrow> Some (set_phase i (CReturned r) (s\<lparr>rpPending := (rpPending s)(kID (rpCalls s ! i) := None)\<rparr>))
         | _ \<Rightarrow> None)
      else None)"
| "rpc_step (ActNotify method params err) s = Some (rpc_write (OutNotification method params) err s)"
| "rpc_step (ActRead msg err) s =
     (if rpReader s = RdReading then Some (dispatch msg err (s\<lparr>rpReads := rpReads s @ [msg]\<rparr>)) else None)"
| "rpc_step ActSend s = (case rpReader s of
       RdSend ch msg \<Rightarrow>
         if rpChans s ! ch = None
         then Some (s\<lparr>rpChans := (rpChans s)[ch := Some msg], rpReader := RdReading\<rparr>) else None
     | _ \<Rightarrow> None)"
| "rpc_step (ActReadFail e) s =
     (if rpReader s = RdReading then Some (rpc_fail (Some e) (s\<lparr>rpReader := RdStopped\<rparr>)) else None)"
| "rpc_step ActClose s = Some (rpc_fail None s)"

definition rpc_reachable :: "bool \<Rightarrow> rpc_client \<Rightarrow> bool" where
  "rpc_reachable handler = reach rpc_step (rpc_new handler)"

section \<open>The invariant\<close>

definition answers :: "rpc_client \<Rightarrow> rpc_message \<Rightarrow> nat \<Rightarrow> bool" where
  "answers s msg i \<longleftrightarrow> msg \<in> set (rpReads s) \<and> jmMethod msg = [] \<and> response_id msg = Some (Suc i)"

definition outcome_ok :: "rpc_client \<Rightarrow> nat \<Rightarrow> goerr + raw_message \<Rightarrow> bool" where
  "outcome_ok s i r \<longleftrightarrow> (\<forall>raw. r = Inr raw \<longrightarrow> (\<exists>msg. answers s msg i \<and> response_result msg = Inr raw))"

definition no_message :: "rpc_client \<Rightarrow> nat \<Rightarrow> bool" where
  "no_message s i \<longleftrightarrow> rpChans s ! i = None \<and> (\<forall>msg. rpReader s \<noteq> RdSend i msg)"

fun phase_ok :: "rpc_client \<Rightarrow> nat \<Rightarrow> call_phase \<Rightarrow> bool" where
  "phase_ok s i CNew = (rpPending s (Suc i) = None \<and> no_message s i)"
| "phase_ok s i (CLeaving r) = outcome_ok s i r"
| "phase_ok s i (CReturned r) = (outcome_ok s i r \<and> rpPending s (Suc i) = None)"
| "phase_ok s i _ = True"

definition call_ok :: "rpc_client \<Rightarrow> nat \<Rightarrow> bool" where
  "call_ok s i \<longleftrightarrow> kID (rpCalls s ! i) = Suc i \<and> phase_ok s i (kPhase (rpCalls s ! i)) \<and>
     (rpPending s (Suc i) \<noteq> None \<longrightarrow> no_message s i) \<and>
     (\<forall>msg. rpChans s ! i = Some msg \<longrightarrow> answers s msg i) \<and>
     (\<forall>msg. rpReader s = RdSend i msg \<longrightarrow> answers s msg i \<and> rpChans s ! i = None)"

definition rpc_inv :: "rpc_client \<Rightarrow> bool" where
  "rpc_inv s \<longleftrightarrow> length (rpChans s) = length (rpCalls s) \<and> rpNextID s = length (rpCalls s) \<and>
     (\<forall>rid ch. rpPending s rid = Some ch \<longrightarrow> rid = Suc ch \<and> ch < length (rpCalls s)) \<and>
     (\<forall>ch msg. rpReader s = RdSend ch msg \<longrightarrow> ch < length (rpCalls s)) \<and>
     (\<forall>i < length (rpCalls s). call_ok s i)"

lemma rpc_write_fields [simp]:
  "rpPending (rpc_write m e s) = rpPending s" "rpChans (rpc_write m e s) = rpChans s" "rpCalls (rpc_write m e s) = rpCalls s"
  "rpReader (rpc_write m e s) = rpReader s" "rpReads (rpc_write m e s) = rpReads s" "rpNextID (rpc_write m e s) = rpNextID s"
  by (simp_all add: rpc_write_def)

lemma rpc_fail_fields [simp]:
  "rpPending (rpc_fail e s) = rpPending s" "rpChans (rpc_fail e s) = rpChans s" "rpCalls (rpc_fail e s) = rpCalls s"
  "rpReader (rpc_fail e s) = rpReader s" "rpReads (rpc_fail e s) = rpReads s" "rpNextID (rpc_fail e s) = rpNextID s"
  by (simp_all add: rpc_fail_def)

lemma set_phase_fields [simp]:
  "rpPending (set_phase i ph s) = rpPending s" "rpChans (set_phase i ph s) = rpChans s"
  "rpReader (set_phase i ph s) = rpReader s" "rpReads (set_phase i ph s) = rpReads s" "rpNextID (set_phase i ph s) = rpNextID s"
  "length (rpCalls (set_phase i ph s)) = length (rpCalls s)"
  by (simp_all add: set_phase_def)

text \<open>What the invariant says of caller \<open>i\<close> depends on its entries and the messages read.\<close>

definition same_for :: "rpc_client \<Rightarrow> rpc_client \<Rightarrow> nat \<Rightarrow> bool" where
  "same_for s t i \<longleftrightarrow> rpPending t (Suc i) = rpPending s (Suc i) \<and> rpChans t ! i = rpChans s ! i \<and>
     rpCalls t ! i = rpCalls s ! i \<and> (\<forall>msg. rpReader t = RdSend i msg \<longleftrightarrow> rpReader s = RdSend i msg) \<and>
     set (rpReads s) \<subseteq> set (rpReads t)"

lemma answers_same: "rpReads t = rpReads s \<Longrightarrow> answers t = answers s"
  by (simp add: fun_eq_iff answers_def)

lemma outcome_ok_same: "rpReads t = rpReads s \<Longrightarrow> outcome_ok t = outcome_ok s"
  using answers_same [of t s] by (simp add: fun_eq_iff outcome_ok_def)

lemma answers_mono: "answers s msg i \<Longrightarrow> set (rpReads s) \<subseteq> set (rpReads t) \<Longrightarrow> answers t msg i"
  by (auto simp: answers_def)

lemma outcome_ok_mono: "outcome_ok s i r \<Longrightarrow> set (rpReads s) \<subseteq> set (rpReads t) \<Longrightarrow> outcome_ok t i r"
  unfolding outcome_ok_def using answers_mono by blast

lemma call_ok_same:
  assumes "call_ok s i" "same_for s t i"
  shows "call_ok t i"
proof -
  from assms(2) have eq: "rpPending t (Suc i) = rpPending s (Suc i)" "rpChans t ! i = rpChans s ! i"
    "rpCalls t ! i = rpCalls s ! i" "\<And>msg. rpReader t = RdSend i msg \<longleftrightarrow> rpReader s = RdSend i msg"
    and sub: "set (rpReads s) \<subseteq> set (rpReads t)"
    by (simp_all add: same_for_def)
  have nm: "no_message t i = no_message s i" by (simp only: no_message_def eq)
  have "phase_ok t i ph" if "phase_ok s i ph" for ph
    using that outcome_ok_mono [OF _ sub] by (cases ph) (simp_all add: nm eq)
  with assms(1) answers_mono [OF _ sub] show ?thesis
    unfolding call_ok_def by (simp only: nm eq) blast
qed

lemma rpc_invI:
  assumes "length (rpChans t) = length (rpCalls t)" "rpNextID t = length (rpCalls t)"
    and "\<And>rid ch. rpPending t rid = Some ch \<Longrightarrow> rid = Suc ch \<and> ch < length (rpCalls t)"
    and "\<And>ch msg. rpReader t = RdSend ch msg \<Longrightarrow> ch < length (rpCalls t)"
    and "\<And>i. i < length (rpCalls t) \<Longrightarrow> call_ok t i"
  shows "rpc_inv t"
  using assms unfolding rpc_inv_def by blast

lemma rpc_invD:
  assumes "rpc_inv s"
  shows "length (rpChans s) = length (rpCalls s)" "rpNextID s = length (rpCalls s)"
    "\<And>rid ch. rpPending s rid = Some ch \<Longrightarrow> rid = Suc ch \<and> ch < length (rpCalls s)"
    "\<And>ch msg. rpReader s = RdSend ch msg \<Longrightarrow> ch < length (rpCalls s)"
    "\<And>i. i < length (rpCalls s) \<Longrightarrow> call_ok s i"
  using assms unfolding rpc_inv_def by blast+

text \<open>An action that touches only caller \<open>k\<close>.\<close>

lemma rpc_inv_local:
  assumes "rpc_inv s" "length (rpCalls t) = length (rpCalls s)" "length (rpChans t) = length (rpChans s)"
    and "rpNextID t = rpNextID s"
    and "\<And>rid ch. rpPending t rid = Some ch \<Longrightarrow> rpPending s rid = Some ch \<or> rid = Suc ch \<and> ch < length (rpCalls s)"
    and "\<And>ch msg. rpReader t = RdSend ch msg \<Longrightarrow> ch < length (rpCalls s)"
    and "\<And>i. i < length (rpCalls s) \<Longrightarrow> i \<noteq> k \<Longrightarrow> same_for s t i"
    and "k < length (rpCalls s) \<Longrightarrow> call_ok t k"
  shows "rpc_inv t"
proof (rule rpc_invI)
  note inv = rpc_invD [OF assms(1)]
  show "length (rpChans t) = length (rpCalls t)" "rpNextID t = length (rpCalls t)" using inv(1,2) assms(2-4) by simp_all
  show "rid = Suc ch \<and> ch < length (rpCalls t)" if "rpPending t rid = Some ch" for rid ch
    using assms(5) [OF that] inv(3) [of rid ch] assms(2) by auto
  show "ch < length (rpCalls t)" if "rpReader t = RdSend ch msg" for ch msg using assms(6) [OF that] assms(2) by simp
  show "call_ok t i" if "i < length (rpCalls t)" for i
    using that assms(2,7,8) inv(5) [of i] call_ok_same [of s i t] by (cases "i = k") auto
qed

lemma inv_same:
  assumes "rpc_inv s" "rpPending t = rpPending s" "rpChans t = rpChans s" "rpCalls t = rpCalls s" "rpNextID t = rpNextID s"
    "set (rpReads s) \<subseteq> set (rpReads t)" "\<And>ch msg. rpReader t = RdSend ch msg \<longleftrightarrow> rpReader s = RdSend ch msg"
  shows "rpc_inv t"
proof (rule rpc_invI)
  note inv = rpc_invD [OF assms(1)]
  show "length (rpChans t) = length (rpCalls t)" "rpNextID t = length (rpCalls t)" using inv(1,2) assms(2-5) by simp_all
  show "rid = Suc ch \<and> ch < length (rpCalls t)" if "rpPending t rid = Some ch" for rid ch
    using that inv(3) assms(2,4) by simp
  show "ch < length (rpCalls t)" if "rpReader t = RdSend ch msg" for ch msg using that inv(4) assms(4,7) by simp
  show "call_ok t i" if "i < length (rpCalls t)" for i
    using that inv(5) [of i] assms call_ok_same [of s i t] by (simp add: same_for_def)
qed

text \<open>A change of phase keeps the invariant when the new phase is right.\<close>

lemma inv_set_phase:
  assumes "rpc_inv s" "phase_ok s k ph"
  shows "rpc_inv (set_phase k ph s)"
proof (rule rpc_inv_local [OF assms(1), where k = k])
  show "same_for s (set_phase k ph s) i" if "i \<noteq> k" for i
    using that by (simp add: same_for_def set_phase_def)
  assume k: "k < length (rpCalls s)"
  let ?u = "set_phase k ph s"
  have same: "answers ?u = answers s" "outcome_ok ?u = outcome_ok s" "no_message ?u k = no_message s k"
    by (rule answers_same outcome_ok_same, simp)+ (simp add: no_message_def)
  have entry: "kID (rpCalls ?u ! k) = kID (rpCalls s ! k)" "kPhase (rpCalls ?u ! k) = ph"
    using k by (simp_all add: set_phase_def)
  have "phase_ok ?u k q = phase_ok s k q" for q by (cases q) (simp_all add: same)
  with assms(2) have "phase_ok ?u k ph" by simp
  with rpc_invD(5) [OF assms(1) k] show "call_ok ?u k"
    unfolding call_ok_def same entry set_phase_fields by blast
qed (use rpc_invD(3,4) [OF assms(1)] in auto)

lemma inv_call:
  assumes "rpc_inv s" "Suc (length (rpCalls s)) < uint64_size" "rpc_step (ActCall m p) s = Some t"
  shows "rpc_inv t"
proof (rule rpc_invI)
  note inv = rpc_invD [OF assms(1)]
  let ?n = "length (rpCalls s)"
  have t: "t = s\<lparr>rpNextID := Suc ?n, rpChans := rpChans s @ [None],
      rpCalls := rpCalls s @ [\<lparr>kID = Suc ?n, kMethod = m, kParams = p, kPhase = CNew\<rparr>]\<rparr>"
    using assms(3) unfolding rpc_step.simps inv(2) Suc_eq_plus1 [symmetric] mod_less [OF assms(2)] Let_def by (rule option.inject [THEN iffD1, THEN sym])
  show "length (rpChans t) = length (rpCalls t)" "rpNextID t = length (rpCalls t)" using inv(1) by (simp_all add: t)
  show "rid = Suc ch \<and> ch < length (rpCalls t)" if "rpPending t rid = Some ch" for rid ch
    using that inv(3) [of rid ch] by (simp add: t)
  show "ch < length (rpCalls t)" if "rpReader t = RdSend ch msg" for ch msg
    using that inv(4) [of ch msg] by (simp add: t)
  show "call_ok t i" if "i < length (rpCalls t)" for i
  proof (cases "i = ?n")
    case True
    have "rpPending s (Suc ?n) = None" using inv(3) [of "Suc ?n"] by (cases "rpPending s (Suc ?n)") auto
    moreover have "rpReader s \<noteq> RdSend ?n msg" for msg using inv(4) [of ?n msg] by auto
    ultimately show ?thesis using True inv(1) by (simp add: t call_ok_def no_message_def nth_append)
  next
    case False
    with that have "i < ?n" by (simp add: t)
    then show ?thesis using call_ok_same [OF inv(5)] inv(1) by (simp add: same_for_def t nth_append)
  qed
qed

lemma inv_register:
  assumes "rpc_inv s" "rpc_step (ActRegister k) s = Some t"
  shows "rpc_inv t"
proof -
  note inv = rpc_invD [OF assms(1)]
  from assms(2) have k: "k < length (rpCalls s)" "kPhase (rpCalls s ! k) = CNew" by (auto simp: in_phase_def split: if_splits)
  have ok: "kID (rpCalls s ! k) = Suc k" "rpPending s (Suc k) = None" "no_message s k"
    using inv(5) [OF k(1)] k(2) by (simp_all add: call_ok_def)
  define u where "u = s\<lparr>rpPending := (rpPending s)(Suc k \<mapsto> k), rpCalls := (rpCalls s)[k := (rpCalls s ! k)\<lparr>kPhase := CRegistered\<rparr>]\<rparr>"
  have t: "t = u" using assms(2) ok(1) by (simp add: u_def set_phase_def split: if_splits)
  show ?thesis unfolding t
  proof (rule rpc_inv_local [OF assms(1), where k = k])
    show "rpPending s rid = Some ch \<or> rid = Suc ch \<and> ch < length (rpCalls s)" if "rpPending u rid = Some ch" for rid ch
      using that k(1) by (auto simp: u_def split: if_splits)
    show "same_for s u i" if "i \<noteq> k" for i using that by (simp add: same_for_def u_def)
    show "call_ok u k" using ok k(1) by (simp add: u_def call_ok_def no_message_def)
  qed (use inv(4) in \<open>auto simp: u_def\<close>)
qed

lemma inv_receive:
  assumes "rpc_inv s" "rpc_step (ActReceive k) s = Some t"
  shows "rpc_inv t"
proof -
  note inv = rpc_invD [OF assms(1)]
  from assms(2) obtain msg where k: "k < length (rpCalls s)" "rpChans s ! k = Some msg"
    and t: "t = set_phase k (CLeaving (response_result msg)) (s\<lparr>rpChans := (rpChans s)[k := None]\<rparr>)"
    by (auto simp: in_phase_def split: if_splits option.splits)
  define u where "u = s\<lparr>rpChans := (rpChans s)[k := None]\<rparr>"
  have uf: "rpPending u = rpPending s" "rpChans u = (rpChans s)[k := None]" "rpCalls u = rpCalls s" "rpReader u = rpReader s"
    by (simp_all add: u_def)
  have same: "answers u = answers s" "outcome_ok u = outcome_ok s"
    by (rule answers_same outcome_ok_same, simp add: u_def)+
  note ok = inv(5) [OF k(1), unfolded call_ok_def]
  have ans: "answers s msg k" using ok k(2) by blast
  have "rpc_inv u"
  proof (rule rpc_inv_local [OF assms(1), where k = k])
    show "same_for s u i" if "i \<noteq> k" for i using that by (simp add: same_for_def u_def)
    have pend: "rpPending s (Suc k) = None" using ok k(2) by (auto simp: no_message_def)
    have "phase_ok u k ph" if "phase_ok s k ph" for ph
      using that k(2) by (cases ph) (simp_all add: same uf no_message_def)
    then show "call_ok u k" using ok k inv(1) pend unfolding call_ok_def same uf by simp
  qed (use inv(4) in \<open>auto simp: u_def\<close>)
  moreover have "phase_ok u k (CLeaving (response_result msg))"
    using ans by (auto simp: same outcome_ok_def)
  ultimately show ?thesis unfolding t u_def [symmetric] by (rule inv_set_phase)
qed

lemma inv_leave:
  assumes "rpc_inv s" "rpc_step (ActLeave k) s = Some t"
  shows "rpc_inv t"
proof -
  note inv = rpc_invD [OF assms(1)]
  from assms(2) obtain r where k: "k < length (rpCalls s)" "kPhase (rpCalls s ! k) = CLeaving r"
    and t: "t = set_phase k (CReturned r) (s\<lparr>rpPending := (rpPending s)(kID (rpCalls s ! k) := None)\<rparr>)"
    by (auto split: if_splits call_phase.splits)
  note ok = inv(5) [OF k(1), unfolded call_ok_def]
  define u where "u = s\<lparr>rpPending := (rpPending s)(Suc k := None)\<rparr>"
  have uf: "rpPending u = (rpPending s)(Suc k := None)" "rpChans u = rpChans s" "rpCalls u = rpCalls s" "rpReader u = rpReader s"
    by (simp_all add: u_def)
  have same: "answers u = answers s" "outcome_ok u = outcome_ok s"
    by (rule answers_same outcome_ok_same, simp add: u_def)+
  have "rpc_inv u"
  proof (rule rpc_inv_local [OF assms(1), where k = k])
    show "same_for s u i" if "i \<noteq> k" for i using that by (simp add: same_for_def u_def)
    show "call_ok u k" using ok k unfolding call_ok_def same by (simp add: same uf)
  qed (use inv(4) in \<open>auto simp: u_def split: if_splits\<close>)
  moreover have "phase_ok u k (CReturned r)" using ok k(2) by (simp add: same uf)
  ultimately have "rpc_inv (set_phase k (CReturned r) u)" by (rule inv_set_phase)
  then show ?thesis using ok by (simp add: t u_def)
qed

text \<open>The reader finds a caller: its entry is taken out of \<open>pending\<close>, so no second message can follow.\<close>

lemma inv_route:
  assumes "rpc_inv s" "rpReader s = RdReading" "msg \<in> set (rpReads s)" "jmMethod msg = []" "response_id msg = Some rid"
  shows "rpc_inv (let s' = s\<lparr>rpPending := (rpPending s)(rid := None)\<rparr> in
     case rpPending s rid of None \<Rightarrow> s' | Some ch \<Rightarrow> s'\<lparr>rpReader := RdSend ch msg\<rparr>)"
proof (cases "rpPending s rid")
  case None
  then have "(rpPending s)(rid := None) = rpPending s" by auto
  with None assms(1) show ?thesis by (simp add: Let_def)
next
  case (Some ch)
  note inv = rpc_invD [OF assms(1)]
  from inv(3) [OF Some] have ch: "rid = Suc ch" "ch < length (rpCalls s)" by simp_all
  note ok = inv(5) [OF ch(2), unfolded call_ok_def]
  define u where "u = s\<lparr>rpPending := (rpPending s)(Suc ch := None), rpReader := RdSend ch msg\<rparr>"
  have uf: "rpPending u = (rpPending s)(Suc ch := None)" "rpChans u = rpChans s" "rpCalls u = rpCalls s" "rpReader u = RdSend ch msg"
    by (simp_all add: u_def)
  have same: "answers u = answers s" "outcome_ok u = outcome_ok s"
    by (rule answers_same outcome_ok_same, simp add: u_def)+
  have nm: "rpChans s ! ch = None" using ok Some ch by (auto simp: no_message_def)
  have ans: "answers s msg ch" using assms(3-5) ch by (simp add: answers_def)
  have "rpc_inv u"
  proof (rule rpc_inv_local [OF assms(1), where k = ch])
    show "same_for s u i" if "i \<noteq> ch" for i using that assms(2) by (simp add: same_for_def u_def)
    have "phase_ok u ch (kPhase (rpCalls s ! ch))"
      using ok Some ch by (cases "kPhase (rpCalls s ! ch)") (auto simp: same uf)
    then show "call_ok u ch" using ok ans nm unfolding call_ok_def same uf by simp
  qed (use ch(2) in \<open>auto simp: u_def split: if_splits\<close>)
  with Some ch show ?thesis by (simp add: u_def Let_def)
qed

lemma inv_send:
  assumes "rpc_inv s" "rpc_step ActSend s = Some t"
  shows "rpc_inv t"
proof -
  note inv = rpc_invD [OF assms(1)]
  from assms(2) obtain ch msg where c: "rpReader s = RdSend ch msg" "rpChans s ! ch = None"
    and t: "t = s\<lparr>rpChans := (rpChans s)[ch := Some msg], rpReader := RdReading\<rparr>"
    by (auto split: reader_phase.splits if_splits)
  from inv(4) [OF c(1)] have ch: "ch < length (rpCalls s)" .
  note ok = inv(5) [OF ch, unfolded call_ok_def]
  show ?thesis unfolding t
  proof (rule rpc_inv_local [OF assms(1), where k = ch])
    let ?u = "s\<lparr>rpChans := (rpChans s)[ch := Some msg], rpReader := RdReading\<rparr>"
    have same: "answers ?u = answers s" "outcome_ok ?u = outcome_ok s"
      by (rule answers_same outcome_ok_same, simp)+
    show "same_for s ?u i" if "i \<noteq> ch" for i using that c(1) by (simp add: same_for_def)
    have busy: "\<not> no_message s ch" using c(1) by (simp add: no_message_def)
    have "phase_ok ?u ch (kPhase (rpCalls s ! ch))"
      using ok busy by (cases "kPhase (rpCalls s ! ch)") (simp_all add: same)
    moreover have "answers s msg ch" using ok c(1) by blast
    ultimately show "call_ok ?u ch" using ok busy ch inv(1) unfolding call_ok_def same by simp
  qed auto
qed

lemma inv_dispatch:
  assumes "rpc_inv s" "rpReader s = RdReading" "msg \<in> set (rpReads s)"
  shows "rpc_inv (dispatch msg e s)"
proof (cases "jmMethod msg = []")
  case False
  show ?thesis by (rule inv_same [OF assms(1)]) (use False in \<open>simp_all add: dispatch_def\<close>)
next
  case True
  then show ?thesis
    using assms(1) inv_route [OF assms True] by (cases "response_id msg") (simp_all add: dispatch_def)
qed

lemma rpc_step_inv:
  assumes "rpc_inv s" "rpc_step a s = Some t" "length (rpCalls t) < uint64_size"
  shows "rpc_inv t"
proof (cases a)
  case (ActCall m p)
  then have st: "rpc_step (ActCall m p) s = Some t" using assms(2) by simp
  then have "length (rpCalls t) = Suc (length (rpCalls s))" by (auto simp: Let_def)
  with assms(3) inv_call [OF assms(1) _ st] show ?thesis by simp
next
  case (ActRegister i)
  with assms(2) show ?thesis by (intro inv_register [OF assms(1), of i]) simp
next
  case (ActWrite i e)
  let ?ph = "case e of None \<Rightarrow> CWaiting | Some e \<Rightarrow> CLeaving (Inl e)"
  have "phase_ok s i ?ph" by (cases e) (simp_all add: outcome_ok_def)
  then have "rpc_inv (set_phase i ?ph s)" by (rule inv_set_phase [OF assms(1)])
  then show ?thesis using ActWrite assms(2) by (auto intro: inv_same split: if_splits)
next
  case (ActContext i e)
  then show ?thesis using assms(1,2) inv_set_phase [of s i "CLeaving (Inl e)"] by (auto simp: outcome_ok_def split: if_splits)
next
  case (ActDone i)
  then show ?thesis
    using assms(1,2) inv_set_phase [of s i "CLeaving (Inl (closed_error s))"] by (auto simp: outcome_ok_def split: if_splits)
next
  case (ActReceive i)
  with assms(2) show ?thesis by (intro inv_receive [OF assms(1), of i]) simp
next
  case (ActLeave i)
  with assms(2) show ?thesis by (intro inv_leave [OF assms(1), of i]) simp
next
  case (ActNotify m p e)
  then show ?thesis using assms(1,2) by (auto intro: inv_same)
next
  case (ActRead msg e)
  have "rpc_inv (s\<lparr>rpReads := rpReads s @ [msg]\<rparr>)" by (rule inv_same [OF assms(1)]) auto
  then show ?thesis using ActRead assms(2) by (auto intro!: inv_dispatch split: if_splits)
next
  case ActSend
  with assms(2) show ?thesis by (intro inv_send [OF assms(1)]) simp
next
  case (ActReadFail e)
  then show ?thesis using assms(2) by (auto split: if_splits intro!: inv_same [OF assms(1)])
next
  case ActClose
  then show ?thesis using assms(2) by (auto intro!: inv_same [OF assms(1)])
qed

lemma rpc_step_calls: "rpc_step a s = Some t \<Longrightarrow> length (rpCalls s) \<le> length (rpCalls t)"
  by (cases a) (auto simp: dispatch_def Let_def split: if_splits option.splits call_phase.splits reader_phase.splits)

text \<open>As long as the ids have not wrapped around, the invariant holds in every reachable state.\<close>

definition rpc_inv_below :: "rpc_client \<Rightarrow> bool" where
  "rpc_inv_below s \<longleftrightarrow> (length (rpCalls s) < uint64_size \<longrightarrow> rpc_inv s)"

interpretation rpc: step_invariant rpc_step "rpc_new handler" rpc_inv_below for handler
proof
  show "rpc_inv_below (rpc_new handler)" by (simp add: rpc_inv_below_def rpc_inv_def rpc_new_def)
  show "rpc_inv_below t" if "rpc_inv_below s" "rpc_step a s = Some t" for s a t
    using rpc_step_inv [OF _ that(2)] rpc_step_calls [OF that(2)] that(1) by (auto simp: rpc_inv_below_def)
qed

lemma rpc_reachable_inv: "rpc_reachable handler s \<Longrightarrow> length (rpCalls s) < uint64_size \<Longrightarrow> rpc_inv s"
  using rpc.reach_inv by (auto simp: rpc_reachable_def rpc_inv_below_def)

text \<open>
  C33: in every interleaving of callers, the reader and \<open>Close\<close>, as long as the 64-bit ids have not
  wrapped around: a call that returns a result returns that of a response the server sent under
  the id of this call; the reader never blocks on a channel, also when the caller has gone; and a
  call that has returned leaves no entry in \<open>pending\<close>, whether it got an answer, was cancelled or
  lost the connection.
\<close>

theorem rpc_routes_by_id:
  assumes "rpc_reachable handler s" "length (rpCalls s) < uint64_size"
  shows "(\<forall>i r. i < length (rpCalls s) \<and> kPhase (rpCalls s ! i) = CReturned r \<longrightarrow>
        rpPending s (kID (rpCalls s ! i)) = None \<and>
        (\<forall>raw. r = Inr raw \<longrightarrow> (\<exists>msg \<in> set (rpReads s). jmMethod msg = [] \<and>
           response_id msg = Some (kID (rpCalls s ! i)) \<and> response_result msg = Inr raw))) \<and>
     (\<forall>ch msg. rpReader s = RdSend ch msg \<longrightarrow> rpc_step ActSend s \<noteq> None)"
proof -
  note inv = rpc_invD [OF rpc_reachable_inv [OF assms]]
  have "rpPending s (kID (rpCalls s ! i)) = None \<and>
        (\<forall>raw. r = Inr raw \<longrightarrow> (\<exists>msg \<in> set (rpReads s). jmMethod msg = [] \<and>
           response_id msg = Some (kID (rpCalls s ! i)) \<and> response_result msg = Inr raw))"
    if "i < length (rpCalls s)" "kPhase (rpCalls s ! i) = CReturned r" for i r
    using inv(5) [OF that(1)] that(2) by (auto simp: call_ok_def outcome_ok_def answers_def)
  moreover have "rpc_step ActSend s \<noteq> None" if "rpReader s = RdSend ch msg" for ch msg
    using inv(5) [OF inv(4) [OF that]] that by (auto simp: call_ok_def)
  ultimately show ?thesis by blast
qed

text \<open>Two calls; the answer of the second comes first, that of the first after it was cancelled.\<close>

definition demo_answer :: "string \<Rightarrow> rpc_message" where
  "demo_answer i = \<lparr>jmID = i, jmMethod = [], jmParams = [], jmResult = ''{}'', jmError = None\<rparr>"

definition demo_actions :: "rpc_action list" where
  "demo_actions = [ActCall ''a'' [], ActCall ''b'' [], ActRegister 1, ActRegister 0, ActWrite 0 None, ActWrite 1 None,
     ActRead (demo_answer ''2'') None, ActSend, ActRead (demo_answer ''1'') None, ActContext 0 ContextCanceled,
     ActReceive 1, ActLeave 1, ActLeave 0]"

theorem rpc_routes_by_id_witness:
  "\<exists>s. steps rpc_step demo_actions (rpc_new False) = Some s \<and> kPhase (rpCalls s ! 1) = CReturned (Inr ''{}'') \<and>
     rpPending s (kID (rpCalls s ! 1)) = None \<and> rpReader s = RdSend 0 (demo_answer ''1'') \<and> rpc_step ActSend s \<noteq> None"
proof -
  have ids: "response_id (demo_answer ''1'') = Some 1" "response_id (demo_answer ''2'') = Some 2"
    by (simp_all add: response_id_def demo_answer_def trim_quotes_def parse_uint64_def uint64_size_def)
  have step: "rpc_step (ActRead (demo_answer i) None) s = (if rpReader s = RdReading
      then Some (dispatch (demo_answer i) None (s\<lparr>rpReads := rpReads s @ [demo_answer i]\<rparr>)) else None)" for i s
    by simp
  have res: "response_result (demo_answer i) = Inr ''{}''" "jmMethod (demo_answer i) = []" for i
    by (simp_all add: response_result_def demo_answer_def)
  obtain s where s: "steps rpc_step demo_actions (rpc_new False) = Some s" "kPhase (rpCalls s ! 1) = CReturned (Inr ''{}'')"
    "rpReader s = RdSend 0 (demo_answer ''1'')" "length (rpCalls s) = 2"
    by (simp add: demo_actions_def rpc_new_def in_phase_def set_phase_def rpc_write_def dispatch_def ids res uint64_size_def)
  have "rpc_reachable False s" unfolding rpc_reachable_def by (rule reach_steps [OF reach.start s(1)])
  with s rpc_routes_by_id [of False s] show ?thesis by (auto simp: uint64_size_def simp del: rpc_step.simps)
qed

end
