(* ===== verification/Mcp_Client.thy ===== *)
theory Mcp_Client
  imports Agent Mcp_Rpc
begin

text \<open>
  \<open>mcp/client.go\<close>: the handshake, the listing of tools over pages, remote calls and the tools made of
  them. \<open>rpcClient.call\<close> and \<open>notify\<close>, of which \<open>Mcp_Rpc\<close> models the interleavings, appear here as
  functions on the world; the JSON codecs of the results are parameters, and so is the process of a
  server that is run as a command.
\<close>

section \<open>Data\<close>

record implementation =
  imName :: string
  imVersion :: string

record server_info =
  siProtocolVersion :: string
  siServerInfo :: implementation
  siCapabilities :: raw_message
  siInstructions :: string

record tool_info =
  tiName :: string
  tiDescription :: string
  tiInputSchema :: raw_message

record content_block =
  cbType :: string
  cbText :: string
  cbMimeType :: string

datatype mcp_params =
    ParamsInitialize string implementation
  | ParamsEmpty
  | ParamsCursor string
  | ParamsCallTool string raw_message

record 'w mcp_env =
  mxCall :: "ctx \<Rightarrow> string \<Rightarrow> mcp_params \<Rightarrow> 'w \<Rightarrow> (goerr + raw_message) \<times> 'w"
  mxNotify :: "string \<Rightarrow> 'w \<Rightarrow> goerr option \<times> 'w"
  mxServerInfo :: "raw_message \<Rightarrow> goerr + server_info"
  mxTools :: "raw_message \<Rightarrow> goerr + tool_info list \<times> string"
  mxResult :: "raw_message \<Rightarrow> goerr + content_block list \<times> bool"

record mcp_client =
  mcInfo :: implementation
  mcProtocol :: string
  mcPrefix :: string
  mcHandler :: bool
  mcServer :: "server_info option"
  mcConnected :: bool

type_synonym mcp_option = "mcp_client \<Rightarrow> mcp_client"

definition WithClientInfo :: "string \<Rightarrow> string \<Rightarrow> mcp_option" where
  "WithClientInfo name version = (\<lambda>c. c\<lparr>mcInfo := \<lparr>imName = name, imVersion = version\<rparr>\<rparr>)"

definition WithProtocolVersion :: "string \<Rightarrow> mcp_option" where
  "WithProtocolVersion v = (\<lambda>c. if v \<noteq> [] then c\<lparr>mcProtocol := v\<rparr> else c)"

definition WithToolNamePrefix :: "string \<Rightarrow> mcp_option" where
  "WithToolNamePrefix p = (\<lambda>c. c\<lparr>mcPrefix := p\<rparr>)"

definition WithNotificationHandler :: mcp_option where
  "WithNotificationHandler = (\<lambda>c. c\<lparr>mcHandler := True\<rparr>)"

definition NewClient :: "mcp_option list \<Rightarrow> mcp_client \<times> rpc_client" where
  "NewClient opts =
     (let c = foldl (\<lambda>c f. f c) \<lparr>mcInfo = \<lparr>imName = ''rimeno'', imVersion = ''0.1.0''\<rparr>, mcProtocol = ''2025-06-18'',
         mcPrefix = [], mcHandler = False, mcServer = None, mcConnected = False\<rparr> opts
      in (c, rpc_new (mcHandler c)))"

section \<open>Operations\<close>

definition Connect :: "'w mcp_env \<Rightarrow> ctx \<Rightarrow> mcp_client \<Rightarrow> 'w \<Rightarrow> ((goerr + server_info) \<times> mcp_client) \<times> 'w" where
  "Connect E ctx c w = (case mxCall E ctx ''initialize'' (ParamsInitialize (mcProtocol c) (mcInfo c)) w of
       (Inl err, w) \<Rightarrow> ((Inl (ErrWrap ''mcp: initialize: '' err), c), w)
     | (Inr raw, w) \<Rightarrow> (case mxServerInfo E raw of
         Inl err \<Rightarrow> ((Inl (ErrWrap ''mcp: decode initialize result: '' err), c), w)
       | Inr si \<Rightarrow> (case mxNotify E ''notifications/initialized'' w of
           (Some err, w) \<Rightarrow> ((Inl (ErrWrap ''mcp: initialized notification: '' err), c), w)
         | (None, w) \<Rightarrow> ((Inr si, c\<lparr>mcServer := Some si, mcConnected := True\<rparr>), w))))"

definition list_params :: "string \<Rightarrow> mcp_params" where
  "list_params cursor = (if cursor \<noteq> [] then ParamsCursor cursor else ParamsEmpty)"

text \<open>The loop over the pages ends when the server says so; a server that never does keeps it going.\<close>

partial_function (option) list_pages ::
  "'w mcp_env \<Rightarrow> ctx \<Rightarrow> string \<Rightarrow> tool_info list \<Rightarrow> 'w \<Rightarrow> ((goerr + tool_info list) \<times> 'w) option" where
  "list_pages E ctx cursor all w = (case mxCall E ctx ''tools/list'' (list_params cursor) w of
       (Inl err, w) \<Rightarrow> Some (Inl (ErrWrap ''mcp: tools/list: '' err), w)
     | (Inr raw, w) \<Rightarrow> (case mxTools E raw of
         Inl err \<Rightarrow> Some (Inl (ErrWrap ''mcp: decode tools/list: '' err), w)
       | Inr (tools, next) \<Rightarrow>
           if next = [] then Some (Inr (all @ tools), w) else list_pages E ctx next (all @ tools) w))"

definition ListTools :: "'w mcp_env \<Rightarrow> ctx \<Rightarrow> 'w \<Rightarrow> ((goerr + tool_info list) \<times> 'w) option" where
  "ListTools E ctx w = list_pages E ctx [] [] w"

definition render_block :: "content_block \<Rightarrow> string" where
  "render_block b =
     (if cbType b = ''text'' then cbText b
      else if cbType b = ''image'' \<or> cbType b = ''audio'' then ''['' @ cbType b @ '' '' @ cbMimeType b @ '']''
      else ''['' @ cbType b @ '']'')"

definition renderContent :: "content_block list \<Rightarrow> string" where
  "renderContent blocks = strings_join (map render_block blocks) [newline]"

definition CallTool :: "'w mcp_env \<Rightarrow> ctx \<Rightarrow> string \<Rightarrow> raw_message \<Rightarrow> 'w \<Rightarrow> (goerr + string) \<times> 'w" where
  "CallTool E ctx name args0 w =
     (let args = (if args0 = [] \<or> args0 = ''null'' then ''{}'' else args0) in
      case mxCall E ctx ''tools/call'' (ParamsCallTool name args) w of
        (Inl err, w) \<Rightarrow> (Inl (ErrWrap (''mcp: tools/call '' @ strconv_quote name @ '': '') err), w)
      | (Inr raw, w) \<Rightarrow> (case mxResult E raw of
          Inl err \<Rightarrow> (Inl (ErrWrap ''mcp: decode tools/call result: '' err), w)
        | Inr (content, isError) \<Rightarrow>
            if isError
            then (Inl (ErrText (''tool '' @ strconv_quote name @ '' reported an error: '' @ renderContent content)), w)
            else (Inr (renderContent content), w)))"

definition wrap :: "'w mcp_env \<Rightarrow> mcp_client \<Rightarrow> tool_info \<Rightarrow> 'w tool" where
  "wrap E c ti =
     (let sch = (if tiInputSchema ti = [] then ''{'' @ [quote_char] @ ''type'' @ [quote_char] @ '':'' @ [quote_char] @ ''object''
          @ [quote_char] @ ''}'' else tiInputSchema ti)
      in RawTool (mcPrefix c @ tiName ti) (tiDescription ti) sch
        (\<lambda>ctx args w. case CallTool E ctx (tiName ti) args w of
            (Inl err, w) \<Rightarrow> (ToolFails err, w)
          | (Inr text, w) \<Rightarrow> (ToolReturns (AnyString text), w)))"

definition mcp_Tools :: "'w mcp_env \<Rightarrow> mcp_client \<Rightarrow> ctx \<Rightarrow> 'w \<Rightarrow> ((goerr + 'w tool list) \<times> 'w) option" where
  "mcp_Tools E c ctx w = (case ListTools E ctx w of
       None \<Rightarrow> None
     | Some (Inl err, w) \<Rightarrow> Some (Inl err, w)
     | Some (Inr infos, w) \<Rightarrow> Some (Inr (map (wrap E c) infos), w))"

definition Ping :: "'w mcp_env \<Rightarrow> ctx \<Rightarrow> 'w \<Rightarrow> goerr option \<times> 'w" where
  "Ping E ctx w = (case mxCall E ctx ''ping'' ParamsEmpty w of
       (Inl err, w) \<Rightarrow> (Some err, w)
     | (Inr raw, w) \<Rightarrow> (None, w))"

text \<open>\<open>onClose\<close> is set for a subprocess only; the pending calls are woken first.\<close>

definition mcp_Close :: "('w \<Rightarrow> goerr option \<times> 'w) option \<Rightarrow> rpc_client \<Rightarrow> 'w \<Rightarrow> (goerr option \<times> rpc_client) \<times> 'w" where
  "mcp_Close onClose rc w = (let rc = rpc_fail None rc in
     case onClose of
       None \<Rightarrow> ((None, rc), w)
     | Some f \<Rightarrow> (case f w of (err, w) \<Rightarrow> ((err, rc), w)))"

definition ServerInfo :: "mcp_client \<Rightarrow> server_info option" where
  "ServerInfo c = mcServer c"

section \<open>A server as a subprocess\<close>

text \<open>
  The process of an \<open>exec.Cmd\<close>. \<open>pcWaitFor d\<close> waits for the end of the process at most for \<open>d\<close>:
  \<open>Some r\<close> is what \<open>Wait\<close> returned, \<open>None\<close> that the time was over first. \<open>pcReap\<close> is the rest of that
  \<open>Wait\<close>, which ends after the process has been killed.
\<close>

record 'w process =
  pcStdinPipe :: "'w \<Rightarrow> goerr option \<times> 'w"
  pcStdoutPipe :: "'w \<Rightarrow> goerr option \<times> 'w"
  pcInheritStderr :: "'w \<Rightarrow> 'w"      \<comment> \<open>\<open>cmd.Stderr = os.Stderr\<close>, unless it is set\<close>
  pcStart :: "'w \<Rightarrow> goerr option \<times> 'w"
  pcCloseStdin :: "'w \<Rightarrow> 'w"
  pcWaitFor :: "duration \<Rightarrow> 'w \<Rightarrow> goerr option option \<times> 'w"
  pcKill :: "'w \<Rightarrow> 'w"
  pcReap :: "'w \<Rightarrow> 'w"

definition stdio_close :: "'w process \<Rightarrow> 'w \<Rightarrow> goerr option \<times> 'w" where
  "stdio_close P w = (case pcWaitFor P (3 * time_second) (pcCloseStdin P w) of
       (Some err, w) \<Rightarrow> (err, w)
     | (None, w) \<Rightarrow> (Some (ErrText ''mcp: server did not exit; killed''), pcReap P (pcKill P w)))"

text \<open>The client, its connection and its \<open>onClose\<close>.\<close>

definition NewStdioCmdClient ::
  "'w process \<Rightarrow> mcp_option list \<Rightarrow> 'w \<Rightarrow> (goerr + (mcp_client \<times> rpc_client) \<times> ('w \<Rightarrow> goerr option \<times> 'w)) \<times> 'w" where
  "NewStdioCmdClient P opts w = (case pcStdinPipe P w of
       (Some err, w) \<Rightarrow> (Inl err, w)
     | (None, w) \<Rightarrow> (case pcStdoutPipe P w of
         (Some err, w) \<Rightarrow> (Inl err, w)
       | (None, w) \<Rightarrow> (case pcStart P (pcInheritStderr P w) of
           (Some err, w) \<Rightarrow> (Inl err, w)
         | (None, w) \<Rightarrow> (Inr (NewClient opts, stdio_close P), w))))"

definition NewStdioClient ::
  "(string \<Rightarrow> string list \<Rightarrow> 'w process) \<Rightarrow> string \<Rightarrow> string list \<Rightarrow> mcp_option list \<Rightarrow> 'w \<Rightarrow>
     (goerr + (mcp_client \<times> rpc_client) \<times> ('w \<Rightarrow> goerr option \<times> 'w)) \<times> 'w" where
  "NewStdioClient command name args opts w = NewStdioCmdClient (command name args) opts w"

text \<open>
  \<open>Close\<close> of a subprocess client wakes the pending calls, closes the input of the server first, and
  kills it only when it has not come to its end three seconds later.
\<close>

lemma stdio_Close_order:
  assumes "NewStdioCmdClient P opts w = (Inr ((c, rc), onClose), w')"
  shows "fst (mcp_Close (Some onClose) rc' v) =
      (case fst (pcWaitFor P (3 * time_second) (pcCloseStdin P v)) of
         Some err \<Rightarrow> err | None \<Rightarrow> Some (ErrText ''mcp: server did not exit; killed''), rpc_fail None rc')"
  using assms
  by (auto simp: NewStdioCmdClient_def mcp_Close_def stdio_close_def Let_def split: prod.splits option.splits)

section \<open>Pagination\<close>

text \<open>
  The reference: the tools of a listing whose page at a cursor is \<open>page cursor\<close>, in at most \<open>n\<close> pages.
\<close>

fun pages :: "(string \<Rightarrow> tool_info list \<times> string) \<Rightarrow> nat \<Rightarrow> string \<Rightarrow> tool_info list option" where
  "pages page 0 cursor = None"
| "pages page (Suc n) cursor = (case page cursor of (tools, next) \<Rightarrow>
     if next = [] then Some tools else map_option (\<lambda>rest. tools @ rest) (pages page n next))"

definition serves_pages :: "'w mcp_env \<Rightarrow> ctx \<Rightarrow> (string \<Rightarrow> tool_info list \<times> string) \<Rightarrow> bool" where
  "serves_pages E ctx page \<longleftrightarrow> (\<forall>cursor w. case mxCall E ctx ''tools/list'' (list_params cursor) w of
       (Inl err, w') \<Rightarrow> False
     | (Inr raw, w') \<Rightarrow> mxTools E raw = Inr (page cursor))"

lemma serves_pages_call:
  assumes "serves_pages E ctx page"
  obtains raw w' where "mxCall E ctx ''tools/list'' (list_params cursor) w = (Inr raw, w')" "mxTools E raw = Inr (page cursor)"
proof -
  have "case mxCall E ctx ''tools/list'' (list_params cursor) w of
      (Inl err, w') \<Rightarrow> False | (Inr raw, w') \<Rightarrow> mxTools E raw = Inr (page cursor)"
    using assms [unfolded serves_pages_def, rule_format, of cursor w] .
  then show thesis using that by (auto split: prod.splits sum.splits)
qed

lemma list_pages_unfold:
  assumes "serves_pages E ctx page"
  shows "\<exists>w'. list_pages E ctx cursor all w =
    (if snd (page cursor) = [] then Some (Inr (all @ fst (page cursor)), w')
     else list_pages E ctx (snd (page cursor)) (all @ fst (page cursor)) w')"
proof -
  obtain raw w' where "mxCall E ctx ''tools/list'' (list_params cursor) w = (Inr raw, w')" "mxTools E raw = Inr (page cursor)"
    using serves_pages_call [OF assms] .
  then show ?thesis by (subst list_pages.simps) (auto split: prod.splits)
qed

lemma list_pages_finds:
  assumes "serves_pages E ctx page"
  shows "pages page n cursor = Some tools \<Longrightarrow> \<exists>w'. list_pages E ctx cursor all w = Some (Inr (all @ tools), w')"
proof (induction n arbitrary: cursor all w tools)
  case (Suc n)
  obtain w1 where u: "list_pages E ctx cursor all w =
      (if snd (page cursor) = [] then Some (Inr (all @ fst (page cursor)), w1)
       else list_pages E ctx (snd (page cursor)) (all @ fst (page cursor)) w1)"
    using list_pages_unfold [OF assms] by blast
  show ?case
  proof (cases "snd (page cursor) = []")
    case True
    with u Suc.prems show ?thesis by (auto split: prod.splits)
  next
    case False
    with Suc.prems obtain rest where r: "pages page n (snd (page cursor)) = Some rest" "tools = fst (page cursor) @ rest"
      by (auto split: prod.splits)
    from Suc.IH [OF r(1), of "all @ fst (page cursor)" w1] u False r(2) show ?thesis by auto
  qed
qed simp

lemma list_pages_returns:
  assumes "serves_pages E ctx page" "list_pages E ctx cursor all w = Some r"
  shows "\<exists>n tools. pages page n cursor = Some tools"
proof -
  let ?P = "\<lambda>E' c' cursor' all' w' r'. E' = E \<longrightarrow> c' = ctx \<longrightarrow> (\<exists>n tools. pages page n cursor' = Some tools)"
  have "?P E ctx cursor all w r"
  proof (rule list_pages.raw_induct [where P = ?P, OF _ assms(2)], intro impI)
    fix rec E' c' cursor' all' w' r'
    assume ih: "\<And>E' c' cursor' all' w' r'. rec E' c' cursor' all' w' = Some r' \<Longrightarrow> ?P E' c' cursor' all' w' r'"
      and eq: "(case mxCall E' c' ''tools/list'' (list_params cursor') w' of
        (Inl err, w) \<Rightarrow> Some (Inl (ErrWrap ''mcp: tools/list: '' err), w)
      | (Inr raw, w) \<Rightarrow> (case mxTools E' raw of
          Inl err \<Rightarrow> Some (Inl (ErrWrap ''mcp: decode tools/list: '' err), w)
        | Inr (tools, next) \<Rightarrow>
            if next = [] then Some (Inr (all' @ tools), w) else rec E' c' next (all' @ tools) w)) = Some r'"
      and e: "E' = E" "c' = ctx"
    obtain raw w1 where m: "mxCall E ctx ''tools/list'' (list_params cursor') w' = (Inr raw, w1)" "mxTools E raw = Inr (page cursor')"
      using serves_pages_call [OF assms(1)] .
    show "\<exists>n tools. pages page n cursor' = Some tools"
    proof (cases "snd (page cursor') = []")
      case True
      then have "pages page (Suc 0) cursor' = Some (fst (page cursor'))" by (cases "page cursor'") simp
      then show ?thesis by blast
    next
      case False
      with eq e m have "rec E ctx (snd (page cursor')) (all' @ fst (page cursor')) w1 = Some r'"
        by (auto split: prod.splits)
      from ih [OF this] obtain n tools where "pages page n (snd (page cursor')) = Some tools" by blast
      with False have "pages page (Suc n) cursor' = Some (fst (page cursor') @ tools)" by (cases "page cursor'") simp
      then show ?thesis by blast
    qed
  qed
  then show ?thesis by blast
qed

text \<open>
  C40: \<open>ListTools\<close> follows the cursors of the server and returns the tools of all the pages in order,
  exactly when the pages come to an end; against a server that hands out a new cursor on every page
  it never returns.
\<close>

theorem ListTools_follows_pages:
  assumes "serves_pages E ctx page"
  shows "(\<forall>n tools. pages page n [] = Some tools \<longrightarrow> map_option fst (ListTools E ctx w) = Some (Inr tools)) \<and>
     ((\<forall>n. pages page n [] = None) \<longrightarrow> ListTools E ctx w = None)"
proof (intro conjI allI impI)
  show "map_option fst (ListTools E ctx w) = Some (Inr tools)" if "pages page n [] = Some tools" for n tools
    using list_pages_finds [OF assms that, of "[]" w] by (auto simp: ListTools_def)
  show "ListTools E ctx w = None" if "\<forall>n. pages page n [] = None"
    using list_pages_returns [OF assms, of "[]" "[]" w] that by (cases "ListTools E ctx w") (auto simp: ListTools_def)
qed

definition two_pages :: "unit mcp_env" where
  "two_pages = \<lparr>mxCall = (\<lambda>ctx m p w. (Inr (case p of ParamsCursor c \<Rightarrow> c | _ \<Rightarrow> []), w)), mxNotify = (\<lambda>m w. (None, w)),
     mxServerInfo = (\<lambda>raw. Inl (ErrText [])),
     mxTools = (\<lambda>raw. Inr ([\<lparr>tiName = raw, tiDescription = [], tiInputSchema = []\<rparr>], if raw = [] then ''2'' else [])),
     mxResult = (\<lambda>raw. Inl (ErrText []))\<rparr>"

theorem ListTools_follows_pages_witness:
  "map_option fst (ListTools two_pages CtxBackground ()) = Some (Inr
     [\<lparr>tiName = [], tiDescription = [], tiInputSchema = []\<rparr>, \<lparr>tiName = ''2'', tiDescription = [], tiInputSchema = []\<rparr>])"
proof -
  let ?page = "\<lambda>c :: string. ([\<lparr>tiName = c, tiDescription = [] :: string, tiInputSchema = [] :: string\<rparr>], if c = [] then ''2'' else [])"
  have s: "serves_pages two_pages CtxBackground ?page"
    by (simp add: serves_pages_def two_pages_def list_params_def)
  have "pages ?page 2 [] = Some [\<lparr>tiName = [], tiDescription = [], tiInputSchema = []\<rparr>, \<lparr>tiName = ''2'', tiDescription = [], tiInputSchema = []\<rparr>]"
    by (simp add: numeral_2_eq_2)
  with ListTools_follows_pages [OF s] show ?thesis by blast
qed

end
