(* ===== verification/Rpc_Server.thy ===== *)
theory Rpc_Server
  imports Run Go_Steps
begin

text \<open>
  \<open>rpc/server.go\<close>: the JSON-RPC server that puts agents behind a connection. Each line is handled by
  a goroutine of its own. A state of a connection holds the fields of \<open>conn\<close>, the sessions, the
  goroutines with the place each has reached in its handler, and the reader of \<open>Serve\<close>; an action is
  a block that touches the shared state once: the factory, the counter, the map under its mutex, the
  mutex of a session, the writer under its mutex. The run of a session is one action: it happens
  under the mutex of its session, and what it shares with the others, the writer, is part of the world
  its events and its environment act on.
\<close>

section \<open>Messages\<close>

definition codeParseError :: int where "codeParseError = -32700"
definition codeInvalidRequest :: int where "codeInvalidRequest = -32600"
definition codeMethodNotFound :: int where "codeMethodNotFound = -32601"
definition codeInvalidParams :: int where "codeInvalidParams = -32602"
definition codeInternalError :: int where "codeInternalError = -32603"
definition codeSessionUnknown :: int where "codeSessionUnknown = -32000"
definition codeRunError :: int where "codeRunError = -32001"

lemmas code_defs = codeParseError_def codeInvalidRequest_def codeMethodNotFound_def codeInvalidParams_def
  codeInternalError_def codeSessionUnknown_def codeRunError_def

record new_session_params =
  npInstructions :: string
  npRaw :: raw_message

record rpc_request =
  rrJSONRPC :: string
  rrID :: raw_message
  rrMethod :: string
  rrParams :: raw_message

datatype error_data = NoData | DataText string | DataStopReason string

record server_error =
  seCode :: int
  seMessage :: string
  seData :: error_data

definition server_error_Error :: "server_error \<Rightarrow> string" where
  "server_error_Error e = seMessage e"

datatype rpc_result =
    InitializeResult string string "string list"
  | PongResult
  | NewSessionResult string
  | SnapshotResult session_state
  | PromptResult string goany usage string nat summary
  | ClosedResult

type_synonym reply = "server_error + rpc_result"

text \<open>The values of the wire map of an event.\<close>

datatype wire_value =
    WStr string | WInt int | WUsage usage | WRaw raw_message | WTime gotime

type_synonym payload = "string \<rightharpoonup> wire_value"

text \<open>What \<open>write\<close> is called with: a response with a result or an error, a notification.\<close>

datatype wire =
    WireResult raw_message rpc_result
  | WireError raw_message server_error
  | WireUpdate string payload

definition plain_error :: "int \<Rightarrow> string \<Rightarrow> server_error" where
  "plain_error code msg = \<lparr>seCode = code, seMessage = msg, seData = NoData\<rparr>"

definition invalidParams :: "goerr \<Rightarrow> server_error" where
  "invalidParams err = \<lparr>seCode = codeInvalidParams, seMessage = ''invalid params'', seData = DataText (Error err)\<rparr>"

section \<open>Events on the wire (eventPayload)\<close>

definition set_base :: "event_base \<Rightarrow> payload \<Rightarrow> payload" where
  "set_base b m = m(''agent'' \<mapsto> WStr (ebAgent b), ''time'' \<mapsto> WTime (ebTime b))"

definition zero_base :: event_base where
  "zero_base = \<lparr>ebAgent = [], ebTime = 0\<rparr>"

text \<open>The cases of the type switch; an event no case names leaves the base at its zero value.\<close>

fun payload_fields :: "event \<Rightarrow> payload \<Rightarrow> event_base \<times> payload" where
  "payload_fields (RunStartedEvent b) m = (b, m)"
| "payload_fields (StepStartedEvent b n) m = (b, m(''step'' \<mapsto> WInt (int n)))"
| "payload_fields (ModelResponseEvent b u stop text) m =
     (b, m(''usage'' \<mapsto> WUsage u, ''stop_reason'' \<mapsto> WStr stop, ''text'' \<mapsto> WStr text))"
| "payload_fields (UsageUpdatedEvent b u) m = (b, m(''usage'' \<mapsto> WUsage u))"
| "payload_fields (ToolCallStartedEvent b c) m =
     (b, let m = m(''tool'' \<mapsto> WStr (tcName c), ''call_id'' \<mapsto> WStr (tcID c))
         in if tcArguments c \<noteq> [] then m(''arguments'' \<mapsto> WRaw (tcArguments c)) else m)"
| "payload_fields (ToolCallFinishedEvent b c r err) m =
     (b, let m = m(''tool'' \<mapsto> WStr (tcName c), ''call_id'' \<mapsto> WStr (tcID c), ''result'' \<mapsto> WStr r)
         in (case err of None \<Rightarrow> m | Some e \<Rightarrow> m(''error'' \<mapsto> WStr (Error e))))"
| "payload_fields (CompactionStartedEvent b n est) m =
     (b, m(''messages'' \<mapsto> WInt (int n), ''estimated_tokens'' \<mapsto> WInt est))"
| "payload_fields (CompactionFinishedEvent b n) m = (b, m(''messages'' \<mapsto> WInt (int n)))"
| "payload_fields (SubAgentStartedEvent b name) m = (b, m(''name'' \<mapsto> WStr name))"
| "payload_fields (SubAgentFinishedEvent b name u) m = (b, m(''name'' \<mapsto> WStr name, ''usage'' \<mapsto> WUsage u))"
| "payload_fields (TextDeltaEvent b d) m = (b, m(''delta'' \<mapsto> WStr d))"
| "payload_fields (RunFinishedEvent b r) m =
     (b, m(''stop_reason'' \<mapsto> WStr (resStopReason r), ''steps'' \<mapsto> WInt (int (resSteps r)), ''usage'' \<mapsto> WUsage (resUsage r)))"
| "payload_fields (ErrorEvent b e) m = (b, m(''error'' \<mapsto> WStr (Error e)))"
| "payload_fields (ReasoningDeltaEvent b d) m = (zero_base, m)"

definition eventPayload :: "event \<Rightarrow> payload" where
  "eventPayload e = (case payload_fields e [''kind'' \<mapsto> WStr (EventKind e)] of (b, m) \<Rightarrow> set_base b m)"

section \<open>The server and its connections\<close>

datatype 'w factory_outcome = FactoryReturns "'w config" | FactoryFails goerr | FactoryPanics string

record 'w server =
  srvFactory :: "(ctx \<Rightarrow> new_session_params \<Rightarrow> 'w \<Rightarrow> 'w factory_outcome \<times> 'w) option"
  srvName :: string
  srvVersion :: string

type_synonym 'w server_option = "'w server \<Rightarrow> 'w server"

definition WithServerInfo :: "string \<Rightarrow> string \<Rightarrow> 'w server_option" where
  "WithServerInfo name version = (\<lambda>s.
     (let s = (if name \<noteq> [] then s\<lparr>srvName := name\<rparr> else s)
      in if version \<noteq> [] then s\<lparr>srvVersion := version\<rparr> else s))"

definition NewServer ::
  "(ctx \<Rightarrow> new_session_params \<Rightarrow> 'w \<Rightarrow> 'w factory_outcome \<times> 'w) option \<Rightarrow> 'w server_option list \<Rightarrow> 'w server" where
  "NewServer factory opts = foldl (\<lambda>s opt. opt s)
     \<lparr>srvFactory = factory, srvName = ''rimeno'', srvVersion = ''0.1.0''\<rparr> opts"

text \<open>
  What the server uses of \<open>encoding/json\<close> and of its writer. \<open>svRequest\<close> and the functions on
  params are \<open>json.Unmarshal\<close> into the structs of the handlers; \<open>svRawOk r\<close>: \<open>json.Marshal\<close> takes the
  raw message \<open>r\<close> (it is nil or well-formed JSON); \<open>svWrite\<close> writes the line of a message.
\<close>

record 'w server_env =
  svEnv :: "'w env"
  svCtx :: ctx                          \<comment> \<open>the context of the connection\<close>
  svRequest :: "string \<Rightarrow> goerr + rpc_request"
  svNewParams :: "raw_message \<Rightarrow> goerr + string"
  svResumeParams :: "raw_message \<Rightarrow> goerr + string \<times> session_state"
  svPromptParams :: "raw_message \<Rightarrow> goerr + string \<times> string"
  svSessionParams :: "raw_message \<Rightarrow> goerr + string"
  svRawOk :: "raw_message \<Rightarrow> bool"
  svWrite :: "wire \<Rightarrow> 'w \<Rightarrow> 'w"

section \<open>Writing\<close>

text \<open>Whether \<open>Encode\<close> succeeds; it fails on a raw message that is not JSON and on a Go value \<open>json\<close> cannot marshal.\<close>

fun any_encodes :: "(raw_message \<Rightarrow> bool) \<Rightarrow> goany \<Rightarrow> bool" where
  "any_encodes ok (AnyRawMessage r) = ok r"
| "any_encodes ok (AnyValue js v) = (case js of Inl e \<Rightarrow> False | Inr b \<Rightarrow> True)"
| "any_encodes ok _ = True"

definition state_encodes :: "(raw_message \<Rightarrow> bool) \<Rightarrow> session_state \<Rightarrow> bool" where
  "state_encodes ok st = list_all (\<lambda>m. list_all (\<lambda>c. ok (tcArguments c)) (msgToolCalls m)) (stateMessages st)"

fun encodes :: "(raw_message \<Rightarrow> bool) \<Rightarrow> wire \<Rightarrow> bool" where
  "encodes ok (WireResult rid (SnapshotResult st)) = state_encodes ok st"
| "encodes ok (WireResult rid (PromptResult text out u stop n sm)) = any_encodes ok out"
| "encodes ok (WireResult rid _) = True"
| "encodes ok (WireError rid e) = True"
| "encodes ok (WireUpdate sid m) = (case m ''arguments'' of Some (WRaw r) \<Rightarrow> ok r | _ \<Rightarrow> True)"

text \<open>\<open>conn.write\<close>: the error of \<open>Encode\<close> is dropped, and with it the message.\<close>

definition conn_write :: "'w server_env \<Rightarrow> wire \<Rightarrow> 'w \<Rightarrow> 'w" where
  "conn_write V v w = (if encodes (svRawOk V) v then svWrite V v w else w)"

definition emitEvent :: "'w server_env \<Rightarrow> string \<Rightarrow> event \<Rightarrow> 'w \<Rightarrow> 'w" where
  "emitEvent V sid e w = conn_write V (WireUpdate sid (eventPayload e)) w"

text \<open>The handler \<open>buildAgent\<close> puts into the configuration: the handler of the host first, then the wire.\<close>

definition notifying_handler :: "'w server_env \<Rightarrow> string \<Rightarrow> 'w handler \<Rightarrow> 'w handler" where
  "notifying_handler V sid host = Some (\<lambda>e w. emitEvent V sid e (case host of None \<Rightarrow> w | Some h \<Rightarrow> h e w))"

section \<open>Requests\<close>

text \<open>
  The place a goroutine has reached: it holds a line; it is about to call the factory, to take an id,
  to store the session; to look a session up, to lock it, it holds the lock, it is about to release
  it; to delete a session; \<open>dispatch\<close> has returned; it is about to write; it is done, with what it
  handed to \<open>write\<close>. For a prompt \<open>Some input\<close> is carried along, \<open>None\<close> is a snapshot; for
  \<open>session/resume\<close> the state.
\<close>

datatype 'w phase =
    JLine
  | JBuild new_session_params "session_state option"
  | JAlloc "'w config" "session_state option"
  | JStore string "'w agent" "session_state option"
  | JLookup string "string option"
  | JLock nat "string option"
  | JLocked nat "string option"
  | JUnlock nat reply
  | JDelete string
  | JReturn reply
  | JWrite wire
  | JDone "wire option"

definition server_methods :: "string list" where
  "server_methods = [''initialize'', ''ping'', ''session/new'', ''session/prompt'', ''session/snapshot'', ''session/resume'', ''session/close'']"

definition handleInitialize :: "'w server \<Rightarrow> rpc_result" where
  "handleInitialize srv = InitializeResult (srvName srv) (srvVersion srv) server_methods"

text \<open>The handlers up to the first access of shared state.\<close>

definition handleNewSession :: "'w server_env \<Rightarrow> rpc_request \<Rightarrow> 'w phase" where
  "handleNewSession V req =
     (case (if rrParams req \<noteq> [] then svNewParams V (rrParams req) else Inr []) of
        Inl err \<Rightarrow> JReturn (Inl (invalidParams err))
      | Inr ins \<Rightarrow> JBuild \<lparr>npInstructions = ins, npRaw = rrParams req\<rparr> None)"

definition handleSnapshot :: "'w server_env \<Rightarrow> rpc_request \<Rightarrow> 'w phase" where
  "handleSnapshot V req = (case svSessionParams V (rrParams req) of
       Inl err \<Rightarrow> JReturn (Inl (invalidParams err))
     | Inr sid \<Rightarrow> JLookup sid None)"

definition handleResume :: "'w server_env \<Rightarrow> rpc_request \<Rightarrow> 'w phase" where
  "handleResume V req = (case svResumeParams V (rrParams req) of
       Inl err \<Rightarrow> JReturn (Inl (invalidParams err))
     | Inr (ins, state) \<Rightarrow> JBuild \<lparr>npInstructions = ins, npRaw = rrParams req\<rparr> (Some state))"

definition handlePrompt :: "'w server_env \<Rightarrow> rpc_request \<Rightarrow> 'w phase" where
  "handlePrompt V req = (case svPromptParams V (rrParams req) of
       Inl err \<Rightarrow> JReturn (Inl (invalidParams err))
     | Inr (sid, input) \<Rightarrow>
         if sid = [] then JReturn (Inl (plain_error codeInvalidParams ''session_id required''))
         else JLookup sid (Some input))"

definition handleClose :: "'w server_env \<Rightarrow> rpc_request \<Rightarrow> 'w phase" where
  "handleClose V req = (case svSessionParams V (rrParams req) of
       Inl err \<Rightarrow> JReturn (Inl (invalidParams err))
     | Inr sid \<Rightarrow> JDelete sid)"

definition dispatch_request :: "'w server_env \<Rightarrow> 'w server \<Rightarrow> rpc_request \<Rightarrow> 'w phase" where
  "dispatch_request V srv req =
     (let m = rrMethod req in
      if m = ''initialize'' then JReturn (Inr (handleInitialize srv))
      else if m = ''ping'' then JReturn (Inr PongResult)
      else if m = ''session/new'' then handleNewSession V req
      else if m = ''session/prompt'' then handlePrompt V req
      else if m = ''session/snapshot'' then handleSnapshot V req
      else if m = ''session/resume'' then handleResume V req
      else if m = ''session/close'' then handleClose V req
      else JReturn (Inl (plain_error codeMethodNotFound (''method not found: '' @ m))))"

text \<open>\<open>handleLine\<close> up to the call of \<open>safeDispatch\<close>, and the rest of it after \<open>safeDispatch\<close> has returned.\<close>

definition notification :: "rpc_request \<Rightarrow> bool" where
  "notification req \<longleftrightarrow> rrID req = []"

definition writeError :: "raw_message \<Rightarrow> server_error \<Rightarrow> 'w phase" where
  "writeError rid e = JWrite (WireError rid e)"

definition writeResult :: "raw_message \<Rightarrow> rpc_result \<Rightarrow> 'w phase" where
  "writeResult rid r = JWrite (WireResult rid r)"

definition handleLine :: "'w server_env \<Rightarrow> 'w server \<Rightarrow> string \<Rightarrow> 'w phase" where
  "handleLine V srv line = (case svRequest V line of
       Inl err \<Rightarrow> writeError ''null'' \<lparr>seCode = codeParseError, seMessage = ''parse error'', seData = DataText (Error err)\<rparr>
     | Inr req \<Rightarrow>
         if rrJSONRPC req \<noteq> [] \<and> rrJSONRPC req \<noteq> ''2.0'' then
           (if \<not> notification req then writeError (rrID req) (plain_error codeInvalidRequest ''unsupported jsonrpc version'')
            else JDone None)
         else if rrMethod req = [] then
           (if \<not> notification req then writeError (rrID req) (plain_error codeInvalidRequest ''missing method'')
            else JDone None)
         else dispatch_request V srv req)"

definition answer_request :: "rpc_request \<Rightarrow> reply \<Rightarrow> 'w phase" where
  "answer_request req r =
     (if notification req then JDone None
      else (case r of Inl e \<Rightarrow> writeError (rrID req) e | Inr v \<Rightarrow> writeResult (rrID req) v))"

text \<open>\<open>safeDispatch\<close>: the reply to a request whose handler panicked; \<open>r\<close> is what \<open>%v\<close> prints.\<close>

definition recovered :: "string \<Rightarrow> reply" where
  "recovered r = Inl (plain_error codeInternalError (''internal error: '' @ r))"

definition session_unknown :: "string \<Rightarrow> server_error" where
  "session_unknown sid = plain_error codeSessionUnknown (''unknown session: '' @ sid)"

section \<open>Connections\<close>

record 'w rpc_session =
  rsID :: string
  rsAgent :: "'w agent"
  rsSess :: session
  rsHolder :: "nat option"      \<comment> \<open>the goroutine that holds the mutex\<close>

record 'w job =
  jbLine :: string
  jbPhase :: "'w phase"

datatype read_end = InputEOF | InputError goerr

text \<open>\<open>Serve\<close>: in its loop, waiting for the goroutines, returned.\<close>

datatype serve_phase = SvReading | SvWaiting "goerr option" | SvReturned "goerr option"

text \<open>
  \<open>coIDs\<close> are the ids \<open>buildAgent\<close> has handed out, in order, and \<open>coOut\<close> the responses that went
  out, with the goroutine they came from; a session is known by its index in \<open>coObjs\<close>.
\<close>

record 'w conn =
  coSrv :: "'w server"
  coSt :: "'w st"
  coSeq :: nat
  coSessions :: "string \<rightharpoonup> nat"
  coObjs :: "'w rpc_session list"
  coJobs :: "'w job list"
  coServe :: serve_phase
  coIDs :: "string list"
  coOut :: "(nat \<times> wire) list"

definition new_conn :: "'w server \<Rightarrow> 'w st \<Rightarrow> 'w conn" where
  "new_conn srv st = \<lparr>coSrv = srv, coSt = st, coSeq = 0, coSessions = Map.empty, coObjs = [], coJobs = [],
     coServe = SvReading, coIDs = [], coOut = []\<rparr>"

text \<open>\<open>Serve\<close> up to its loop.\<close>

definition Serve :: "'w server \<Rightarrow> 'w st \<Rightarrow> goerr + 'w conn" where
  "Serve srv st = (if srvFactory srv = None then Inl (ErrText ''rimeno/rpc: nil ConfigFactory'') else Inr (new_conn srv st))"

definition set_job :: "nat \<Rightarrow> 'w phase \<Rightarrow> 'w conn \<Rightarrow> 'w conn" where
  "set_job i ph s = s\<lparr>coJobs := (coJobs s)[i := (coJobs s ! i)\<lparr>jbPhase := ph\<rparr>]\<rparr>"

definition set_world :: "'w \<Rightarrow> 'w conn \<Rightarrow> 'w conn" where
  "set_world w s = s\<lparr>coSt := (coSt s)\<lparr>stWorld := w\<rparr>\<rparr>"

definition set_obj :: "nat \<Rightarrow> 'w rpc_session \<Rightarrow> 'w conn \<Rightarrow> 'w conn" where
  "set_obj k r s = s\<lparr>coObjs := (coObjs s)[k := r]\<rparr>"

definition job_over :: "'w job \<Rightarrow> bool" where
  "job_over j \<longleftrightarrow> (case jbPhase j of JDone _ \<Rightarrow> True | _ \<Rightarrow> False)"

section \<open>Steps of the goroutines\<close>

text \<open>One iteration of the loop of \<open>Serve\<close>: a line, how the read ended, and what \<open>ctx.Err()\<close> returns.\<close>

definition serve_read :: "string \<Rightarrow> read_end option \<Rightarrow> goerr option \<Rightarrow> 'w conn \<Rightarrow> 'w conn" where
  "serve_read line err ctxErr s =
     (let msg = trim_space line;
          s = (if msg \<noteq> [] then s\<lparr>coJobs := coJobs s @ [\<lparr>jbLine = msg, jbPhase = JLine\<rparr>]\<rparr> else s)
      in case err of
           Some InputEOF \<Rightarrow> s\<lparr>coServe := SvWaiting None\<rparr>
         | Some (InputError e) \<Rightarrow> s\<lparr>coServe := SvWaiting (Some e)\<rparr>
         | None \<Rightarrow> (case ctxErr of None \<Rightarrow> s | Some e \<Rightarrow> s\<lparr>coServe := SvWaiting (Some e)\<rparr>))"

text \<open>\<open>buildAgent\<close>: the call of the factory, then the id and the agent.\<close>

definition build_factory :: "'w server_env \<Rightarrow> nat \<Rightarrow> new_session_params \<Rightarrow> session_state option \<Rightarrow> 'w conn \<Rightarrow> 'w conn" where
  "build_factory V i p st s = (case srvFactory (coSrv s) of
       None \<Rightarrow> set_job i (JReturn (recovered ''runtime error: invalid memory address or nil pointer dereference'')) s
     | Some f \<Rightarrow> (case f (svCtx V) p (stWorld (coSt s)) of (out, w) \<Rightarrow>
         set_job i (case out of
             FactoryReturns cfg \<Rightarrow> JAlloc cfg st
           | FactoryFails err \<Rightarrow> JReturn (Inl (plain_error codeInternalError (''config factory: '' @ Error err)))
           | FactoryPanics r \<Rightarrow> JReturn (recovered r)) (set_world w s)))"

definition session_id :: "nat \<Rightarrow> string" where
  "session_id n = ''sess-'' @ nat_dec n"

definition build_agent :: "'w server_env \<Rightarrow> nat \<Rightarrow> 'w config \<Rightarrow> session_state option \<Rightarrow> 'w conn \<Rightarrow> 'w conn" where
  "build_agent V i cfg st s =
     (let n = (coSeq s + 1) mod uint64_size;
          sid = session_id n
      in set_job i (case New (cfg\<lparr>cfgOnEvent := notifying_handler V sid (cfgOnEvent cfg)\<rparr>) of
             Inl err \<Rightarrow> JReturn (Inl (plain_error codeInvalidParams (''invalid config: '' @ Error err)))
           | Inr ag \<Rightarrow> JStore sid ag st)
         (s\<lparr>coSeq := n, coIDs := coIDs s @ [sid]\<rparr>))"

definition fresh_session :: "'w agent \<Rightarrow> session_state option \<Rightarrow> session" where
  "fresh_session ag st = (case st of None \<Rightarrow> NewSession ag | Some state \<Rightarrow> ResumeSession state)"

definition conn_store :: "nat \<Rightarrow> string \<Rightarrow> 'w agent \<Rightarrow> session_state option \<Rightarrow> 'w conn \<Rightarrow> 'w conn" where
  "conn_store i sid ag st s = set_job i (JReturn (Inr (NewSessionResult sid)))
     (s\<lparr>coSessions := (coSessions s)(sid \<mapsto> length (coObjs s)),
        coObjs := coObjs s @ [\<lparr>rsID = sid, rsAgent = ag, rsSess = fresh_session ag st, rsHolder = None\<rparr>]\<rparr>)"

definition conn_lookup :: "nat \<Rightarrow> string \<Rightarrow> string option \<Rightarrow> 'w conn \<Rightarrow> 'w conn" where
  "conn_lookup i sid input s = set_job i (case coSessions s sid of
       None \<Rightarrow> JReturn (Inl (session_unknown sid))
     | Some k \<Rightarrow> JLock k input) s"

text \<open>\<open>rs.mu.Lock()\<close>: blocked while another goroutine has it.\<close>

definition session_lock :: "nat \<Rightarrow> nat \<Rightarrow> string option \<Rightarrow> 'w conn \<Rightarrow> 'w conn option" where
  "session_lock i k input s =
     (if rsHolder (coObjs s ! k) = None
      then Some (set_job i (JLocked k input) (set_obj k ((coObjs s ! k)\<lparr>rsHolder := Some i\<rparr>) s)) else None)"

definition prompt_reply :: "'w st \<Rightarrow> result \<times> goerr option \<Rightarrow> reply" where
  "prompt_reply st r = (case r of (res, err) \<Rightarrow> (case err of
       Some e \<Rightarrow> Inl \<lparr>seCode = codeRunError, seMessage = Error e, seData = DataStopReason (resStopReason res)\<rparr>
     | None \<Rightarrow> Inr (PromptResult (resText res) (resOutput res) (resUsage res) (resStopReason res) (resSteps res)
                     (Summary (span_tree_of (stHeap st) (resTrace res))))))"

definition session_run :: "'w server_env \<Rightarrow> nat \<Rightarrow> nat \<Rightarrow> string option \<Rightarrow> 'w conn \<Rightarrow> 'w conn" where
  "session_run V i k input s =
     (let r = coObjs s ! k in case input of
        None \<Rightarrow> set_job i (JUnlock k (Inr (SnapshotResult (Snapshot (rsSess r))))) s
      | Some text \<Rightarrow> (case run_state (Send (svEnv V) (rsAgent r) (rsSess r) (svCtx V) text) (coSt s) of
          ((res, sess), st) \<Rightarrow>
            set_job i (JUnlock k (prompt_reply st res)) (set_obj k (r\<lparr>rsSess := sess\<rparr>) (s\<lparr>coSt := st\<rparr>))))"

definition session_unlock :: "nat \<Rightarrow> nat \<Rightarrow> reply \<Rightarrow> 'w conn \<Rightarrow> 'w conn" where
  "session_unlock i k r s = set_job i (JReturn r) (set_obj k ((coObjs s ! k)\<lparr>rsHolder := None\<rparr>) s)"

definition conn_delete :: "nat \<Rightarrow> string \<Rightarrow> 'w conn \<Rightarrow> 'w conn" where
  "conn_delete i sid s = set_job i (JReturn (if coSessions s sid = None then Inl (session_unknown sid) else Inr ClosedResult))
     (s\<lparr>coSessions := (coSessions s)(sid := None)\<rparr>)"

definition write_response :: "'w server_env \<Rightarrow> nat \<Rightarrow> wire \<Rightarrow> 'w conn \<Rightarrow> 'w conn" where
  "write_response V i v s = set_job i (JDone (Some v))
     ((set_world (conn_write V v (stWorld (coSt s))) s)
        \<lparr>coOut := (if encodes (svRawOk V) v then coOut s @ [(i, v)] else coOut s)\<rparr>)"

definition request_of :: "'w server_env \<Rightarrow> string \<Rightarrow> rpc_request" where
  "request_of V line = projr (svRequest V line)"

definition job_step :: "'w server_env \<Rightarrow> nat \<Rightarrow> 'w conn \<Rightarrow> 'w conn option" where
  "job_step V i s = (let line = jbLine (coJobs s ! i) in
     case jbPhase (coJobs s ! i) of
       JLine \<Rightarrow> Some (set_job i (handleLine V (coSrv s) line) s)
     | JBuild p st \<Rightarrow> Some (build_factory V i p st s)
     | JAlloc cfg st \<Rightarrow> Some (build_agent V i cfg st s)
     | JStore sid ag st \<Rightarrow> Some (conn_store i sid ag st s)
     | JLookup sid input \<Rightarrow> Some (conn_lookup i sid input s)
     | JLock k input \<Rightarrow> session_lock i k input s
     | JLocked k input \<Rightarrow> Some (session_run V i k input s)
     | JUnlock k r \<Rightarrow> Some (session_unlock i k r s)
     | JDelete sid \<Rightarrow> Some (conn_delete i sid s)
     | JReturn r \<Rightarrow> Some (set_job i (answer_request (request_of V line) r) s)
     | JWrite v \<Rightarrow> Some (write_response V i v s)
     | JDone v \<Rightarrow> None)"

text \<open>
  An action. \<open>JobPanic i r sess st\<close>: in the run of a prompt code of the host panics (its model, its
  compactor, its handler); the session and the world are then in whatever state the run had
  reached, the deferred unlock happens and \<open>safeDispatch\<close> recovers.
\<close>

datatype 'w srv_action =
    ReadLine string "read_end option" "goerr option"
  | JobStep nat
  | JobPanic nat string session "'w st"
  | ServeReturn

fun srv_step :: "'w server_env \<Rightarrow> 'w srv_action \<Rightarrow> 'w conn \<Rightarrow> 'w conn option" where
  "srv_step V (ReadLine line err ctxErr) s =
     (if coServe s = SvReading then Some (serve_read line err ctxErr s) else None)"
| "srv_step V (JobStep i) s = (if i < length (coJobs s) then job_step V i s else None)"
| "srv_step V (JobPanic i r sess st) s =
     (if i < length (coJobs s) then (case jbPhase (coJobs s ! i) of
          JLocked k (Some text) \<Rightarrow>
            Some (set_job i (JUnlock k (recovered r)) (set_obj k ((coObjs s ! k)\<lparr>rsSess := sess\<rparr>) (s\<lparr>coSt := st\<rparr>)))
        | _ \<Rightarrow> None)
      else None)"
| "srv_step V ServeReturn s = (case coServe s of
       SvWaiting err \<Rightarrow>
         if list_all job_over (coJobs s)
         then Some (set_world (envCancel (svEnv V) (svCtx V) (stWorld (coSt s))) (s\<lparr>coServe := SvReturned err\<rparr>)) else None
     | _ \<Rightarrow> None)"

end
