(* ===== verification/Rpc_Server_Props.thy ===== *)
theory Rpc_Server_Props
  imports Rpc_Server
begin

text \<open>
  What holds of a connection of the JSON-RPC server in every interleaving: who holds the mutex of a
  session, that all goroutines come to their end, which responses go out, and which session an id
  stands for.
\<close>

section \<open>Fields\<close>

abbreviation phase_at :: "'w conn \<Rightarrow> nat \<Rightarrow> 'w phase" where
  "phase_at s i \<equiv> jbPhase (coJobs s ! i)"

lemma set_job_fields [simp]:
  "coObjs (set_job i ph s) = coObjs s" "coSessions (set_job i ph s) = coSessions s" "coIDs (set_job i ph s) = coIDs s"
  "coSeq (set_job i ph s) = coSeq s" "coOut (set_job i ph s) = coOut s" "coServe (set_job i ph s) = coServe s"
  "coSrv (set_job i ph s) = coSrv s" "coSt (set_job i ph s) = coSt s"
  "coJobs (set_job i ph s) = (coJobs s)[i := (coJobs s ! i)\<lparr>jbPhase := ph\<rparr>]"
  by (simp_all add: set_job_def)

lemma set_world_fields [simp]:
  "coObjs (set_world w s) = coObjs s" "coSessions (set_world w s) = coSessions s" "coIDs (set_world w s) = coIDs s"
  "coSeq (set_world w s) = coSeq s" "coOut (set_world w s) = coOut s" "coServe (set_world w s) = coServe s"
  "coSrv (set_world w s) = coSrv s" "coJobs (set_world w s) = coJobs s"
  by (simp_all add: set_world_def)

lemma set_obj_fields [simp]:
  "coObjs (set_obj k r s) = (coObjs s)[k := r]" "coSessions (set_obj k r s) = coSessions s" "coIDs (set_obj k r s) = coIDs s"
  "coSeq (set_obj k r s) = coSeq s" "coOut (set_obj k r s) = coOut s" "coServe (set_obj k r s) = coServe s"
  "coSrv (set_obj k r s) = coSrv s" "coJobs (set_obj k r s) = coJobs s"
  by (simp_all add: set_obj_def)

lemma serve_read_fields [simp]:
  "coObjs (serve_read l e c s) = coObjs s" "coSessions (serve_read l e c s) = coSessions s" "coIDs (serve_read l e c s) = coIDs s"
  "coSeq (serve_read l e c s) = coSeq s" "coOut (serve_read l e c s) = coOut s"
  "coJobs (serve_read l e c s) = coJobs s @ (if trim_space l = [] then [] else [\<lparr>jbLine = trim_space l, jbPhase = JLine\<rparr>])"
  by (simp_all add: serve_read_def Let_def split: option.splits read_end.splits)

lemma job_update [simp]: "(r :: 'w job)\<lparr>jbPhase := ph\<rparr> = \<lparr>jbLine = jbLine r, jbPhase = ph\<rparr>"
  by (cases r) simp

lemmas step_ops = build_factory_def build_agent_def conn_store_def conn_lookup_def session_lock_def session_run_def
  session_unlock_def conn_delete_def write_response_def

lemmas handler_defs = handleLine_def dispatch_request_def handleNewSession_def handlePrompt_def handleSnapshot_def
  handleResume_def handleClose_def writeError_def writeResult_def

text \<open>An action of a goroutine moves this goroutine only.\<close>

lemma job_step_jobs:
  assumes "job_step V i s = Some t" "i < length (coJobs s)"
  shows "coJobs t = (coJobs s)[i := \<lparr>jbLine = jbLine (coJobs s ! i), jbPhase = phase_at t i\<rparr>]"
  using assms
  by (cases "phase_at s i")
    (auto simp: job_step_def step_ops Let_def split: option.splits prod.splits sum.splits factory_outcome.splits if_splits)

lemma move_at:
  assumes "coJobs t = (coJobs s)[i := \<lparr>jbLine = jbLine (coJobs s ! i), jbPhase = phase_at t i\<rparr>]"
  shows "length (coJobs t) = length (coJobs s)" "n \<noteq> i \<Longrightarrow> coJobs t ! n = coJobs s ! n"
  using arg_cong [OF assms, of length] arg_cong [OF assms, of "\<lambda>js. js ! n"] by simp_all

section \<open>The mutex of a session\<close>

fun holding :: "'w phase \<Rightarrow> nat option" where
  "holding (JLocked k input) = Some k"
| "holding (JUnlock k r) = Some k"
| "holding _ = None"

fun waiting_for :: "'w phase \<Rightarrow> nat option" where
  "waiting_for (JLock k input) = Some k"
| "waiting_for _ = None"

definition lock_inv :: "'w conn \<Rightarrow> bool" where
  "lock_inv s \<longleftrightarrow> (\<forall>sid k. coSessions s sid = Some k \<longrightarrow> k < length (coObjs s)) \<and>
     (\<forall>i < length (coJobs s). \<forall>k. waiting_for (phase_at s i) = Some k \<longrightarrow> k < length (coObjs s)) \<and>
     (\<forall>i < length (coJobs s). \<forall>k. holding (phase_at s i) = Some k \<longrightarrow> k < length (coObjs s)) \<and>
     (\<forall>k < length (coObjs s). \<forall>i. rsHolder (coObjs s ! k) = Some i \<longleftrightarrow> i < length (coJobs s) \<and> holding (phase_at s i) = Some k)"

lemma lock_invD:
  assumes "lock_inv s"
  shows "coSessions s sid = Some k \<Longrightarrow> k < length (coObjs s)"
    and "i < length (coJobs s) \<Longrightarrow> waiting_for (phase_at s i) = Some k \<Longrightarrow> k < length (coObjs s)"
    and "i < length (coJobs s) \<Longrightarrow> holding (phase_at s i) = Some k \<Longrightarrow> k < length (coObjs s)"
    and "k < length (coObjs s) \<Longrightarrow> rsHolder (coObjs s ! k) = Some i \<longleftrightarrow> i < length (coJobs s) \<and> holding (phase_at s i) = Some k"
  using assms by (simp_all add: lock_inv_def)

text \<open>An action that takes and releases no mutex.\<close>

lemma lock_inv_move:
  assumes inv: "lock_inv s" and i: "i < length (coJobs s)"
    and jobs: "coJobs t = (coJobs s)[i := \<lparr>jbLine = jbLine (coJobs s ! i), jbPhase = phase_at t i\<rparr>]"
    and hold: "holding (phase_at t i) = holding (phase_at s i)"
    and wait: "\<And>k. waiting_for (phase_at t i) = Some k \<Longrightarrow> k < length (coObjs s)"
    and sess: "\<And>sid k. coSessions t sid = Some k \<Longrightarrow> coSessions s sid = Some k \<or> k < length (coObjs t)"
    and holders: "map rsHolder (coObjs t) = map rsHolder (coObjs s) @ replicate m None"
  shows "lock_inv t"
proof -
  note d = lock_invD [OF inv]
  have len: "length (coObjs t) = length (coObjs s) + m" "length (coJobs t) = length (coJobs s)"
    using arg_cong [OF holders(1), of length] move_at(1) [OF jobs] by simp_all
  have h: "rsHolder (coObjs t ! k) = (if k < length (coObjs s) then rsHolder (coObjs s ! k) else None)"
    if "k < length (coObjs t)" for k
  proof -
    have "rsHolder (coObjs t ! k) = (map rsHolder (coObjs s) @ replicate m None) ! k" using that holders by (metis nth_map)
    then show ?thesis using that len by (simp add: nth_append)
  qed
  have ph: "holding (phase_at t n) = holding (phase_at s n)" for n
    using hold move_at(2) [OF jobs, of n] by (cases "n = i") auto
  have wt: "k < length (coObjs s)" if "n < length (coJobs s)" "waiting_for (phase_at t n) = Some k" for n k
    using that wait d(2) [of n k] move_at(2) [OF jobs, of n] by (cases "n = i") auto
  show ?thesis unfolding lock_inv_def len(2)
  proof (intro conjI allI impI)
    show "k < length (coObjs t)" if "coSessions t sid = Some k" for sid k
      using sess [OF that] d(1) [of sid k] len by auto
    show "k < length (coObjs t)" if "n < length (coJobs s)" "waiting_for (phase_at t n) = Some k" for n k
      using wt [of n k] that len by auto
    show "k < length (coObjs t)" if "n < length (coJobs s)" "holding (phase_at t n) = Some k" for n k
      using d(3) [of n k] ph [of n] that len by auto
    show "rsHolder (coObjs t ! k) = Some n \<longleftrightarrow> n < length (coJobs s) \<and> holding (phase_at t n) = Some k"
      if "k < length (coObjs t)" for k n
      using h [OF that] d(3) [of n k] d(4) [of k n] ph [of n] by auto
  qed
qed

text \<open>An action that takes or releases the mutex of session \<open>k\<close>.\<close>

lemma lock_inv_at:
  assumes inv: "lock_inv s" and i: "i < length (coJobs s)" and k: "k < length (coObjs s)"
    and jobs: "coJobs t = (coJobs s)[i := \<lparr>jbLine = jbLine (coJobs s ! i), jbPhase = phase_at t i\<rparr>]"
    and objs: "coObjs t = (coObjs s)[k := coObjs t ! k]" and sess: "coSessions t = coSessions s"
    and own: "rsHolder (coObjs s ! k) \<in> {None, Some i}" "holding (phase_at s i) \<in> {None, Some k}"
    and now: "waiting_for (phase_at t i) = None" "rsHolder (coObjs t ! k) \<in> {None, Some i}"
      "holding (phase_at t i) = (if rsHolder (coObjs t ! k) = None then None else Some k)"
  shows "lock_inv t"
proof -
  note d = lock_invD [OF inv]
  have others: "holding (phase_at s n) \<noteq> Some k" if "n < length (coJobs s)" "n \<noteq> i" for n
    using d(4) [OF k, of n] own(1) that by auto
  have h: "rsHolder (coObjs t ! m) = rsHolder (coObjs s ! m)" if "m \<noteq> k" for m
    using arg_cong [OF objs, of "\<lambda>os. os ! m"] that by simp
  have ph: "phase_at t n = phase_at s n" if "n \<noteq> i" for n using move_at(2) [OF jobs that] by simp
  have len: "length (coJobs t) = length (coJobs s)" "length (coObjs t) = length (coObjs s)"
    using move_at(1) [OF jobs] arg_cong [OF objs, of length] by simp_all
  show ?thesis unfolding lock_inv_def len sess
  proof (intro conjI allI impI)
    show "m < length (coObjs s)" if "coSessions s sid = Some m" for sid m using d(1) [OF that] .
    show "m < length (coObjs s)" if "n < length (coJobs s)" "waiting_for (phase_at t n) = Some m" for n m
      using d(2) [of n m] ph [of n] now(1) that by (cases "n = i") auto
    show "m < length (coObjs s)" if "n < length (coJobs s)" "holding (phase_at t n) = Some m" for n m
      using d(3) [of n m] ph [of n] now(3) k that by (cases "n = i") (auto split: if_splits)
    show "rsHolder (coObjs t ! m) = Some n \<longleftrightarrow> n < length (coJobs s) \<and> holding (phase_at t n) = Some m"
      if m: "m < length (coObjs s)" for m n
    proof (cases "n = i")
      case True
      then show ?thesis using h [of m] now(2,3) own(2) d(4) [OF m, of n] i by (cases "m = k") (auto split: if_splits)
    next
      case False
      then show ?thesis using h [of m] ph [of n] now(2) others [of n] d(4) [OF m, of n] by (cases "m = k") auto
    qed
  qed
qed

text \<open>Where a goroutine can be when it has handled its line as far as the first access of shared state.\<close>

fun entry_phase :: "'w phase \<Rightarrow> bool" where
  "entry_phase (JBuild p st) = True"
| "entry_phase (JLookup sid input) = True"
| "entry_phase (JDelete sid) = True"
| "entry_phase (JReturn r) = True"
| "entry_phase (JWrite v) = True"
| "entry_phase (JDone v) = True"
| "entry_phase _ = False"

lemma entry_phase_free: "entry_phase ph \<Longrightarrow> holding ph = None \<and> waiting_for ph = None"
  by (cases ph) simp_all

lemma handlers_enter:
  "entry_phase (handleNewSession V req)" "entry_phase (handlePrompt V req)" "entry_phase (handleSnapshot V req)"
  "entry_phase (handleResume V req)" "entry_phase (handleClose V req)"
  by (simp_all add: handleNewSession_def handlePrompt_def handleSnapshot_def handleResume_def handleClose_def split: sum.split prod.split)

lemma dispatch_enters: "entry_phase (dispatch_request V srv req)"
  by (simp add: dispatch_request_def Let_def handlers_enter)

lemma handleLine_enters: "entry_phase (handleLine V srv line)"
  by (simp add: handleLine_def writeError_def dispatch_enters split: sum.split)

lemma answer_enters: "entry_phase (answer_request req r)"
  by (simp add: answer_request_def writeError_def writeResult_def split: sum.split)

lemma lock_inv_start: "lock_inv (new_conn srv st)"
  by (simp add: lock_inv_def new_conn_def)

lemma map_holder_update:
  "k < length os \<Longrightarrow> rsHolder r = rsHolder (os ! k) \<Longrightarrow> map rsHolder (os[k := r]) = map rsHolder os"
  by (simp add: map_update list_update_same_conv)

lemma lock_inv_job_step:
  assumes inv: "lock_inv s" and i: "i < length (coJobs s)" and st: "job_step V i s = Some t"
  shows "lock_inv t"
proof -
  note jobs = job_step_jobs [OF st i]
  note move = lock_inv_move [OF inv i jobs, where m = 0]
  show ?thesis
  proof (cases "phase_at s i")
    case (JLock k input)
    have k: "k < length (coObjs s)" using lock_invD(2) [OF inv i] JLock by simp
    show ?thesis by (rule lock_inv_at [OF inv i k jobs])
        (use st i k JLock in \<open>auto simp: job_step_def session_lock_def split: if_splits\<close>)
  next
    case (JUnlock k r)
    have k: "k < length (coObjs s)" using lock_invD(3) [OF inv i] JUnlock by simp
    have "rsHolder (coObjs s ! k) = Some i" using lock_invD(4) [OF inv k] i JUnlock by simp
    then show ?thesis by (intro lock_inv_at [OF inv i k jobs])
        (use st i k JUnlock in \<open>auto simp: job_step_def session_unlock_def\<close>)
  next
    case (JLocked k input)
    have k: "k < length (coObjs s)" using lock_invD(3) [OF inv i] JLocked by simp
    show ?thesis by (rule move)
        (use st i k JLocked in \<open>auto simp: job_step_def session_run_def Let_def map_holder_update split: option.splits prod.splits\<close>)
  next
    case (JStore sid ag state)
    show ?thesis by (rule lock_inv_move [OF inv i jobs, where m = 1])
        (use st i JStore in \<open>auto simp: job_step_def conn_store_def split: if_splits\<close>)
  next
    case (JLookup sid input)
    show ?thesis by (rule move)
        (use st i JLookup lock_invD(1) [OF inv] in \<open>auto simp: job_step_def conn_lookup_def split: option.splits\<close>)
  next
    case JLine
    show ?thesis by (rule move) (use st i JLine in \<open>auto simp: job_step_def entry_phase_free [OF handleLine_enters]\<close>)
  next
    case (JReturn r)
    show ?thesis by (rule move) (use st i JReturn in \<open>auto simp: job_step_def entry_phase_free [OF answer_enters]\<close>)
  next
    case (JBuild p state)
    show ?thesis by (rule move)
        (use st i JBuild in \<open>auto simp: job_step_def build_factory_def split: option.splits prod.splits factory_outcome.splits\<close>)
  next
    case (JAlloc cfg state)
    show ?thesis by (rule move) (use st i JAlloc in \<open>auto simp: job_step_def build_agent_def Let_def split: sum.splits\<close>)
  next
    case (JDelete sid)
    show ?thesis by (rule move) (use st i JDelete in \<open>auto simp: job_step_def conn_delete_def split: if_splits\<close>)
  next
    case (JWrite v)
    show ?thesis by (rule move) (use st i JWrite in \<open>auto simp: job_step_def write_response_def\<close>)
  next
    case (JDone v)
    with st show ?thesis by (simp add: job_step_def)
  qed
qed

lemma lock_inv_same:
  assumes "lock_inv s" "coJobs t = coJobs s @ js" "\<forall>j \<in> set js. jbPhase j = JLine"
    "coObjs t = coObjs s" "coSessions t = coSessions s"
  shows "lock_inv t"
proof -
  note d = lock_invD [OF assms(1)]
  have new: "phase_at t n = JLine" if "n < length (coJobs t)" "\<not> n < length (coJobs s)" for n
    using that assms(2,3) by (auto simp: nth_append)
  have old: "phase_at t n = phase_at s n" if "n < length (coJobs s)" for n using that assms(2) by (simp add: nth_append)
  have len: "n < length (coJobs s) \<Longrightarrow> n < length (coJobs t)" for n using assms(2) by simp
  have ph: "holding (phase_at t n) = Some k \<longleftrightarrow> n < length (coJobs s) \<and> holding (phase_at s n) = Some k"
    "waiting_for (phase_at t n) = Some k \<longleftrightarrow> n < length (coJobs s) \<and> waiting_for (phase_at s n) = Some k"
    if "n < length (coJobs t)" for n k
    using new [OF that] old [of n] by (cases "n < length (coJobs s)"; simp)+
  show ?thesis unfolding lock_inv_def assms(4,5) using d ph len by blast
qed

lemma lock_inv_step:
  assumes "lock_inv s" "srv_step V a s = Some t"
  shows "lock_inv t"
proof (cases a)
  case (ReadLine l e c)
  then show ?thesis using assms
    by (intro lock_inv_same [OF assms(1), of _ "if trim_space l = [] then [] else [\<lparr>jbLine = trim_space l, jbPhase = JLine\<rparr>]"])
      (auto split: if_splits)
next
  case (JobStep i)
  then show ?thesis using assms lock_inv_job_step [OF assms(1), of i V t] by (simp split: if_splits)
next
  case (JobPanic i r sess st)
  with assms(2) obtain k prompt where i: "i < length (coJobs s)" and ph: "phase_at s i = JLocked k (Some prompt)"
    and t: "t = set_job i (JUnlock k (recovered r)) (set_obj k ((coObjs s ! k)\<lparr>rsSess := sess\<rparr>) (s\<lparr>coSt := st\<rparr>))"
    by (auto split: if_splits phase.splits option.splits)
  have k: "k < length (coObjs s)" using lock_invD(3) [OF assms(1) i] ph by simp
  show ?thesis by (rule lock_inv_move [OF assms(1) i, where m = 0])
      (use t i k ph in \<open>auto simp: map_holder_update\<close>)
next
  case ServeReturn
  with assms show ?thesis
    by (auto intro: lock_inv_same [OF assms(1), of _ "[]"] split: serve_phase.splits if_splits)
qed

text \<open>What a goroutine has left to do.\<close>

fun phase_work :: "'w phase \<Rightarrow> nat" where
  "phase_work JLine = 8"
| "phase_work (JLookup sid input) = 6"
| "phase_work (JLock k input) = 5"
| "phase_work (JLocked k input) = 4"
| "phase_work (JUnlock k r) = 3"
| "phase_work (JBuild p st) = 5"
| "phase_work (JAlloc cfg st) = 4"
| "phase_work (JStore sid ag st) = 3"
| "phase_work (JDelete sid) = 3"
| "phase_work (JReturn r) = 2"
| "phase_work (JWrite v) = 1"
| "phase_work (JDone v) = 0"

definition conn_work :: "'w conn \<Rightarrow> nat" where
  "conn_work s = sum_list (map (\<lambda>j. phase_work (jbPhase j)) (coJobs s))"

fun goroutine_action :: "'w srv_action \<Rightarrow> bool" where
  "goroutine_action (JobStep i) = True"
| "goroutine_action (JobPanic i r sess st) = True"
| "goroutine_action _ = False"

lemma entry_phase_work: "entry_phase ph \<Longrightarrow> phase_work ph \<le> 6"
  by (cases ph) simp_all

lemma answer_work: "phase_work (answer_request req r) < 2"
  by (simp add: answer_request_def writeError_def writeResult_def split: sum.split)

lemma conn_work_less:
  assumes "coJobs t = (coJobs s)[i := \<lparr>jbLine = l, jbPhase = ph\<rparr>]" "i < length (coJobs s)"
    "phase_work ph < phase_work (phase_at s i)"
  shows "conn_work t < conn_work s"
  using sum_list_update_nth [OF assms(2), of "\<lambda>j. phase_work (jbPhase j)" "\<lparr>jbLine = l, jbPhase = ph\<rparr>"] assms(1,3)
  by (simp add: conn_work_def)

lemma job_step_work:
  assumes "job_step V i s = Some t" "i < length (coJobs s)"
  shows "phase_work (phase_at t i) < phase_work (phase_at s i)"
proof (cases "phase_at s i")
  case JLine
  with assms entry_phase_work [OF handleLine_enters, of V "coSrv s" "jbLine (coJobs s ! i)"] show ?thesis
    by (auto simp: job_step_def)
next
  case (JReturn r)
  with assms show ?thesis by (auto simp: job_step_def answer_work)
qed (use assms in \<open>auto simp: job_step_def step_ops Let_def
    split: option.splits prod.splits sum.splits factory_outcome.splits if_splits\<close>)

lemma srv_step_work:
  assumes "goroutine_action a" "srv_step V a s = Some t"
  shows "conn_work t < conn_work s"
proof (cases a)
  case (JobStep i)
  with assms have st: "job_step V i s = Some t" "i < length (coJobs s)" by (simp_all split: if_splits)
  show ?thesis by (rule conn_work_less [OF job_step_jobs [OF st] st(2) job_step_work [OF st]])
next
  case (JobPanic i r sess st)
  with assms show ?thesis by (auto intro!: conn_work_less [of _ s i] split: if_splits phase.splits option.splits)
qed (use assms in simp_all)

text \<open>A goroutine is blocked only by another one that holds a mutex, and that one can go on.\<close>

lemma some_goroutine_moves:
  assumes inv: "lock_inv s" and work: "0 < conn_work s"
  shows "\<exists>a t. goroutine_action a \<and> srv_step V a s = Some t"
proof -
  from work have "\<exists>j \<in> set (coJobs s). phase_work (jbPhase j) \<noteq> 0"
    unfolding conn_work_def by (metis (no_types, lifting) bot_nat_0.not_eq_extremum list.map_cong0 sum_list_0 map_eq_conv)
  then obtain i where i: "i < length (coJobs s)" "phase_work (phase_at s i) \<noteq> 0"
    by (metis in_set_conv_nth)
  have go: "\<exists>t. srv_step V (JobStep n) s = Some t" if "n < length (coJobs s)" "holding (phase_at s n) \<noteq> None" for n
    using that by (cases "phase_at s n") (simp_all add: job_step_def)
  show ?thesis
  proof (cases "\<exists>k input. phase_at s i = JLock k input")
    case True
    then obtain k input where ph: "phase_at s i = JLock k input" by blast
    show ?thesis
    proof (cases "rsHolder (coObjs s ! k)")
      case None
      then have "srv_step V (JobStep i) s \<noteq> None" using i(1) ph by (simp add: job_step_def session_lock_def)
      then show ?thesis by (intro exI [of _ "JobStep i"]) auto
    next
      case (Some n)
      then have "n < length (coJobs s)" "holding (phase_at s n) = Some k"
        using lock_invD(4) [OF inv lock_invD(2) [OF inv i(1)]] ph by auto
      then show ?thesis using go [of n] by (intro exI [of _ "JobStep n"]) auto
    qed
  next
    case False
    then have "srv_step V (JobStep i) s \<noteq> None" using i by (cases "phase_at s i") (simp_all add: job_step_def)
    then show ?thesis by (intro exI [of _ "JobStep i"]) auto
  qed
qed

interpretation srv: draining "srv_step V" "new_conn srv st" lock_inv goroutine_action conn_work for V srv st
  by unfold_locales (rule lock_inv_start lock_inv_step srv_step_work some_goroutine_moves; assumption)+

end
