(* ===== verification/Rpc_Server_Answers.thy ===== *)
theory Rpc_Server_Answers
  imports Rpc_Server_Props Demo
begin

text \<open>
  The responses of the JSON-RPC server: each goroutine brings out what belongs to its line, once.
\<close>

section \<open>Responses\<close>

text \<open>The responses that goroutine \<open>i\<close> has brought out.\<close>

definition sent :: "nat \<Rightarrow> 'w conn \<Rightarrow> wire list" where
  "sent i s = map snd (filter (\<lambda>p. fst p = i) (coOut s))"

fun wire_id :: "wire \<Rightarrow> raw_message option" where
  "wire_id (WireResult rid r) = Some rid"
| "wire_id (WireError rid e) = Some rid"
| "wire_id (WireUpdate sid m) = None"

definition parse_failure :: "goerr \<Rightarrow> wire" where
  "parse_failure err = WireError ''null'' \<lparr>seCode = codeParseError, seMessage = ''parse error'', seData = DataText (Error err)\<rparr>"

text \<open>Whether \<open>v\<close> may answer the line.\<close>

definition fits :: "'w server_env \<Rightarrow> string \<Rightarrow> wire \<Rightarrow> bool" where
  "fits V line v \<longleftrightarrow> (case svRequest V line of
       Inl err \<Rightarrow> v = parse_failure err
     | Inr req \<Rightarrow> \<not> notification req \<and> wire_id v = Some (rrID req))"

definition silent :: "'w server_env \<Rightarrow> string \<Rightarrow> bool" where
  "silent V line \<longleftrightarrow> (case svRequest V line of Inl err \<Rightarrow> False | Inr req \<Rightarrow> notification req)"

fun phase_fits :: "'w server_env \<Rightarrow> string \<Rightarrow> 'w phase \<Rightarrow> bool" where
  "phase_fits V line JLine = True"
| "phase_fits V line (JWrite v) = fits V line v"
| "phase_fits V line (JDone None) = silent V line"
| "phase_fits V line (JDone (Some v)) = fits V line v"
| "phase_fits V line _ = (\<not> isl (svRequest V line))"

fun phase_sent :: "'w server_env \<Rightarrow> 'w phase \<Rightarrow> wire list" where
  "phase_sent V (JDone (Some v)) = (if encodes (svRawOk V) v then [v] else [])"
| "phase_sent V _ = []"

definition answer_inv :: "'w server_env \<Rightarrow> 'w conn \<Rightarrow> bool" where
  "answer_inv V s \<longleftrightarrow> (\<forall>i < length (coJobs s). phase_fits V (jbLine (coJobs s ! i)) (phase_at s i)) \<and>
     (\<forall>i. sent i s = (if i < length (coJobs s) then phase_sent V (phase_at s i) else [])) \<and>
     (\<forall>e. coServe s = SvReturned e \<longrightarrow> list_all job_over (coJobs s))"

lemma dispatch_fits:
  assumes "svRequest V line = Inr req" "\<And>v. dispatch_request V srv req \<noteq> JWrite v" "\<And>v. dispatch_request V srv req \<noteq> JDone v"
  shows "phase_fits V line (dispatch_request V srv req)"
  using assms dispatch_enters [of V srv req] by (cases "dispatch_request V srv req") auto

lemma dispatch_no_write: "dispatch_request V srv req \<noteq> JWrite v" "dispatch_request V srv req \<noteq> JDone w"
  by (simp_all add: dispatch_request_def handleNewSession_def handlePrompt_def handleSnapshot_def handleResume_def
      handleClose_def Let_def split: sum.split prod.split)

lemma handleLine_fits: "phase_fits V line (handleLine V srv line)"
  by (cases "svRequest V line")
    (simp_all add: handleLine_def writeError_def fits_def silent_def parse_failure_def dispatch_fits dispatch_no_write)

lemma answer_fits:
  assumes "(\<not> isl (svRequest V line))"
  shows "phase_fits V line (answer_request (request_of V line) r)"
  using assms by (cases "svRequest V line"; cases r)
    (simp_all add: answer_request_def writeError_def writeResult_def fits_def silent_def request_of_def)

lemma job_step_fits:
  assumes "phase_fits V (jbLine (coJobs s ! i)) (phase_at s i)" "job_step V i s = Some t" "i < length (coJobs s)"
  shows "phase_fits V (jbLine (coJobs s ! i)) (phase_at t i)"
proof (cases "phase_at s i")
  case JLine
  with assms show ?thesis by (auto simp: job_step_def handleLine_fits)
next
  case (JReturn r)
  with assms show ?thesis by (auto simp: job_step_def answer_fits)
qed (use assms in \<open>auto simp: job_step_def step_ops Let_def
    split: option.splits prod.splits sum.splits factory_outcome.splits if_splits\<close>)

lemma job_step_over: "job_step V i s = Some t \<Longrightarrow> \<not> job_over (coJobs s ! i)"
  by (auto simp: job_step_def job_over_def split: phase.splits)

lemma phase_sent_entry: "entry_phase ph \<Longrightarrow> (\<And>v. ph \<noteq> JDone (Some v)) \<Longrightarrow> phase_sent V ph = []"
  by (cases "(V, ph)" rule: phase_sent.cases) auto

lemma not_done: "handleLine V srv line \<noteq> JDone (Some v)" "answer_request req r \<noteq> JDone (Some v)"
  by (simp_all add: handleLine_def answer_request_def writeError_def writeResult_def dispatch_no_write split: sum.split)

lemma job_step_out:
  assumes "job_step V i s = Some t" "i < length (coJobs s)"
  shows "coServe t = coServe s" "coOut t = coOut s @ map (\<lambda>v. (i, v)) (phase_sent V (phase_at t i))" "phase_sent V (phase_at s i) = []"
proof -
  have line: "phase_sent V (handleLine V srv line) = []" "phase_sent V (answer_request req r) = []" for srv line req r
    by (simp_all add: phase_sent_entry handleLine_enters answer_enters not_done)
  show "coServe t = coServe s" "coOut t = coOut s @ map (\<lambda>v. (i, v)) (phase_sent V (phase_at t i))" "phase_sent V (phase_at s i) = []"
    using assms by (cases "phase_at s i"; auto simp: job_step_def step_ops Let_def line
        split: option.splits prod.splits sum.splits factory_outcome.splits if_splits)+
qed

lemma answer_inv_move:
  assumes inv: "answer_inv V s" and i: "i < length (coJobs s)"
    and jobs: "coJobs t = (coJobs s)[i := \<lparr>jbLine = jbLine (coJobs s ! i), jbPhase = phase_at t i\<rparr>]"
    and over: "\<not> job_over (coJobs s ! i)" and serve: "coServe t = coServe s"
    and fit: "phase_fits V (jbLine (coJobs s ! i)) (phase_at t i)"
    and out: "coOut t = coOut s @ map (\<lambda>v. (i, v)) (phase_sent V (phase_at t i))" "phase_sent V (phase_at s i) = []"
  shows "answer_inv V t"
proof -
  have line: "jbLine (coJobs t ! n) = jbLine (coJobs s ! n)" for n
    using i by (subst jobs) (cases "n = i"; simp)
  have ph: "phase_at t n = phase_at s n" if "n \<noteq> i" for n using move_at(2) [OF jobs that] by simp
  have "sent n t = (if n < length (coJobs t) then phase_sent V (phase_at t n) else [])" for n
  proof -
    have "sent n t = sent n s @ (if n = i then phase_sent V (phase_at t i) else [])"
      by (simp add: sent_def out(1) filter_map o_def)
    then show ?thesis using inv i out(2) ph [of n] move_at(1) [OF jobs] by (simp add: answer_inv_def)
  qed
  moreover have "phase_fits V (jbLine (coJobs t ! n)) (phase_at t n)" if "n < length (coJobs t)" for n
    using that inv fit ph [of n] line [of n] move_at(1) [OF jobs] by (cases "n = i") (simp_all add: answer_inv_def)
  moreover have "coServe s \<noteq> SvReturned e" for e
    using inv over i by (auto simp: answer_inv_def list_all_length)
  ultimately show ?thesis using serve by (simp add: answer_inv_def)
qed

lemma answer_inv_step:
  assumes inv: "answer_inv V s" and st: "srv_step V a s = Some t"
  shows "answer_inv V t"
proof (cases a)
  case (ReadLine l e c)
  with st have t: "t = serve_read l e c s" and sv: "coServe s = SvReading" by (simp_all split: if_splits)
  have ret: "coServe t \<noteq> SvReturned x" for x
    using sv by (auto simp: t serve_read_def Let_def split: option.splits read_end.splits)
  have "sent i t = sent i s" for i by (simp add: sent_def t)
  with inv ret show ?thesis by (auto simp: answer_inv_def t nth_append)
next
  case (JobStep i)
  with st have j: "job_step V i s = Some t" and i: "i < length (coJobs s)" by (simp_all split: if_splits)
  show ?thesis
    by (rule answer_inv_move [OF inv i job_step_jobs [OF j i] job_step_over [OF j] job_step_out(1) [OF j i]
          job_step_fits [OF _ j i] job_step_out(2,3) [OF j i]])
      (use inv i in \<open>simp add: answer_inv_def\<close>)
next
  case (JobPanic i r sess st')
  with st obtain k prompt where i: "i < length (coJobs s)" and ph: "phase_at s i = JLocked k (Some prompt)"
    and t: "t = set_job i (JUnlock k (recovered r)) (set_obj k ((coObjs s ! k)\<lparr>rsSess := sess\<rparr>) (s\<lparr>coSt := st'\<rparr>))"
    by (auto split: if_splits phase.splits option.splits)
  have "phase_fits V (jbLine (coJobs s ! i)) (phase_at s i)" using inv i by (simp add: answer_inv_def)
  then show ?thesis
    by (intro answer_inv_move [OF inv i]) (use t i ph in \<open>simp_all add: job_over_def\<close>)
next
  case ServeReturn
  have "sent i t = sent i s" for i using st ServeReturn by (auto simp: sent_def split: serve_phase.splits if_splits)
  with st ServeReturn inv show ?thesis by (auto simp: answer_inv_def split: serve_phase.splits if_splits)
qed

interpretation answers: step_invariant "srv_step V" "new_conn srv st" "answer_inv V" for V srv st
proof
  show "answer_inv V (new_conn srv st)" by (simp add: answer_inv_def new_conn_def sent_def)
qed (rule answer_inv_step)

end
