(* ===== verification/Rpc_Server_Sessions.thy ===== *)
theory Rpc_Server_Sessions
  imports Rpc_Server_Answers "HOL-Library.Multiset"
begin

text \<open>
  The sessions of a connection: an id is given to one session only, what is stored under it is that
  session, and its agent reports under this id.
\<close>

section \<open>Ids\<close>

lemma session_id_inj: "session_id m = session_id n \<longleftrightarrow> m = n"
  by (auto simp: session_id_def dest: nat_dec_inj)

fun pending :: "'w phase \<Rightarrow> string list" where
  "pending (JStore sid ag st) = [sid]"
| "pending _ = []"

text \<open>
  A configuration that the factory of the host can give, and an agent that is made of such a
  configuration with its handler followed by the notifications under an id.
\<close>

definition offered :: "'w server_env \<Rightarrow> 'w server \<Rightarrow> 'w config \<Rightarrow> bool" where
  "offered V srv cfg \<longleftrightarrow> (\<exists>f p w w'. srvFactory srv = Some f \<and> f (svCtx V) p w = (FactoryReturns cfg, w'))"

lemma offeredI: "srvFactory srv = Some f \<Longrightarrow> f (svCtx V) p w = (FactoryReturns cfg, w') \<Longrightarrow> offered V srv cfg"
  by (auto simp: offered_def)

definition reports_as :: "'w server_env \<Rightarrow> 'w server \<Rightarrow> string \<Rightarrow> 'w agent \<Rightarrow> bool" where
  "reports_as V srv sid ag \<longleftrightarrow>
     (\<exists>cfg. offered V srv cfg \<and> New (cfg\<lparr>cfgOnEvent := notifying_handler V sid (cfgOnEvent cfg)\<rparr>) = Inr ag)"

fun pending_ok :: "'w server_env \<Rightarrow> 'w server \<Rightarrow> 'w phase \<Rightarrow> bool" where
  "pending_ok V srv (JAlloc cfg st) = offered V srv cfg"
| "pending_ok V srv (JStore sid ag st) = reports_as V srv sid ag"
| "pending_ok V srv _ = True"

text \<open>The ids that stored sessions and goroutines about to store one have.\<close>

definition owned :: "'w conn \<Rightarrow> string multiset" where
  "owned s = mset (map rsID (coObjs s)) + mset (concat (map (\<lambda>j. pending (jbPhase j)) (coJobs s)))"

definition counted :: "'w conn \<Rightarrow> bool" where
  "counted s \<longleftrightarrow> (length (coIDs s) < uint64_size \<longrightarrow>
     coSeq s = length (coIDs s) \<and> coIDs s = map (\<lambda>n. session_id (Suc n)) [0..<length (coIDs s)])"

definition id_inv :: "'w server_env \<Rightarrow> 'w server \<Rightarrow> 'w conn \<Rightarrow> bool" where
  "id_inv V srv s \<longleftrightarrow> coSrv s = srv \<and> counted s \<and> owned s \<subseteq># mset (coIDs s) \<and>
     (\<forall>sid k. coSessions s sid = Some k \<longrightarrow> k < length (coObjs s) \<and> rsID (coObjs s ! k) = sid) \<and>
     (\<forall>r \<in> set (coObjs s). reports_as V srv (rsID r) (rsAgent r)) \<and>
     (\<forall>j \<in> set (coJobs s). pending_ok V srv (jbPhase j))"

lemma mset_concat_update:
  "i < length xs \<Longrightarrow> mset (concat (map f (xs[i := y]))) + mset (f (xs ! i)) = mset (concat (map f xs)) + mset (f y)"
proof (induction xs arbitrary: i)
  case (Cons x xs)
  then show ?case by (cases i) (auto simp: add.assoc union_commute [of "mset (f y)"] dest!: Cons.IH)
qed simp

lemma entry_phase_pending: "entry_phase ph \<Longrightarrow> pending ph = [] \<and> pending_ok V srv ph"
  by (cases ph) simp_all

lemma New_handler: "New cfg = Inr ag \<Longrightarrow> agOnEvent ag = cfgOnEvent cfg"
  by (auto simp: New_def split: option.splits sum.splits prod.splits)

lemma reports_asD:
  assumes "reports_as V srv sid ag"
  shows "\<exists>cfg. offered V srv cfg \<and> New (cfg\<lparr>cfgOnEvent := agOnEvent ag\<rparr>) = Inr ag \<and>
    agOnEvent ag = Some (\<lambda>e w. emitEvent V sid e (case cfgOnEvent cfg of None \<Rightarrow> w | Some h \<Rightarrow> h e w))"
  using assms New_handler by (fastforce simp: reports_as_def notifying_handler_def)

text \<open>One action of a goroutine: the ids it takes, the sessions it adds.\<close>

lemma id_inv_move:
  assumes inv: "id_inv V srv s" and i: "i < length (coJobs s)" and same: "coSrv t = coSrv s"
    and jobs: "coJobs t = (coJobs s)[i := \<lparr>jbLine = jbLine (coJobs s ! i), jbPhase = phase_at t i\<rparr>]"
    and objs: "map rsID (coObjs t) = map rsID (coObjs s) @ os"
    and ids: "coIDs t = coIDs s @ ids" and count: "counted t"
    and owns: "mset os + mset (pending (phase_at t i)) \<subseteq># mset ids + mset (pending (phase_at s i))"
    and sess: "\<And>sid k. coSessions t sid = Some k \<Longrightarrow> coSessions s sid = Some k \<or> k < length (coObjs t) \<and> rsID (coObjs t ! k) = sid"
    and rep: "\<forall>r \<in> set (coObjs t). reports_as V srv (rsID r) (rsAgent r)" "pending_ok V srv (phase_at t i)"
  shows "id_inv V srv t"
proof -
  have "mset (concat (map (\<lambda>j. pending (jbPhase j)) (coJobs t))) + mset (pending (phase_at s i)) =
      mset (concat (map (\<lambda>j. pending (jbPhase j)) (coJobs s))) + mset (pending (phase_at t i))"
    by (subst jobs) (use mset_concat_update [OF i, of "\<lambda>j. pending (jbPhase j)" "\<lparr>jbLine = jbLine (coJobs s ! i), jbPhase = phase_at t i\<rparr>"] in simp)
  then have "owned t + mset (pending (phase_at s i)) = owned s + (mset os + mset (pending (phase_at t i)))"
    by (simp add: owned_def objs ac_simps)
  also have "\<dots> \<subseteq># mset (coIDs s) + (mset ids + mset (pending (phase_at s i)))"
    by (rule subset_mset.add_mono) (use inv owns in \<open>simp_all add: id_inv_def\<close>)
  finally have "owned t \<subseteq># mset (coIDs t)" by (simp add: ids flip: add.assoc)
  moreover have "k < length (coObjs t) \<and> rsID (coObjs t ! k) = sid" if "coSessions t sid = Some k" for sid k
  proof (cases "coSessions s sid = Some k")
    case True
    then have k: "k < length (coObjs s)" "rsID (coObjs s ! k) = sid" using inv by (simp_all add: id_inv_def)
    have "length (coObjs s) \<le> length (coObjs t)" using arg_cong [OF objs, of length] by simp
    moreover have "map rsID (coObjs t) ! k = rsID (coObjs s ! k)" using k(1) by (simp add: objs nth_append)
    ultimately show ?thesis using k by simp
  qed (use sess [OF that] in blast)
  moreover have "\<forall>j \<in> set (coJobs t). pending_ok V srv (jbPhase j)"
  proof
    fix j assume "j \<in> set (coJobs t)"
    then obtain n where n: "n < length (coJobs s)" "j = coJobs t ! n"
      using move_at(1) [OF jobs] by (metis in_set_conv_nth)
    then show "pending_ok V srv (jbPhase j)"
      using rep(2) inv move_at(2) [OF jobs, of n] by (cases "n = i") (auto simp: id_inv_def)
  qed
  ultimately show ?thesis using count rep(1) same inv by (simp add: id_inv_def)
qed

lemma job_step_srv: "job_step V i s = Some t \<Longrightarrow> coSrv t = coSrv s"
  by (cases "phase_at s i") (auto simp: job_step_def step_ops Let_def
      split: option.splits prod.splits sum.splits factory_outcome.splits if_splits)

lemma counted_same: "counted s \<Longrightarrow> coIDs t = coIDs s \<Longrightarrow> coSeq t = coSeq s \<Longrightarrow> counted t"
  by (simp add: counted_def)

lemma counted_next:
  assumes "counted s" "coSeq t = (coSeq s + 1) mod uint64_size" "coIDs t = coIDs s @ [session_id (coSeq t)]"
  shows "counted t"
  using assms by (auto simp: counted_def)

lemma objs_update_ids:
  "k < length os \<Longrightarrow> map rsID (os[k := (os ! k)\<lparr>rsSess := x\<rparr>]) = map rsID os"
  "k < length os \<Longrightarrow> map rsID (os[k := (os ! k)\<lparr>rsHolder := h\<rparr>]) = map rsID os"
  by (simp_all add: map_update list_update_same_conv)

lemma objs_update_reports:
  assumes "\<forall>r \<in> set os. reports_as V srv (rsID r) (rsAgent r)"
  shows "k < length os \<Longrightarrow> \<forall>r \<in> set (os[k := (os ! k)\<lparr>rsSess := x\<rparr>]). reports_as V srv (rsID r) (rsAgent r)"
    and "k < length os \<Longrightarrow> \<forall>r \<in> set (os[k := (os ! k)\<lparr>rsHolder := h\<rparr>]). reports_as V srv (rsID r) (rsAgent r)"
  using assms by (auto dest!: set_update_subset_insert [THEN subsetD])

lemma id_inv_job_step:
  assumes inv: "id_inv V srv s" and lock: "lock_inv s" and i: "i < length (coJobs s)" and st: "job_step V i s = Some t"
  shows "id_inv V srv t"
proof -
  note jobs = job_step_jobs [OF st i] and same = job_step_srv [OF st]
  have pok: "pending_ok V srv (phase_at s i)" and c: "counted s"
    and rep: "\<forall>r \<in> set (coObjs s). reports_as V srv (rsID r) (rsAgent r)"
    using inv i by (simp_all add: id_inv_def)
  have quiet: "id_inv V srv t" if "coObjs t = coObjs s" "coIDs t = coIDs s" "coSeq t = coSeq s" "pending (phase_at t i) = []"
    "pending_ok V srv (phase_at t i)" "\<And>sid k. coSessions t sid = Some k \<Longrightarrow> coSessions s sid = Some k"
    by (rule id_inv_move [OF inv i same jobs, where os = "[]" and ids = "[]"])
      (use that rep counted_same [OF c that(2,3)] in simp_all)
  have touch: "id_inv V srv t" if "map rsID (coObjs t) = map rsID (coObjs s)" "\<forall>r \<in> set (coObjs t). reports_as V srv (rsID r) (rsAgent r)"
    "coIDs t = coIDs s" "coSeq t = coSeq s" "pending (phase_at t i) = []" "pending_ok V srv (phase_at t i)" "coSessions t = coSessions s"
    by (rule id_inv_move [OF inv i same jobs, where os = "[]" and ids = "[]"])
      (use that counted_same [OF c that(3,4)] in simp_all)
  show ?thesis
  proof (cases "phase_at s i")
    case JLine
    show ?thesis by (rule quiet) (use st i JLine in \<open>auto simp: job_step_def entry_phase_pending [OF handleLine_enters]\<close>)
  next
    case (JReturn r)
    show ?thesis by (rule quiet) (use st i JReturn in \<open>auto simp: job_step_def entry_phase_pending [OF answer_enters]\<close>)
  next
    case (JBuild p state)
    show ?thesis by (rule quiet)
        (use st i JBuild inv offeredI [where srv = "coSrv s" and V = V and p = p and w = "stWorld (coSt s)"] in
          \<open>auto simp: job_step_def build_factory_def id_inv_def split: option.splits prod.splits factory_outcome.splits\<close>)
  next
    case (JAlloc cfg state)
    have t: "coObjs t = coObjs s" "coSessions t = coSessions s" "coIDs t = coIDs s @ [session_id (coSeq t)]"
      "coSeq t = (coSeq s + 1) mod uint64_size"
      "pending (phase_at t i) \<in> {[], [session_id (coSeq t)]}" "pending_ok V srv (phase_at t i)"
      using st i JAlloc pok by (auto simp: job_step_def build_agent_def Let_def reports_as_def split: sum.splits)
    show ?thesis by (rule id_inv_move [OF inv i same jobs, where os = "[]" and ids = "[session_id (coSeq t)]"])
        (use t rep counted_next [OF c t(4,3)] JAlloc in auto)
  next
    case (JStore sid ag state)
    show ?thesis by (rule id_inv_move [OF inv i same jobs, where os = "[sid]" and ids = "[]"])
        (use st i JStore rep pok counted_same [OF c, of t] in
          \<open>auto simp: job_step_def conn_store_def nth_append split: if_splits\<close>)
  next
    case (JLookup sid input)
    show ?thesis by (rule quiet) (use st i JLookup in \<open>auto simp: job_step_def conn_lookup_def split: option.splits\<close>)
  next
    case (JLock k input)
    have k: "k < length (coObjs s)" using lock_invD(2) [OF lock i] JLock by simp
    show ?thesis by (rule touch) (use st i JLock k objs_update_ids [OF k] objs_update_reports [OF rep k] in
          \<open>auto simp: job_step_def session_lock_def split: if_splits\<close>)
  next
    case (JLocked k input)
    have k: "k < length (coObjs s)" using lock_invD(3) [OF lock i] JLocked by simp
    show ?thesis by (rule touch) (use st i JLocked k rep objs_update_ids [OF k] objs_update_reports [OF rep k] in
          \<open>auto simp: job_step_def session_run_def Let_def split: option.splits prod.splits\<close>)
  next
    case (JUnlock k r)
    have k: "k < length (coObjs s)" using lock_invD(3) [OF lock i] JUnlock by simp
    show ?thesis by (rule touch) (use st i JUnlock k objs_update_ids [OF k] objs_update_reports [OF rep k] in
          \<open>auto simp: job_step_def session_unlock_def\<close>)
  next
    case (JDelete sid)
    show ?thesis by (rule quiet) (use st i JDelete in \<open>auto simp: job_step_def conn_delete_def split: if_splits\<close>)
  next
    case (JWrite v)
    show ?thesis by (rule quiet) (use st i JWrite in \<open>auto simp: job_step_def write_response_def\<close>)
  next
    case (JDone v)
    with st show ?thesis by (simp add: job_step_def)
  qed
qed

definition session_inv :: "'w server_env \<Rightarrow> 'w server \<Rightarrow> 'w conn \<Rightarrow> bool" where
  "session_inv V srv s \<longleftrightarrow> id_inv V srv s \<and> lock_inv s"

lemma id_inv_step:
  assumes inv: "id_inv V srv s" and lock: "lock_inv s" and st: "srv_step V a s = Some t"
  shows "id_inv V srv t"
proof (cases a)
  case (ReadLine l e c)
  with st have t: "t = serve_read l e c s" by (simp split: if_splits)
  have "coSrv t = coSrv s" by (simp add: t serve_read_def Let_def split: option.split read_end.split)
  then show ?thesis using inv by (auto simp: id_inv_def t owned_def counted_def)
next
  case (JobStep i)
  with st have j: "job_step V i s = Some t" and i: "i < length (coJobs s)" by (simp_all split: if_splits)
  show ?thesis by (rule id_inv_job_step [OF inv lock i j])
next
  case (JobPanic i r sess st')
  with st obtain k prompt where i: "i < length (coJobs s)" and ph: "phase_at s i = JLocked k (Some prompt)"
    and t: "t = set_job i (JUnlock k (recovered r)) (set_obj k ((coObjs s ! k)\<lparr>rsSess := sess\<rparr>) (s\<lparr>coSt := st'\<rparr>))"
    by (auto split: if_splits phase.splits option.splits)
  have k: "k < length (coObjs s)" using lock_invD(3) [OF lock i] ph by simp
  have rep: "\<forall>r \<in> set (coObjs s). reports_as V srv (rsID r) (rsAgent r)" and c: "counted s" using inv by (simp_all add: id_inv_def)
  have u: "counted t" by (rule counted_same [OF c]) (simp_all add: t)
  show ?thesis
    by (rule id_inv_move [OF inv i, where os = "[]" and ids = "[]"])
      (use t i u objs_update_ids [OF k] objs_update_reports [OF rep k] in simp_all)
next
  case ServeReturn
  with st inv show ?thesis by (auto simp: id_inv_def owned_def counted_def split: serve_phase.splits if_splits)
qed

interpretation sessions: step_invariant "srv_step V" "new_conn srv st" "session_inv V srv" for V srv st
proof
  show "session_inv V srv (new_conn srv st)"
    by (simp add: session_inv_def lock_inv_start) (simp add: id_inv_def new_conn_def owned_def counted_def)
qed (auto simp: session_inv_def simp del: srv_step.simps intro: id_inv_step lock_inv_step)

lemma counted_distinct:
  assumes "counted s" "length (coIDs s) < uint64_size"
  shows "distinct (coIDs s)"
proof -
  have "distinct (map (\<lambda>n. session_id (Suc n)) [0..<m])" for m
    by (simp add: distinct_map inj_on_def session_id_inj)
  then show ?thesis using assms by (metis counted_def)
qed

lemma distinct_sub_mset:
  assumes "mset xs \<subseteq># mset ys" "distinct ys"
  shows "distinct xs"
proof -
  obtain zs where "mset zs = mset ys - mset xs" using ex_mset by blast
  then have "mset ys = mset (xs @ zs)" using assms(1) by simp
  then show ?thesis using assms(2) mset_eq_imp_distinct_iff [of ys "xs @ zs"] by simp
qed

lemma owned_distinct:
  assumes "id_inv V srv s" "length (coIDs s) < uint64_size"
  shows "distinct (map rsID (coObjs s) @ concat (map (\<lambda>j. pending (jbPhase j)) (coJobs s)))"
  by (rule distinct_sub_mset [of _ "coIDs s"]) (use assms counted_distinct in \<open>auto simp: id_inv_def owned_def\<close>)

section \<open>Closed sessions\<close>

text \<open>The parts of the state that only grow, and how an id gets into the map.\<close>

lemma job_step_grows:
  assumes "job_step V i s = Some t" "i < length (coJobs s)" "lock_inv s"
  shows "length (coIDs s) \<le> length (coIDs t)" "set (map rsID (coObjs s)) \<subseteq> set (map rsID (coObjs t))"
    "coSessions t sid \<noteq> None \<Longrightarrow> coSessions s sid \<noteq> None \<or> sid \<in> set (pending (phase_at s i))"
proof -
  have k: "k < length (coObjs s)" if "holding (phase_at s i) = Some k \<or> waiting_for (phase_at s i) = Some k" for k
    using lock_invD(2,3) [OF assms(3,2)] that by blast
  have same: "rsID ` set ((coObjs s)[k := (coObjs s ! k)\<lparr>rsSess := x\<rparr>]) = rsID ` set (coObjs s)"
    "rsID ` set ((coObjs s)[k := (coObjs s ! k)\<lparr>rsHolder := h\<rparr>]) = rsID ` set (coObjs s)" if "k < length (coObjs s)" for k x h
    using objs_update_ids [OF that] by (metis set_map)+
  show "length (coIDs s) \<le> length (coIDs t)" "set (map rsID (coObjs s)) \<subseteq> set (map rsID (coObjs t))"
    "coSessions t sid \<noteq> None \<Longrightarrow> coSessions s sid \<noteq> None \<or> sid \<in> set (pending (phase_at s i))"
    using assms(1,2) k by (cases "phase_at s i"; auto simp: job_step_def step_ops Let_def same
        split: option.splits prod.splits sum.splits factory_outcome.splits if_splits)+
qed

lemma srv_step_grows:
  assumes "srv_step V a s = Some t" "lock_inv s"
  shows "length (coIDs s) \<le> length (coIDs t)" "set (map rsID (coObjs s)) \<subseteq> set (map rsID (coObjs t))"
    "coSessions t sid \<noteq> None \<Longrightarrow> coSessions s sid \<noteq> None \<or> (\<exists>j \<in> set (coJobs s). sid \<in> set (pending (jbPhase j)))"
proof -
  have "length (coIDs s) \<le> length (coIDs t) \<and> set (map rsID (coObjs s)) \<subseteq> set (map rsID (coObjs t)) \<and>
     (coSessions t sid \<noteq> None \<longrightarrow> coSessions s sid \<noteq> None \<or> (\<exists>j \<in> set (coJobs s). sid \<in> set (pending (jbPhase j))))"
  proof (cases a)
    case (JobStep i)
    with assms have j: "job_step V i s = Some t" and i: "i < length (coJobs s)" by (simp_all split: if_splits)
    show ?thesis using job_step_grows(1,2) [OF j i assms(2)] job_step_grows(3) [OF j i assms(2), of sid] nth_mem [OF i] by blast
  next
    case (JobPanic i r sess st)
    with assms(1) obtain k prompt where i: "i < length (coJobs s)" and ph: "phase_at s i = JLocked k (Some prompt)"
      and t: "t = set_job i (JUnlock k (recovered r)) (set_obj k ((coObjs s ! k)\<lparr>rsSess := sess\<rparr>) (s\<lparr>coSt := st\<rparr>))"
      by (auto split: if_splits phase.splits option.splits)
    have k: "k < length (coObjs s)" using lock_invD(3) [OF assms(2) i] ph by simp
    have "set (map rsID (coObjs t)) = set (map rsID (coObjs s))" using objs_update_ids(1) [OF k] by (simp add: t del: set_map)
    then show ?thesis by (simp add: t)
  qed (use assms(1) in \<open>auto split: if_splits serve_phase.splits\<close>)
  then show "length (coIDs s) \<le> length (coIDs t)" "set (map rsID (coObjs s)) \<subseteq> set (map rsID (coObjs t))"
    "coSessions t sid \<noteq> None \<Longrightarrow> coSessions s sid \<noteq> None \<or> (\<exists>j \<in> set (coJobs s). sid \<in> set (pending (jbPhase j)))"
    by simp_all
qed

lemma closed_stays_closed:
  assumes "reach (srv_step V) t s" "session_inv V srv t" "sid \<in> rsID ` set (coObjs t)" "coSessions t sid = None"
  shows "session_inv V srv s \<and> (length (coIDs s) < uint64_size \<longrightarrow> sid \<in> rsID ` set (coObjs s) \<and> coSessions s sid = None)"
  using assms(1)
proof (induction rule: reach.induct)
  case start
  then show ?case using assms by simp
next
  case (move s a u)
  then have inv: "session_inv V srv s" by simp
  note grow = srv_step_grows [OF move.hyps(2), unfolded set_map]
  have lock: "lock_inv s" using inv by (simp add: session_inv_def)
  have "coSessions u sid = None" "sid \<in> rsID ` set (coObjs u)" if "length (coIDs u) < uint64_size"
  proof -
    have len: "length (coIDs s) < uint64_size" using that grow(1) [OF lock] by simp
    with move.IH have s: "sid \<in> rsID ` set (coObjs s)" "coSessions s sid = None" by simp_all
    have "sid \<notin> set (concat (map (\<lambda>j. pending (jbPhase j)) (coJobs s)))"
      using owned_distinct [OF _ len, of V] inv s(1) by (auto simp: session_inv_def)
    then show "coSessions u sid = None" using grow(3) [OF lock, of sid] s(2) by (cases "coSessions u sid") auto
    show "sid \<in> rsID ` set (coObjs u)" using s(1) grow(2) [OF lock] by blast
  qed
  then show ?case using id_inv_step [OF _ lock move.hyps(2)] lock_inv_step [OF lock move.hyps(2)] inv
    by (simp add: session_inv_def)
qed

section \<open>Properties\<close>


text \<open>
  C17: the goroutines of a connection come to their end, whatever the interleaving: none of them runs
  for ever, each takes at most eight steps, and as long as one is not done some goroutine can take a
  step, so neither the mutexes of the sessions nor a panic under one can block \<open>Serve\<close>.
\<close>

theorem connection_drains:
  assumes "reach (srv_step V) (new_conn srv st) s"
  shows "(\<forall>as t. list_all goroutine_action as \<and> steps (srv_step V) as s = Some t \<longrightarrow> length as \<le> 8 * length (coJobs s)) \<and>
     (\<not> list_all job_over (coJobs s) \<longrightarrow> (\<exists>a t. goroutine_action a \<and> srv_step V a s = Some t)) \<and>
     (\<exists>as t. list_all goroutine_action as \<and> steps (srv_step V) as s = Some t \<and> list_all job_over (coJobs t))"
proof -
  have inv: "lock_inv s" by (rule srv.reach_inv [OF assms])
  have over: "list_all job_over (coJobs t) \<longleftrightarrow> conn_work t = 0" for t :: "'a conn"
  proof -
    have "job_over j \<longleftrightarrow> phase_work (jbPhase j) = 0" for j :: "'a job" by (cases "jbPhase j") (simp_all add: job_over_def)
    then show ?thesis by (simp add: conn_work_def list_all_iff)
  qed
  have "phase_work (jbPhase j) \<le> 8" for j :: "'a job" by (cases "jbPhase j") simp_all
  then have "conn_work s \<le> 8 * length (coJobs s)"
    unfolding conn_work_def using sum_list_mono [of "coJobs s" "\<lambda>j. phase_work (jbPhase j)" "\<lambda>j. 8"]
    by (simp add: sum_list_triv)
  then have "length as \<le> 8 * length (coJobs s)" if "list_all goroutine_action as" "steps (srv_step V) as s = Some t" for as t
    using srv.runs_bounded [OF inv that] by simp
  moreover have "\<exists>a t. goroutine_action a \<and> srv_step V a s = Some t" if "\<not> list_all job_over (coJobs s)"
    by (rule some_goroutine_moves [OF inv]) (use that over in simp)
  moreover have "\<exists>as t. list_all goroutine_action as \<and> steps (srv_step V) as s = Some t \<and> list_all job_over (coJobs t)"
    using srv.drains [OF inv, of V] over by metis
  ultimately show ?thesis by blast
qed

text \<open>
  C18: as long as the 64-bit counter has not wrapped around, no two sessions of a connection have the
  same id; the map finds under an id the session with this id. Its agent is the one of a configuration
  that the factory of the host gave, except for the handler: for each event this calls the handler that the
  configuration has, if it has one, and then reports the event under the id of the session.
\<close>

theorem session_ids_are_unique:
  assumes "reach (srv_step V) (new_conn srv st) s" "length (coIDs s) < uint64_size"
  shows "distinct (map rsID (coObjs s)) \<and>
     (\<forall>sid k. coSessions s sid = Some k \<longrightarrow> k < length (coObjs s) \<and> rsID (coObjs s ! k) = sid \<and>
        (\<exists>cfg. offered V srv cfg \<and>
           New (cfg\<lparr>cfgOnEvent := agOnEvent (rsAgent (coObjs s ! k))\<rparr>) = Inr (rsAgent (coObjs s ! k)) \<and>
           agOnEvent (rsAgent (coObjs s ! k)) =
             Some (\<lambda>e w. emitEvent V sid e (case cfgOnEvent cfg of None \<Rightarrow> w | Some h \<Rightarrow> h e w))))"
proof -
  have inv: "id_inv V srv s" using sessions.reach_inv [OF assms(1)] by (simp add: session_inv_def)
  have "\<exists>cfg. offered V srv cfg \<and> New (cfg\<lparr>cfgOnEvent := agOnEvent (rsAgent (coObjs s ! k))\<rparr>) = Inr (rsAgent (coObjs s ! k)) \<and>
      agOnEvent (rsAgent (coObjs s ! k)) =
        Some (\<lambda>e w. emitEvent V (rsID (coObjs s ! k)) e (case cfgOnEvent cfg of None \<Rightarrow> w | Some h \<Rightarrow> h e w))"
    if "k < length (coObjs s)" for k
    using reports_asD [of V srv "rsID (coObjs s ! k)" "rsAgent (coObjs s ! k)"] inv that by (simp add: id_inv_def)
  note agent = this
  have found: "k < length (coObjs s)" "rsID (coObjs s ! k) = sid" if "coSessions s sid = Some k" for sid k
    using inv that by (simp_all add: id_inv_def)
  have "distinct (map rsID (coObjs s))" using owned_distinct [OF inv assms(2)] by simp
  then show ?thesis
    using agent [OF found(1)] found by (intro conjI allI impI) (assumption | simp)+
qed

text \<open>
  C19: a session that has been closed never comes back: whatever clients and goroutines do, its id
  stays unknown, since no later session gets it.
\<close>

theorem closed_session_stays_closed:
  assumes "reach (srv_step V) (new_conn srv st) t" "sid \<in> rsID ` set (coObjs t)" "coSessions t sid = None"
    and "reach (srv_step V) t s" "length (coIDs s) < uint64_size"
  shows "coSessions s sid = None"
  using closed_stays_closed [OF assms(4) sessions.reach_inv [OF assms(1)] assms(2,3)] assms(5) by simp

text \<open>A connection on which a session is opened, closed, and asked for, and one line is not JSON.\<close>

definition demo_server :: "nat server" where
  "demo_server = NewServer (Some (\<lambda>c p w. (FactoryReturns (demo_config []), w))) [WithServerInfo ''demo'' []]"

definition demo_request :: "string \<Rightarrow> string \<Rightarrow> rpc_request" where
  "demo_request rid m = \<lparr>rrJSONRPC = ''2.0'', rrID = rid, rrMethod = m, rrParams = ''{}''\<rparr>"

definition demo_server_env :: "nat server_env" where
  "demo_server_env = \<lparr>svEnv = demo_env, svCtx = CtxBackground,
     svRequest = (\<lambda>line. if line = ''N'' then Inr (demo_request ''1'' ''session/new'')
        else if line = ''C'' then Inr (demo_request ''2'' ''session/close'') else Inl (ErrText ''invalid character'')),
     svNewParams = (\<lambda>r. Inr []), svResumeParams = (\<lambda>r. Inl (ErrText [])), svPromptParams = (\<lambda>r. Inl (ErrText [])),
     svSessionParams = (\<lambda>r. Inr (session_id 1)), svRawOk = (\<lambda>r. True), svWrite = (\<lambda>v w. Suc w)\<rparr>"

definition demo_traffic :: "nat srv_action list" where
  "demo_traffic = [ReadLine ''N'' None None, JobStep 0, JobStep 0, ReadLine ''?'' None None, JobStep 0, JobStep 0, JobStep 1,
     JobStep 0, JobStep 1, ReadLine ''C'' (Some InputEOF) None, JobStep 2, JobStep 2, JobStep 0, JobStep 2, JobStep 2, ServeReturn]"

lemma demo_trim: "trim_space ''N'' = ''N''" "trim_space ''C'' = ''C''" "trim_space ''?'' = ''?''"
  by code_simp+

lemma demo_traffic_runs:
  "\<exists>s. steps (srv_step demo_server_env) demo_traffic (new_conn demo_server demo_st) = Some s \<and>
     length (coJobs s) = 3 \<and> list_all job_over (coJobs s) \<and> coSessions s (session_id 1) = None \<and>
     rsID ` set (coObjs s) = {session_id 1} \<and> coIDs s = [session_id 1] \<and> jbLine (coJobs s ! 2) = ''C'' \<and>
     sent 2 s = [WireResult ''2'' ClosedResult] \<and> sent 1 s = [parse_failure (ErrText ''invalid character'')]"
  by (simp add: demo_traffic_def demo_server_env_def demo_trim demo_server_def NewServer_def WithServerInfo_def
      new_conn_def serve_read_def job_step_def set_job_def handleLine_def dispatch_request_def demo_request_def
      handleNewSession_def handleClose_def step_ops set_world_def writeError_def writeResult_def answer_request_def
      request_of_def notification_def New_def demo_config_def conn_write_def job_over_def sent_def parse_failure_def
      code_defs plain_error_def Let_def uint64_size_def demo_st_def demo_env_def)

lemma demo_connection:
  obtains s where "reach (srv_step demo_server_env) (new_conn demo_server demo_st) s"
    "length (coJobs s) = 3" "list_all job_over (coJobs s)" "coSessions s (session_id 1) = None"
    "rsID ` set (coObjs s) = {session_id 1}" "coIDs s = [session_id 1]" "jbLine (coJobs s ! 2) = ''C''" "sent 2 s = [WireResult ''2'' ClosedResult]"
  using demo_traffic_runs reach_steps [OF reach.start] by (metis (no_types, lifting))


theorem connection_drains_witness:
  "\<exists>as t. list_all goroutine_action as \<and>
     steps (srv_step demo_server_env) as (new_conn demo_server demo_st) = Some t \<and> list_all job_over (coJobs t)"
  using connection_drains [OF reach.start, of demo_server_env demo_server demo_st] by blast

theorem session_ids_are_unique_witness:
  "\<exists>s. reach (srv_step demo_server_env) (new_conn demo_server demo_st) s \<and> distinct (map rsID (coObjs s)) \<and>
     rsID ` set (coObjs s) = {session_id 1}"
proof -
  obtain s where s: "reach (srv_step demo_server_env) (new_conn demo_server demo_st) s"
    "rsID ` set (coObjs s) = {session_id 1}" "coIDs s = [session_id 1]" by (rule demo_connection)
  then show ?thesis using session_ids_are_unique [OF s(1)] by (auto simp: uint64_size_def)
qed

theorem closed_session_stays_closed_witness:
  "\<exists>s. reach (srv_step demo_server_env) (new_conn demo_server demo_st) s \<and> coIDs s = [session_id 1] \<and>
     coSessions s (session_id 1) = None"
proof -
  obtain s where s: "reach (srv_step demo_server_env) (new_conn demo_server demo_st) s"
    "rsID ` set (coObjs s) = {session_id 1}" "coIDs s = [session_id 1]" "coSessions s (session_id 1) = None" by (rule demo_connection)
  have "coSessions s (session_id 1) = None"
    by (rule closed_session_stays_closed [OF s(1) _ s(4) reach.start]) (use s in \<open>simp_all add: uint64_size_def\<close>)
  with s show ?thesis by blast
qed

text \<open>The event base of an event, as \<open>events.go\<close> embeds it.\<close>

fun event_base_of :: "event \<Rightarrow> event_base" where
  "event_base_of (RunStartedEvent b) = b"
| "event_base_of (StepStartedEvent b n) = b"
| "event_base_of (ModelResponseEvent b u stop t) = b"
| "event_base_of (UsageUpdatedEvent b u) = b"
| "event_base_of (ToolCallStartedEvent b c) = b"
| "event_base_of (ToolCallFinishedEvent b c r err) = b"
| "event_base_of (CompactionStartedEvent b n est) = b"
| "event_base_of (CompactionFinishedEvent b n) = b"
| "event_base_of (SubAgentStartedEvent b name) = b"
| "event_base_of (SubAgentFinishedEvent b name u) = b"
| "event_base_of (TextDeltaEvent b d) = b"
| "event_base_of (ReasoningDeltaEvent b d) = b"
| "event_base_of (RunFinishedEvent b r) = b"
| "event_base_of (ErrorEvent b e) = b"

text \<open>
  Every payload carries the kind of the event, and the agent and the time of its base -- except
  that of a reasoning delta, which goes out with an empty agent, the zero time and without its text.
\<close>

theorem payload_carries_base:
  "eventPayload e ''kind'' = Some (WStr (EventKind e)) \<and>
   (case e of
      ReasoningDeltaEvent b d \<Rightarrow> eventPayload e = [''kind'' \<mapsto> WStr ''reasoning_delta'', ''agent'' \<mapsto> WStr [], ''time'' \<mapsto> WTime 0]
    | _ \<Rightarrow> eventPayload e ''agent'' = Some (WStr (ebAgent (event_base_of e))) \<and>
           eventPayload e ''time'' = Some (WTime (ebTime (event_base_of e))))"
  by (cases e) (simp_all add: eventPayload_def set_base_def zero_base_def Let_def split: option.split)

text \<open>
  The error of \<open>Encode\<close> is dropped: when the history of a session holds a tool call whose
  arguments are not JSON (a model may send any bytes there), the goroutine of a \<open>session/snapshot\<close>
  on it ends without a response, and the client waits for ever.
\<close>

theorem snapshot_of_malformed_call_is_lost:
  assumes "i < length (coJobs s)" "phase_at s i = JLocked k None" "k < length (coObjs s)"
    and "svRequest V (jbLine (coJobs s ! i)) = Inr req" "\<not> notification req"
    and "m \<in> set (ssHistory (rsSess (coObjs s ! k)))" "c \<in> set (msgToolCalls m)" "\<not> svRawOk V (tcArguments c)"
  shows "\<exists>t. steps (srv_step V) [JobStep i, JobStep i, JobStep i, JobStep i] s = Some t \<and> job_over (coJobs t ! i) \<and>
     coOut t = coOut s \<and> stWorld (coSt t) = stWorld (coSt s)"
proof -
  have "\<not> state_encodes (svRawOk V) (Snapshot (rsSess (coObjs s ! k)))"
    using assms(6-8) by (auto simp: state_encodes_def Snapshot_def list_all_iff)
  then show ?thesis using assms(1-5)
    by (simp add: job_step_def step_ops set_job_def set_obj_def set_world_def answer_request_def writeResult_def
        request_of_def conn_write_def job_over_def)
qed

definition lost_agent :: "nat agent" where
  "lost_agent = demo_agent_with demo_tool"

text \<open>A session whose model has called a tool with the empty string for arguments.\<close>

definition lost_conn :: "nat conn" where
  "lost_conn = (new_conn demo_server demo_st)
     \<lparr>coObjs := [\<lparr>rsID = session_id 1, rsAgent = lost_agent,
         rsSess = (NewSession lost_agent)\<lparr>ssHistory := [(AssistantMessage [])\<lparr>msgToolCalls := [demo_call\<lparr>tcArguments := []\<rparr>]\<rparr>]\<rparr>,
         rsHolder = Some 0\<rparr>],
      coJobs := [\<lparr>jbLine = ''N'', jbPhase = JLocked 0 None\<rparr>]\<rparr>"

theorem snapshot_of_malformed_call_is_lost_witness:
  "\<exists>t. steps (srv_step (demo_server_env\<lparr>svRawOk := \<lambda>r. r \<noteq> []\<rparr>)) (replicate 4 (JobStep 0)) lost_conn = Some t \<and>
     job_over (coJobs t ! 0) \<and> coOut t = []"
proof -
  have "replicate 4 (JobStep 0) = [JobStep 0, JobStep 0, JobStep 0, JobStep 0 :: nat srv_action]"
    by (simp add: numeral_eq_Suc)
  moreover have "coOut lost_conn = []" by (simp add: lost_conn_def new_conn_def)
  ultimately show ?thesis
    using snapshot_of_malformed_call_is_lost [of 0 lost_conn 0 "demo_server_env\<lparr>svRawOk := \<lambda>r. r \<noteq> []\<rparr>"
        "demo_request ''1'' ''session/new''" "(AssistantMessage [])\<lparr>msgToolCalls := [demo_call\<lparr>tcArguments := []\<rparr>]\<rparr>"
        "demo_call\<lparr>tcArguments := []\<rparr>"]
    by (auto simp: lost_conn_def new_conn_def demo_server_env_def demo_request_def notification_def simp del: srv_step.simps steps.simps)
qed

end
