(* ===== verification/Sandbox.thy ===== *)
theory Sandbox
  imports Agent
begin

text \<open>
  The sandboxes (\<open>sandbox/sandbox.go\<close>, \<open>local.go\<close>, \<open>docker.go\<close>, \<open>tool.go\<close>): commands on the host, in a
  container, and as a tool for a model. A sandbox is a record of functions on the world. Processes
  are the world's: \<open>xeRun\<close> starts a command and waits for it; what it wrote comes in the pieces the
  operating system delivered.
\<close>

section \<open>Requests and results (sandbox.go)\<close>

record exec_request =
  erArgv :: "string list"
  erStdin :: string
  erEnv :: "string list"
  erDir :: string
  erTimeout :: duration

record exec_result =
  xrStdout :: string
  xrStderr :: string
  xrExitCode :: int

definition exec_result_zero :: exec_result where
  "exec_result_zero = \<lparr>xrStdout = [], xrStderr = [], xrExitCode = 0\<rparr>"

record sandbox_spec =
  specImage :: string
  specWorkDir :: string
  specEnv :: "string list"

record 'w sandbox =
  sbExec :: "ctx \<Rightarrow> exec_request \<Rightarrow> 'w \<Rightarrow> (exec_result \<times> goerr option) \<times> 'w"
  sbClose :: "'w \<Rightarrow> goerr option \<times> 'w"

section \<open>Captured output (local.go)\<close>

record capped_buffer =
  cbBuf :: string
  cbLimit :: int
  cbTruncated :: bool

definition capped_new :: "int \<Rightarrow> capped_buffer" where
  "capped_new limit = \<lparr>cbBuf = [], cbLimit = limit, cbTruncated = False\<rparr>"

text \<open>\<open>Write\<close> always takes all of \<open>p\<close>.\<close>

definition capped_Write :: "string \<Rightarrow> capped_buffer \<Rightarrow> capped_buffer" where
  "capped_Write p b = (let remaining = cbLimit b - int (length (cbBuf b)) in
     if cbLimit b > 0 \<and> remaining \<le> 0 then b\<lparr>cbTruncated := True\<rparr>
     else if cbLimit b > 0 \<and> int (length p) > remaining
       then b\<lparr>cbBuf := cbBuf b @ take (nat remaining) p, cbTruncated := True\<rparr>
     else b\<lparr>cbBuf := cbBuf b @ p\<rparr>)"

text \<open>A newline, the ellipsis in UTF-8, and \<open>(truncated)\<close>.\<close>

definition truncation_mark :: string where
  "truncation_mark = [newline, CHR 0xE2, CHR 0x80, CHR 0xA6] @ ''(truncated)''"

definition capped_String :: "capped_buffer \<Rightarrow> string" where
  "capped_String b = (if cbTruncated b then cbBuf b @ truncation_mark else cbBuf b)"

definition capture :: "int \<Rightarrow> string list \<Rightarrow> string" where
  "capture limit pieces = capped_String (foldl (\<lambda>b p. capped_Write p b) (capped_new limit) pieces)"

section \<open>Commands on the host (local.go)\<close>

record local_provider =
  lpAllowedCommands :: "string list"
  lpMaxOutputBytes :: int
  lpDefaultTimeout :: duration

definition defaultTimeout :: "local_provider \<Rightarrow> duration" where
  "defaultTimeout p = (if lpDefaultTimeout p > 0 then lpDefaultTimeout p else 30 * time_second)"

definition maxOutput :: "local_provider \<Rightarrow> int" where
  "maxOutput p = (if lpMaxOutputBytes p > 0 then lpMaxOutputBytes p else 2 ^ 20)"

text \<open>\<open>filepath.Base\<close> on Unix.\<close>

definition filepath_Base :: "string \<Rightarrow> string" where
  "filepath_Base path = (if path = [] then ''.'' else
     (let p = rev (dropWhile (\<lambda>c. c = CHR ''/'') (rev path)) in
      if p = [] then ''/'' else rev (takeWhile (\<lambda>c. c \<noteq> CHR ''/'') (rev p))))"

definition checkAllowed :: "local_provider \<Rightarrow> string \<Rightarrow> goerr option" where
  "checkAllowed p cmd =
     (if lpAllowedCommands p = [] then None
      else if list_ex (\<lambda>a. a = cmd \<or> a = filepath_Base cmd) (lpAllowedCommands p) then None
      else Some (ErrText (''sandbox: command '' @ strconv_quote cmd @ '' not allowed'')))"

text \<open>
  \<open>exec.Cmd\<close>: without an environment (\<open>None\<close>, a nil slice) the process inherits that of the host.
  \<open>Run\<close> ends without an error, with an exit status or with another error.
\<close>

record command =
  cmdArgv :: "string list"
  cmdDir :: string
  cmdEnv :: "string list option"
  cmdStdin :: "string option"

datatype run_error = RunExit int | RunFailed goerr

record run_outcome =
  roStdout :: "string list"
  roStderr :: "string list"
  roErr :: "run_error option"

record 'w exec_env =
  xeEnv :: "'w env"
  xeRun :: "ctx \<Rightarrow> command \<Rightarrow> 'w \<Rightarrow> run_outcome \<times> 'w"
  xeDuration :: "duration \<Rightarrow> string"     \<comment> \<open>\<open>time.Duration.String\<close>\<close>

record local_sandbox =
  lsProvider :: local_provider
  lsDir :: string
  lsEnv :: "string list"

definition local_Create :: "local_provider \<Rightarrow> sandbox_spec \<Rightarrow> local_sandbox" where
  "local_Create p spec = \<lparr>lsProvider = p, lsDir = specWorkDir spec, lsEnv = specEnv spec\<rparr>"

definition cmd_env :: "string list \<Rightarrow> string list option" where
  "cmd_env env = (if env = [] then None else Some env)"

definition timed_out :: "'w exec_env \<Rightarrow> duration \<Rightarrow> goerr" where
  "timed_out X t = ErrText (''sandbox: command timed out after '' @ xeDuration X t)"

definition request_timeout :: "exec_request \<Rightarrow> duration \<Rightarrow> duration" where
  "request_timeout req dflt = (if erTimeout req \<le> 0 then dflt else erTimeout req)"

text \<open>The result of \<open>Run\<close> and of \<open>cctx.Err()\<close> after it.\<close>

definition run_result ::
  "'w exec_env \<Rightarrow> string \<Rightarrow> int \<Rightarrow> duration \<Rightarrow> run_outcome \<Rightarrow> goerr option \<Rightarrow> exec_result \<times> goerr option" where
  "run_result X argv0 limit timeout ro ctxErr =
     (let res = \<lparr>xrStdout = capture limit (roStdout ro), xrStderr = capture limit (roStderr ro), xrExitCode = 0\<rparr> in
      if ctxErr = Some ContextDeadlineExceeded then (res, Some (timed_out X timeout))
      else (case roErr ro of
          None \<Rightarrow> (res, None)
        | Some (RunExit code) \<Rightarrow> (res\<lparr>xrExitCode := code\<rparr>, None)
        | Some (RunFailed e) \<Rightarrow> (res, Some (ErrWrap (''sandbox: exec '' @ strconv_quote argv0 @ '': '') e))))"

definition local_command :: "local_sandbox \<Rightarrow> exec_request \<Rightarrow> command" where
  "local_command s req = \<lparr>cmdArgv = erArgv req, cmdDir = (if erDir req \<noteq> [] then erDir req else lsDir s),
     cmdEnv = cmd_env (lsEnv s @ erEnv req), cmdStdin = (if erStdin req \<noteq> [] then Some (erStdin req) else None)\<rparr>"

definition local_Exec ::
  "'w exec_env \<Rightarrow> local_sandbox \<Rightarrow> ctx \<Rightarrow> exec_request \<Rightarrow> 'w \<Rightarrow> (exec_result \<times> goerr option) \<times> 'w" where
  "local_Exec X s c req w = (case erArgv req of
       [] \<Rightarrow> ((exec_result_zero, Some (ErrText ''sandbox: empty argv'')), w)
     | argv0 # args \<Rightarrow> (case checkAllowed (lsProvider s) argv0 of
           Some err \<Rightarrow> ((exec_result_zero, Some err), w)
         | None \<Rightarrow>
             (let timeout = request_timeout req (defaultTimeout (lsProvider s));
                  (now, w) = envNow (xeEnv X) w;
                  cctx = CtxWithDeadline c (now + timeout);
                  (ro, w) = xeRun X cctx (local_command s req) w;
                  (ctxErr, w) = envCtxErr (xeEnv X) cctx w
              in (run_result X argv0 (maxOutput (lsProvider s)) timeout ro ctxErr, envCancel (xeEnv X) cctx w))))"

definition local_Close :: "'w \<Rightarrow> goerr option \<times> 'w" where
  "local_Close w = (None, w)"

definition local_sandbox_of :: "'w exec_env \<Rightarrow> local_sandbox \<Rightarrow> 'w sandbox" where
  "local_sandbox_of X s = \<lparr>sbExec = local_Exec X s, sbClose = local_Close\<rparr>"

section \<open>Containers (docker.go)\<close>

record 'w docker_provider =
  dpImage :: string
  dpDocker :: string
  dpDefaultTimeout :: duration
  dpMaxOutputBytes :: int
  dpHost :: "'w sandbox option"

definition dp_docker :: "'w docker_provider \<Rightarrow> string" where
  "dp_docker p = (if dpDocker p \<noteq> [] then dpDocker p else ''docker'')"

definition dp_timeout :: "'w docker_provider \<Rightarrow> duration" where
  "dp_timeout p = (if dpDefaultTimeout p > 0 then dpDefaultTimeout p else 60 * time_second)"

definition hostSandbox :: "'w exec_env \<Rightarrow> 'w docker_provider \<Rightarrow> 'w sandbox" where
  "hostSandbox X p = (case dpHost p of
       Some h \<Rightarrow> h
     | None \<Rightarrow> local_sandbox_of X \<lparr>lsProvider = \<lparr>lpAllowedCommands = [], lpMaxOutputBytes = dpMaxOutputBytes p,
         lpDefaultTimeout = dp_timeout p\<rparr>, lsDir = [], lsEnv = []\<rparr>)"

definition dockerRunArgv :: "string \<Rightarrow> string \<Rightarrow> sandbox_spec \<Rightarrow> string list" where
  "dockerRunArgv docker img spec = [docker, ''run'', ''-d'', ''--rm''] @
     (if specWorkDir spec \<noteq> [] then [''-w'', specWorkDir spec] else []) @
     concat (map (\<lambda>e. [''-e'', e]) (specEnv spec)) @ [img, ''sleep'', ''infinity'']"

record 'w docker_sandbox =
  dsProvider :: "'w docker_provider"
  dsHost :: "'w sandbox"
  dsContainer :: string
  dsWorkdir :: string

definition host_request :: "string list \<Rightarrow> string \<Rightarrow> duration \<Rightarrow> exec_request" where
  "host_request argv stdin timeout = \<lparr>erArgv = argv, erStdin = stdin, erEnv = [], erDir = [], erTimeout = timeout\<rparr>"

definition docker_Create ::
  "'w exec_env \<Rightarrow> 'w docker_provider \<Rightarrow> ctx \<Rightarrow> sandbox_spec \<Rightarrow> 'w \<Rightarrow> (goerr + 'w docker_sandbox) \<times> 'w" where
  "docker_Create X p c spec w =
     (let img = (if specImage spec = [] then dpImage p else specImage spec) in
      if img = [] then (Inl (ErrText ''sandbox: DockerProvider requires an image (Spec.Image or DockerProvider.Image)''), w)
      else (let host = hostSandbox X p in
        case sbExec host c (host_request (dockerRunArgv (dp_docker p) img spec) [] 0) w of
          ((res, Some err), w) \<Rightarrow> (Inl (ErrWrap ''sandbox: docker run: '' err), w)
        | ((res, None), w) \<Rightarrow>
            if xrExitCode res \<noteq> 0 then
              (Inl (ErrText (''sandbox: docker run failed (exit '' @ itoa (xrExitCode res) @ ''): '' @ trim_space (xrStderr res))), w)
            else (let cid = trim_space (xrStdout res) in
              if cid = [] then (Inl (ErrText ''sandbox: docker run returned no container id''), w)
              else (Inr \<lparr>dsProvider = p, dsHost = host, dsContainer = cid, dsWorkdir = specWorkDir spec\<rparr>, w))))"

definition execArgv :: "'w docker_sandbox \<Rightarrow> exec_request \<Rightarrow> string list" where
  "execArgv s req = (let dir = (if erDir req = [] then dsWorkdir s else erDir req) in
     [dp_docker (dsProvider s), ''exec''] @ (if erStdin req \<noteq> [] then [''-i''] else []) @
     (if dir \<noteq> [] then [''-w'', dir] else []) @ concat (map (\<lambda>e. [''-e'', e]) (erEnv req)) @
     [dsContainer s] @ erArgv req)"

definition docker_Exec ::
  "'w docker_sandbox \<Rightarrow> ctx \<Rightarrow> exec_request \<Rightarrow> 'w \<Rightarrow> (exec_result \<times> goerr option) \<times> 'w" where
  "docker_Exec s c req w =
     (if erArgv req = [] then ((exec_result_zero, Some (ErrText ''sandbox: empty argv'')), w)
      else sbExec (dsHost s) c (host_request (execArgv s req) (erStdin req) (erTimeout req)) w)"

definition docker_Close :: "'w docker_sandbox \<Rightarrow> 'w \<Rightarrow> goerr option \<times> 'w" where
  "docker_Close s w = (case sbExec (dsHost s) CtxBackground
       (host_request [dp_docker (dsProvider s), ''rm'', ''-f'', dsContainer s] [] (20 * time_second)) w of
     ((res, err), w) \<Rightarrow> (err, w))"

section \<open>A sandbox as a tool (tool.go)\<close>

record command_args =
  caCommand :: string
  caStdin :: string

definition tool_request :: "command_args \<Rightarrow> exec_request" where
  "tool_request a = \<lparr>erArgv = [''sh'', ''-c'', caCommand a], erStdin = caStdin a, erEnv = [], erDir = [], erTimeout = 0\<rparr>"

text \<open>\<open>render\<close> is what \<open>json.Marshal\<close> and \<open>%v\<close> make of a \<open>CommandOutput\<close>.\<close>

definition run_command ::
  "(exec_result \<Rightarrow> goany) \<Rightarrow> 'w sandbox \<Rightarrow> ctx \<Rightarrow> command_args \<Rightarrow> 'w \<Rightarrow> tool_outcome \<times> 'w" where
  "run_command render sb c a w = (case sbExec sb c (tool_request a) w of
       ((res, Some err), w) \<Rightarrow> (ToolFails err, w)
     | ((res, None), w) \<Rightarrow> (ToolReturns (render res), w))"

definition CommandTool ::
  "goerr + raw_message \<Rightarrow> (raw_message \<Rightarrow> goerr + command_args) \<Rightarrow> (exec_result \<Rightarrow> goany) \<Rightarrow> 'w sandbox \<Rightarrow> string + 'w tool" where
  "CommandTool sch unmarshal render sb = NewTool sch \<lparr>caCommand = [], caStdin = []\<rparr> unmarshal ''run_command''
     ''Run a shell command in the sandbox and return its stdout, stderr, and exit code.'' (run_command render sb)"

end
