(* ===== verification/Sandbox_Shell.thy ===== *)
theory Sandbox_Shell
  imports Sandbox Go_Strconv
begin

text \<open>
  The persistent shell (\<open>sandbox/shell.go\<close>): one shell process per session that is fed scripts over its
  stdin and answers each with a marker line. Everything the operating system does is a function on
  the world (\<open>shell_env\<close>). \<open>Exec\<close> holds the mutex of the shell, so a call is one step; its loop waits
  for the marker and need not end, so it is a value of \<open>option\<close>.
\<close>

section \<open>Command lines\<close>

abbreviation (input) squote :: char where "squote \<equiv> CHR 0x27"

definition shquote :: "string \<Rightarrow> string" where
  "shquote s = [squote] @ concat (map (\<lambda>c. if c = squote then [squote, backslash, squote, squote] else [c]) s) @ [squote]"

definition commandLine :: "exec_request \<Rightarrow> string" where
  "commandLine req = (let a = erArgv req in
     if length a \<ge> 3 \<and> a ! 1 = ''-c'' \<and> (filepath_Base (a ! 0) = ''sh'' \<or> filepath_Base (a ! 0) = ''bash'') then a ! 2
     else if a = [] then []
     else strings_join (map shquote a) '' '')"

definition parseExit :: "string \<Rightarrow> int" where
  "parseExit s = (case atoi (trim_space s) of None \<Rightarrow> -1 | Some n \<Rightarrow> n)"

text \<open>\<open>strings.Index\<close>.\<close>

fun strings_index :: "string \<Rightarrow> string \<Rightarrow> nat option" where
  "strings_index [] sub = (if sub = [] then Some 0 else None)"
| "strings_index (c # cs) sub = (if has_prefix (c # cs) sub then Some 0 else map_option Suc (strings_index cs sub))"

section \<open>Captured files\<close>

text \<open>\<open>io.LimitReader\<close> over a file that is read in pieces.\<close>

fun limit_reader :: "int \<Rightarrow> string list \<Rightarrow> string list" where
  "limit_reader n [] = []"
| "limit_reader n (p # ps) =
     (if n \<le> 0 then []
      else if int (length p) > n then [take (nat n) p]
      else p # limit_reader (n - int (length p)) ps)"

definition readCapped :: "string list option \<Rightarrow> int \<Rightarrow> string" where
  "readCapped file_pieces limit = (case file_pieces of
       None \<Rightarrow> []
     | Some ps \<Rightarrow> capture limit (limit_reader (i64 (limit + 1)) ps))"

section \<open>The shell\<close>

record shell_provider =
  spShell :: string
  spMaxOutputBytes :: int
  spDefaultTimeout :: duration

definition shell_maxOutput :: "shell_provider \<Rightarrow> int" where
  "shell_maxOutput p = (if spMaxOutputBytes p > 0 then spMaxOutputBytes p else 2 ^ 20)"

definition shell_defaultTimeout :: "shell_provider \<Rightarrow> duration" where
  "shell_defaultTimeout p = (if spDefaultTimeout p > 0 then spDefaultTimeout p else 30 * time_second)"

text \<open>
  A process is known by a number. \<open>SpawnStdin\<close>, \<open>SpawnStdout\<close> and \<open>SpawnStart\<close> are the three calls that
  may fail when it is started. \<open>shEvent\<close> is what the \<open>select\<close> of \<open>Exec\<close> gets next from the context, the timer and the
  lines of the process; \<open>shKill\<close> kills the process group, closes its stdin and drains its lines.
\<close>

datatype spawn_error = SpawnStdin goerr | SpawnStdout goerr | SpawnStart goerr

datatype shell_event = EvContext goerr | EvTimer | EvLine string | EvClosed

record 'w shell_env =
  shX :: "'w exec_env"
  shLookPath :: "string \<Rightarrow> 'w \<Rightarrow> string option"
  shMkdirTemp :: "'w \<Rightarrow> (goerr + string) \<times> 'w"
  shRand8 :: "'w \<Rightarrow> string \<times> 'w"
  shSpawn :: "string \<Rightarrow> string \<Rightarrow> string list option \<Rightarrow> 'w \<Rightarrow> (spawn_error + nat) \<times> 'w"
  shWrite :: "nat \<Rightarrow> string \<Rightarrow> 'w \<Rightarrow> goerr option \<times> 'w"
  shEvent :: "nat \<Rightarrow> ctx \<Rightarrow> duration \<Rightarrow> 'w \<Rightarrow> shell_event \<times> 'w"
  shKill :: "nat \<Rightarrow> 'w \<Rightarrow> 'w"
  shReadFile :: "string \<Rightarrow> 'w \<Rightarrow> string list option"
  shWriteFile :: "string \<Rightarrow> string \<Rightarrow> 'w \<Rightarrow> goerr option \<times> 'w"
  shRemove :: "string \<Rightarrow> 'w \<Rightarrow> 'w"
  shRemoveAll :: "string \<Rightarrow> 'w \<Rightarrow> 'w"

record shell =
  pshProvider :: shell_provider
  pshDir :: string
  pshEnv :: "string list"
  pshCmd :: "nat option"
  pshTmpDir :: string
  pshToken :: string
  pshCounter :: int
  pshAlive :: bool

definition shell_program :: "'w shell_env \<Rightarrow> shell_provider \<Rightarrow> 'w \<Rightarrow> string" where
  "shell_program E p w = (if spShell p \<noteq> [] then spShell p
     else (case shLookPath E ''bash'' w of Some path \<Rightarrow> path | None \<Rightarrow> ''sh''))"

definition spawn_failure :: "spawn_error \<Rightarrow> goerr" where
  "spawn_failure e = (case e of
       SpawnStdin err \<Rightarrow> ErrWrap ''sandbox: shell stdin: '' err
     | SpawnStdout err \<Rightarrow> ErrWrap ''sandbox: shell stdout: '' err
     | SpawnStart err \<Rightarrow> ErrWrap ''sandbox: start shell: '' err)"

definition shell_start :: "'w shell_env \<Rightarrow> shell \<Rightarrow> 'w \<Rightarrow> (goerr option \<times> shell) \<times> 'w" where
  "shell_start E s w =
     (let (s, w) = (if pshTmpDir s \<noteq> [] then (s\<lparr>pshTmpDir := []\<rparr>, shRemoveAll E (pshTmpDir s) w) else (s, w)) in
      case shMkdirTemp E w of
        (Inl err, w) \<Rightarrow> ((Some (ErrWrap ''sandbox: shell tmpdir: '' err), s), w)
      | (Inr tmp, w) \<Rightarrow>
          (let (tok, w) = shRand8 E w in
           case shSpawn E (shell_program E (pshProvider s) w) (pshDir s) (cmd_env (pshEnv s)) w of
             (Inl err, w) \<Rightarrow> ((Some (spawn_failure err), s), shRemoveAll E tmp w)
           | (Inr p, w) \<Rightarrow>
               ((None, s\<lparr>pshCmd := Some p, pshTmpDir := tmp, pshToken := concat (map hex_byte tok), pshAlive := True\<rparr>), w)))"

definition shell_Create :: "'w shell_env \<Rightarrow> shell_provider \<Rightarrow> sandbox_spec \<Rightarrow> 'w \<Rightarrow> (goerr + shell) \<times> 'w" where
  "shell_Create E p spec w =
     (case shell_start E \<lparr>pshProvider = p, pshDir = specWorkDir spec, pshEnv = specEnv spec, pshCmd = None, pshTmpDir = [],
        pshToken = [], pshCounter = 0, pshAlive = False\<rparr> w of
       ((Some err, s), w) \<Rightarrow> (Inl err, w)
     | ((None, s), w) \<Rightarrow> (Inr s, w))"

definition killLocked :: "'w shell_env \<Rightarrow> shell \<Rightarrow> 'w \<Rightarrow> shell \<times> 'w" where
  "killLocked E s w =
     (if \<not> pshAlive s \<and> pshCmd s = None then (s, w)
      else (s\<lparr>pshAlive := False\<rparr>, case pshCmd s of None \<Rightarrow> w | Some p \<Rightarrow> shKill E p w))"

definition shell_Close :: "'w shell_env \<Rightarrow> shell \<Rightarrow> 'w \<Rightarrow> (goerr option \<times> shell) \<times> 'w" where
  "shell_Close E s w = (case killLocked E s w of (s, w) \<Rightarrow>
     if pshTmpDir s \<noteq> [] then ((None, s\<lparr>pshTmpDir := []\<rparr>), shRemoveAll E (pshTmpDir s) w) else ((None, s), w))"

section \<open>Exec\<close>

definition path_join :: "string \<Rightarrow> string \<Rightarrow> string" where
  "path_join dir name = dir @ ''/'' @ name"

definition marker_of :: "string \<Rightarrow> int \<Rightarrow> string" where
  "marker_of token n = ''__RIMENO_'' @ token @ ''_'' @ itoa n @ ''__''"

text \<open>An \<open>export\<close> line for each \<open>KEY=value\<close> whose key is not empty.\<close>

definition export_line :: "string \<Rightarrow> string" where
  "export_line kv = (let key = takeWhile (\<lambda>c. c \<noteq> CHR ''='') kv in
     if key \<noteq> [] \<and> length key < length kv
     then ''export '' @ key @ ''='' @ shquote (drop (Suc (length key)) kv) @ [newline] else [])"

definition shell_script :: "exec_request \<Rightarrow> string \<Rightarrow> string \<Rightarrow> string \<Rightarrow> string \<Rightarrow> string" where
  "shell_script req outFile errFile stdinRedir marker =
     concat (map export_line (erEnv req)) @ ''{ '' @ commandLine req @ [newline] @ ''} > '' @ shquote outFile @ '' 2> '' @ shquote errFile @
     stdinRedir @ [newline] @ ''printf '' @ [squote] @ marker @ '' %d'' @ [backslash, CHR ''n'', squote] @ '' '' @
     [quote_char, CHR ''$'', CHR ''?'', quote_char, newline]"

datatype wait_end = WaitContext goerr | WaitTimer | WaitClosed | WaitMarker string

text \<open>The loop: lines without the marker are passed over; \<open>WaitMarker\<close> has what follows the marker.\<close>

partial_function (option) shell_wait ::
  "'w shell_env \<Rightarrow> nat \<Rightarrow> ctx \<Rightarrow> duration \<Rightarrow> string \<Rightarrow> 'w \<Rightarrow> (wait_end \<times> 'w) option" where
  "shell_wait E p c timeout marker w = (case shEvent E p c timeout w of (ev, w') \<Rightarrow> (case ev of
       EvContext e \<Rightarrow> Some (WaitContext e, w')
     | EvTimer \<Rightarrow> Some (WaitTimer, w')
     | EvClosed \<Rightarrow> Some (WaitClosed, w')
     | EvLine line \<Rightarrow> (case strings_index line marker of
           Some i \<Rightarrow> Some (WaitMarker (drop (i + length marker) line), w')
         | None \<Rightarrow> shell_wait E p c timeout marker w')))"

definition shell_partial :: "'w shell_env \<Rightarrow> shell \<Rightarrow> string \<Rightarrow> string \<Rightarrow> 'w \<Rightarrow> exec_result" where
  "shell_partial E s outFile errFile w =
     \<lparr>xrStdout = readCapped (shReadFile E outFile w) (shell_maxOutput (pshProvider s)),
      xrStderr = readCapped (shReadFile E errFile w) (shell_maxOutput (pshProvider s)), xrExitCode = 0\<rparr>"

text \<open>What \<open>Exec\<close> returns when its loop has ended, before the deferred removals.\<close>

definition shell_finish ::
  "'w shell_env \<Rightarrow> shell \<Rightarrow> string \<Rightarrow> string \<Rightarrow> duration \<Rightarrow> wait_end \<Rightarrow> 'w \<Rightarrow> ((exec_result \<times> goerr option) \<times> shell) \<times> 'w" where
  "shell_finish E s outFile errFile timeout we w = (case we of
       WaitContext e \<Rightarrow> (case killLocked E s w of (s, w) \<Rightarrow> (((shell_partial E s outFile errFile w, Some e), s), w))
     | WaitTimer \<Rightarrow> (case killLocked E s w of (s, w) \<Rightarrow>
         (((shell_partial E s outFile errFile w, Some (timed_out (shX E) timeout)), s), w))
     | WaitClosed \<Rightarrow>
         (((shell_partial E s outFile errFile w, Some (ErrText ''sandbox: shell exited unexpectedly'')), s\<lparr>pshAlive := False\<rparr>), w)
     | WaitMarker rest \<Rightarrow>
         ((((shell_partial E s outFile errFile w)\<lparr>xrExitCode := parseExit rest\<rparr>, None), s), w))"

text \<open>The stdin of the command: a file when there is some and it can be written, else \<open>/dev/null\<close>.\<close>

definition shell_stdin :: "'w shell_env \<Rightarrow> exec_request \<Rightarrow> string \<Rightarrow> 'w \<Rightarrow> bool \<times> 'w" where
  "shell_stdin E req inFile w =
     (if erStdin req \<noteq> [] then (case shWriteFile E inFile (erStdin req) w of (e, w) \<Rightarrow> (e = None, w)) else (False, w))"

definition stdin_redir :: "bool \<Rightarrow> string \<Rightarrow> string" where
  "stdin_redir given inFile = (if given then '' < '' @ shquote inFile else '' < /dev/null'')"

text \<open>The deferred removals.\<close>

definition shell_cleanup :: "'w shell_env \<Rightarrow> bool \<Rightarrow> string \<Rightarrow> string \<Rightarrow> string \<Rightarrow> 'w \<Rightarrow> 'w" where
  "shell_cleanup E given outFile errFile inFile w =
     shRemove E outFile (shRemove E errFile (if given then shRemove E inFile w else w))"

text \<open>The script is written and answered; the counter of \<open>s\<close> already is that of this command.\<close>

definition shell_run ::
  "'w shell_env \<Rightarrow> ctx \<Rightarrow> exec_request \<Rightarrow> nat \<Rightarrow> duration \<Rightarrow> string \<Rightarrow> string \<Rightarrow> string \<Rightarrow> shell \<Rightarrow> 'w \<Rightarrow>
     (((exec_result \<times> goerr option) \<times> shell) \<times> 'w) option" where
  "shell_run E c req p timeout outFile errFile inFile s w =
     (case shell_stdin E req inFile w of (given, w) \<Rightarrow>
      (case shWrite E p (shell_script req outFile errFile (stdin_redir given inFile) (marker_of (pshToken s) (pshCounter s))) w of
           (Some err, w) \<Rightarrow> (case killLocked E s w of (s, w) \<Rightarrow>
             Some (((shell_partial E s outFile errFile w, Some (ErrWrap ''sandbox: write to shell: '' err)), s),
               shell_cleanup E given outFile errFile inFile w))
         | (None, w) \<Rightarrow> (case shell_wait E p c timeout (marker_of (pshToken s) (pshCounter s)) w of
             None \<Rightarrow> None
           | Some (we, w) \<Rightarrow> (case shell_finish E s outFile errFile timeout we w of (r, w) \<Rightarrow>
               Some (r, shell_cleanup E given outFile errFile inFile w)))))"

definition shell_file :: "char \<Rightarrow> shell \<Rightarrow> string" where
  "shell_file k s = path_join (pshTmpDir s) (k # itoa (pshCounter s))"

definition shell_command ::
  "'w shell_env \<Rightarrow> ctx \<Rightarrow> exec_request \<Rightarrow> nat \<Rightarrow> shell \<Rightarrow> 'w \<Rightarrow> (((exec_result \<times> goerr option) \<times> shell) \<times> 'w) option" where
  "shell_command E c req p s0 w =
     (let timeout = request_timeout req (shell_defaultTimeout (pshProvider s0));
          s = s0\<lparr>pshCounter := i64 (pshCounter s0 + 1)\<rparr>
      in shell_run E c req p timeout (shell_file CHR ''o'' s) (shell_file CHR ''e'' s) (shell_file CHR ''i'' s) s w)"

definition shell_Exec ::
  "'w shell_env \<Rightarrow> ctx \<Rightarrow> exec_request \<Rightarrow> shell \<Rightarrow> 'w \<Rightarrow> (((exec_result \<times> goerr option) \<times> shell) \<times> 'w) option" where
  "shell_Exec E c req s w =
     (if trim_space (commandLine req) = [] then Some (((exec_result_zero, Some (ErrText ''sandbox: empty command'')), s), w)
      else (case (if pshAlive s then ((None, s), w) else shell_start E s w) of
          ((Some err, s), w) \<Rightarrow> Some (((exec_result_zero, Some err), s), w)
        | ((None, s), w) \<Rightarrow> (case pshCmd s of
              None \<Rightarrow> None
            | Some p \<Rightarrow> shell_command E c req p s w)))"

end
