(* ===== verification/Sandbox_Props.thy ===== *)
theory Sandbox_Props
  imports Sandbox_Shell
begin

text \<open>
  The correctness of the sandboxes: captured output, the allow list, the command lines that are handed
  to a shell or to docker, and the protocol of the persistent shell.
\<close>

section \<open>Captured output\<close>

definition capped_text :: "int \<Rightarrow> string \<Rightarrow> string" where
  "capped_text limit s = (if limit > 0 \<and> int (length s) > limit then take (nat limit) s @ truncation_mark else s)"

definition capped_holds :: "int \<Rightarrow> string \<Rightarrow> capped_buffer \<Rightarrow> bool" where
  "capped_holds limit s b \<longleftrightarrow> cbLimit b = limit \<and>
     (if limit > 0 \<and> int (length s) > limit then cbBuf b = take (nat limit) s \<and> cbTruncated b
      else cbBuf b = s \<and> \<not> cbTruncated b)"

lemma capped_holds_new: "capped_holds limit [] (capped_new limit)"
  by (simp add: capped_holds_def capped_new_def)

lemma capped_holds_Write: "capped_holds limit s b \<Longrightarrow> p \<noteq> [] \<Longrightarrow> capped_holds limit (s @ p) (capped_Write p b)"
  by (cases p) (auto simp: capped_holds_def capped_Write_def Let_def nat_diff_distrib split: if_splits)

lemma capped_holds_fold:
  "capped_holds limit s b \<Longrightarrow> [] \<notin> set ps \<Longrightarrow> capped_holds limit (s @ concat ps) (foldl (\<lambda>b p. capped_Write p b) b ps)"
proof (induction ps arbitrary: s b)
  case (Cons p ps)
  then show ?case using Cons.IH [OF capped_holds_Write [OF Cons.prems(1), of p]] by auto
qed simp

lemma capture_lemma: "[] \<notin> set ps \<Longrightarrow> capture limit ps = capped_text limit (concat ps)"
  using capped_holds_fold [OF capped_holds_new, of ps limit]
  by (auto simp: capture_def capped_String_def capped_text_def capped_holds_def split: if_splits)

lemma limit_reader_concat: "0 \<le> n \<Longrightarrow> concat (limit_reader n ps) = take (nat n) (concat ps)"
  by (induction n ps rule: limit_reader.induct) (auto simp: nat_diff_distrib)

lemma limit_reader_nonempty: "[] \<notin> set ps \<Longrightarrow> [] \<notin> set (limit_reader n ps)"
  by (induction n ps rule: limit_reader.induct) (auto split: if_splits)

lemma readCapped_lemma:
  assumes "[] \<notin> set ps" "0 < limit" "limit < 2 ^ 63 - 1"
  shows "readCapped (Some ps) limit = capped_text limit (concat ps)"
proof -
  have l: "i64 (limit + 1) = limit + 1" using assms by (simp add: i64_id in_i64_def)
  have "readCapped (Some ps) limit = capped_text limit (take (nat (limit + 1)) (concat ps))"
    using assms by (simp add: readCapped_def l capture_lemma limit_reader_nonempty limit_reader_concat)
  also have "\<dots> = capped_text limit (concat ps)" using assms(2) by (auto simp: capped_text_def min_def nat_add_distrib)
  finally show ?thesis .
qed

text \<open>
  C23: captured output does not depend on how the operating system cuts it: it is the whole output,
  or its first \<open>limit\<close> bytes and the mark when it is longer; both for the output of a process and for
  a file of the persistent shell, of which at most \<open>limit + 1\<close> bytes are read.
\<close>

theorem output_is_capped:
  assumes "[] \<notin> set ps"
  shows "capture limit ps = (if 0 < limit \<and> limit < int (length (concat ps))
       then take (nat limit) (concat ps) @ truncation_mark else concat ps) \<and>
     (0 < limit \<and> limit < 2 ^ 63 - 1 \<longrightarrow> readCapped (Some ps) limit = capture limit ps)"
  using capture_lemma [OF assms] readCapped_lemma [OF assms] by (simp add: capped_text_def)

theorem output_is_capped_witness:
  "capture 3 [''ab'', ''cd''] = ''abc'' @ truncation_mark \<and> readCapped (Some [''ab'', ''cd'']) 3 = ''abc'' @ truncation_mark"
  using output_is_capped [of "[''ab'', ''cd'']" 3] by (simp add: numeral_eq_Suc)

text \<open>With the largest limit \<open>limit + 1\<close> wraps around and nothing is read.\<close>

lemma largest_limit_reads_nothing: "readCapped (Some ps) (2 ^ 63 - 1) = []"
proof -
  have "i64 (2 ^ 63 - 1 + 1) = - (2 ^ 63)" by (simp add: i64_def)
  then show ?thesis by (cases ps) (simp_all add: readCapped_def capture_def capped_String_def capped_new_def)
qed

section \<open>The local provider\<close>

text \<open>A command that the allow list names neither by its path nor by its base name is refused before anything is started.\<close>

lemma refused_command_starts_nothing:
  assumes "erArgv req = argv0 # args" "lpAllowedCommands (lsProvider s) \<noteq> []"
    "argv0 \<notin> set (lpAllowedCommands (lsProvider s))" "filepath_Base argv0 \<notin> set (lpAllowedCommands (lsProvider s))"
  shows "local_Exec X s c req w =
    ((exec_result_zero, Some (ErrText (''sandbox: command '' @ strconv_quote argv0 @ '' not allowed''))), w)"
proof -
  have "\<not> list_ex (\<lambda>a. a = argv0 \<or> a = filepath_Base argv0) (lpAllowedCommands (lsProvider s))"
    using assms(3,4) by (auto simp: list_ex_iff)
  then show ?thesis using assms by (simp add: local_Exec_def checkAllowed_def)
qed

section \<open>Command lines\<close>

text \<open>
  How a POSIX shell splits a line into words, as far as quoting goes: single quotes, the backslash,
  blanks. \<open>None\<close>: an open quote, or a character that has a meaning of its own for the shell.
\<close>

definition sh_special :: "char \<Rightarrow> bool" where
  "sh_special c \<longleftrightarrow> c \<in> set ''|&;<>()$*?[#~=%!{}`'' \<or> c = quote_char \<or> c = newline"

definition push :: "string option \<Rightarrow> char \<Rightarrow> string option" where
  "push w c = Some ((case w of None \<Rightarrow> [] | Some s \<Rightarrow> s) @ [c])"

function sh_read :: "bool \<Rightarrow> string option \<Rightarrow> string \<Rightarrow> string list option" where
  "sh_read True w [] = None"
| "sh_read True w (c # cs) = (if c = squote then sh_read False w cs else sh_read True (push w c) cs)"
| "sh_read False w [] = Some (case w of None \<Rightarrow> [] | Some s \<Rightarrow> [s])"
| "sh_read False w (c # cs) =
     (if c = squote then sh_read True (Some (case w of None \<Rightarrow> [] | Some s \<Rightarrow> s)) cs
      else if c = backslash then (case cs of [] \<Rightarrow> None | d # ds \<Rightarrow> sh_read False (push w d) ds)
      else if c = CHR '' '' \<or> c = CHR 0x09 then
        (case w of None \<Rightarrow> sh_read False None cs | Some s \<Rightarrow> map_option (Cons s) (sh_read False None cs))
      else if sh_special c then None
      else sh_read False (push w c) cs)"
  by pat_completeness auto
termination by (relation "measure (\<lambda>(q, w, s). length s)") auto

definition sh_words :: "string \<Rightarrow> string list option" where
  "sh_words line = sh_read False None line"

lemma sh_read_quoted:
  "sh_read True (Some u) (concat (map (\<lambda>c. if c = squote then [squote, backslash, squote, squote] else [c]) s) @ squote # rest) =
     sh_read False (Some (u @ s)) rest"
  by (induction s arbitrary: u) (simp_all add: push_def)

lemma sh_read_shquote: "sh_read False None (shquote s @ rest) = sh_read False (Some s) rest"
  using sh_read_quoted [of "[]" s rest] by (simp add: shquote_def)

lemma sh_read_join: "sh_read False None (strings_join (map shquote a) '' '') = Some a"
  by (induction a rule: induct_list012) (simp_all add: sh_read_shquote sh_read_shquote [of _ "[]", simplified])

text \<open>
  C22: whatever bytes the arguments hold -- quotes, blanks, dollar signs, newlines, or nothing --, the line
  that is handed to the persistent shell is split by a POSIX shell into exactly these arguments;
  only \<open>sh -c\<close> and \<open>bash -c\<close> hand over their script as it is.
\<close>

theorem commandLine_roundtrip:
  assumes "erArgv req \<noteq> []"
    and "\<not> (length (erArgv req) \<ge> 3 \<and> erArgv req ! 1 = ''-c'' \<and> filepath_Base (hd (erArgv req)) \<in> {''sh'', ''bash''})"
  shows "sh_words (commandLine req) = Some (erArgv req)"
  using assms by (auto simp: commandLine_def sh_words_def sh_read_join hd_conv_nth Let_def)

theorem commandLine_roundtrip_witness:
  "sh_words (commandLine (host_request [''echo'', [squote] @ ''; rm *'', []] [] 0)) = Some [''echo'', [squote] @ ''; rm *'', []]"
  using commandLine_roundtrip [of "host_request [''echo'', [squote] @ ''; rm *'', []] [] 0"] by (simp add: host_request_def)

text \<open>Arguments behind the script of \<open>sh -c\<close> are dropped; the other sandboxes pass them on.\<close>

lemma commandLine_drops_arguments: "erArgv req = [''sh'', ''-c'', script, x] \<Longrightarrow> commandLine req = script"
  by (simp add: commandLine_def filepath_Base_def)

text \<open>The command of the tool is the script.\<close>

lemma commandLine_tool_request: "commandLine (tool_request a) = caCommand a"
  by (simp add: commandLine_def tool_request_def filepath_Base_def)

text \<open>How the docker command line reads its arguments: options up to the first other argument, the container, the command.\<close>

record docker_call =
  dcStdin :: bool
  dcDir :: "string option"
  dcEnv :: "string list"
  dcContainer :: string
  dcCommand :: "string list"

fun docker_exec_args :: "string list \<Rightarrow> docker_call option" where
  "docker_exec_args [] = None"
| "docker_exec_args [x] = (if x \<in> {''-i'', ''-w'', ''-e''} then None
     else Some \<lparr>dcStdin = False, dcDir = None, dcEnv = [], dcContainer = x, dcCommand = []\<rparr>)"
| "docker_exec_args (x # y # rest) =
     (if x = ''-i'' then map_option (\<lambda>d. d\<lparr>dcStdin := True\<rparr>) (docker_exec_args (y # rest))
      else if x = ''-w'' then map_option (\<lambda>d. d\<lparr>dcDir := Some y\<rparr>) (docker_exec_args rest)
      else if x = ''-e'' then map_option (\<lambda>d. d\<lparr>dcEnv := y # dcEnv d\<rparr>) (docker_exec_args rest)
      else Some \<lparr>dcStdin = False, dcDir = None, dcEnv = [], dcContainer = x, dcCommand = y # rest\<rparr>)"

lemma docker_exec_command:
  "hd x \<noteq> CHR ''-'' \<Longrightarrow> docker_exec_args (x # cmd) = Some \<lparr>dcStdin = False, dcDir = None, dcEnv = [], dcContainer = x, dcCommand = cmd\<rparr>"
  by (cases cmd) auto

lemma docker_exec_envs:
  "docker_exec_args rest = Some d \<Longrightarrow>
     docker_exec_args (concat (map (\<lambda>e. [''-e'', e]) es) @ rest) = Some (d\<lparr>dcEnv := es @ dcEnv d\<rparr>)"
  by (induction es) simp_all

text \<open>
  What \<open>docker exec\<close> reads from the arguments is the request: stdin is attached when there is
  some, the directory and the variables of the request hold for this command, and the command of the
  request is run in the container of the sandbox, whatever it looks like.
\<close>

theorem execArgv_roundtrip:
  assumes "dsContainer s \<noteq> []" "hd (dsContainer s) \<noteq> CHR ''-''"
  shows "take 2 (execArgv s req) = [dp_docker (dsProvider s), ''exec''] \<and>
     docker_exec_args (drop 2 (execArgv s req)) = Some
       \<lparr>dcStdin = (erStdin req \<noteq> []),
        dcDir = (if erDir req \<noteq> [] then Some (erDir req) else if dsWorkdir s \<noteq> [] then Some (dsWorkdir s) else None),
        dcEnv = erEnv req, dcContainer = dsContainer s, dcCommand = erArgv req\<rparr>"
proof -
  let ?tail = "concat (map (\<lambda>e. [''-e'', e]) (erEnv req)) @ dsContainer s # erArgv req"
  have tail: "docker_exec_args ?tail = Some \<lparr>dcStdin = False, dcDir = None, dcEnv = erEnv req, dcContainer = dsContainer s, dcCommand = erArgv req\<rparr>"
    using docker_exec_envs [OF docker_exec_command [OF assms(2)]] by simp
  obtain y ys where y: "?tail = y # ys" by (cases "erEnv req") simp_all
  show ?thesis using tail unfolding execArgv_def Let_def by (simp add: y)
qed

definition demo_docker :: "unit docker_sandbox" where
  "demo_docker = \<lparr>dsProvider = \<lparr>dpImage = ''alpine'', dpDocker = [], dpDefaultTimeout = 0, dpMaxOutputBytes = 0, dpHost = None\<rparr>,
     dsHost = \<lparr>sbExec = (\<lambda>c r w. ((exec_result_zero, None), w)), sbClose = local_Close\<rparr>, dsContainer = ''c1'', dsWorkdir = ''/w''\<rparr>"

theorem execArgv_roundtrip_witness:
  "docker_exec_args (drop 2 (execArgv demo_docker (host_request [''-e'', ''x''] ''in'' 0))) =
     Some \<lparr>dcStdin = True, dcDir = Some ''/w'', dcEnv = [], dcContainer = ''c1'', dcCommand = [''-e'', ''x'']\<rparr>"
proof -
  have "dsContainer demo_docker = ''c1''" "dsWorkdir demo_docker = ''/w''" by (simp_all add: demo_docker_def)
  then show ?thesis using execArgv_roundtrip [of demo_docker "host_request [''-e'', ''x''] ''in'' 0"] by (simp add: host_request_def)
qed

section \<open>The protocol of the persistent shell\<close>

text \<open>The line the shell prints for command \<open>n\<close>, as the format of the script says.\<close>

definition answer_line :: "string \<Rightarrow> int \<Rightarrow> int \<Rightarrow> string" where
  "answer_line token n code = marker_of token n @ '' '' @ itoa code @ [newline]"

definition no_R :: "string \<Rightarrow> bool" where
  "no_R s \<longleftrightarrow> CHR ''R'' \<notin> set s"

lemma digits_no_R: "list_all is_digit s \<Longrightarrow> CHR ''R'' \<notin> set s \<and> CHR ''_'' \<notin> set s"
  by (auto simp: list_all_iff is_digit_def)

lemma itoa_chars: "CHR ''R'' \<notin> set (itoa n) \<and> CHR ''_'' \<notin> set (itoa n)"
  using digits_no_R [OF nat_dec_digits] by (auto simp: itoa_def)

lemma itoa_inj: "itoa m = itoa n \<Longrightarrow> m = n"
proof -
  have "hd (nat_dec k) \<noteq> CHR ''-''" for k using hd_nat_dec [of k] not_digits by auto
  then show "itoa m = itoa n \<Longrightarrow> m = n"
    by (auto simp: itoa_def dest!: nat_dec_inj split: if_splits) (metis list.sel(1))+
qed

lemma strings_index_prefix: "strings_index (s @ t) s = Some 0"
proof (cases "s @ t")
  case (Cons c cs)
  then have "prefix s (c # cs)" by (metis prefixI)
  with Cons show ?thesis by simp
qed simp

lemma strings_index_Some: "strings_index s sub = Some i \<Longrightarrow> \<exists>u. s = take i s @ sub @ u"
proof (induction s sub arbitrary: i rule: strings_index.induct)
  case (2 c cs sub)
  show ?case
  proof (cases "prefix sub (c # cs)")
    case True
    with 2 show ?thesis by (auto simp: prefix_def)
  next
    case False
    with 2(2) obtain k where "i = Suc k" "strings_index cs sub = Some k" by (cases "strings_index cs sub") auto
    with 2(1) [OF False] show ?thesis by auto
  qed
qed (auto split: if_splits)

text \<open>The marker begins at the only \<open>R\<close> of the line, so it can be found in its place only.\<close>

lemma marker_found_at_front:
  assumes "no_R t" "no_R u" "strings_index (answer_line t j code) (marker_of u n) = Some i"
  shows "prefix (marker_of u n) (answer_line t j code)"
proof -
  let ?rest = "''IMENO_'' @ t @ ''_'' @ itoa j @ ''__'' @ '' '' @ itoa code @ [newline]"
  have line: "answer_line t j code = ''__'' @ CHR ''R'' # ?rest" by (simp add: answer_line_def marker_of_def)
  have R: "CHR ''R'' \<notin> set ?rest" using assms(1) itoa_chars by (simp add: no_R_def)
  from strings_index_Some [OF assms(3)] obtain v where v: "answer_line t j code = take i (answer_line t j code) @ marker_of u n @ v" ..
  define a where "a = take i (answer_line t j code)"
  have "a @ ''__R'' @ (''IMENO_'' @ u @ ''_'' @ itoa n @ ''__'' @ v) = ''__R'' @ ?rest"
    using v line unfolding a_def [symmetric] by (simp add: marker_of_def)
  note eq = this
  have "count_list (''__R'' @ ?rest) CHR ''R'' = 1" using R by (simp add: count_list_0_iff)
  then have "CHR ''R'' \<notin> set a" using arg_cong [OF eq, of "\<lambda>s. count_list s CHR ''R''"] by (simp add: count_list_0_iff)
  then have "a = []" using arg_cong [OF eq, of "takeWhile (\<lambda>c. c \<noteq> CHR ''R'')"] by (auto simp: takeWhile_append split: if_splits)
  then show ?thesis using v unfolding a_def [symmetric] by (metis append_Nil prefixI)
qed

lemma marker_prefix:
  assumes "prefix (marker_of u n) (answer_line t j code)" "length t = length u"
  shows "t = u \<and> j = n"
proof -
  from assms(1) obtain v where "answer_line t j code = marker_of u n @ v" by (auto simp: prefix_def)
  then have eq: "t @ ''_'' @ itoa j @ ''__ '' @ itoa code @ [newline] = u @ ''_'' @ itoa n @ ''__'' @ v"
    by (simp add: answer_line_def marker_of_def)
  then have tu: "t = u" and rest: "itoa j @ CHR ''_'' # (''_ '' @ itoa code @ [newline]) = itoa n @ CHR ''_'' # (CHR ''_'' # v)"
    using assms(2) by simp_all
  have "takeWhile (\<lambda>c. c \<noteq> CHR ''_'') (itoa k @ CHR ''_'' # w) = itoa k" for k w
    using itoa_chars [of k] by (subst takeWhile_append2) auto
  then have "itoa j = itoa n" using arg_cong [OF rest, of "takeWhile (\<lambda>c. c \<noteq> CHR ''_'')"] by metis
  with tu show ?thesis by (simp add: itoa_inj)
qed

lemma answer_found:
  assumes "no_R t" "no_R u" "length t = length u"
  shows "strings_index (answer_line t j code) (marker_of u n) = (if t = u \<and> j = n then Some 0 else None)"
proof (cases "strings_index (answer_line t j code) (marker_of u n)")
  case None
  have "strings_index (answer_line u n code) (marker_of u n) = Some 0"
    unfolding answer_line_def by (rule strings_index_prefix)
  with None show ?thesis by auto
next
  case (Some i)
  from marker_prefix [OF marker_found_at_front [OF assms(1,2) Some] assms(3)] have "t = u" "j = n" by simp_all
  then show ?thesis unfolding answer_line_def by (simp add: strings_index_prefix)
qed

lemma trim_blank_newline:
  assumes "s \<noteq> []" "hd s \<notin> hd ` set space_seqs" "last s \<notin> last ` set space_seqs"
  shows "trim_space ('' '' @ s @ [newline]) = s"
proof -
  have "trim_left_seqs space_seqs (s @ [newline]) = s @ [newline]"
    using leading_space_0 [of "s @ [newline]" space_seqs] assms(1,2)
    by (subst trim_left_seqs.simps) (simp add: Let_def space_seqs_def)
  moreover have "leading_space space_seqs (CHR '' '' # s @ [newline]) = 1"
    by (simp add: leading_space_def space_seqs_def)
  ultimately have left: "trim_left_seqs space_seqs ('' '' @ s @ [newline]) = s @ [newline]"
    by (subst trim_left_seqs.simps) (simp add: Let_def)
  have "hd (rev s) \<notin> hd ` set (map rev space_seqs)" using assms(1,3) by (auto simp: hd_rev image_image)
  then have "trim_left_seqs (map rev space_seqs) (rev s) = rev s"
    using leading_space_0 [of "rev s" "map rev space_seqs"] assms(1)
    by (subst trim_left_seqs.simps) (simp add: Let_def space_seqs_def)
  moreover have "leading_space (map rev space_seqs) (newline # rev s) = 1"
    by (simp add: leading_space_def space_seqs_def)
  ultimately have "trim_left_seqs (map rev space_seqs) (newline # rev s) = rev s"
    by (subst trim_left_seqs.simps) (simp add: Let_def)
  with left show ?thesis by (simp add: trim_space_def)
qed

lemma digit_no_space: "is_digit c \<Longrightarrow> c \<notin> hd ` set space_seqs \<and> c \<notin> last ` set space_seqs"
  by (auto simp: is_digit_def space_seqs_def)

lemma trim_answer: "trim_space ('' '' @ itoa code @ [newline]) = itoa code"
proof (rule trim_blank_newline)
  have l: "is_digit (last (nat_dec n))" for n
    using nat_dec_digits [of n] last_in_set [OF nat_dec_nonempty [of n]] by (auto simp: list_all_iff)
  have "CHR ''-'' \<notin> hd ` set space_seqs" by (simp add: space_seqs_def)
  then show "hd (itoa code) \<notin> hd ` set space_seqs" using digit_no_space [OF hd_nat_dec] by (simp add: itoa_def)
  show "last (itoa code) \<notin> last ` set space_seqs" using digit_no_space [OF l] by (simp add: itoa_def)
qed (simp add: itoa_def)

lemma hex_char_no_R: "d < 16 \<Longrightarrow> hex_char d \<noteq> CHR ''R''"
proof
  assume "d < 16" "hex_char d = CHR ''R''"
  then have "(of_char (hex_char d) :: nat) = of_char CHR ''R''" by simp
  with \<open>d < 16\<close> show False by (simp add: hex_char_def of_char_of split: if_splits)
qed

lemma no_R_hex: "no_R (concat (map hex_byte u))"
proof -
  have "CHR ''R'' \<noteq> hex_char (of_char c div 16)" "CHR ''R'' \<noteq> hex_char (of_char c mod 16)" for c
    by (rule not_sym [OF hex_char_no_R]; simp add: less_mult_imp_div_less)+
  then show ?thesis by (auto simp: no_R_def hex_byte_def)
qed

lemma answer_lemma:
  assumes "length tok = 8" "length tok' = 8" "in_i64 code"
  shows "(case strings_index (answer_line (concat (map hex_byte tok')) j code) (marker_of (concat (map hex_byte tok)) n) of
       Some i \<Rightarrow> concat (map hex_byte tok') = concat (map hex_byte tok) \<and> j = n \<and>
         parseExit (drop (i + length (marker_of (concat (map hex_byte tok)) n)) (answer_line (concat (map hex_byte tok')) j code)) = code
     | None \<Rightarrow> concat (map hex_byte tok') \<noteq> concat (map hex_byte tok) \<or> j \<noteq> n)"
proof -
  note hex = no_R_hex
  have len: "length (concat (map hex_byte u)) = 2 * length u" for u by (induction u) (simp_all add: hex_byte_def)
  have "parseExit (drop (length (marker_of t n)) (answer_line t n code)) = code" for t
    using assms(3) by (simp add: answer_line_def parseExit_def trim_answer [simplified] atoi_itoa)
  then show ?thesis using answer_found [OF hex hex, of tok' tok j code n] len assms(1,2) by simp
qed

text \<open>
  The line that answers a command is recognised by its marker and read back as the exit code the
  shell printed; the line of another command, or of an earlier shell, is never taken for it.
\<close>

theorem answer_roundtrip:
  assumes "length tok = 8" "length tok' = 8" "in_i64 code"
  shows "(case strings_index (answer_line (concat (map hex_byte tok')) j code) (marker_of (concat (map hex_byte tok)) n) of
       Some i \<Rightarrow> concat (map hex_byte tok') = concat (map hex_byte tok) \<and> j = n \<and>
         parseExit (drop (i + length (marker_of (concat (map hex_byte tok)) n)) (answer_line (concat (map hex_byte tok')) j code)) = code
     | None \<Rightarrow> concat (map hex_byte tok') \<noteq> concat (map hex_byte tok) \<or> j \<noteq> n)"
  by (rule answer_lemma [OF assms])

theorem answer_roundtrip_witness:
  "strings_index (answer_line (concat (map hex_byte ''abcdefgh'')) 1 7) (marker_of (concat (map hex_byte ''abcdefgh'')) 2) = None"
  using answer_roundtrip [of "''abcdefgh''" "''abcdefgh''" 7 1 2] by (auto simp: in_i64_def split: option.splits)

section \<open>A call of Exec\<close>

definition shell_ok :: "shell \<Rightarrow> bool" where
  "shell_ok s \<longleftrightarrow> (pshAlive s \<longrightarrow> pshCmd s \<noteq> None \<and> (\<exists>tok. length tok = 8 \<and> pshToken s = concat (map hex_byte tok)))"

lemma start_ok:
  assumes "\<And>w. length (fst (shRand8 E w)) = 8" "shell_start E s w = ((err, t), w')" "\<not> pshAlive s"
  shows "shell_ok t \<and> pshCounter t = pshCounter s \<and> pshProvider t = pshProvider s \<and> (err = None \<longleftrightarrow> pshAlive t)"
  using assms
  by (auto simp: shell_start_def Let_def shell_ok_def split: if_splits prod.splits sum.splits) (metis fst_conv)+

lemma killed_shell: "pshAlive s \<Longrightarrow> killLocked E s w = (t, w') \<Longrightarrow> \<not> pshAlive t \<and> pshCounter t = pshCounter s"
  by (auto simp: killLocked_def split: if_splits option.splits)

text \<open>The loop ends when the lines that are passed over come to an end, as the timer makes sure.\<close>

lemma shell_wait_lemma:
  assumes fin: "\<And>u line u'. shEvent E p c timeout u = (EvLine line, u') \<Longrightarrow> strings_index line marker = None \<Longrightarrow> f u' < (f u :: nat)"
  shows "\<exists>we w'. shell_wait E p c timeout marker w = Some (we, w') \<and>
     (\<forall>rest. we = WaitMarker rest \<longrightarrow> (\<exists>u u' line i. shEvent E p c timeout u = (EvLine line, u') \<and>
        strings_index line marker = Some i \<and> rest = drop (i + length marker) line))"
proof (induction "f w" arbitrary: w rule: less_induct)
  case less
  obtain ev w' where ev: "shEvent E p c timeout w = (ev, w')" by fastforce
  show ?case
  proof (cases "\<exists>line. ev = EvLine line \<and> strings_index line marker = None")
    case True
    then obtain line where l: "ev = EvLine line" "strings_index line marker = None" by blast
    with less [OF fin [OF ev [unfolded l(1)] l(2)]] ev show ?thesis by (subst shell_wait.simps) simp
  next
    case False
    then show ?thesis using ev
      by (subst shell_wait.simps) (cases ev; auto split: option.splits)
  qed
qed

text \<open>What a call leaves behind: a dead shell with an error, or a live one and the exit code of an answer with its marker.\<close>

definition exec_outcome :: "'w shell_env \<Rightarrow> nat \<Rightarrow> ctx \<Rightarrow> duration \<Rightarrow> exec_result \<Rightarrow> goerr option \<Rightarrow> shell \<Rightarrow> bool" where
  "exec_outcome E p c tm res err t \<longleftrightarrow> shell_ok t \<and> (err \<noteq> None \<longrightarrow> \<not> pshAlive t) \<and>
     (err = None \<longrightarrow> pshAlive t \<and> (\<exists>u u' line i. shEvent E p c tm u = (EvLine line, u') \<and>
        strings_index line (marker_of (pshToken t) (pshCounter t)) = Some i \<and>
        xrExitCode res = parseExit (drop (i + length (marker_of (pshToken t) (pshCounter t))) line)))"

lemma dead_outcome: "\<not> pshAlive t \<Longrightarrow> exec_outcome E p c tm res (Some err) t"
  by (simp add: exec_outcome_def shell_ok_def)

lemma kill_dead:
  assumes "pshAlive s"
  obtains t w' where "killLocked E s w = (t, w')" "\<not> pshAlive t" "pshCounter t = pshCounter s"
  using killed_shell [OF assms, of E w] by (cases "killLocked E s w") blast

lemma shell_finish_outcome:
  assumes "pshAlive s" "shell_ok s"
    and "\<And>rest. we = WaitMarker rest \<Longrightarrow> \<exists>u u' line i. shEvent E p c tm u = (EvLine line, u') \<and>
       strings_index line (marker_of (pshToken s) (pshCounter s)) = Some i \<and>
       rest = drop (i + length (marker_of (pshToken s) (pshCounter s))) line"
  shows "\<exists>res err t w'. shell_finish E s oF eF tm we w = (((res, err), t), w') \<and> pshCounter t = pshCounter s \<and> exec_outcome E p c tm res err t"
proof (cases we)
  case (WaitMarker rest)
  with assms show ?thesis by (auto simp: shell_finish_def exec_outcome_def)
next
  case (WaitContext e)
  obtain t w' where "killLocked E s w = (t, w')" "\<not> pshAlive t" "pshCounter t = pshCounter s" by (rule kill_dead [OF assms(1)])
  with WaitContext show ?thesis by (simp add: shell_finish_def dead_outcome)
next
  case WaitTimer
  obtain t w' where "killLocked E s w = (t, w')" "\<not> pshAlive t" "pshCounter t = pshCounter s" by (rule kill_dead [OF assms(1)])
  with WaitTimer show ?thesis by (simp add: shell_finish_def dead_outcome)
qed (simp add: shell_finish_def dead_outcome)

lemma shell_run_outcome:
  assumes fin: "\<And>u line u'. shEvent E p c tm u = (EvLine line, u') \<Longrightarrow>
      strings_index line (marker_of (pshToken s) (pshCounter s)) = None \<Longrightarrow> f u' < (f u :: nat)"
    and alive: "pshAlive s" "shell_ok s"
  shows "\<exists>res err t w'. shell_run E c req p tm oF eF iF s w = Some (((res, err), t), w') \<and> pshCounter t = pshCounter s \<and>
     exec_outcome E p c tm res err t"
proof -
  let ?m = "marker_of (pshToken s) (pshCounter s)"
  obtain given w1 where g: "shell_stdin E req iF w = (given, w1)" by fastforce
  obtain e w2 where wr: "shWrite E p (shell_script req oF eF (stdin_redir given iF) ?m) w1 = (e, w2)" by fastforce
  show ?thesis
  proof (cases e)
    case (Some x)
    obtain t w' where "killLocked E s w2 = (t, w')" "\<not> pshAlive t" "pshCounter t = pshCounter s" by (rule kill_dead [OF alive(1)])
    with Some g wr show ?thesis by (simp add: shell_run_def dead_outcome)
  next
    case None
    obtain we w3 where wt: "shell_wait E p c tm ?m w2 = Some (we, w3)"
      "\<forall>rest. we = WaitMarker rest \<longrightarrow> (\<exists>u u' line i. shEvent E p c tm u = (EvLine line, u') \<and>
        strings_index line ?m = Some i \<and> rest = drop (i + length ?m) line)"
      using shell_wait_lemma [of E p c tm ?m f w2] fin by blast
    obtain res err t w4 where fn: "shell_finish E s oF eF tm we w3 = (((res, err), t), w4)" "pshCounter t = pshCounter s"
      "exec_outcome E p c tm res err t"
      using shell_finish_outcome [OF alive, of we E p c tm oF eF w3] wt(2) by blast
    then show ?thesis using None g wr wt(1) by (simp add: shell_run_def)
  qed
qed

lemma shell_Exec_outcome:
  fixes s req
  defines "tm \<equiv> request_timeout req (shell_defaultTimeout (pshProvider s))"
  assumes rand: "\<And>w. length (fst (shRand8 E w)) = 8" and ok: "shell_ok s"
    and fin: "\<And>p u line u'. shEvent E p c tm u = (EvLine line, u') \<Longrightarrow> f u' < (f u :: nat)"
    and cmd: "trim_space (commandLine req) \<noteq> []"
  shows "\<exists>res err t w' p. shell_Exec E c req s w = Some (((res, err), t), w') \<and> exec_outcome E p c tm res err t \<and>
     (err = None \<longrightarrow> pshCounter t = i64 (pshCounter s + 1))"
proof -
  obtain err0 s1 w1 where st: "(if pshAlive s then ((None, s), w) else shell_start E s w) = ((err0, s1), w1)" by (metis prod.exhaust)
  have s1: "shell_ok s1 \<and> pshCounter s1 = pshCounter s \<and> pshProvider s1 = pshProvider s \<and> (err0 = None \<longleftrightarrow> pshAlive s1)"
  proof (cases "pshAlive s")
    case True
    with st ok show ?thesis by auto
  next
    case False
    then show ?thesis using start_ok [OF rand, of s w err0 s1 w1] st by simp
  qed
  show ?thesis
  proof (cases err0)
    case (Some e)
    then show ?thesis using cmd st s1 by (simp add: shell_Exec_def dead_outcome)
  next
    case None
    then have alive: "pshAlive s1" using s1 by simp
    then obtain p where p: "pshCmd s1 = Some p" using s1 by (auto simp: shell_ok_def)
    let ?s = "s1\<lparr>pshCounter := i64 (pshCounter s + 1)\<rparr>"
    have "pshAlive ?s" "shell_ok ?s" using s1 alive by (simp_all add: shell_ok_def)
    from shell_run_outcome [OF _ this, of E p c tm f req "shell_file CHR ''o'' ?s" "shell_file CHR ''e'' ?s" "shell_file CHR ''i'' ?s" w1] fin
    obtain res err t w' where "shell_run E c req p tm (shell_file CHR ''o'' ?s) (shell_file CHR ''e'' ?s) (shell_file CHR ''i'' ?s) ?s w1 =
        Some (((res, err), t), w')" "pshCounter t = pshCounter ?s" "exec_outcome E p c tm res err t" by blast
    then show ?thesis using None cmd st s1 p by (simp add: shell_Exec_def shell_command_def Let_def tm_def) blast
  qed
qed

text \<open>
  C21: \<open>Exec\<close> of the persistent shell returns -- the timer bounds the lines it reads --, and when it
  returns without an error, the shell is alive and the exit code is the one the shell printed for
  this very command, under its token and its number; after any error but the one of an empty command
  the shell is dead, and the next call starts a new one.
\<close>

theorem shell_reports_own_exit:
  fixes s req
  assumes "\<And>w. length (fst (shRand8 E w)) = 8" "shell_ok s" "trim_space (commandLine req) \<noteq> []"
    and "\<And>p u line u'. shEvent E p c (request_timeout req (shell_defaultTimeout (pshProvider s))) u = (EvLine line, u') \<Longrightarrow>
       f u' < (f u :: nat) \<and> (\<exists>tok n code. length tok = 8 \<and> in_i64 code \<and> line = answer_line (concat (map hex_byte tok)) n code)"
  shows "\<exists>res err t w'. shell_Exec E c req s w = Some (((res, err), t), w') \<and> shell_ok t \<and> (err \<noteq> None \<longrightarrow> \<not> pshAlive t) \<and>
     (err = None \<longrightarrow> pshAlive t \<and> pshCounter t = i64 (pshCounter s + 1) \<and>
        (\<exists>p u u'. shEvent E p c (request_timeout req (shell_defaultTimeout (pshProvider s))) u =
           (EvLine (answer_line (pshToken t) (pshCounter t) (xrExitCode res)), u')))"
proof -
  let ?tm = "request_timeout req (shell_defaultTimeout (pshProvider s))"
  obtain res err t w' p where r: "shell_Exec E c req s w = Some (((res, err), t), w')" "exec_outcome E p c ?tm res err t"
    "err = None \<longrightarrow> pshCounter t = i64 (pshCounter s + 1)"
    using shell_Exec_outcome [OF assms(1,2) _ assms(3), of c f] assms(4) by blast
  have "\<exists>u u'. shEvent E p c ?tm u = (EvLine (answer_line (pshToken t) (pshCounter t) (xrExitCode res)), u')" if "err = None"
  proof -
    let ?m = "marker_of (pshToken t) (pshCounter t)"
    from r(2) that obtain u u' line i where l: "shEvent E p c ?tm u = (EvLine line, u')" "strings_index line ?m = Some i"
      "xrExitCode res = parseExit (drop (i + length ?m) line)" and t: "pshAlive t" "shell_ok t"
      by (auto simp: exec_outcome_def)
    obtain tok where tok: "length tok = 8" "pshToken t = concat (map hex_byte tok)" using t by (auto simp: shell_ok_def)
    from assms(4) [OF l(1)] obtain tok' n code where a: "length tok' = 8" "in_i64 code" "line = answer_line (concat (map hex_byte tok')) n code" by blast
    have l2: "strings_index (answer_line (concat (map hex_byte tok')) n code) (marker_of (concat (map hex_byte tok)) (pshCounter t)) = Some i"
      using l(2) unfolding a(3) tok(2) .
    note found = answer_lemma [OF tok(1) a(1,2), of n "pshCounter t", unfolded l2 option.case]
    have "concat (map hex_byte tok') = pshToken t" "n = pshCounter t" using found unfolding tok(2) by blast+
    moreover have "xrExitCode res = code" by (rule trans [OF l(3) [unfolded a(3) tok(2)] found [THEN conjunct2, THEN conjunct2]])
    ultimately show ?thesis using l(1) unfolding a(3) by (intro exI [of _ u] exI [of _ u']) simp
  qed
  with r show ?thesis by (auto simp: exec_outcome_def)
qed

definition demo_shell_env :: "nat shell_env" where
  "demo_shell_env = \<lparr>shX = \<lparr>xeEnv = \<lparr>envNow = (\<lambda>w. (1, w)), envRand8 = (\<lambda>w. (None, w)), envCtxErr = (\<lambda>c w. (None, w)),
       envCancel = (\<lambda>c w. w), envPick = (\<lambda>n w. (0, w)), envTaskArgs = (\<lambda>args. Inr args)\<rparr>,
       xeRun = (\<lambda>c m w. (\<lparr>roStdout = [], roStderr = [], roErr = None\<rparr>, w)), xeDuration = (\<lambda>d. [])\<rparr>,
     shLookPath = (\<lambda>n w. None), shMkdirTemp = (\<lambda>w. (Inr ''/tmp/s'', w)), shRand8 = (\<lambda>w. (''abcdefgh'', w)),
     shSpawn = (\<lambda>prog d e w. (Inr 0, w)), shWrite = (\<lambda>p script w. (None, w)),
     shEvent = (\<lambda>p c t w. if w = 0 then (EvTimer, 0) else (EvLine (answer_line (concat (map hex_byte ''abcdefgh'')) 1 7), w - 1)),
     shKill = (\<lambda>p w. w), shReadFile = (\<lambda>f w. Some [''hi'']), shWriteFile = (\<lambda>f d w. (None, w)), shRemove = (\<lambda>f w. w),
     shRemoveAll = (\<lambda>d w. w)\<rparr>"

definition demo_shell :: shell where
  "demo_shell = \<lparr>pshProvider = \<lparr>spShell = ''sh'', spMaxOutputBytes = 0, spDefaultTimeout = 0\<rparr>, pshDir = [], pshEnv = [],
     pshCmd = None, pshTmpDir = [], pshToken = [], pshCounter = 0, pshAlive = False\<rparr>"

theorem shell_reports_own_exit_witness:
  "\<exists>res err t w'. shell_Exec demo_shell_env CtxBackground (tool_request \<lparr>caCommand = ''ls'', caStdin = []\<rparr>) demo_shell 3 =
     Some (((res, err), t), w') \<and> shell_ok t"
proof -
  have ev: "shEvent demo_shell_env p c tm u = (EvLine line, u') \<longleftrightarrow>
      u > 0 \<and> u' = u - 1 \<and> line = answer_line (concat (map hex_byte ''abcdefgh'')) 1 7" for p c tm u line u'
    by (auto simp: demo_shell_env_def)
  have tok: "length ''abcdefgh'' = 8" "in_i64 7" by (simp_all add: in_i64_def)
  have "trim_space ''ls'' = ''ls''" by code_simp
  then have cmd: "trim_space (commandLine (tool_request \<lparr>caCommand = ''ls'', caStdin = []\<rparr>)) \<noteq> []"
    by (simp add: commandLine_tool_request)
  have lines: "u' < u \<and> (\<exists>tok n code. length tok = 8 \<and> in_i64 code \<and> line = answer_line (concat (map hex_byte tok)) n code)"
    if "shEvent demo_shell_env p c tm u = (EvLine line, u')" for p c tm u line u'
    using that tok unfolding ev by (intro conjI exI [of _ "''abcdefgh''"] exI [of _ 1] exI [of _ 7]) simp_all
  have rand: "length (fst (shRand8 demo_shell_env w)) = 8" for w by (simp add: demo_shell_env_def)
  have ok: "shell_ok demo_shell" by (simp add: shell_ok_def demo_shell_def)
  show ?thesis using shell_reports_own_exit [where f = "\<lambda>u. u" and c = CtxBackground and w = 3, OF rand ok cmd] lines by blast
qed

text \<open>
  A shell that was killed keeps its process: \<open>Close\<close> after a timeout kills the process group of a
  process that may have been reaped already.
\<close>

lemma killed_shell_is_killed_again:
  assumes "pshCmd s = Some p" "pshAlive s" "killLocked E s w = (t, w')"
  shows "w' = shKill E p w \<and> snd (killLocked E t u) = shKill E p u"
  using assms by (auto simp: killLocked_def)

end
