(* ===== verification/Jev.thy ===== *)
theory Jev
  imports OpenAI Go_Retry
begin

text \<open>
  The client of the jev Decisions API (\<open>jev/jev.go\<close>, \<open>request.go\<close>, \<open>response.go\<close>): typed questions, a request
  with retries, and the typed reading of the answers. The network is that of the OpenAI client
  (\<open>http_env\<close>); the JSON codec of the requests and the answers is a parameter.
\<close>

section \<open>Questions and answers\<close>

abbreviation TypeNoul :: string where "TypeNoul \<equiv> ''noul''"
abbreviation TypeChoice :: string where "TypeChoice \<equiv> ''choice''"
abbreviation TypeScore :: string where "TypeScore \<equiv> ''score''"

record question =
  quType :: string
  quInstructions :: string
  quCriteria :: raw_message

text \<open>A map is the list of its entries; \<open>marshalMap\<close> and \<open>marshalList\<close> are \<open>json.Marshal\<close>.\<close>

definition jev_Noul :: "((string \<times> string) list \<Rightarrow> raw_message) \<Rightarrow> string \<Rightarrow> string \<Rightarrow> string \<Rightarrow> question" where
  "jev_Noul marshalMap instructions trueDesc falseDesc = \<lparr>quType = TypeNoul, quInstructions = instructions,
     quCriteria = marshalMap [(''true'', trueDesc), (''false'', falseDesc)]\<rparr>"

definition jev_Choice :: "((string \<times> string) list \<Rightarrow> raw_message) \<Rightarrow> string \<Rightarrow> (string \<times> string) list \<Rightarrow> question" where
  "jev_Choice marshalMap instructions criteria = \<lparr>quType = TypeChoice, quInstructions = instructions, quCriteria = marshalMap criteria\<rparr>"

definition jev_Score :: "(string list \<Rightarrow> raw_message) \<Rightarrow> string \<Rightarrow> string list \<Rightarrow> question" where
  "jev_Score marshalList instructions labels = \<lparr>quType = TypeScore, quInstructions = instructions, quCriteria = marshalList labels\<rparr>"

record decide_request =
  drModel :: string
  drState :: string
  drQuestions :: "(string \<times> question) list"

record jev_usage =
  juInputTokens :: int
  juOutputTokens :: int
  juCost :: rat

record jev_answer =
  jaType :: string
  jaNoul :: rat
  jaChoice :: string
  jaScore :: rat
  jaProbabilities :: "string \<rightharpoonup> rat"
  jaConfidence :: rat
  jaLegend :: "(string \<times> string) list"

record jev_response =
  jrModel :: string
  jrAnswers :: "string \<rightharpoonup> jev_answer"
  jrUsage :: jev_usage
  jrID :: string
  jrProvider :: string
  jrRaw :: raw_message

text \<open>The accessors; \<open>None\<close> is \<open>ok == false\<close>.\<close>

definition response_Noul :: "jev_response \<Rightarrow> string \<Rightarrow> rat option" where
  "response_Noul r name = (case jrAnswers r name of
       None \<Rightarrow> None
     | Some a \<Rightarrow> if jaType a \<noteq> TypeNoul then None else Some (jaNoul a))"

record choice_answer =
  caValue :: string
  caConfidence :: rat
  caProbabilities :: "string \<rightharpoonup> rat"

definition response_Choice :: "jev_response \<Rightarrow> string \<Rightarrow> choice_answer option" where
  "response_Choice r name = (case jrAnswers r name of
       None \<Rightarrow> None
     | Some a \<Rightarrow> if jaType a \<noteq> TypeChoice then None
         else Some \<lparr>caValue = jaChoice a, caConfidence = jaConfidence a, caProbabilities = jaProbabilities a\<rparr>)"

record score_answer =
  saValue :: rat
  saConfidence :: rat
  saProbabilities :: "string \<rightharpoonup> rat"
  saLegend :: "int \<rightharpoonup> string"

text \<open>The loop over the legend, in the order in which Go ranges over the map.\<close>

definition legend_entry :: "(int \<rightharpoonup> string) \<Rightarrow> string \<times> string \<Rightarrow> (int \<rightharpoonup> string)" where
  "legend_entry m kv = (case atoi (fst kv) of None \<Rightarrow> m | Some i \<Rightarrow> m(i \<mapsto> snd kv))"

definition legend_of :: "(string \<times> string) list \<Rightarrow> (int \<rightharpoonup> string)" where
  "legend_of entries = foldl legend_entry Map.empty entries"

definition response_Score :: "((string \<times> string) list \<Rightarrow> (string \<times> string) list) \<Rightarrow> jev_response \<Rightarrow> string \<Rightarrow> score_answer option" where
  "response_Score order r name = (case jrAnswers r name of
       None \<Rightarrow> None
     | Some a \<Rightarrow> if jaType a \<noteq> TypeScore then None
         else Some \<lparr>saValue = jaScore a, saConfidence = jaConfidence a, saProbabilities = jaProbabilities a,
           saLegend = legend_of (order (jaLegend a))\<rparr>)"

text \<open>\<open>math.Round\<close>: to the nearest integer, halves away from zero.\<close>

definition math_Round :: "rat \<Rightarrow> int" where
  "math_Round x = (if x < 0 then - \<lfloor>- x + 1 / 2\<rfloor> else \<lfloor>x + 1 / 2\<rfloor>)"

definition Label :: "score_answer \<Rightarrow> string" where
  "Label s = (case saLegend s (math_Round (saValue s)) of None \<Rightarrow> [] | Some l \<Rightarrow> l)"

section \<open>The client\<close>

record jev_client =
  jcBaseURL :: string
  jcAPIKey :: string
  jcModel :: string
  jcHeaders :: "(string \<times> string) list"
  jcMaxRetries :: int
  jcBackoff :: duration

type_synonym jev_option = "jev_client \<Rightarrow> jev_client"

definition jev_WithBaseURL :: "string \<Rightarrow> jev_option" where
  "jev_WithBaseURL u = (\<lambda>c. c\<lparr>jcBaseURL := rev (dropWhile (\<lambda>x. x = CHR ''/'') (rev u))\<rparr>)"

definition jev_WithAPIKey :: "string \<Rightarrow> jev_option" where "jev_WithAPIKey k = (\<lambda>c. c\<lparr>jcAPIKey := k\<rparr>)"

definition jev_WithModel :: "string \<Rightarrow> jev_option" where "jev_WithModel m = (\<lambda>c. c\<lparr>jcModel := m\<rparr>)"

definition jev_WithHeader :: "string \<Rightarrow> string \<Rightarrow> jev_option" where
  "jev_WithHeader k v = (\<lambda>c. c\<lparr>jcHeaders := AList.update k v (jcHeaders c)\<rparr>)"

definition jev_WithMaxRetries :: "int \<Rightarrow> jev_option" where "jev_WithMaxRetries n = (\<lambda>c. c\<lparr>jcMaxRetries := n\<rparr>)"

definition jev_New :: "jev_option list \<Rightarrow> jev_client" where
  "jev_New opts = foldl (\<lambda>c f. f c)
     \<lparr>jcBaseURL = [], jcAPIKey = [], jcModel = [], jcHeaders = [], jcMaxRetries = 2, jcBackoff = 300 * time_millisecond\<rparr> opts"

definition jev_endpoint :: "jev_client \<Rightarrow> string" where
  "jev_endpoint c = jcBaseURL c @ ''/decisions''"

text \<open>\<open>JevError\<close> is an error of the library or the program, \<open>JevAPIError\<close> is \<open>*APIError\<close>: status, message, body.\<close>

datatype jev_error = JevError goerr | JevAPIError int string string

fun jev_Error :: "jev_error \<Rightarrow> string" where
  "jev_Error (JevError e) = Error e"
| "jev_Error (JevAPIError status msg raw) = ''jev: http '' @ itoa status @ '': '' @ msg"

definition jev_parseAPIError :: "'w http_env \<Rightarrow> int \<Rightarrow> string \<Rightarrow> jev_error" where
  "jev_parseAPIError H status body =
     (let msg = fst (hxErrorEnvelope H body);
          msg = (if msg = [] then trim_space body else msg);
          msg = (if msg = [] then hxStatusText H status else msg)
      in JevAPIError status msg body)"

definition jev_setHeaders :: "jev_client \<Rightarrow> (string \<times> string) list \<Rightarrow> (string \<rightharpoonup> string) \<Rightarrow> (string \<rightharpoonup> string)" where
  "jev_setHeaders c headers h =
     (let h = header_set ''Content-Type'' ''application/json'' h;
          h = (if jcAPIKey c \<noteq> [] then header_set ''Authorization'' (''Bearer '' @ jcAPIKey c) h else h)
      in foldl (\<lambda>h (k, v). header_set k v h) h headers)"

section \<open>Requests with retries\<close>

text \<open>\<open>c.backoff * time.Duration(1<<(attempt-1))\<close>: both the shift and the product wrap around.\<close>

definition jev_wait :: "jev_client \<Rightarrow> nat \<Rightarrow> duration" where
  "jev_wait c attempt = i64 (jcBackoff c * i64 (2 ^ (attempt - 1)))"

datatype jev_attempt = JevDone "jev_error + string" | JevAgain jev_error

definition jev_one_attempt :: "'w http_env \<Rightarrow> jev_client \<Rightarrow> ctx \<Rightarrow> string \<Rightarrow> 'w \<Rightarrow> jev_attempt \<times> 'w" where
  "jev_one_attempt H c ctx body w = (case hxNewRequest H (jev_endpoint c) of
       Some err \<Rightarrow> (JevDone (Inl (JevError err)), w)
     | None \<Rightarrow> (case hxDo H ctx \<lparr>hqURL = jev_endpoint c, hqHeaders = jev_setHeaders c (hxRange H w (jcHeaders c)) Map.empty, hqBody = body\<rparr> w of
         (Inl err, w) \<Rightarrow> (JevAgain (JevError err), w)
       | (Inr resp, w) \<Rightarrow>
           if hrStatus resp div 100 = 2 then
             (case hrReadErr resp of
                Some err \<Rightarrow> (JevAgain (JevError (ErrWrap ''jev: read response body: '' err)), w)
              | None \<Rightarrow>
                  if \<not> hxJSONValid H (hrBody resp)
                  then (JevAgain (JevError (ErrText (''jev: invalid/empty JSON in 2xx response ('' @ itoa (int (length (hrBody resp))) @ '' bytes)''))), w)
                  else (JevDone (Inr (hrBody resp)), w))
           else (let apiErr = jev_parseAPIError H (hrStatus resp) (hrBody resp) in
             if hrStatus resp = 429 \<or> hrStatus resp \<ge> 500 then (JevAgain apiErr, w)
             else (JevDone (Inl apiErr), w))))"

text \<open>\<open>n\<close> attempts are left, \<open>attempt\<close> is the number of the next one.\<close>

fun jev_attempts ::
  "'w http_env \<Rightarrow> jev_client \<Rightarrow> ctx \<Rightarrow> string \<Rightarrow> nat \<Rightarrow> nat \<Rightarrow> jev_error option \<Rightarrow> 'w \<Rightarrow> (jev_error + string) \<times> 'w" where
  "jev_attempts H c ctx body 0 attempt lastErr w = (case lastErr of None \<Rightarrow> (Inr [], w) | Some err \<Rightarrow> (Inl err, w))"
| "jev_attempts H c ctx body (Suc n) attempt lastErr w =
     (case (if attempt > 0 then hxWait H ctx (jev_wait c attempt) w else (None, w)) of
        (Some err, w) \<Rightarrow> (Inl (JevError err), w)
      | (None, w) \<Rightarrow> (case jev_one_attempt H c ctx body w of
          (JevDone r, w) \<Rightarrow> (r, w)
        | (JevAgain err, w) \<Rightarrow> jev_attempts H c ctx body n (Suc attempt) (Some err) w))"

definition jev_do :: "'w http_env \<Rightarrow> jev_client \<Rightarrow> ctx \<Rightarrow> string \<Rightarrow> 'w \<Rightarrow> (jev_error + string) \<times> 'w" where
  "jev_do H c ctx body w =
     (if jcBaseURL c = [] then (Inl (JevError (ErrText ''jev: no base URL configured (use WithBaseURL)'')), w)
      else jev_attempts H c ctx body (nat (jcMaxRetries c + 1)) 0 None w)"

text \<open>The wire request and its codec; \<open>decode\<close> leaves \<open>Raw\<close> empty.\<close>

record 'w jev_env =
  jxHTTP :: "'w http_env"
  jxEncode :: "string \<Rightarrow> string \<Rightarrow> (string \<times> question) list \<Rightarrow> goerr + string"
  jxDecode :: "string \<Rightarrow> goerr + jev_response"

definition Decide :: "'w jev_env \<Rightarrow> jev_client \<Rightarrow> ctx \<Rightarrow> decide_request \<Rightarrow> 'w \<Rightarrow> (jev_error + jev_response) \<times> 'w" where
  "Decide J c ctx req w =
     (if drQuestions req = [] then (Inl (JevError (ErrText ''jev: request has no questions'')), w)
      else (case jxEncode J (firstNonEmpty (drModel req) (jcModel c)) (drState req) (drQuestions req) of
          Inl err \<Rightarrow> (Inl (JevError (ErrWrap ''jev: encode request: '' err)), w)
        | Inr body \<Rightarrow> (case jev_do (jxHTTP J) c ctx body w of
            (Inl err, w) \<Rightarrow> (Inl err, w)
          | (Inr raw, w) \<Rightarrow> (case jxDecode J raw of
              Inl err \<Rightarrow> (Inl (JevError (ErrWrap ''jev: decode response: '' err)), w)
            | Inr res \<Rightarrow> (Inr (res\<lparr>jrRaw := raw\<rparr>), w)))))"

end
