(* ===== verification/Jev_Props.thy ===== *)
theory Jev_Props
  imports Jev OpenAI_Props
begin

text \<open>What the jev client promises: the verdict of a sequence of answers, the waits, and the label of a score.\<close>

section \<open>Retries\<close>

definition jev_verdict :: "'w http_env \<Rightarrow> goerr + http_response \<Rightarrow> jev_error + (jev_error + string)" where
  "jev_verdict H r = (case r of
       Inl err \<Rightarrow> Inl (JevError err)
     | Inr resp \<Rightarrow>
         if hrStatus resp div 100 = 2 then
           (case hrReadErr resp of
              Some err \<Rightarrow> Inl (JevError (ErrWrap ''jev: read response body: '' err))
            | None \<Rightarrow> if hxJSONValid H (hrBody resp) then Inr (Inr (hrBody resp))
                else Inl (JevError (ErrText (''jev: invalid/empty JSON in 2xx response ('' @ itoa (int (length (hrBody resp))) @ '' bytes)''))))
         else if hrStatus resp = 429 \<or> hrStatus resp \<ge> 500 then Inl (jev_parseAPIError H (hrStatus resp) (hrBody resp))
         else Inr (Inl (jev_parseAPIError H (hrStatus resp) (hrBody resp))))"

definition jev_heard :: "'w http_env \<Rightarrow> jev_client \<Rightarrow> ('w \<Rightarrow> (goerr + http_response) list) \<Rightarrow> 'w \<Rightarrow> (goerr + http_response) list" where
  "jev_heard H c script w = (if scripted H script \<and> hxNewRequest H (jev_endpoint c) = None then script w else [])"

lemma jev_heard_Cons: "jev_heard H c script w = r # rs \<Longrightarrow> scripted H script \<and> hxNewRequest H (jev_endpoint c) = None \<and> script w = r # rs"
  by (simp add: jev_heard_def split: if_splits)

lemma jev_scripted_attempt:
  assumes "scripted H script" "hxNewRequest H (jev_endpoint c) = None" "script w = r # rs"
  shows "script (snd (jev_one_attempt H c ctx body w)) = rs \<and>
    (case jev_verdict H r of
       Inr res \<Rightarrow> fst (jev_one_attempt H c ctx body w) = JevDone res
     | Inl err \<Rightarrow> fst (jev_one_attempt H c ctx body w) = JevAgain err)"
proof -
  let ?q = "\<lparr>hqURL = jev_endpoint c, hqHeaders = jev_setHeaders c (hxRange H w (jcHeaders c)) Map.empty, hqBody = body\<rparr>"
  obtain w1 where d: "hxDo H ctx ?q w = (r, w1)" "script w1 = rs"
    using assms(1,3) unfolding scripted_def by (metis list.distinct(1) list.sel(1,3) prod.collapse)
  then show ?thesis using assms(2)
    by (cases r) (auto simp: jev_one_attempt_def jev_verdict_def Let_def split: option.splits)
qed

lemma jev_attempt_taken:
  assumes "jev_heard H c script w = r # rs"
  obtains w' where "jev_heard H c script w' = rs"
    "jev_attempts H c ctx body (Suc n) k lastErr w = (case jev_verdict H r of
       Inr res \<Rightarrow> (res, w') | Inl err \<Rightarrow> jev_attempts H c ctx body n (Suc k) (Some err) w')"
proof -
  note h = jev_heard_Cons [OF assms]
  obtain e w1 where w1: "(if k > 0 then hxWait H ctx (jev_wait c k) w else (None, w)) = (e, w1)" by fastforce
  have "e = None \<and> script w1 = r # rs"
    using w1 h unfolding scripted_def by (cases "k > 0") (auto, metis fst_conv snd_conv, metis snd_conv)
  then have s1: "e = None" "script w1 = r # rs" by simp_all
  obtain a w2 where a: "jev_one_attempt H c ctx body w1 = (a, w2)" by fastforce
  note att = jev_scripted_attempt [of H script c w1 r rs ctx body, unfolded a, simplified]
  show thesis
  proof (rule that)
    show "jev_heard H c script w2 = rs" using att h s1(2) by (simp add: jev_heard_def)
    show "jev_attempts H c ctx body (Suc n) k lastErr w = (case jev_verdict H r of
       Inr res \<Rightarrow> (res, w2) | Inl err \<Rightarrow> jev_attempts H c ctx body n (Suc k) (Some err) w2)"
      using att h s1 w1 a by (auto split: sum.split)
  qed
qed

interpretation jev: retry_loop "\<lambda>n k. jev_attempts H c ctx body n k" "jev_verdict H" "jev_heard H c script" "[]"
  for H c ctx body script
proof
  show "jev_attempts H c ctx body 0 k lastErr w = (case lastErr of None \<Rightarrow> Inr [] | Some err \<Rightarrow> Inl err, w)" for k lastErr w
    by (simp split: option.split)
  show "\<exists>w'. jev_attempts H c ctx body (Suc n) k lastErr w = (res, w') \<and> jev_heard H c script w' = rs"
    if h: "jev_heard H c script w = r # rs" and v: "jev_verdict H r = Inr res" for w r rs res n k lastErr
    by (rule jev_attempt_taken [OF h, of ctx body n k lastErr]) (use v in auto)
  show "\<exists>k' w'. jev_attempts H c ctx body (Suc n) k lastErr w = jev_attempts H c ctx body n k' (Some err) w' \<and>
      jev_heard H c script w' = rs"
    if h: "jev_heard H c script w = r # rs" and v: "jev_verdict H r = Inl err" for w r rs err n k lastErr
    by (rule jev_attempt_taken [OF h, of ctx body n k lastErr]) (use v in \<open>auto simp del: jev_attempts.simps\<close>)
qed

text \<open>
  Against a server that answers with a given sequence, and a context that is not cancelled,
  \<open>Decide\<close> decodes the first settling answer among the first \<open>MaxRetries + 1\<close>, or returns the error of
  the last of them; it uses no answer after that, and none when there are no questions, no base URL
  or no encoding.
\<close>

theorem Decide_settles:
  assumes "scripted (jxHTTP J) script" "hxNewRequest (jxHTTP J) (jev_endpoint c) = None"
    and "nat (jcMaxRetries c + 1) \<le> length (script w)"
  shows "(case Decide J c ctx req w of (out, w') \<Rightarrow>
      (case jxEncode J (firstNonEmpty (drModel req) (jcModel c)) (drState req) (drQuestions req) of
         Inr body \<Rightarrow>
           if drQuestions req \<noteq> [] \<and> jcBaseURL c \<noteq> [] then
             (case settle (jev_verdict (jxHTTP J)) (Inr []) (nat (jcMaxRetries c + 1)) (script w) of
                (Inl err, rest) \<Rightarrow> out = Inl err \<and> script w' = rest
              | (Inr raw, rest) \<Rightarrow> script w' = rest \<and> (case jxDecode J raw of
                    Inl err \<Rightarrow> out = Inl (JevError (ErrWrap ''jev: decode response: '' err))
                  | Inr res \<Rightarrow> out = Inr (res\<lparr>jrRaw := raw\<rparr>)))
           else isl out \<and> w' = w
       | Inl err \<Rightarrow> isl out \<and> w' = w))"
proof -
  have "jev_heard (jxHTTP J) c script = script" using assms(1,2) by (simp add: jev_heard_def fun_eq_iff)
  then have "(fst (jev_attempts (jxHTTP J) c ctx body (nat (jcMaxRetries c + 1)) 0 None w),
      script (snd (jev_attempts (jxHTTP J) c ctx body (nat (jcMaxRetries c + 1)) 0 None w))) =
     settle (jev_verdict (jxHTTP J)) (Inr []) (nat (jcMaxRetries c + 1)) (script w)" for body
    using jev.loop_settles [where H = "jxHTTP J" and c = c and script = script and n = "nat (jcMaxRetries c + 1)" and w = w
        and ctx = ctx and body = body and k = 0 and lastErr = None] assms(3) by simp
  then have s: "settle (jev_verdict (jxHTTP J)) (Inr []) (nat (jcMaxRetries c + 1)) (script w) =
      (fst (jev_do (jxHTTP J) c ctx body w), script (snd (jev_do (jxHTTP J) c ctx body w)))" if "jcBaseURL c \<noteq> []" for body
    using that by (simp add: jev_do_def)
  show ?thesis
  proof (cases "drQuestions req = [] \<or> jcBaseURL c = []")
    case True
    then show ?thesis by (auto simp: Decide_def jev_do_def split: sum.splits)
  next
    case False
    show ?thesis
    proof (cases "jxEncode J (firstNonEmpty (drModel req) (jcModel c)) (drState req) (drQuestions req)")
      case (Inl err)
      then show ?thesis using False by (simp add: Decide_def)
    next
      case (Inr body)
      obtain r w' where r: "jev_do (jxHTTP J) c ctx body w = (r, w')" by fastforce
      show ?thesis
      proof (cases r)
        case (Inl err)
        then show ?thesis using False Inr r s [of body] by (simp add: Decide_def)
      next
        case (Inr raw)
        then show ?thesis using False \<open>jxEncode J _ _ _ = Inr body\<close> r s [of body]
          by (cases "jxDecode J raw") (simp_all add: Decide_def)
      qed
    qed
  qed
qed

definition demo_jev_env :: "(goerr + http_response) list jev_env" where
  "demo_jev_env = \<lparr>jxHTTP = list_env, jxEncode = (\<lambda>m s q. Inr ''{}''), jxDecode = (\<lambda>s. Inr
     \<lparr>jrModel = ''jev'', jrAnswers = Map.empty, jrUsage = \<lparr>juInputTokens = 1, juOutputTokens = 1, juCost = 0\<rparr>, jrID = ''1'',
      jrProvider = [], jrRaw = []\<rparr>)\<rparr>"

definition demo_jev :: jev_client where
  "demo_jev = jev_New [jev_WithBaseURL ''https://x/'', jev_WithModel ''jev'']"

definition demo_decision :: decide_request where
  "demo_decision = \<lparr>drModel = [], drState = ''help'', drQuestions = [(''q'', jev_Score (\<lambda>l. ''[]'') ''How?'' [''Calm''])]\<rparr>"

theorem Decide_settles_witness:
  "\<exists>res. Decide demo_jev_env demo_jev CtxBackground demo_decision [answer 503 [], answer 200 ''{}'', answer 400 []] =
     (Inr res, [answer 400 []]) \<and> jrRaw res = ''{}''"
proof -
  let ?w = "[answer 503 [], answer 200 ''{}'', answer 400 []]"
  have H: "jxHTTP demo_jev_env = list_env" by (simp add: demo_jev_env_def)
  have c: "jcMaxRetries demo_jev = 2" "jcBaseURL demo_jev \<noteq> []"
    by (simp_all add: demo_jev_def jev_New_def jev_WithBaseURL_def jev_WithModel_def)
  have nr: "hxNewRequest (jxHTTP demo_jev_env) (jev_endpoint demo_jev) = None" by (simp add: H list_env_def env_of_def)
  have len: "nat (jcMaxRetries demo_jev + 1) \<le> length ?w" by (simp add: c)
  have st: "settle (jev_verdict list_env) (Inr []) 3 ?w = (Inr ''{}'', [answer 400 []])"
    by (simp add: numeral_eq_Suc answer_def jev_verdict_def list_env_def env_of_def)
  show ?thesis
    using Decide_settles [where J = demo_jev_env and script = "\<lambda>w. w" and c = demo_jev and w = ?w and ctx = CtxBackground and req = demo_decision, unfolded H, OF scripted_list_env nr [unfolded H] len]
      c st by (auto simp: demo_jev_env_def demo_decision_def split: prod.splits)
qed

section \<open>Waits\<close>

text \<open>The waits double from the backoff of the client on, as long as the product stays within 64 bits.\<close>

lemma jev_wait_doubles:
  assumes "0 \<le> jcBackoff c" "jcBackoff c < 2 ^ 29" "0 < k" "k \<le> 35"
  shows "jev_wait c k = jcBackoff c * 2 ^ (k - 1)"
proof -
  have p: "(2 :: int) ^ (k - 1) \<le> 2 ^ 34" using assms(3,4) by (intro power_increasing) auto
  have "in_i64 (2 ^ (k - 1))" unfolding in_i64_def using order_le_less_trans [OF p, of "2 ^ 63"] by (auto intro: order_trans [of _ 0])
  then have "i64 (2 ^ (k - 1)) = 2 ^ (k - 1)" by simp
  moreover have "jcBackoff c * 2 ^ (k - 1) \<le> (2 ^ 29 - 1) * 2 ^ 34" using p assms(1,2) by (intro mult_mono) auto
  then have "in_i64 (jcBackoff c * 2 ^ (k - 1))" using assms(1) by (auto simp: in_i64_def intro: order_trans [of _ 0])
  ultimately show ?thesis by (simp add: jev_wait_def)
qed

text \<open>From the 65th retry on the shift is 0, and there is no wait at all.\<close>

lemma jev_wait_vanishes: "65 \<le> k \<Longrightarrow> jev_wait c k = 0"
proof -
  assume "65 \<le> k"
  then have "64 \<le> k - 1" by simp
  then obtain d where d: "k - 1 = 64 + d" by (metis le_iff_add)
  have "i64 (2 ^ (64 + d)) = 0" proof -
    have "(2 ^ 63 + 2 ^ 64 * 2 ^ d) mod 2 ^ 64 = (2 ^ 63 :: int) mod 2 ^ 64" by (rule mod_mult_self2)
    then show ?thesis by (simp add: i64_def power_add add.commute)
  qed
  then show ?thesis unfolding jev_wait_def d by simp
qed

section \<open>Scores\<close>

lemma legend_of_snoc: "legend_of (es @ [e]) = legend_entry (legend_of es) e"
  by (simp add: legend_of_def)

lemma legend_of_Some:
  "\<forall>p \<in> set es. \<forall>q \<in> set es. atoi (fst p) = atoi (fst q) \<longrightarrow> snd p = snd q \<Longrightarrow>
     legend_of es i = Some l \<longleftrightarrow> (\<exists>k. (k, l) \<in> set es \<and> atoi k = Some i)"
proof (induction es arbitrary: l rule: rev_induct)
  case Nil
  then show ?case by (simp add: legend_of_def)
next
  case (snoc e es)
  obtain k' l' where e: "e = (k', l')" by fastforce
  have IH: "legend_of es i = Some l \<longleftrightarrow> (\<exists>k. (k, l) \<in> set es \<and> atoi k = Some i)" for l
  proof (rule snoc.IH, intro ballI impI)
    fix p q assume pq: "p \<in> set es" "q \<in> set es" "atoi (fst p) = atoi (fst q)"
    then have "p \<in> set (es @ [e])" "q \<in> set (es @ [e])" by simp_all
    from snoc.prems [rule_format, OF this pq(3)] show "snd p = snd q" .
  qed
  show ?case
  proof (cases "atoi k' = Some i")
    case True
    have "l = l'" if "(k, l) \<in> set es" "atoi k = Some i" for k l
    proof -
      have "(k, l) \<in> set (es @ [e])" "(k', l') \<in> set (es @ [e])" using that(1) e by simp_all
      from snoc.prems [rule_format, OF this, unfolded fst_conv snd_conv] show ?thesis using True that(2) by metis
    qed
    moreover have "legend_of (es @ [e]) i = Some l'" using True by (simp add: legend_of_snoc legend_entry_def e)
    ultimately show ?thesis using True e by (metis Un_iff list.set_intros(1) option.inject set_ConsD set_append empty_iff empty_set prod.inject)
  next
    case False
    then have "legend_of (es @ [e]) i = legend_of es i"
      by (simp add: legend_of_snoc legend_entry_def e split: option.split)
    with IH [of l] False show ?thesis by (auto simp: e)
  qed
qed

lemma math_Round_near: "\<bar>x - of_int (math_Round x)\<bar> \<le> 1 / 2"
proof -
  have "\<bar>y - of_int \<lfloor>y + 1 / 2\<rfloor>\<bar> \<le> 1 / 2" for y :: rat
    using floor_correct [of "y + 1 / 2"] by linarith
  note near = this [of x] this [of "- x"]
  have "\<bar>- x - of_int \<lfloor>- x + 1 / 2\<rfloor>\<bar> = \<bar>x - of_int (- \<lfloor>- x + 1 / 2\<rfloor>)\<bar>"
    using abs_minus_cancel [of "x + of_int \<lfloor>- x + 1 / 2\<rfloor>"] by simp
  then show ?thesis using near unfolding math_Round_def by (cases "x < 0") (simp_all only: if_True if_False)
qed

definition scale :: "string list \<Rightarrow> (string \<times> string) list" where
  "scale labels = map (\<lambda>i. (itoa (int i), labels ! i)) [0..<length labels]"

lemma scale_legend:
  assumes "int (length labels) < 2 ^ 63" "set es = set (scale labels)"
  shows "legend_of es i = (if 0 \<le> i \<and> i < int (length labels) then Some (labels ! nat i) else None)"
proof -
  have a: "atoi (itoa (int n)) = Some (int n)" if "n < length labels" for n
    using that assms(1) by (intro atoi_itoa) (simp add: in_i64_def)
  have mem: "(k, l) \<in> set es \<longleftrightarrow> (\<exists>n < length labels. k = itoa (int n) \<and> l = labels ! n)" for k l
    by (auto simp: assms(2) scale_def)
  have uniq: "\<forall>p \<in> set es. \<forall>q \<in> set es. atoi (fst p) = atoi (fst q) \<longrightarrow> snd p = snd q"
    by (auto simp: mem a)
  have "legend_of es i = Some l \<longleftrightarrow> (\<exists>n < length labels. i = int n \<and> l = labels ! n)" for l
    by (auto simp: legend_of_Some [OF uniq] mem a)
  note eq = this
  show ?thesis
  proof (cases "0 \<le> i \<and> i < int (length labels)")
    case True
    then have "legend_of es i = Some (labels ! nat i)" by (subst eq) (auto intro!: exI [of _ "nat i"])
    with True show ?thesis by simp
  next
    case False
    have "legend_of es i \<noteq> Some a" for a
    proof
      assume "legend_of es i = Some a"
      then obtain n where "n < length labels" "i = int n" using eq [THEN iffD1] by blast
      with False show False by simp
    qed
    then have "legend_of es i = None" by (metis option.exhaust)
    with False show ?thesis by simp
  qed
qed

text \<open>
  The label of a score is the label of the scale at the index nearest to the value, in whatever order
  the map of the legend is ranged over, and empty when the nearest index lies outside of the scale.
\<close>

theorem label_is_nearest:
  assumes "jrAnswers r name = Some a" "jaType a = TypeScore" "jaLegend a = scale labels" "int (length labels) < 2 ^ 63"
    and "\<And>l. set (order l) = set l"
  shows "\<exists>s i. response_Score order r name = Some s \<and> \<bar>jaScore a - of_int i\<bar> \<le> 1 / 2 \<and>
     Label s = (if 0 \<le> i \<and> i < int (length labels) then labels ! nat i else [])"
proof -
  have "legend_of (order (jaLegend a)) = (\<lambda>i. if 0 \<le> i \<and> i < int (length labels) then Some (labels ! nat i) else None)"
    using scale_legend [OF assms(4), of "order (jaLegend a)"] assms(3,5) by auto
  then show ?thesis using assms(1,2) math_Round_near [of "jaScore a"]
    by (intro exI conjI) (auto simp: response_Score_def Label_def)
qed

definition demo_answer_score :: jev_answer where
  "demo_answer_score = \<lparr>jaType = TypeScore, jaNoul = 0, jaChoice = [], jaScore = 3 / 2, jaProbabilities = Map.empty, jaConfidence = 1,
     jaLegend = scale [''Calm'', ''Cross'', ''Angry'']\<rparr>"

theorem label_is_nearest_witness:
  "\<exists>s i. response_Score rev \<lparr>jrModel = [], jrAnswers = [''f'' \<mapsto> demo_answer_score], jrUsage = \<lparr>juInputTokens = 0, juOutputTokens = 0,
       juCost = 0\<rparr>, jrID = [], jrProvider = [], jrRaw = []\<rparr> ''f'' = Some s \<and> \<bar>3 / 2 - of_int i :: rat\<bar> \<le> 1 / 2 \<and>
     Label s = (if 0 \<le> i \<and> i < 3 then [''Calm'', ''Cross'', ''Angry''] ! nat i else [])"
  using label_is_nearest [of _ "''f''" demo_answer_score "[''Calm'', ''Cross'', ''Angry'']" rev]
  by (simp add: demo_answer_score_def)

end
