(* ===== verification/Telemetry.thy ===== *)
theory Telemetry
  imports Run_Trace
begin

text \<open>
  \<open>otel/otel.go\<close>: the export of a finished trace to OpenTelemetry. The tracer is a parameter: its
  \<open>Start\<close> yields the context of the children and a span, which then takes a status and an end.
  \<open>memory_tracer\<close> is the tracer of an exporter that keeps its spans in memory; what it holds after
  an export is the tree of the run.
\<close>

section \<open>The tracer\<close>

datatype otel_value = OtString string | OtInt int | OtFloat rat

record ('w, 'c, 's) tracer =
  trcStart :: "'c \<Rightarrow> string \<Rightarrow> gotime \<Rightarrow> (string \<times> otel_value) list \<Rightarrow> 'w \<Rightarrow> ('c \<times> 's) \<times> 'w"
  trcSetError :: "'s \<Rightarrow> string \<Rightarrow> 'w \<Rightarrow> 'w"     \<comment> \<open>\<open>SetStatus(codes.Error, description)\<close>\<close>
  trcEnd :: "'s \<Rightarrow> gotime \<Rightarrow> 'w \<Rightarrow> 'w"

section \<open>The export\<close>

definition spanName :: "span \<Rightarrow> string" where
  "spanName sp = (if spName sp \<noteq> [] then spName sp else spKind sp)"

definition span_attrs :: "span \<Rightarrow> (string \<times> otel_value) list" where
  "span_attrs sp = (let u = spUsage sp in
     [(''rimeno.kind'', OtString (spKind sp))]
     @ (if spModel sp \<noteq> [] then [(''rimeno.model'', OtString (spModel sp))] else [])
     @ (if spTool sp \<noteq> [] then [(''rimeno.tool'', OtString (spTool sp))] else [])
     @ (if spStopReason sp \<noteq> [] then [(''rimeno.stop_reason'', OtString (spStopReason sp))] else [])
     @ (if InputTokens u > 0 \<or> OutputTokens u > 0 \<or> TotalTokens u > 0
        then [(''rimeno.usage.input_tokens'', OtInt (InputTokens u)),
              (''rimeno.usage.output_tokens'', OtInt (OutputTokens u)),
              (''rimeno.usage.total_tokens'', OtInt (TotalTokens u))] else [])
     @ (if CostUSD u > 0 then [(''rimeno.usage.cost_usd'', OtFloat (CostUSD u))] else []))"

text \<open>The status and the end of a span, after its children.\<close>

definition otel_close :: "('w, 'c, 's) tracer \<Rightarrow> 's \<Rightarrow> span \<Rightarrow> 'w \<Rightarrow> 'w" where
  "otel_close T os sp w =
     trcEnd T os (if time_is_zero (spEnd sp) then spStart sp else spEnd sp)
       (if spError sp \<noteq> [] then trcSetError T os (spError sp) w else w)"

fun exportSpan :: "('w, 'c, 's) tracer \<Rightarrow> 'c \<Rightarrow> span_tree \<Rightarrow> 'w \<Rightarrow> nat \<times> 'w" where
  "exportSpan T c (SpanNode sp cs) w =
     (case trcStart T c (spanName sp) (spStart sp) (span_attrs sp) w of ((child, os), w) \<Rightarrow>
        (case foldl (\<lambda>x t. case exportSpan T child t (snd x) of (k, w) \<Rightarrow> (fst x + k, w)) (1, w) cs of (cnt, w) \<Rightarrow>
           (cnt, otel_close T os sp w)))"

text \<open>\<open>None\<close> is a nil trace, or one with a nil root.\<close>

definition Export :: "('w, 'c, 's) tracer \<Rightarrow> 'c \<Rightarrow> span_tree option \<Rightarrow> 'w \<Rightarrow> nat \<times> 'w" where
  "Export T c tr w = (case tr of None \<Rightarrow> (0, w) | Some rt \<Rightarrow> exportSpan T c rt w)"

section \<open>Spans kept in memory\<close>

text \<open>
  A context is the active span, if there is one; a span is the index of its record.
\<close>

record otel_span =
  osParent :: "nat option"
  osName :: string
  osStart :: gotime
  osAttrs :: "(string \<times> otel_value) list"
  osError :: "string option"
  osEnd :: "gotime option"

definition memory_tracer :: "(otel_span list, nat option, nat) tracer" where
  "memory_tracer = \<lparr>
     trcStart = (\<lambda>c name t attrs w. ((Some (length w), length w),
        w @ [\<lparr>osParent = c, osName = name, osStart = t, osAttrs = attrs, osError = None, osEnd = None\<rparr>])),
     trcSetError = (\<lambda>i msg w. w[i := (w ! i)\<lparr>osError := Some msg\<rparr>]),
     trcEnd = (\<lambda>i t w. w[i := (w ! i)\<lparr>osEnd := Some t\<rparr>])\<rparr>"

definition otel_span_of :: "nat option \<Rightarrow> span \<Rightarrow> otel_span" where
  "otel_span_of parent sp = \<lparr>osParent = parent, osName = spanName sp, osStart = spStart sp,
     osAttrs = span_attrs sp, osError = (if spError sp \<noteq> [] then Some (spError sp) else None),
     osEnd = Some (if time_is_zero (spEnd sp) then spStart sp else spEnd sp)\<rparr>"

text \<open>The records of a tree, the first of them at index \<open>k\<close>.\<close>

fun otel_records :: "nat option \<Rightarrow> nat \<Rightarrow> span_tree \<Rightarrow> otel_span list"
  and otel_records_list :: "nat option \<Rightarrow> nat \<Rightarrow> span_tree list \<Rightarrow> otel_span list" where
  "otel_records parent k (SpanNode sp cs) = otel_span_of parent sp # otel_records_list (Some k) (Suc k) cs"
| "otel_records_list parent k [] = []"
| "otel_records_list parent k (t # ts) = (let xs = otel_records parent k t in
     xs @ otel_records_list parent (k + length xs) ts)"

lemma memory_tracer_start [simp]:
  "trcStart memory_tracer c name t attrs w = ((Some (length w), length w),
     w @ [\<lparr>osParent = c, osName = name, osStart = t, osAttrs = attrs, osError = None, osEnd = None\<rparr>])"
  by (simp add: memory_tracer_def)

lemma otel_close_memory [simp]:
  "otel_close memory_tracer (length w) sp (w @ \<lparr>osParent = c, osName = spanName sp, osStart = spStart sp,
     osAttrs = span_attrs sp, osError = None, osEnd = None\<rparr> # ws) = w @ otel_span_of c sp # ws"
  by (simp add: memory_tracer_def otel_close_def otel_span_of_def list_update_append nth_append)

lemma exportSpan_memory_at:
  "length w = k \<Longrightarrow> exportSpan memory_tracer parent t w
     = (length (otel_records parent k t), w @ otel_records parent k t)"
  "length w = k \<Longrightarrow> foldl (\<lambda>x t. case exportSpan memory_tracer parent t (snd x) of (k, w) \<Rightarrow> (fst x + k, w)) (n, w) ts
     = (n + length (otel_records_list parent k ts), w @ otel_records_list parent k ts)"
proof (induction parent k t and parent k ts arbitrary: w and n w rule: otel_records_otel_records_list.induct)
  case (1 parent k sp cs)
  then show ?case
    by auto
next
  case (3 parent k t ts)
  then show ?case by (simp add: Let_def)
qed simp

lemmas exportSpan_memory = exportSpan_memory_at(1) [OF refl]

section \<open>What is kept is the tree of the run\<close>

definition kids :: "span list \<Rightarrow> addr \<Rightarrow> addr list" where
  "kids h a = filter (\<lambda>c. a < c \<and> c < length h) (spChildren (h ! a))"

definition pos :: "'a list \<Rightarrow> 'a \<Rightarrow> nat" where
  "pos xs x = length (takeWhile (\<lambda>y. y \<noteq> x) xs)"

lemma pos_simps [simp]:
  "pos (x # xs) x = 0"
  "y \<noteq> x \<Longrightarrow> pos (x # xs) y = Suc (pos xs y)"
  "x \<in> set xs \<Longrightarrow> pos (xs @ ys) x = pos xs x"
  "x \<notin> set xs \<Longrightarrow> pos (xs @ ys) x = length xs + pos ys x"
  by (auto simp: pos_def takeWhile_append)

lemma pos_less [simp]: "x \<in> set xs \<Longrightarrow> pos xs x < length xs"
  unfolding pos_def by (induction xs) auto

lemma nth_pos [simp]: "x \<in> set xs \<Longrightarrow> xs ! pos xs x = x"
  unfolding pos_def by (induction xs) auto

lemma bij_pos: "distinct xs \<Longrightarrow> bij_betw (\<lambda>x. k + pos xs x) (set xs) {k..<k + length xs}"
proof (rule bij_betw_imageI)
  show "inj_on (\<lambda>x. k + pos xs x) (set xs)"
    by (rule inj_onI) (metis add_left_cancel nth_pos)
  assume "distinct xs"
  then have "card ((\<lambda>x. k + pos xs x) ` set xs) = length xs"
    using \<open>inj_on _ _\<close> by (simp add: card_image distinct_card)
  then show "(\<lambda>x. k + pos xs x) ` set xs = {k..<k + length xs}"
    by (intro card_subset_eq) auto
qed

text \<open>
  The records of the spans at the addresses \<open>A\<close>, in this order, each with the name, times,
  attributes and status of its span, and the record of a child below that of its parent.
\<close>

definition mirrored_at :: "span list \<Rightarrow> nat \<Rightarrow> addr list \<Rightarrow> otel_span list \<Rightarrow> bool" where
  "mirrored_at h k A R \<longleftrightarrow> length R = length A \<and>
     (\<forall>x\<in>set A. R ! pos A x = otel_span_of (osParent (R ! pos A x)) (h ! x)) \<and>
     (\<forall>x\<in>set A. \<forall>c\<in>set (kids h x). c \<in> set A \<and> osParent (R ! pos A c) = Some (k + pos A x))"

lemma mirrored_at_append:
  assumes "mirrored_at h k A R" "mirrored_at h (k + length A) B S" "set A \<inter> set B = {}"
  shows "mirrored_at h k (A @ B) (R @ S)"
proof -
  have l: "length R = length A" "length S = length B" using assms(1,2) by (simp_all add: mirrored_at_def)
  have A: "(R @ S) ! pos (A @ B) x = R ! pos A x" if "x \<in> set A" for x
    using that by (simp add: nth_append l)
  have B: "(R @ S) ! pos (A @ B) x = S ! pos B x \<and> pos (A @ B) x = length A + pos B x" if "x \<in> set B" for x
  proof -
    have "x \<notin> set A" using that assms(3) by blast
    then show ?thesis by (simp add: nth_append l)
  qed
  have "(R @ S) ! pos (A @ B) x = otel_span_of (osParent ((R @ S) ! pos (A @ B) x)) (h ! x)"
    if "x \<in> set A \<union> set B" for x
    using that assms(1,2) A conjunct1 [OF B [of x]] unfolding mirrored_at_def by auto
  moreover have "c \<in> set A \<union> set B \<and> osParent ((R @ S) ! pos (A @ B) c) = Some (k + pos (A @ B) x)"
    if "x \<in> set A \<union> set B" "c \<in> set (kids h x)" for x c
    using that assms(1,2) A [of c] conjunct1 [OF B [of c]] B [of x]
    unfolding mirrored_at_def by (auto simp: add.assoc)
  ultimately show ?thesis using l unfolding mirrored_at_def by simp
qed

lemma otel_records_head [simp]: "osParent (otel_records parent k t ! 0) = parent" "otel_records parent k t \<noteq> []"
  by (cases t; simp add: otel_span_of_def)+

lemma pos_preorder [simp]: "pos (preorder_addrs h a) a = 0" "a \<in> set (preorder_addrs h a)"
  by (simp_all add: preorder_addrs.simps [of h a])

lemma mirrored_at_tree:
  "distinct (preorder_addrs h a) \<Longrightarrow> mirrored_at h k (preorder_addrs h a) (otel_records parent k (span_tree_of h a))"
proof (induction h a arbitrary: parent k rule: preorder_addrs.induct)
  case (1 h a)
  let ?P = "\<lambda>cs. concat (map (preorder_addrs h) cs)"
  let ?R = "\<lambda>k cs. otel_records_list (Some k) (Suc k) cs"
  have sub: "mirrored_at h j (?P cs) (otel_records_list p j (map (span_tree_of h) cs)) \<and>
      (\<forall>c\<in>set cs. c \<in> set (?P cs) \<and> osParent (otel_records_list p j (map (span_tree_of h) cs) ! pos (?P cs) c) = p)"
    if "set cs \<subseteq> set (kids h a)" "distinct (?P cs)" for cs p j
    using that
  proof (induction cs arbitrary: j)
    case Nil
    then show ?case by (simp add: mirrored_at_def)
  next
    case (Cons c cs)
    let ?A = "preorder_addrs h c" and ?S = "otel_records p j (span_tree_of h c)"
    have m: "mirrored_at h j ?A ?S" using "1.IH" [of c j p] Cons.prems by (simp add: kids_def)
    then have l: "length ?S = length ?A" by (simp add: mirrored_at_def)
    let ?T = "otel_records_list p (j + length ?A) (map (span_tree_of h) cs)"
    have t: "mirrored_at h (j + length ?A) (?P cs) ?T"
      "\<forall>c\<in>set cs. c \<in> set (?P cs) \<and> osParent (?T ! pos (?P cs) c) = p"
      using Cons.IH [of "j + length ?A"] Cons.prems by auto
    have d: "set ?A \<inter> set (?P cs) = {}" using Cons.prems by simp
    have "osParent ((?S @ ?T) ! pos (?A @ ?P cs) e) = p" if "e \<in> set (c # cs)" for e
    proof (cases "e = c")
      case True
      then show ?thesis by (simp add: nth_append)
    next
      case False
      then have e: "e \<in> set (?P cs)" "osParent (?T ! pos (?P cs) e) = p" using that t(2) by auto
      then have "pos (?A @ ?P cs) e = length ?A + pos (?P cs) e" using d by (subst pos_simps(4)) auto
      then show ?thesis using e(2) by (simp add: nth_append l)
    qed
    then show ?case using mirrored_at_append [OF m t(1) d] t(2) by (auto simp: Let_def l)
  qed
  have p: "preorder_addrs h a = a # ?P (kids h a)"
    by (simp add: preorder_addrs.simps [of h a] kids_def)
  have d: "distinct (?P (kids h a))" "a \<notin> set (?P (kids h a))" using "1.prems" by (simp_all add: p)
  have r: "otel_records parent k (span_tree_of h a)
      = otel_span_of parent (h ! a) # ?R k (map (span_tree_of h) (kids h a))"
    by (simp add: span_tree_of.simps [of h a] kids_def)
  note s = sub [OF subset_refl d(1), of "Suc k" "Some k"]
  have ne: "x \<noteq> a" if "x \<in> set (?P (kids h a))" for x using that d(2) by metis
  show ?case
    unfolding p r using s ne by (fastforce simp: mirrored_at_def otel_span_of_def)
qed

definition mirrored :: "span list \<Rightarrow> addr \<Rightarrow> nat option \<Rightarrow> otel_span list \<Rightarrow> otel_span list \<Rightarrow> bool" where
  "mirrored h r parent w w' \<longleftrightarrow> take (length w) w' = w \<and>
     (\<exists>f. bij_betw f {r..<length h} {length w..<length w'} \<and> f r = length w \<and> osParent (w' ! f r) = parent \<and>
       (\<forall>x\<in>{r..<length h}. w' ! f x = otel_span_of (osParent (w' ! f x)) (h ! x)) \<and>
       (\<forall>x\<in>{r..<length h}. \<forall>c\<in>set (spChildren (h ! x)). osParent (w' ! f c) = Some (f x)))"

lemma Export_run_tree:
  assumes t: "run_tree r h0 h"
  shows "case Export memory_tracer parent (Some (span_tree_of h r)) w of (n, w') \<Rightarrow>
    n = length h - r \<and> mirrored h r parent w w'"
proof -
  let ?A = "preorder_addrs h r" and ?R = "otel_records parent (length w) (span_tree_of h r)"
  let ?f = "\<lambda>x. length w + pos ?A x"
  have m: "mset ?A = mset [r..<length h]" by (rule run_tree_preorder [OF t])
  then have A: "set ?A = {r..<length h}" "length ?A = length h - r" "distinct ?A"
    using mset_eq_setD [OF m] mset_eq_length [OF m] mset_eq_imp_distinct_iff [OF m] by simp_all
  have R: "mirrored_at h (length w) ?A ?R" by (rule mirrored_at_tree [OF A(3)])
  then have l: "length ?R = length h - r" by (simp add: mirrored_at_def A(2))
  have kids: "set (kids h x) = set (spChildren (h ! x))" if "x \<in> {r..<length h}" for x
    using that run_treeD(5) [OF t, of x] by (auto simp: kids_def)
  have n: "(w @ ?R) ! ?f x = ?R ! pos ?A x" for x by (simp add: nth_append)
  have "bij_betw ?f {r..<length h} {length w..<length (w @ ?R)}"
    using bij_pos [OF A(3), of "length w"] A(1,2) l by simp
  moreover have "(w @ ?R) ! ?f x = otel_span_of (osParent ((w @ ?R) ! ?f x)) (h ! x)" if "x \<in> {r..<length h}" for x
    using R that unfolding mirrored_at_def n A(1) by blast
  moreover have "osParent ((w @ ?R) ! ?f c) = Some (?f x)"
    if "x \<in> {r..<length h}" "c \<in> set (spChildren (h ! x))" for x c
    using R that(2) kids [OF that(1)] that(1) unfolding mirrored_at_def n A(1) by blast
  ultimately have "mirrored h r parent w (w @ ?R)"
    unfolding mirrored_def by (intro conjI exI [of _ ?f]) (simp_all add: nth_append)
  then show ?thesis by (simp add: Export_def exportSpan_memory l)
qed

text \<open>
  C24: The export of the trace of any run to an exporter that keeps its spans adds, behind what was
  exported before, exactly one span for each span of the run and of its subagents, and returns their
  number: name, start, attributes and status are those of the span, the end is its end or, where
  that is not set, its start; the root is below the active span and every other below the span of
  its parent; all of them are ended.
\<close>

theorem export_mirrors_run:
  assumes "built E a"
  shows "case run_state (runWith E a s c m b) st of (((res, err), s'), t) \<Rightarrow>
    (case Export memory_tracer parent (Some (span_tree_of (stHeap t) (resTrace res))) w of (n, w') \<Rightarrow>
       n = length (stHeap t) - length (stHeap st) \<and> mirrored (stHeap t) (length (stHeap st)) parent w w')"
proof -
  obtain res err s' t where q: "run_state (runWith E a s c m b) st = (((res, err), s'), t)"
    by (metis prod.collapse)
  have "traced_run (res, err) st t"
    using postD [OF post_runWith_tree [OF built_traced [OF assms]] q] by simp
  then have "resTrace res = length (stHeap st)" "run_tree (length (stHeap st)) (stHeap st) (stHeap t)"
    by (simp_all add: traced_run_def)
  then show ?thesis using q Export_run_tree [of "length (stHeap st)"] by simp
qed

theorem export_mirrors_run_witness:
  "case run_state (runWith demo_env nested_agent (NewSession nested_agent) CtxBackground (UserMessage ''hi'')
       demo_budget) demo_st of (((res, err), s'), t) \<Rightarrow>
     (case Export memory_tracer None (Some (span_tree_of (stHeap t) (resTrace res))) [] of (n, w') \<Rightarrow>
       n = length (stHeap t) \<and> mirrored (stHeap t) 0 None [] w')"
  using export_mirrors_run [OF built_nested, where s = "NewSession nested_agent" and c = CtxBackground
      and m = "UserMessage ''hi''" and b = demo_budget and st = demo_st and parent = None and w = "[]"]
  by (simp add: demo_st_def)

end
