(* ===== verification/Event_Log.thy ===== *)
theory Event_Log
  imports Go_Runtime
begin

text \<open>
  \<open>events_slog.go\<close>: the handler that logs the events of a run. A logger is a function on the world
  that takes a record; \<open>SlogSink\<close> is a handler of the shape of \<open>Config.OnEvent\<close>.
\<close>

datatype log_level = LevelDebug | LevelInfo | LevelWarn | LevelError

datatype log_value = LogStr string | LogInt int | LogFloat rat | LogErr "goerr option"

record log_record =
  lgLevel :: log_level
  lgMsg :: string
  lgAttrs :: "(string \<times> log_value) list"

type_synonym 'w logger = "log_record \<Rightarrow> 'w \<Rightarrow> 'w"

definition log_of :: "log_level \<Rightarrow> string \<Rightarrow> event_base \<Rightarrow> (string \<times> log_value) list \<Rightarrow> log_record option" where
  "log_of level msg b attrs = Some \<lparr>lgLevel = level, lgMsg = msg, lgAttrs = (''agent'', LogStr (ebAgent b)) # attrs\<rparr>"

text \<open>The cases of the type switch; the deltas and the end of a compaction have none.\<close>

fun slog_record :: "event \<Rightarrow> log_record option" where
  "slog_record (RunStartedEvent b) = log_of LevelDebug ''rimeno.run_started'' b []"
| "slog_record (StepStartedEvent b n) = log_of LevelDebug ''rimeno.step'' b [(''step'', LogInt (int n))]"
| "slog_record (ModelResponseEvent b u stop txt) = log_of LevelInfo ''rimeno.model_response'' b
     [(''tokens'', LogInt (TotalTokens u)), (''stop'', LogStr stop)]"
| "slog_record (UsageUpdatedEvent b u) = log_of LevelDebug ''rimeno.usage'' b
     [(''total_tokens'', LogInt (TotalTokens u)), (''cost_usd'', LogFloat (CostUSD u))]"
| "slog_record (ToolCallStartedEvent b c) = log_of LevelInfo ''rimeno.tool_call'' b [(''tool'', LogStr (tcName c))]"
| "slog_record (ToolCallFinishedEvent b c r err) =
     (if err \<noteq> None
      then log_of LevelWarn ''rimeno.tool_error'' b [(''tool'', LogStr (tcName c)), (''err'', LogErr err)]
      else log_of LevelDebug ''rimeno.tool_done'' b [(''tool'', LogStr (tcName c))])"
| "slog_record (SubAgentStartedEvent b name) = log_of LevelInfo ''rimeno.subagent_started'' b [(''name'', LogStr name)]"
| "slog_record (SubAgentFinishedEvent b name u) = log_of LevelInfo ''rimeno.subagent_finished'' b
     [(''name'', LogStr name), (''tokens'', LogInt (TotalTokens u))]"
| "slog_record (CompactionStartedEvent b n est) = log_of LevelInfo ''rimeno.compaction'' b
     [(''messages'', LogInt (int n)), (''est_tokens'', LogInt est)]"
| "slog_record (RunFinishedEvent b r) = log_of LevelInfo ''rimeno.run_finished'' b []"
| "slog_record (ErrorEvent b e) = log_of LevelError ''rimeno.error'' b [(''err'', LogErr (Some e))]"
| "slog_record (CompactionFinishedEvent b n) = None"
| "slog_record (TextDeltaEvent b d) = None"
| "slog_record (ReasoningDeltaEvent b d) = None"

text \<open>A nil logger is replaced by \<open>slog.Default\<close>.\<close>

definition SlogSink :: "'w logger \<Rightarrow> 'w logger option \<Rightarrow> 'w handler" where
  "SlogSink dflt logger = (let log = (case logger of None \<Rightarrow> dflt | Some l \<Rightarrow> l) in
     Some (\<lambda>e w. case slog_record e of None \<Rightarrow> w | Some r \<Rightarrow> log r w))"

section \<open>What is logged\<close>

lemma slog_silent_iff:
  "slog_record e = None \<longleftrightarrow> EventKind e \<in> {''text_delta'', ''reasoning_delta'', ''compaction_finished''}"
  by (cases e) (simp_all add: log_of_def)

lemma slog_severe_iff:
  "(\<exists>r. slog_record e = Some r \<and> lgLevel r \<in> {LevelWarn, LevelError}) \<longleftrightarrow>
     (\<exists>b err. e = ErrorEvent b err) \<or> (\<exists>b c r err. e = ToolCallFinishedEvent b c r (Some err))"
  by (cases e) (auto simp: log_of_def split: if_splits)

end
