(* ===== verification/Schema_Encoding.thy ===== *)
theory Schema_Encoding
  imports Schema_Props
begin

text \<open>
  The typing of derived schemas: what \<open>encoding/json\<close> writes for a value of a Go type conforms to the
  schema derived for the type. \<open>encoded\<close> is the documented encoding, of the values and the types for which
  the library and \<open>encoding/json\<close> agree. Left out are: nil pointers, slices, maps and embedded pointers (a nil
  member is written as \<open>null\<close>, which \<open>nil_is_rejected\<close> shows to be refused); arrays of bytes
  (\<open>byte_array_is_rejected\<close>); the options \<open>string\<close> and \<open>omitzero\<close>; the tag \<open>"-,"\<close>; names that \<open>encoding/json\<close>
  ignores; embedded structs of an unexported type, with options but no name in the tag, or of type
  \<open>time.Time\<close>; and types with a \<open>MarshalJSON\<close> or \<open>MarshalText\<close> of their own other than \<open>time.Time\<close>.
\<close>

section \<open>The encoding of Go values\<close>








section \<open>Keywords behind the tag\<close>

lemma map_of_put [simp]: "map_of (put k v m) = (map_of m)(k \<mapsto> v)"
  by (simp add: put_def update_conv')

lemma applyTag_other:
  "key \<notin> {''description'', ''enum'', ''minimum'', ''maximum'', ''format''} \<Longrightarrow> map_of (applyTag m tag) key = map_of m key"
  by (auto simp: applyTag_def Let_def split: option.splits)

lemma applyTag_keys [simp]:
  "map_of (applyTag m tag) ''type'' = map_of m ''type''"
  "map_of (applyTag m tag) ''items'' = map_of m ''items''"
  "map_of (applyTag m tag) ''properties'' = map_of m ''properties''"
  "map_of (applyTag m tag) ''required'' = map_of m ''required''"
  "map_of (applyTag m tag) ''additionalProperties'' = map_of m ''additionalProperties''"
  by (simp_all add: applyTag_other)






section \<open>The parts of a struct\<close>










section \<open>Derived schemas accept encoded values\<close>












section \<open>Where the two disagree\<close>

lemma typed_schema:
  assumes "build_kind T bld bldStruct t tag depth = Some (Inr m)" "gtDesc T t \<noteq> KInterface"
  shows "type_of_schema m \<in> {''object'', ''array'', ''string'', ''integer'', ''number'', ''boolean''}"
  using assms
  by (cases "gtDesc T t")
    (auto simp: build_kind_def build_list_def type_is_def res_bind_def struct_schema_def Let_def as_string_def
      split: option.splits sum.splits if_splits)

text \<open>A nil pointer, slice or map that is not left out is written as \<open>null\<close>: no schema but that of an interface admits it.\<close>

theorem nil_is_rejected:
  assumes "build T (Suc n) t tag depth = Some (Inr sch)" "deref T (Suc n) t = Some d" "gtDesc T d \<noteq> KInterface"
  shows "validateValue ff sch JNull path \<noteq> None"
proof -
  have "build_kind T (\<lambda>e ft d. build T n e ft d) (\<lambda>fs d. buildStruct T n fs d) d tag depth = Some (Inr sch)"
    using assms by (auto simp del: deref.simps split: if_splits)
  note typed_schema [OF this assms(3)]
  then show ?thesis unfolding validate_conforms by (auto elim: conforms.cases)
qed

text \<open>An array of bytes is written as an array of numbers, but its schema is that of a base64 string.\<close>

theorem byte_array_is_rejected:
  assumes "build T (Suc n) t tag depth = Some (Inr sch)" "gtDesc T t = KArray e" "gtDesc T e = KUint8"
  shows "validateValue ff sch (JArr vs) path \<noteq> None"
proof -
  have "sch = applyTag [(''type'', JStr ''string''), (''contentEncoding'', JStr ''base64'')] tag"
    using assms by (auto simp: build_kind_def build_list_def split: if_splits)
  then show ?thesis unfolding validate_conforms by (auto simp: as_string_def elim: conforms.cases)
qed

section \<open>The typing of derived schemas\<close>







end
