(* ===== verification/Go_Flag.thy ===== *)
theory Go_Flag
  imports Go_Prelude
begin

text \<open>
  The package \<open>flag\<close> as the command line uses it: a set of flags with \<open>ExitOnError\<close>. The values of the
  flags are the fields of a record \<open>'f\<close>, which starts with the defaults; a flag is what sets its
  field. The text that the package prints before it ends the process is not part of the result.
\<close>

datatype 'f flag_value =
    FlagString "string \<Rightarrow> 'f \<Rightarrow> 'f"
  | FlagBool "bool \<Rightarrow> 'f \<Rightarrow> 'f"
  | FlagInt "int \<Rightarrow> 'f \<Rightarrow> 'f"
  | FlagDuration "int \<Rightarrow> 'f \<Rightarrow> 'f"

text \<open>The parsers of numbers: \<open>strconv.ParseInt(s, 0, 64)\<close> and \<open>time.ParseDuration\<close>.\<close>

record number_parsers =
  npInt :: "string \<Rightarrow> int option"
  npDuration :: "string \<Rightarrow> int option"

definition ParseBool :: "string \<Rightarrow> bool option" where
  "ParseBool s = (if s \<in> {''1'', ''t'', ''T'', ''true'', ''TRUE'', ''True''} then Some True
     else if s \<in> {''0'', ''f'', ''F'', ''false'', ''FALSE'', ''False''} then Some False else None)"

fun flag_set :: "number_parsers \<Rightarrow> 'f flag_value \<Rightarrow> string \<Rightarrow> 'f \<Rightarrow> 'f option" where
  "flag_set N (FlagString upd) s f = Some (upd s f)"
| "flag_set N (FlagBool upd) s f = map_option (\<lambda>b. upd b f) (ParseBool s)"
| "flag_set N (FlagInt upd) s f = map_option (\<lambda>i. upd i f) (npInt N s)"
| "flag_set N (FlagDuration upd) s f = map_option (\<lambda>d. upd d f) (npDuration N s)"

fun is_bool_flag :: "'f flag_value \<Rightarrow> bool" where
  "is_bool_flag (FlagBool upd) = True"
| "is_bool_flag _ = False"

text \<open>\<open>-name\<close> or \<open>--name\<close>, with the value behind the first \<open>=\<close> that is not the first letter; \<open>None\<close> is bad syntax.\<close>

definition split_flag :: "string \<Rightarrow> (string \<times> string option) option" where
  "split_flag s = (let body = (if take 2 s = ''--'' then drop 2 s else drop 1 s) in
     if body = [] \<or> hd body = CHR ''-'' \<or> hd body = CHR ''='' then None
     else (let name = takeWhile (\<lambda>c. c \<noteq> CHR ''='') body in
       Some (name, if name = body then None else Some (drop (Suc (length name)) body))))"

text \<open>An argument that ends the flags: not a flag, or \<open>--\<close>.\<close>

definition ends_flags :: "string \<Rightarrow> bool" where
  "ends_flags s \<longleftrightarrow> length s < 2 \<or> hd s \<noteq> CHR ''-'' \<or> s = ''--''"

text \<open>\<open>Parse\<close>; \<open>Inl\<close> is the code with which the process ends, 0 where help was asked for.\<close>

fun parse_flags :: "number_parsers \<Rightarrow> (string \<rightharpoonup> 'f flag_value) \<Rightarrow> string list \<Rightarrow> 'f \<Rightarrow> nat + 'f" where
  "parse_flags N fs [] f = Inr f"
| "parse_flags N fs (s # args) f =
     (if ends_flags s then Inr f
      else (case split_flag s of
          None \<Rightarrow> Inl 2
        | Some (name, value) \<Rightarrow>
          (case fs name of
             None \<Rightarrow> Inl (if name = ''help'' \<or> name = ''h'' then 0 else 2)
           | Some fl \<Rightarrow>
             if is_bool_flag fl then
               (case flag_set N fl (case value of None \<Rightarrow> ''true'' | Some v \<Rightarrow> v) f of
                  None \<Rightarrow> Inl 2
                | Some f' \<Rightarrow> parse_flags N fs args f')
             else
               (case value of
                  Some v \<Rightarrow> (case flag_set N fl v f of None \<Rightarrow> Inl 2 | Some f' \<Rightarrow> parse_flags N fs args f')
                | None \<Rightarrow>
                  (case args of
                     [] \<Rightarrow> Inl 2
                   | v # args' \<Rightarrow>
                     (case flag_set N fl v f of None \<Rightarrow> Inl 2 | Some f' \<Rightarrow> parse_flags N fs args' f'))))))"

section \<open>Flags that are printed are read back\<close>

definition flag_name :: "string \<Rightarrow> bool" where
  "flag_name n \<longleftrightarrow> n \<noteq> [] \<and> hd n \<noteq> CHR ''-'' \<and> CHR ''='' \<notin> set n"

definition print_flag :: "string \<times> string \<Rightarrow> string" where
  "print_flag nv = CHR ''-'' # fst nv @ CHR ''='' # snd nv"

lemma split_print_flag: "flag_name n \<Longrightarrow> split_flag (print_flag (n, v)) = Some (n, Some v) \<and> \<not> ends_flags (print_flag (n, v))"
  by (cases n) (auto simp: flag_name_def print_flag_def split_flag_def ends_flags_def Let_def takeWhile_append)

text \<open>
  A command line of \<open>-name=value\<close> words sets the flags in order, whatever bytes the values of the
  string flags hold; behind it, the arguments from the first that is no flag on are left alone.
\<close>

lemma parse_print_flags:
  assumes "list_all (\<lambda>(n, v). flag_name n \<and> (\<exists>fl. fs n = Some fl \<and> (\<forall>f. flag_set N fl v f \<noteq> None))) nvs"
    and "rest = [] \<or> ends_flags (hd rest)"
  shows "parse_flags N fs (map print_flag nvs @ rest) f
     = Inr (foldl (\<lambda>f (n, v). the (flag_set N (the (fs n)) v f)) f nvs)"
  using assms(1)
proof (induction nvs arbitrary: f)
  case Nil
  then show ?case using assms(2) by (cases rest) auto
next
  case (Cons nv nvs)
  obtain n v where nv: "nv = (n, v)" by fastforce
  with Cons.prems obtain fl where fl: "fs n = Some fl" "flag_name n" "flag_set N fl v f \<noteq> None" by auto
  then obtain f' where "flag_set N fl v f = Some f'" by blast
  with nv fl Cons show ?case by (simp add: split_print_flag)
qed

end
