(* ===== verification/Test_Doubles.thy ===== *)
theory Test_Doubles
  imports Run_Theorems
begin

text \<open>
  \<open>rimenotest/model.go\<close>: the scripted model that stands for a provider in tests, in the command
  line's demo and in its server. Its counter and the requests it has captured lie in the world,
  behind the accessors of \<open>'w double_env\<close>; the part of \<open>Generate\<close> that holds the mutex is one
  step, the custom function and the simulated latency are outside of it.
\<close>

section \<open>The script\<close>

record script_turn =
  tuText :: string
  tuToolCalls :: "tool_call list"
  tuUsage :: "usage option"
  tuStopReason :: string
  tuDelay :: duration

text \<open>What \<open>mu\<close> protects: the number of calls, and the requests in order.\<close>

record script_state =
  scIdx :: nat
  scRequests :: "request list"

record 'w double_env =
  dvGet :: "'w \<Rightarrow> script_state"
  dvPut :: "script_state \<Rightarrow> 'w \<Rightarrow> 'w"
  dvWait :: "duration \<Rightarrow> ctx \<Rightarrow> 'w \<Rightarrow> goerr option \<times> 'w"     \<comment> \<open>timer against \<open>ctx.Done\<close>\<close>

record 'w fake_model =
  fkId :: string
  fkTurns :: "script_turn list"
  fkGenerateFn :: "(ctx \<Rightarrow> request \<Rightarrow> nat \<Rightarrow> 'w \<Rightarrow> (goerr + response) \<times> 'w) option"

definition NewModel :: "script_turn list \<Rightarrow> 'w fake_model" where
  "NewModel ts = \<lparr>fkId = ''fake'', fkTurns = ts, fkGenerateFn = None\<rparr>"

definition WithID :: "string \<Rightarrow> 'w fake_model \<Rightarrow> 'w fake_model" where
  "WithID ident m = m\<lparr>fkId := ident\<rparr>"

definition fake_ID :: "'w fake_model \<Rightarrow> string" where
  "fake_ID m = (if fkId m = [] then ''fake'' else fkId m)"

definition new_script :: script_state where
  "new_script = \<lparr>scIdx = 0, scRequests = []\<rparr>"

section \<open>Generate\<close>

text \<open>The critical section: the number of this call; the request is captured.\<close>

definition take_turn :: "request \<Rightarrow> script_state \<Rightarrow> nat \<times> script_state" where
  "take_turn req s = (scIdx s, s\<lparr>scIdx := Suc (scIdx s), scRequests := scRequests s @ [req]\<rparr>)"

definition usage_of :: "int \<Rightarrow> int \<Rightarrow> int \<Rightarrow> usage" where
  "usage_of i out tot = usage_zero\<lparr>InputTokens := i, OutputTokens := out, TotalTokens := tot\<rparr>"

definition fake_response :: "string \<Rightarrow> tool_call list \<Rightarrow> usage \<Rightarrow> string \<Rightarrow> string \<Rightarrow> response" where
  "fake_response txt calls u stop ident = \<lparr>rspMessage = (AssistantMessage txt)\<lparr>msgToolCalls := calls\<rparr>,
     rspUsage = u, rspStopReason = stop, rspModel = ident, rspID = [], rspRaw = []\<rparr>"

text \<open>The terminal response once the script is exhausted.\<close>

definition exhausted_response :: "'w fake_model \<Rightarrow> response" where
  "exhausted_response m = fake_response [] [] (usage_of 1 1 2) StopReasonStop (fake_ID m)"

definition turn_response :: "'w fake_model \<Rightarrow> script_turn \<Rightarrow> response" where
  "turn_response m t = fake_response (tuText t) (tuToolCalls t)
     (case tuUsage t of None \<Rightarrow> usage_of 10 5 15 | Some u \<Rightarrow> u)
     (if tuStopReason t = [] then (if tuToolCalls t \<noteq> [] then StopReasonToolCalls else StopReasonStop)
      else tuStopReason t) (fake_ID m)"

definition turn_wait :: "'w double_env \<Rightarrow> ctx \<Rightarrow> script_turn \<Rightarrow> 'w \<Rightarrow> goerr option \<times> 'w" where
  "turn_wait V c t w = (if tuDelay t > 0 then dvWait V (tuDelay t) c w else (None, w))"

definition fake_Generate ::
  "'w double_env \<Rightarrow> 'w fake_model \<Rightarrow> ctx \<Rightarrow> request \<Rightarrow> 'w \<Rightarrow> (goerr + response) \<times> 'w" where
  "fake_Generate V m c req w = (case take_turn req (dvGet V w) of (call, s) \<Rightarrow>
     let w = dvPut V s w in
     (case fkGenerateFn m of
        Some fn \<Rightarrow> fn c req call w
      | None \<Rightarrow>
        if call < length (fkTurns m) then
          (case turn_wait V c (fkTurns m ! call) w of
             (Some err, w) \<Rightarrow> (Inl err, w)
           | (None, w) \<Rightarrow> (Inr (turn_response m (fkTurns m ! call)), w))
        else (Inr (exhausted_response m), w)))"

text \<open>\<open>args\<close> is what \<open>json.Marshal\<close> makes of the arguments; its error is dropped, and they are then empty.\<close>

definition mk_tool_call :: "string \<Rightarrow> string \<Rightarrow> goerr + raw_message \<Rightarrow> tool_call" where
  "mk_tool_call ident name args = \<lparr>tcID = ident, tcName = name,
     tcArguments = (case args of Inl _ \<Rightarrow> [] | Inr b \<Rightarrow> b)\<rparr>"

section \<open>Stream\<close>

text \<open>
  Pieces of at most \<open>n\<close> bytes; \<open>n\<close> is 4 in the only call (with 0 the loop of the code would not
  end).
\<close>

function chunkString :: "string \<Rightarrow> nat \<Rightarrow> string list" where
  "chunkString s n = (if s = [] then [] else if n = 0 then [s] else take n s # chunkString (drop n s) n)"
  by pat_completeness auto
termination
  by (relation "measure (\<lambda>(s, n). length s)") auto

declare chunkString.simps [simp del]

record fake_stream =
  fsResp :: response
  fsDeltas :: "string list"
  fsI :: nat
  fsSentFinal :: bool

definition chunk_empty :: stream_chunk where
  "chunk_empty = \<lparr>skTextDelta = [], skReasoningDelta = [], skToolCall = None, skUsage = None, skFinal = None\<rparr>"

text \<open>\<open>None\<close> is \<open>io.EOF\<close>.\<close>

definition fake_Recv :: "fake_stream \<Rightarrow> stream_chunk option \<times> fake_stream" where
  "fake_Recv s =
     (if fsI s < length (fsDeltas s)
      then (Some (chunk_empty\<lparr>skTextDelta := fsDeltas s ! fsI s\<rparr>), s\<lparr>fsI := Suc (fsI s)\<rparr>)
      else if \<not> fsSentFinal s
      then (Some (chunk_empty\<lparr>skFinal := Some (fsResp s), skUsage := Some (rspUsage (fsResp s))\<rparr>), s\<lparr>fsSentFinal := True\<rparr>)
      else (None, s))"

text \<open>The chunks up to \<open>io.EOF\<close>.\<close>

function fake_drain :: "fake_stream \<Rightarrow> stream_chunk list" where
  "fake_drain s = (case fake_Recv s of (None, _) \<Rightarrow> [] | (Some k, s') \<Rightarrow> k # fake_drain s')"
  by pat_completeness auto
termination
  by (relation "measure (\<lambda>s. (length (fsDeltas s) - fsI s) + (if fsSentFinal s then 0 else 1))")
    (auto simp: fake_Recv_def split: if_splits)

declare fake_drain.simps [simp del]

definition fake_Stream ::
  "'w double_env \<Rightarrow> 'w fake_model \<Rightarrow> ctx \<Rightarrow> request \<Rightarrow> 'w \<Rightarrow> (goerr + 'w model_stream) \<times> 'w" where
  "fake_Stream V m c req w = (case fake_Generate V m c req w of
       (Inl err, w) \<Rightarrow> (Inl err, w)
     | (Inr resp, w) \<Rightarrow> (Inr \<lparr>strmRecv = map (\<lambda>k w. (Inr k, w)) (fake_drain \<lparr>fsResp = resp,
           fsDeltas = chunkString (msgText (rspMessage resp)) 4, fsI = 0, fsSentFinal = False\<rparr>),
         strmClose = (\<lambda>w. w)\<rparr>, w))"

text \<open>The model as the library sees it: it streams, and knows nothing of threads.\<close>

definition fake_as_model :: "'w double_env \<Rightarrow> 'w fake_model \<Rightarrow> 'w model" where
  "fake_as_model V m = \<lparr>mdlID = fake_ID m, mdlGenerate = fake_Generate V m, mdlStream = Some (fake_Stream V m),
     mdlThreadsResponses = None, mdlThreadingUnsupported = None\<rparr>"

section \<open>The pieces\<close>

lemma concat_chunkString [simp]: "concat (chunkString s n) = s"
proof (induction s n rule: chunkString.induct)
  case (1 s n)
  then show ?case by (simp add: chunkString.simps [of s n])
qed

lemma chunkString_pieces: "p \<in> set (chunkString s n) \<Longrightarrow> p \<noteq> [] \<and> (n = 0 \<or> length p \<le> n)"
proof (induction s n rule: chunkString.induct)
  case (1 s n)
  then show ?case by (auto simp: chunkString.simps [of s n] split: if_splits)
qed

lemma fake_drain_from:
  "i \<le> length ds \<Longrightarrow> fake_drain \<lparr>fsResp = r, fsDeltas = ds, fsI = i, fsSentFinal = False\<rparr>
     = map (\<lambda>d. chunk_empty\<lparr>skTextDelta := d\<rparr>) (drop i ds) @ [chunk_empty\<lparr>skFinal := Some r, skUsage := Some (rspUsage r)\<rparr>]"
proof (induction "length ds - i" arbitrary: i)
  case 0
  then show ?case by (simp add: fake_drain.simps [of "_\<lparr>fsI := _\<rparr>"] fake_drain.simps fake_Recv_def)
next
  case (Suc n)
  then have "i < length ds" by simp
  then show ?case
    using Suc.hyps(1) [of "Suc i"] Suc.hyps(2) fake_drain.simps [of "\<lparr>fsResp = r, fsDeltas = ds, fsI = i, fsSentFinal = False\<rparr>"]
    by (simp add: fake_Recv_def Cons_nth_drop_Suc [symmetric])
qed

section \<open>A streaming agent on the script\<close>

definition text_events :: "string \<Rightarrow> string list \<Rightarrow> gotime list \<Rightarrow> event list" where
  "text_events name pieces ts = map2 (\<lambda>d t. TextDeltaEvent \<lparr>ebAgent = name, ebTime = t\<rparr> d) pieces ts"

definition told :: "'w agent \<Rightarrow> string list \<Rightarrow> 'w st \<Rightarrow> 'w st \<Rightarrow> bool" where
  "told a pieces s t \<longleftrightarrow> (\<exists>ts. length ts = length pieces \<and>
     stEvents t = stEvents s @ (case agOnEvent a of None \<Rightarrow> [] | Some _ \<Rightarrow> text_events (agName a) pieces ts))"

lemma told_Nil [simp]: "told a [] s t \<longleftrightarrow> stEvents t = stEvents s"
  by (auto simp: told_def text_events_def split: option.splits)

lemma post_text_delta:
  "post (agent_emit E a (\<lambda>b. TextDeltaEvent b d)) s (\<lambda>_ t. told a [d] s t)"
  by (auto simp: agent_emit_def emit_def deliver_def time_now_def told_def text_events_def post_def length_Suc_conv
      split: option.splits prod.splits)

lemma told_Cons:
  assumes "told a [d] s t" "told a ds t u"
  shows "told a (d # ds) s u"
proof -
  obtain x where x: "stEvents t = stEvents s @ (case agOnEvent a of None \<Rightarrow> [] | Some _ \<Rightarrow> text_events (agName a) [d] [x])"
    using assms(1) by (auto simp: told_def length_Suc_conv)
  obtain xs where "length xs = length ds"
    "stEvents u = stEvents t @ (case agOnEvent a of None \<Rightarrow> [] | Some _ \<Rightarrow> text_events (agName a) ds xs)"
    using assms(2) by (auto simp: told_def)
  then show ?thesis
    using x by (auto simp: told_def text_events_def intro!: exI [of _ "x # xs"] split: option.splits)
qed

lemma post_recv_text:
  "list_all (\<lambda>d. d \<noteq> []) ds \<Longrightarrow> post (recv_loop E a final (map (\<lambda>k w. (Inr k, w))
      (map (\<lambda>d. chunk_empty\<lparr>skTextDelta := d\<rparr>) ds @ [chunk_empty\<lparr>skFinal := Some r, skUsage := u\<rparr>]))) s
    (\<lambda>v t. v = Inr r \<and> told a ds s t)"
proof (induction ds arbitrary: final s)
  case Nil
  then show ?case by (simp add: chunk_empty_def post_def)
next
  case (Cons d ds)
  have "post (agent_emit E a (\<lambda>b. TextDeltaEvent b d)) s (\<lambda>_ t.
      post (recv_loop E a final (map (\<lambda>k w. (Inr k, w))
        (map (\<lambda>d. chunk_empty\<lparr>skTextDelta := d\<rparr>) ds @ [chunk_empty\<lparr>skFinal := Some r, skUsage := u\<rparr>]))) t
      (\<lambda>v t. v = Inr r \<and> told a (d # ds) s t))"
  proof (rule post_mono [OF post_text_delta])
    fix v t assume "told a [d] s t"
    with Cons show "post (recv_loop E a final (map (\<lambda>k w. (Inr k, w))
        (map (\<lambda>d. chunk_empty\<lparr>skTextDelta := d\<rparr>) ds @ [chunk_empty\<lparr>skFinal := Some r, skUsage := u\<rparr>]))) t
      (\<lambda>v t. v = Inr r \<and> told a (d # ds) s t)"
      by (intro post_mono [OF Cons.IH]) (auto intro: told_Cons)
  qed
  with Cons.prems show ?case by (simp add: chunk_empty_def post_on_world)
qed

text \<open>
  C31: An agent that streams from the scripted model gets from it the response or the error that it
  gets without streaming, and its handler hears, as text deltas in order, pieces that add up to
  the text of the message: the doubles do not let a test pass in one mode that fails in the other.
\<close>

theorem streaming_double_agrees:
  "case run_state (generate E (a\<lparr>agModel := fake_as_model V m, agStream := True\<rparr>) c req) s of (r, t) \<Rightarrow>
     r = fst (run_state (generate E (a\<lparr>agModel := fake_as_model V m, agStream := False\<rparr>) c req) s) \<and>
     (\<exists>pieces. concat pieces = (case r of Inl _ \<Rightarrow> [] | Inr resp \<Rightarrow> msgText (rspMessage resp)) \<and>
        told (a\<lparr>agModel := fake_as_model V m, agStream := True\<rparr>) pieces s t)"
proof (cases "fake_Generate V m c req (stWorld s)")
  case (Pair g w)
  let ?a = "a\<lparr>agModel := fake_as_model V m, agStream := True\<rparr>" and ?s = "s\<lparr>stWorld := w\<rparr>"
  show ?thesis
  proof (cases g)
    case (Inl err)
    then show ?thesis
      using Pair by (auto simp: generate_def generateStream_def fake_as_model_def fake_Stream_def told_def text_events_def intro!: exI [of _ "[]"] split: option.splits)
  next
    case (Inr resp)
    let ?ds = "chunkString (msgText (rspMessage resp)) 4"
    have "list_all (\<lambda>d. d \<noteq> []) ?ds" using chunkString_pieces by (auto simp: list_all_iff)
    note p = post_recv_text [OF this, where E = E and a = ?a and final = None and r = resp and u = "Some (rspUsage resp)" and s = ?s]
    obtain v t where q: "run_state (recv_loop E ?a None (map (\<lambda>k w. (Inr k, w)) (map (\<lambda>d. chunk_empty\<lparr>skTextDelta := d\<rparr>) ?ds @
        [chunk_empty\<lparr>skFinal := Some resp, skUsage := Some (rspUsage resp)\<rparr>]))) ?s = (v, t)"
      by (metis prod.collapse)
    have "v = Inr resp" "told ?a ?ds s t"
      using postD [OF p q] by (simp_all add: told_def)
    then show ?thesis
      using Pair Inr q by (auto simp: generate_def generateStream_def fake_as_model_def fake_Stream_def fake_drain_from
          told_def intro!: exI [of _ ?ds])
  qed
qed

end
