(* ===== verification/Cli.thy ===== *)
theory Cli
  imports Go_Flag Workflow Test_Doubles Dotenv OpenAI_Responses Rpc_Server
begin

text \<open>
  \<open>cmd/rimeno/main.go\<close>: the command line over the library. What it uses of the operating system and
  of the formatting functions of the standard library is in \<open>'w cli_env\<close>; the flags of a command are
  records. A command is a computation that yields the error \<open>main\<close> prints.
\<close>

section \<open>The surroundings\<close>

record run_flags =
  rfPrompt :: string
  rfFile :: string
  rfModel :: string
  rfBaseURL :: string
  rfSystem :: string
  rfDemoTools :: bool
  rfTrace :: bool
  rfVerbose :: bool
  rfStream :: bool
  rfJSON :: bool
  rfMaxSteps :: int
  rfTimeout :: duration
  rfSaveTrace :: string

record workflow_flags =
  wfPrompt :: string
  wfModel :: string
  wfBaseURL :: string

record serve_flags =
  sfModel :: string
  sfBaseURL :: string
  sfSystem :: string
  sfDemoTools :: bool
  sfDemo :: bool

text \<open>
  \<open>cvScript\<close> gives each scripted model its own counter. The last group formats values for people.
\<close>

record 'w cli_env =
  cvEnv :: "'w env"
  cvNumbers :: number_parsers
  cvEnviron :: "'w \<Rightarrow> (string \<rightharpoonup> string)"
  cvSetEnviron :: "(string \<rightharpoonup> string) \<Rightarrow> 'w \<Rightarrow> 'w"
  cvStat :: "'w \<Rightarrow> string \<Rightarrow> bool option"
  cvGetwd :: "'w \<Rightarrow> string list option"
  cvVarOrder :: "(string \<times> string) list \<Rightarrow> (string \<times> string) list"
  cvReadFile :: "string \<Rightarrow> 'w \<Rightarrow> (goerr + string) \<times> 'w"
  cvOpen :: "'w \<Rightarrow> string \<Rightarrow> goerr + reader"
  cvWriteFile :: "string \<Rightarrow> string \<Rightarrow> 'w \<Rightarrow> goerr option \<times> 'w"
  cvStdout :: "string \<Rightarrow> 'w \<Rightarrow> 'w"
  cvStderr :: "string \<Rightarrow> 'w \<Rightarrow> 'w"
  cvScript :: "string \<Rightarrow> 'w double_env"
  cvHTTP :: "'w http_env"
  cvStreamHTTP :: "string \<Rightarrow> goerr + stream_response"
  cvRespCodec :: resp_codec
  cvServerEnv :: "'w server_env"
  cvInterleaving :: "'w srv_action list"     \<comment> \<open>lines, goroutines and the end of a connection\<close>
  cvAddArgs :: "raw_message \<Rightarrow> goerr + rat \<times> rat"
  cvNowArgs :: "raw_message \<Rightarrow> goerr + unit"
  cvAddSchema :: raw_message
  cvNowSchema :: raw_message
  cvFloatJSON :: "rat \<Rightarrow> goerr + raw_message"
  cvFmtFloat :: "rat \<Rightarrow> string"
  cvRFC3339 :: "gotime \<Rightarrow> string"
  cvMapOrder :: "(string \<rightharpoonup> tool_stat) \<Rightarrow> (string \<times> tool_stat) list"
  cvOutputOrder :: "(string \<rightharpoonup> string) \<Rightarrow> (string \<times> string) list"
  cvPermute :: "string list \<Rightarrow> string list"
  cvTraceJSON :: "span_tree \<Rightarrow> goerr + string"
  cvResultJSON :: "result \<Rightarrow> summary \<Rightarrow> goerr + string"
  cvFmtMillis :: "duration \<Rightarrow> string"
  cvFmtCost :: "rat \<Rightarrow> string"
  cvFmtUsage :: "usage \<Rightarrow> string"

definition to_stdout :: "'w cli_env \<Rightarrow> string \<Rightarrow> ('w st, unit) state" where
  "to_stdout V x = on_world (\<lambda>w. ((), cvStdout V x w))"

definition to_stderr :: "'w cli_env \<Rightarrow> string \<Rightarrow> ('w st, unit) state" where
  "to_stderr V x = on_world (\<lambda>w. ((), cvStderr V x w))"

definition cli_getenv :: "'w cli_env \<Rightarrow> 'w \<Rightarrow> string \<Rightarrow> string" where
  "cli_getenv V w k = (case cvEnviron V w k of None \<Rightarrow> [] | Some v \<Rightarrow> v)"

text \<open>The client of \<open>openai/\<close> as a model.\<close>

definition client_model :: "'w cli_env \<Rightarrow> client \<Rightarrow> 'w model" where
  "client_model V c = openai_model (cvHTTP V) (cvStreamHTTP V) (cvRespCodec V) c"

definition println :: "string \<Rightarrow> string" where
  "println x = x @ [newline]"

section \<open>Helpers\<close>

definition modelFromFlags :: "(string \<Rightarrow> string) \<Rightarrow> string \<Rightarrow> string \<Rightarrow> goerr + client" where
  "modelFromFlags getenv model baseURL =
     (if model = [] then Inl (ErrText ''no model set (use -model)'')
      else let baseURL = (if baseURL = [] then getenv ''OPENAI_BASE_URL'' else baseURL);
               baseURL = (if baseURL = [] then DefaultBaseURL else baseURL)
           in Inr (openai_New [WithModel model, WithBaseURL baseURL, WithAPIKey (getenv ''OPENAI_API_KEY'')]))"

definition hasCredentials :: "(string \<Rightarrow> string) \<Rightarrow> string \<Rightarrow> bool" where
  "hasCredentials getenv model \<longleftrightarrow> model \<noteq> [] \<and> getenv ''OPENAI_API_KEY'' \<noteq> []"

definition promptText :: "'w cli_env \<Rightarrow> string \<Rightarrow> string \<Rightarrow> 'w \<Rightarrow> (goerr + string) \<times> 'w" where
  "promptText V prompt path w =
     (if path \<noteq> [] then cvReadFile V path w
      else if prompt = [] then (Inl (ErrText ''provide a prompt with -p or -f''), w)
      else (Inr prompt, w))"

text \<open>Newlines become blanks; the cut is at a byte, with an ellipsis (in UTF-8) behind it.\<close>

definition truncate_line :: "string \<Rightarrow> nat \<Rightarrow> string" where
  "truncate_line s n = (let s = map (\<lambda>c. if c = newline then CHR '' '' else c) s in
     if length s \<le> n then s else take n s @ [CHR 0xE2, CHR 0x80, CHR 0xA6])"

definition arrow_right :: string where "arrow_right = [CHR 0xE2, CHR 0x86, CHR 0x92]"
definition arrow_left :: string where "arrow_left = [CHR 0xE2, CHR 0x86, CHR 0x90]"
definition arrow_dashed :: string where "arrow_dashed = [CHR 0xE2, CHR 0x87, CHR 0xA2]"
definition arrow_circle :: string where "arrow_circle = [CHR 0xE2, CHR 0x9F, CHR 0xB3]"
definition rule_mark :: string where
  "rule_mark = [CHR 0xE2, CHR 0x94, CHR 0x80, CHR 0xE2, CHR 0x94, CHR 0x80]"

fun printed_line :: "event \<Rightarrow> string option" where
  "printed_line (ToolCallStartedEvent b c) =
     Some (println (''  '' @ arrow_right @ '' tool '' @ tcName c @ ''('' @ tcArguments c @ '')''))"
| "printed_line (ToolCallFinishedEvent b c r err) =
     Some (println (''  '' @ arrow_left @ '' tool '' @ tcName c @ '' => '' @ truncate_line r 80))"
| "printed_line (SubAgentStartedEvent b name) = Some (println (''  '' @ arrow_dashed @ '' subagent '' @ name))"
| "printed_line (CompactionStartedEvent b n est) = Some (println (''  '' @ arrow_circle @ '' compacting ('' @
     itoa (int n) @ '' msgs, ~'' @ itoa est @ '' tokens)''))"
| "printed_line _ = None"

definition eventPrinter :: "'w cli_env \<Rightarrow> bool \<Rightarrow> 'w handler" where
  "eventPrinter V verbose = (if \<not> verbose then None
     else Some (\<lambda>e w. case printed_line e of None \<Rightarrow> w | Some l \<Rightarrow> cvStderr V l w))"

fun text_delta :: "event \<Rightarrow> string option" where
  "text_delta (TextDeltaEvent b d) = Some d"
| "text_delta _ = None"

definition runEventHandler :: "'w cli_env \<Rightarrow> bool \<Rightarrow> bool \<Rightarrow> 'w handler" where
  "runEventHandler V verbose stream =
     (if \<not> verbose \<and> \<not> stream then None
      else let inner = eventPrinter V verbose in
        Some (\<lambda>e w.
          let w = (if stream then (case text_delta e of None \<Rightarrow> w | Some d \<Rightarrow> cvStdout V d w) else w)
          in (case inner of None \<Rightarrow> w | Some f \<Rightarrow> f e w)))"

definition printTrace :: "'w cli_env \<Rightarrow> span_tree \<Rightarrow> ('w st, unit) state" where
  "printTrace V tr = (let s = Summary tr in do {
     _ \<leftarrow> to_stdout V (newline # println (rule_mark @ '' trace summary '' @ rule_mark));
     _ \<leftarrow> to_stdout V (println (''wallclock='' @ cvFmtMillis V (smWallclock s) @ '' steps='' @ itoa (int (smSteps s)) @
            '' model_calls='' @ itoa (int (smModelCalls s)) @ '' tool_calls='' @ itoa (int (smToolCalls s)) @
            '' subagents='' @ itoa (int (smSubagents s))));
     _ \<leftarrow> to_stdout V (println (''tokens: in='' @ itoa (InputTokens (smUsage s)) @ '' out='' @ itoa (OutputTokens (smUsage s)) @
            '' total='' @ itoa (TotalTokens (smUsage s)) @ '' cost=$'' @ cvFmtCost V (CostUSD (smUsage s))));
     to_stdout V (concat (map (\<lambda>(tool, st). println (''  tool '' @ tool @ '': calls='' @ itoa (int (tsCalls st)) @
            '' errors='' @ itoa (int (tsErrors st)))) (cvMapOrder V (smToolBreakdown s))))
   })"

definition printJSON :: "'w cli_env \<Rightarrow> result \<Rightarrow> span_tree \<Rightarrow> ('w st, goerr option) state" where
  "printJSON V res tr = (case cvResultJSON V res (Summary tr) of
       Inl err \<Rightarrow> State_Monad.return (Some err)
     | Inr js \<Rightarrow> do {
         _ \<leftarrow> to_stdout V (println js);
         State_Monad.return None
       })"

definition trace_tree :: "result \<Rightarrow> ('w st, span_tree) state" where
  "trace_tree res = gets (\<lambda>s. span_tree_of (stHeap s) (resTrace res))"

section \<open>Demo tools and models\<close>

definition demoAddTool :: "'w cli_env \<Rightarrow> 'w tool" where
  "demoAddTool V = projr (NewTool (Inr (cvAddSchema V)) (0, 0) (cvAddArgs V) ''add'' ''Add two numbers''
     (\<lambda>c (x, y) w. (ToolReturns (AnyValue (cvFloatJSON V (x + y)) (cvFmtFloat V (x + y))), w)))"

definition demoNowTool :: "'w cli_env \<Rightarrow> 'w tool" where
  "demoNowTool V = projr (NewTool (Inr (cvNowSchema V)) () (cvNowArgs V) ''now'' ''Return the current time (RFC3339)''
     (\<lambda>c _ w. case envNow (cvEnv V) w of (t, w) \<Rightarrow> (ToolReturns (AnyString (cvRFC3339 V t)), w)))"

definition demo_tools :: "'w cli_env \<Rightarrow> bool \<Rightarrow> 'w tool option list" where
  "demo_tools V on = (if on then [Some (demoAddTool V), Some (demoNowTool V)] else [])"

text \<open>The text of the last user message, if there is one.\<close>

definition last_user :: "message list \<Rightarrow> string" where
  "last_user ms = (case find (\<lambda>m. msgRole m = RoleUser) (rev ms) of None \<Rightarrow> [] | Some m \<Rightarrow> msgText m)"

definition echo_reply :: "request \<Rightarrow> response" where
  "echo_reply req = (let l = last_user (rqMessages req); n = int (length l) div 4 in
     fake_response (''echo: '' @ l) [] (usage_of n 1 (n + 1)) StopReasonStop [])"

definition echoModel :: "'w fake_model" where
  "echoModel = (NewModel [])\<lparr>fkGenerateFn := Some (\<lambda>c req call w. (Inr (echo_reply req), w))\<rparr>"

definition plain_config :: "'w model \<Rightarrow> 'w config" where
  "plain_config m = \<lparr>cfgModel = Some m, cfgInstructions = [], cfgTools = [], cfgOutput = None,
     cfgOutputRepairAttempts = 0, cfgBudget = \<lparr>MaxTotalTokens = 0, MaxCostUSD = 0, MaxToolCalls = 0, Timeout = 0, Deadline = 0\<rparr>,
     cfgMaxSteps = 0, cfgCompactor = None, cfgTokenizer = None, cfgApprove = None, cfgOnEvent = None,
     cfgTemperature = None, cfgMaxTokens = 0, cfgReasoningEffort = [], cfgReasoningMaxTokens = 0,
     cfgResponsesThreading = False, cfgToolChoice = [], cfgParallelTools = False, cfgMaxParallelTools = 0,
     cfgMaxToolErrors = 0, cfgStream = False, cfgName = []\<rparr>"

text \<open>A fresh scripted model: its counter starts at zero.\<close>

definition fresh_double :: "'w cli_env \<Rightarrow> 'w fake_model \<Rightarrow> ('w st, 'w model) state" where
  "fresh_double V m = do {
     _ \<leftarrow> on_world (\<lambda>w. ((), dvPut (cvScript V (fake_ID m)) new_script w));
     State_Monad.return (fake_as_model (cvScript V (fake_ID m)) m)
   }"

section \<open>rimeno demo\<close>

definition text_turn :: "string \<Rightarrow> script_turn" where
  "text_turn x = \<lparr>tuText = x, tuToolCalls = [], tuUsage = None, tuStopReason = [], tuDelay = 0\<rparr>"

definition demo_script :: "script_turn list" where
  "demo_script = [(text_turn [])\<lparr>tuToolCalls := [mk_tool_call ''c1'' ''add'' (Inr ''{\"a\":20,\"b\":22}'')]\<rparr>,
     text_turn ''The sum of 20 and 22 is 42.'']"

definition demo_run_config :: "'w cli_env \<Rightarrow> bool \<Rightarrow> 'w model \<Rightarrow> 'w config" where
  "demo_run_config V verbose m = (plain_config m)\<lparr>cfgName := ''demo'',
     cfgInstructions := ''You are a calculator. Use the add tool.'', cfgTools := [Some (demoAddTool V)],
     cfgOnEvent := eventPrinter V verbose\<rparr>"

definition cmdDemo :: "'w cli_env \<Rightarrow> bool \<Rightarrow> ('w st, goerr option) state" where
  "cmdDemo V verbose = do {
     m \<leftarrow> fresh_double V (WithID ''demo-model'' (NewModel demo_script));
     (case New (demo_run_config V verbose m) of
        Inl err \<Rightarrow> State_Monad.return (Some err)
      | Inr agent \<Rightarrow> do {
          (res, err) \<leftarrow> Run (cvEnv V) agent CtxBackground ''what is 20 + 22?'';
          (case err of
             Some e \<Rightarrow> State_Monad.return (Some e)
           | None \<Rightarrow> do {
               _ \<leftarrow> to_stdout V (newline # println (''Answer: '' @ resText res));
               tr \<leftarrow> trace_tree res;
               _ \<leftarrow> printTrace V tr;
               State_Monad.return None
             })
        })
   }"

section \<open>rimeno run\<close>

definition run_config :: "'w cli_env \<Rightarrow> run_flags \<Rightarrow> client \<Rightarrow> 'w config" where
  "run_config V f c = (plain_config (client_model V c))\<lparr>cfgInstructions := rfSystem f, cfgMaxSteps := rfMaxSteps f,
     cfgStream := rfStream f, cfgOnEvent := runEventHandler V (rfVerbose f) (rfStream f),
     cfgTools := demo_tools V (rfDemoTools f)\<rparr>"

text \<open>What is printed of a result: \<open>-save-trace\<close> comes first, and its error ends the command.\<close>

definition save_trace :: "'w cli_env \<Rightarrow> string \<Rightarrow> span_tree \<Rightarrow> ('w st, goerr option) state" where
  "save_trace V path tr =
     (if path = [] then State_Monad.return None
      else (case cvTraceJSON V tr of
          Inl err \<Rightarrow> State_Monad.return (Some err)
        | Inr js \<Rightarrow> do {
            werr \<leftarrow> on_world (cvWriteFile V path js);
            (case werr of
               Some err \<Rightarrow> State_Monad.return (Some err)
             | None \<Rightarrow> do {
                 _ \<leftarrow> to_stderr V (println (''trace written to '' @ path));
                 State_Monad.return None
               })
          }))"

definition print_result :: "'w cli_env \<Rightarrow> run_flags \<Rightarrow> result \<Rightarrow> ('w st, goerr option) state" where
  "print_result V f res = do {
     tr \<leftarrow> trace_tree res;
     serr \<leftarrow> save_trace V (rfSaveTrace f) tr;
     (case serr of
        Some err \<Rightarrow> State_Monad.return (Some err)
      | None \<Rightarrow>
        if rfJSON f then printJSON V res tr
        else do {
          _ \<leftarrow> to_stdout V (if rfStream f then [newline] else println (resText res));
          _ \<leftarrow> (if rfTrace f then printTrace V tr else State_Monad.return ());
          State_Monad.return None
        })
   }"

definition cmdRun :: "'w cli_env \<Rightarrow> run_flags \<Rightarrow> ('w st, goerr option) state" where
  "cmdRun V f = do {
     t \<leftarrow> on_world (promptText V (rfPrompt f) (rfFile f));
     (case t of
        Inl err \<Rightarrow> State_Monad.return (Some err)
      | Inr input \<Rightarrow> do {
          m \<leftarrow> on_world (\<lambda>w. (modelFromFlags (cli_getenv V w) (rfModel f) (rfBaseURL f), w));
          (case m of
             Inl err \<Rightarrow> State_Monad.return (Some err)
           | Inr c \<Rightarrow> (case New (run_config V f c) of
               Inl err \<Rightarrow> State_Monad.return (Some err)
             | Inr agent \<Rightarrow> do {
                 now \<leftarrow> time_now (cvEnv V);
                 (let ctx = CtxWithDeadline CtxBackground (now + rfTimeout f) in do {
                    (res, err) \<leftarrow> Run (cvEnv V) agent ctx input;
                    out \<leftarrow> (case err of
                       Some e \<Rightarrow> State_Monad.return (Some e)
                     | None \<Rightarrow> print_result V f res);
                    _ \<leftarrow> ctx_cancel (cvEnv V) ctx;
                    State_Monad.return out
                  })
               }))
        })
   }"

section \<open>rimeno workflow\<close>

definition named_agent :: "'w model \<Rightarrow> string \<Rightarrow> 'w agent" where
  "named_agent m name = projr (New ((plain_config m)\<lparr>cfgName := name\<rparr>))"

definition fake_agent :: "'w cli_env \<Rightarrow> string \<Rightarrow> ('w st, 'w agent) state" where
  "fake_agent V name = do {
     m \<leftarrow> fresh_double V (WithID name (NewModel [text_turn (name @ '' output'')]));
     State_Monad.return (named_agent m name)
   }"

definition research_steps :: "'w cli_env \<Rightarrow> 'w agent \<Rightarrow> 'w agent \<Rightarrow> 'w agent \<Rightarrow> 'w wf_step list" where
  "research_steps V planner research writer =
     [AgentStep (cvEnv V) ''plan'' planner (\<lambda>s. ''Make a short research plan for: '' @ wsInput s) [],
      AgentStep (cvEnv V) ''research'' research
        (\<lambda>s. ''Research according to this plan:'' @ newline # Get s ''plan'') [''plan''],
      AgentStep (cvEnv V) ''write'' writer
        (\<lambda>s. ''Write a concise summary using this research:'' @ newline # Get s ''research'') [''research'']]"

text \<open>The chain of calls of \<open>Step\<close>; \<open>Inl\<close> is its panic on a duplicate name.\<close>

definition research_workflow :: "'w wf_step list \<Rightarrow> string + 'w workflow" where
  "research_workflow sts = foldl (\<lambda>r st. case r of Inl p \<Rightarrow> Inl p | Inr w \<Rightarrow> workflow_Step w st)
     (Inr (workflow_New ''research'')) sts"

definition print_outputs :: "'w cli_env \<Rightarrow> wf_result \<Rightarrow> ('w st, unit) state" where
  "print_outputs V res = do {
     _ \<leftarrow> to_stdout V (concat (map (\<lambda>(name, out). println (rule_mark @ '' '' @ name @ '' '' @ rule_mark) @ println (println out))
            (cvOutputOrder V (wrOutputs res))));
     to_stdout V (println (''aggregated usage: '' @ cvFmtUsage V (wrUsage res)))
   }"

text \<open>\<open>None\<close> is a run that does not return.\<close>

definition run_workflow ::
  "'w cli_env \<Rightarrow> string \<Rightarrow> 'w agent \<Rightarrow> 'w agent \<Rightarrow> 'w agent \<Rightarrow> ('w st, goerr option option) state" where
  "run_workflow V prompt planner research writer = (case research_workflow (research_steps V planner research writer) of
       Inl p \<Rightarrow> State_Monad.return None
     | Inr w \<Rightarrow> do {
         r \<leftarrow> workflow_Run (cvEnv V) (cvPermute V) w 0 CtxBackground prompt;
         (case r of
            None \<Rightarrow> State_Monad.return None
          | Some (_, Some err) \<Rightarrow> State_Monad.return (Some (Some err))
          | Some (None, None) \<Rightarrow> State_Monad.return None
          | Some (Some res, None) \<Rightarrow> do {
              _ \<leftarrow> print_outputs V res;
              State_Monad.return (Some None)
            })
       })"

definition offline_note :: string where
  "offline_note = ''(no credentials found '' @ [CHR 0xE2, CHR 0x80, CHR 0x94] @ '' using a fake model for an offline demo)''"

definition cmdWorkflow :: "'w cli_env \<Rightarrow> workflow_flags \<Rightarrow> ('w st, goerr option option) state" where
  "cmdWorkflow V f = do {
     getenv \<leftarrow> on_world (\<lambda>w. ((cli_getenv V w), w));
     if hasCredentials getenv (wfModel f)
     then (case modelFromFlags getenv (wfModel f) (wfBaseURL f) of
         Inl err \<Rightarrow> State_Monad.return (Some (Some err))
       | Inr c \<Rightarrow> (let mk = named_agent (client_model V c)
                   in run_workflow V (wfPrompt f) (mk ''planner'') (mk ''researcher'') (mk ''writer'')))
     else do {
       _ \<leftarrow> to_stderr V (println offline_note);
       planner \<leftarrow> fake_agent V ''planner'';
       research \<leftarrow> fake_agent V ''researcher'';
       writer \<leftarrow> fake_agent V ''writer'';
       run_workflow V (wfPrompt f) planner research writer
     }
   }"

section \<open>rimeno serve\<close>

definition serve_factory ::
  "'w cli_env \<Rightarrow> serve_flags \<Rightarrow> ctx \<Rightarrow> new_session_params \<Rightarrow> 'w \<Rightarrow> 'w factory_outcome \<times> 'w" where
  "serve_factory V f c p w =
     (let instructions = (if npInstructions p \<noteq> [] then npInstructions p else sfSystem f);
          config = (\<lambda>m. FactoryReturns ((plain_config m)\<lparr>cfgInstructions := instructions,
                      cfgTools := demo_tools V (sfDemoTools f)\<rparr>))
      in if sfDemo f
         then (case dvPut (cvScript V ''fake'') new_script w of w \<Rightarrow>
            (config (fake_as_model (cvScript V ''fake'') echoModel), w))
         else (case modelFromFlags (cli_getenv V w) (sfModel f) (sfBaseURL f) of
             Inl err \<Rightarrow> (FactoryFails err, w)
           | Inr m \<Rightarrow> (config (client_model V m), w)))"

definition serve_banner :: string where
  "serve_banner = ''rimeno rpc: serving JSON-RPC 2.0 on stdio (methods: initialize, ping, session/new, session/prompt, session/close)''"

definition serve_server :: "'w cli_env \<Rightarrow> serve_flags \<Rightarrow> 'w server" where
  "serve_server V f = NewServer (Some (serve_factory V f)) [WithServerInfo ''rimeno'' ''0.1.0'']"

text \<open>
  \<open>ServeStdio\<close> under the interleaving of the environment; \<open>None\<close> where this does not lead to the return of
  \<open>Serve\<close>, a connection that is still open.
\<close>

definition serve_stdio :: "'w cli_env \<Rightarrow> 'w server \<Rightarrow> ('w st, goerr option option) state" where
  "serve_stdio V srv = State (\<lambda>st. case Serve srv st of
       Inl err \<Rightarrow> (Some (Some err), st)
     | Inr s \<Rightarrow> (case steps (srv_step ((cvServerEnv V)\<lparr>svEnv := cvEnv V\<rparr>)) (cvInterleaving V) s of
           None \<Rightarrow> (None, st)
         | Some t \<Rightarrow> (case coServe t of SvReturned err \<Rightarrow> (Some err, coSt t) | _ \<Rightarrow> (None, coSt t))))"

definition cmdServe :: "'w cli_env \<Rightarrow> serve_flags \<Rightarrow> ('w st, goerr option option) state" where
  "cmdServe V f = do {
     _ \<leftarrow> to_stderr V (println serve_banner);
     serve_stdio V (serve_server V f)
   }"

section \<open>The flags\<close>

definition demo_args :: "number_parsers \<Rightarrow> string list \<Rightarrow> nat + bool" where
  "demo_args N args = parse_flags N [''v'' \<mapsto> FlagBool (\<lambda>b _. b)] args True"

definition run_flag_set :: "string \<rightharpoonup> run_flags flag_value" where
  "run_flag_set = map_of [
     (''p'', FlagString (\<lambda>x f. f\<lparr>rfPrompt := x\<rparr>)), (''f'', FlagString (\<lambda>x f. f\<lparr>rfFile := x\<rparr>)),
     (''model'', FlagString (\<lambda>x f. f\<lparr>rfModel := x\<rparr>)), (''base-url'', FlagString (\<lambda>x f. f\<lparr>rfBaseURL := x\<rparr>)),
     (''system'', FlagString (\<lambda>x f. f\<lparr>rfSystem := x\<rparr>)), (''demo-tools'', FlagBool (\<lambda>b f. f\<lparr>rfDemoTools := b\<rparr>)),
     (''trace'', FlagBool (\<lambda>b f. f\<lparr>rfTrace := b\<rparr>)), (''v'', FlagBool (\<lambda>b f. f\<lparr>rfVerbose := b\<rparr>)),
     (''stream'', FlagBool (\<lambda>b f. f\<lparr>rfStream := b\<rparr>)), (''json'', FlagBool (\<lambda>b f. f\<lparr>rfJSON := b\<rparr>)),
     (''max-steps'', FlagInt (\<lambda>n f. f\<lparr>rfMaxSteps := n\<rparr>)), (''timeout'', FlagDuration (\<lambda>d f. f\<lparr>rfTimeout := d\<rparr>)),
     (''save-trace'', FlagString (\<lambda>x f. f\<lparr>rfSaveTrace := x\<rparr>))]"

definition run_args :: "number_parsers \<Rightarrow> string list \<Rightarrow> nat + run_flags" where
  "run_args N args = parse_flags N run_flag_set args
     \<lparr>rfPrompt = [], rfFile = [], rfModel = [], rfBaseURL = [], rfSystem = [], rfDemoTools = False, rfTrace = False,
      rfVerbose = False, rfStream = False, rfJSON = False, rfMaxSteps = 0, rfTimeout = 2 * 60 * 10 ^ 9, rfSaveTrace = []\<rparr>"

definition workflow_args :: "number_parsers \<Rightarrow> string list \<Rightarrow> nat + workflow_flags" where
  "workflow_args N args = parse_flags N (map_of [(''p'', FlagString (\<lambda>x f. f\<lparr>wfPrompt := x\<rparr>)),
       (''model'', FlagString (\<lambda>x f. f\<lparr>wfModel := x\<rparr>)), (''base-url'', FlagString (\<lambda>x f. f\<lparr>wfBaseURL := x\<rparr>))]) args
     \<lparr>wfPrompt = ''the Go programming language'', wfModel = [], wfBaseURL = []\<rparr>"

definition serve_args :: "number_parsers \<Rightarrow> string list \<Rightarrow> nat + serve_flags" where
  "serve_args N args = parse_flags N (map_of [(''model'', FlagString (\<lambda>x f. f\<lparr>sfModel := x\<rparr>)),
       (''base-url'', FlagString (\<lambda>x f. f\<lparr>sfBaseURL := x\<rparr>)), (''system'', FlagString (\<lambda>x f. f\<lparr>sfSystem := x\<rparr>)),
       (''demo-tools'', FlagBool (\<lambda>b f. f\<lparr>sfDemoTools := b\<rparr>)), (''demo'', FlagBool (\<lambda>b f. f\<lparr>sfDemo := b\<rparr>))]) args
     \<lparr>sfModel = [], sfBaseURL = [], sfSystem = [], sfDemoTools = False, sfDemo = False\<rparr>"

lemma serve_demo_args: "serve_args N [''-demo''] =
    Inr \<lparr>sfModel = [], sfBaseURL = [], sfSystem = [], sfDemoTools = False, sfDemo = True\<rparr>"
  by (simp add: serve_args_def ends_flags_def split_flag_def ParseBool_def)

section \<open>main\<close>

definition usage_lines :: "string list" where
  "usage_lines = [
     ''rimeno '' @ [CHR 0xE2, CHR 0x80, CHR 0x94] @ '' embeddable Go agent harness (CLI for testing)'',
     [],
     ''Commands:'',
     ''  demo                Run a scripted demo with a fake model (no API key needed).'',
     ''  run       -p TEXT   Run a prompt against an OpenAI-compatible endpoint.'',
     ''  workflow  -p TEXT   Run a demo multi-agent workflow.'',
     ''  serve               Serve rimeno over JSON-RPC 2.0 on stdio (embed from any host).'',
     [],
     ''run/workflow read credentials from flags and the environment:'',
     ''  -model                    model id (required)'',
     ''  -base-url / OPENAI_BASE_URL   API base URL (default '' @ DefaultBaseURL @ '')'',
     ''  OPENAI_API_KEY            API key'',
     [],
     ''Examples:'',
     ''  rimeno demo'',
     ''  OPENAI_API_KEY=... rimeno run -model gpt-4o-mini -p \"what is 21+21?\" -demo-tools -trace'']"

definition print_usage :: "'w cli_env \<Rightarrow> ('w st, unit) state" where
  "print_usage V = to_stderr V (concat (map println usage_lines))"

text \<open>The exit code of the process after a command has returned; \<open>None\<close> is a command that does not return.\<close>

definition finish :: "'w cli_env \<Rightarrow> goerr option \<Rightarrow> ('w st, nat option) state" where
  "finish V err = (case err of
       None \<Rightarrow> State_Monad.return (Some 0)
     | Some e \<Rightarrow> do {
         _ \<leftarrow> to_stderr V (println (''rimeno: '' @ Error e));
         State_Monad.return (Some 1)
       })"

definition with_flags ::
  "'w cli_env \<Rightarrow> nat + 'f \<Rightarrow> ('f \<Rightarrow> ('w st, goerr option option) state) \<Rightarrow> ('w st, nat option) state" where
  "with_flags V flags cmd = (case flags of
       Inl code \<Rightarrow> State_Monad.return (Some code)
     | Inr f \<Rightarrow> do {
         r \<leftarrow> cmd f;
         (case r of None \<Rightarrow> State_Monad.return None | Some err \<Rightarrow> finish V err)
       })"

definition returning :: "('w st, goerr option) state \<Rightarrow> ('w st, goerr option option) state" where
  "returning m = do { r \<leftarrow> m; State_Monad.return (Some r) }"

text \<open>\<open>dotenv.Load()\<close> on the variables of the process.\<close>

definition dotenv_load :: "'w cli_env \<Rightarrow> 'w \<Rightarrow> (goerr + string) \<times> 'w" where
  "dotenv_load V w = (case Load (cvStat V w) (cvGetwd V w) (cvOpen V w) (cvVarOrder V) [] (cvEnviron V w) of
       (r, env) \<Rightarrow> (r, cvSetEnviron V env w))"

definition load_env :: "'w cli_env \<Rightarrow> ('w st, unit) state" where
  "load_env V = do {
     r \<leftarrow> on_world (dotenv_load V);
     (case r of
        Inl _ \<Rightarrow> State_Monad.return ()
      | Inr p \<Rightarrow> if p \<noteq> [] then to_stderr V (println (''rimeno: loaded env from '' @ p)) else State_Monad.return ())
   }"

text \<open>\<open>args\<close> is \<open>os.Args\<close> without the name of the program.\<close>

definition rimeno_main :: "'w cli_env \<Rightarrow> string list \<Rightarrow> ('w st, nat option) state" where
  "rimeno_main V args = do {
     _ \<leftarrow> load_env V;
     (case args of
        [] \<Rightarrow> do {
          _ \<leftarrow> print_usage V;
          State_Monad.return (Some 2)
        }
      | cmd # rest \<Rightarrow>
        if cmd = ''demo'' then with_flags V (demo_args (cvNumbers V) rest) (\<lambda>f. returning (cmdDemo V f))
        else if cmd = ''run'' then with_flags V (run_args (cvNumbers V) rest) (\<lambda>f. returning (cmdRun V f))
        else if cmd = ''workflow'' then with_flags V (workflow_args (cvNumbers V) rest) (cmdWorkflow V)
        else if cmd = ''serve'' then with_flags V (serve_args (cvNumbers V) rest) (cmdServe V)
        else if cmd = ''-h'' \<or> cmd = ''--help'' \<or> cmd = ''help'' then do {
          _ \<leftarrow> print_usage V;
          State_Monad.return (Some 0)
        }
        else do {
          _ \<leftarrow> to_stderr V (''rimeno: unknown command '' @ strconv_quote cmd @ [newline, newline]);
          _ \<leftarrow> print_usage V;
          State_Monad.return (Some 2)
        })
   }"

end
