(* ===== verification/Rpc_Server_Agents.thy ===== *)
theory Rpc_Server_Agents
  imports Rpc_Server_Props
begin

text \<open>
  The agents behind the sessions of a connection come from the factory of the host: what holds of every
  agent the factory's configurations give holds of the agent of every session, in every
  interleaving. The locale \<open>factory_agents\<close> states the law of the factory.
\<close>

fun made_from :: "('w agent \<Rightarrow> bool) \<Rightarrow> 'w phase \<Rightarrow> bool" where
  "made_from P (JAlloc cfg st) \<longleftrightarrow> (\<forall>h a. New (cfg\<lparr>cfgOnEvent := h\<rparr>) = Inr a \<longrightarrow> P a)"
| "made_from P (JStore sid a st) \<longleftrightarrow> P a"
| "made_from P _ \<longleftrightarrow> True"

definition agents_inv :: "'w server \<Rightarrow> ('w agent \<Rightarrow> bool) \<Rightarrow> 'w conn \<Rightarrow> bool" where
  "agents_inv srv P s \<longleftrightarrow> lock_inv s \<and> coSrv s = srv \<and> (\<forall>r \<in> set (coObjs s). P (rsAgent r)) \<and>
     (\<forall>j \<in> set (coJobs s). made_from P (jbPhase j))"

lemma entry_phase_made: "entry_phase ph \<Longrightarrow> made_from P ph"
  by (cases ph) simp_all

lemma objs_update_agents:
  assumes "\<forall>r \<in> set os. P (rsAgent r)" "k < length os"
  shows "\<forall>r \<in> set (os[k := (os ! k)\<lparr>rsSess := x\<rparr>]). P (rsAgent r)"
    and "\<forall>r \<in> set (os[k := (os ! k)\<lparr>rsHolder := h\<rparr>]). P (rsAgent r)"
  using assms by (auto dest!: set_update_subset_insert [THEN subsetD])

lemma made_from_move:
  assumes "\<forall>j \<in> set (coJobs s). made_from P (jbPhase j)"
    and jobs: "coJobs t = (coJobs s)[i := \<lparr>jbLine = jbLine (coJobs s ! i), jbPhase = phase_at t i\<rparr>]"
    and "made_from P (phase_at t i)"
  shows "\<forall>j \<in> set (coJobs t). made_from P (jbPhase j)"
  by (subst jobs) (use assms(1,3) in \<open>auto dest!: set_update_subset_insert [THEN subsetD]\<close>)

locale factory_agents =
  fixes srv :: "'w server" and P :: "'w agent \<Rightarrow> bool"
  assumes factory_makes: "srvFactory srv = Some f \<Longrightarrow> f c p w = (FactoryReturns cfg, w') \<Longrightarrow>
    New (cfg\<lparr>cfgOnEvent := h\<rparr>) = Inr a \<Longrightarrow> P a"
begin

lemma agents_job_step:
  assumes inv: "agents_inv srv P s" and i: "i < length (coJobs s)" and st: "job_step V i s = Some t"
  shows "agents_inv srv P t"
proof -
  have s: "lock_inv s" "coSrv s = srv" "\<forall>r \<in> set (coObjs s). P (rsAgent r)" "made_from P (phase_at s i)"
    using inv i by (simp_all add: agents_inv_def)
  have k: "k < length (coObjs s)" if "holding (phase_at s i) = Some k \<or> waiting_for (phase_at s i) = Some k" for k
    using lock_invD(2,3) [OF s(1) i] that by blast
  have "srv_step V (JobStep i) s = Some t" using i st by simp
  then have "lock_inv t" by (rule lock_inv_step [OF s(1)])
  moreover have "coSrv t = coSrv s"
    using st by (cases "phase_at s i") (auto simp: job_step_def step_ops Let_def
        split: option.splits prod.splits sum.splits factory_outcome.splits if_splits)
  moreover have "(\<forall>r \<in> set (coObjs t). P (rsAgent r)) \<and> made_from P (phase_at t i)"
  proof (cases "phase_at s i")
    case JLine
    then show ?thesis using st i s by (auto simp: job_step_def entry_phase_made [OF handleLine_enters])
  next
    case (JReturn r)
    then show ?thesis using st i s by (auto simp: job_step_def entry_phase_made [OF answer_enters])
  next
    case (JBuild p state)
    then show ?thesis using st i s(3)
      by (auto simp: job_step_def build_factory_def s(2) intro: factory_makes split: option.splits prod.splits factory_outcome.splits)
  next
    case (JAlloc cfg state)
    then show ?thesis using st i s by (auto simp: job_step_def build_agent_def Let_def split: sum.splits)
  next
    case (JStore sid ag state)
    then show ?thesis using st i s by (auto simp: job_step_def conn_store_def)
  next
    case (JLookup sid input)
    then show ?thesis using st i s by (auto simp: job_step_def conn_lookup_def split: option.splits)
  next
    case (JLock n input)
    then show ?thesis using st i objs_update_agents [OF s(3) k]
      by (auto simp: job_step_def session_lock_def split: if_splits)
  next
    case (JLocked n input)
    then show ?thesis using st i s(3) objs_update_agents [OF s(3) k]
      by (auto simp: job_step_def session_run_def Let_def split: option.splits prod.splits)
  next
    case (JUnlock n r)
    then show ?thesis using st i objs_update_agents [OF s(3) k]
      by (auto simp: job_step_def session_unlock_def)
  next
    case (JDelete sid)
    then show ?thesis using st i s by (auto simp: job_step_def conn_delete_def)
  next
    case (JWrite v)
    then show ?thesis using st i s by (auto simp: job_step_def write_response_def)
  qed (use st in \<open>simp add: job_step_def\<close>)
  ultimately show ?thesis
    using made_from_move [OF _ job_step_jobs [OF st i], of P] inv by (simp add: agents_inv_def)
qed

lemma agents_step:
  assumes inv: "agents_inv srv P s" and st: "srv_step V a s = Some t"
  shows "agents_inv srv P t"
proof (cases a)
  case (JobStep i)
  with st show ?thesis by (auto intro: agents_job_step [OF inv] split: if_splits)
next
  case (JobPanic i r sess st')
  with st obtain k prompt where i: "i < length (coJobs s)" and ph: "phase_at s i = JLocked k (Some prompt)"
    and t: "t = set_job i (JUnlock k (recovered r)) (set_obj k ((coObjs s ! k)\<lparr>rsSess := sess\<rparr>) (s\<lparr>coSt := st'\<rparr>))"
    by (auto split: if_splits phase.splits option.splits)
  have l: "lock_inv s" using inv by (simp add: agents_inv_def)
  have "lock_inv t" by (rule lock_inv_step [OF l st])
  moreover have "k < length (coObjs s)" using lock_invD(3) [OF l i] ph by simp
  ultimately show ?thesis
    using inv i objs_update_agents(1) [of "coObjs s" P k sess]
    by (auto simp: t agents_inv_def set_job_def dest!: set_update_subset_insert [THEN subsetD])
next
  case (ReadLine l e c)
  have "lock_inv t" by (rule lock_inv_step [OF _ st]) (use inv in \<open>simp add: agents_inv_def\<close>)
  with ReadLine st inv show ?thesis
    by (auto simp: agents_inv_def serve_read_def Let_def split: if_splits option.splits read_end.splits)
next
  case ServeReturn
  have "lock_inv t" by (rule lock_inv_step [OF _ st]) (use inv in \<open>simp add: agents_inv_def\<close>)
  with ServeReturn st inv show ?thesis by (auto simp: agents_inv_def split: serve_phase.splits if_splits)
qed

end

sublocale factory_agents \<subseteq> agents: step_invariant "srv_step V" "new_conn srv st" "agents_inv srv P" for V st
proof
  show "agents_inv srv P (new_conn srv st)" by (simp add: agents_inv_def lock_inv_start) (simp add: new_conn_def)
qed (rule agents_step)

context factory_agents
begin

lemma session_agent:
  assumes "reach (srv_step V) (new_conn srv st) s" "k < length (coObjs s)"
  shows "P (rsAgent (coObjs s ! k))"
  using agents.reach_inv [OF assms(1)] assms(2) by (simp add: agents_inv_def)

end

end
