(* ===== verification/Cli_Props.thy ===== *)
theory Cli_Props
  imports Cli Rpc_Server_Agents Rpc_Server_Sessions
begin

text \<open>
  What the commands promise where their parts meet: a prompt to \<open>rimeno serve -demo\<close> comes back as its
  echo, through the server, the session, the run loop and the scripted model.
\<close>

section \<open>The echo\<close>

lemma last_user_snoc [simp]: "last_user (ms @ [UserMessage x]) = x"
  by (simp add: last_user_def UserMessage_def)

definition echo_response :: "string \<Rightarrow> response" where
  "echo_response x = fake_response (''echo: '' @ x) []
     (usage_of (int (length x) div 4) 1 (int (length x) div 4 + 1)) StopReasonStop []"

text \<open>An agent of the demo server: it does not stream, and has neither limits nor an output type.\<close>

definition echo_agent :: "'w agent \<Rightarrow> bool" where
  "echo_agent a \<longleftrightarrow> (\<exists>V. agModel a = fake_as_model V echoModel) \<and> agOutput a = None \<and> agCompactor a = None \<and>
     \<not> agStream a \<and> \<not> agResponsesThreading a \<and> agMaxSteps a > 0 \<and>
     agBudget a = \<lparr>MaxTotalTokens = 0, MaxCostUSD = 0, MaxToolCalls = 0, Timeout = 0, Deadline = 0\<rparr>"

lemma add_tools_demo: "add_tools Map.empty [] (demo_tools V b) \<noteq> Inl e"
  by (simp add: demo_tools_def demoAddTool_def demoNowTool_def NewTool_def)

lemma serve_factory_echo:
  assumes "sfDemo f" "serve_factory V f c p w = (FactoryReturns cfg, w')" "New (cfg\<lparr>cfgOnEvent := h\<rparr>) = Inr a"
  shows "echo_agent a"
proof -
  have cfg: "cfg = (plain_config (fake_as_model (cvScript V ''fake'') echoModel))
      \<lparr>cfgInstructions := if npInstructions p \<noteq> [] then npInstructions p else sfSystem f, cfgTools := demo_tools V (sfDemoTools f)\<rparr>"
    using assms(1,2) by (simp add: serve_factory_def Let_def)
  show ?thesis
    using assms(3) unfolding cfg
    by (auto simp: New_def plain_config_def echo_agent_def DefaultMaxSteps_def split: sum.splits prod.splits)
qed

lemma echo_generate:
  assumes "echo_agent a"
  shows "fst (run_state (generate E a c (buildRequest a (ms @ [UserMessage x]))) t) = Inr (echo_response x)"
proof -
  obtain V where "agModel a = fake_as_model V echoModel" "\<not> agStream a" using assms by (auto simp: echo_agent_def)
  then show ?thesis
    by (simp add: generate_def fake_as_model_def fake_Generate_def take_turn_def echoModel_def echo_reply_def
        echo_response_def buildRequest_def Let_def split: prod.splits)
qed

lemma echo_run:
  assumes a: "echo_agent a" and c: "\<And>c w. fst (envCtxErr E c w) = None"
    and r: "run_spec E a s (UserMessage x) (agBudget a) ts r err"
  shows "err = None" "resText (rnRes r) = ''echo: '' @ x" "resStopReason (rnRes r) = StopReasonStop"
    "resSteps (rnRes r) = 1" "resOutput (rnRes r) = AnyNil"
    "ssHistory (rnSess r) = ssHistory s @ [UserMessage x, AssistantMessage (''echo: '' @ x)]"
proof -
  obtain c0 tr now where t: "turns E a c0 0 (run_start a s (UserMessage x) tr (newBudgetTracker now (agBudget a))) ts r err"
    using r by (auto simp: run_spec_def)
  let ?r0 = "run_start a s (UserMessage x) tr (newBudgetTracker now (agBudget a))"
  let ?s0 = "start_session s (UserMessage x) tr"
  have budget: "check n (rnBt ?r0) = None" for n
    using a by (simp add: echo_agent_def check_def newBudgetTracker_def)
  have sticky: "ctx_sticky E" using c unfolding ctx_sticky_def by (metis fst_conv option.distinct(1))
  have no_stop: "\<not> ctx_stop E (rnBt ?r0) reason e" for reason e
    using budget c sticky by (auto simp: ctx_stop_def)
  have prep: "s2 = ?s0" if "prepared a (rnSess ?r0) s2" for s2
    using that a by (auto simp: prepared_def echo_agent_def threadingActive_def)
  have req: "buildRequestLocked a ?s0 = buildRequest a (ssHistory s @ [UserMessage x])"
    using a by (simp add: buildRequestLocked_def echo_agent_def threadingActive_def)
  have gen: "resp = echo_response x" if "generated E a c0 ?s0 resp" for resp
    using that echo_generate [OF a, of E c0 "ssHistory s" x] by (auto simp: generated_def req)
  have fail: "\<not> model_failed E a c0 ?s0 e" for e
    using echo_generate [OF a, of E c0 "ssHistory s" x] by (auto simp: model_failed_def req)
  have no_calls: "msgToolCalls (rspMessage (echo_response x)) = []"
    by (simp add: echo_response_def fake_response_def AssistantMessage_def)
  have out: "agOutput a = None" using a by (simp add: echo_agent_def)
  have body: "err = None \<and> r = (let r1 = record_response a 0 (echo_response x) ?r0 in
      r1\<lparr>rnRes := (rnRes r1)\<lparr>resText := msgText (rspMessage (echo_response x)), resStopReason := StopReasonStop\<rparr>\<rparr>)"
    if "body_rel E a c0 0 ?r0 ts' (SReturn r err)" for ts'
    using that
  proof (cases rule: body_rel.cases)
    case (answer s2 resp r1 out)
    have s2: "s2 = ?s0" using prep answer by blast
    have "generated E a c0 ?s0 resp" using answer s2 by simp
    then have "resp = echo_response x" by (rule gen)
    then show ?thesis using answer s2 out by (simp add: Let_def run_start_def)
  qed (use prep gen fail no_stop no_calls out budget in auto)
  have body': "err = None \<and> r = (let r1 = record_response a 0 (echo_response x) ?r0 in
      r1\<lparr>rnRes := (rnRes r1)\<lparr>resText := msgText (rspMessage (echo_response x)), resStopReason := StopReasonStop\<rparr>\<rparr>)"
    using t
  proof (cases rule: turns.cases)
    case ended
    then show ?thesis using no_stop by blast
  next
    case max_steps
    then show ?thesis using a by (simp add: echo_agent_def)
  next
    case return
    then show ?thesis using body by blast
  next
    case (continue ts1 r1 us)
    have False using continue(3)
    proof (cases rule: body_rel.cases)
      case (repair s2 resp r1 spec e)
      then show False using out by simp
    next
      case (tools s2 resp r1 bt' ms)
      then have "generated E a c0 ?s0 resp" using prep by metis
      then show False using gen tools no_calls by blast
    qed
    then show ?thesis ..
  qed
  have a': "\<not> agResponsesThreading a" using a by (simp add: echo_agent_def)
  show "err = None" "resText (rnRes r) = ''echo: '' @ x" "resStopReason (rnRes r) = StopReasonStop"
    "resSteps (rnRes r) = 1" "resOutput (rnRes r) = AnyNil"
    "ssHistory (rnSess r) = ssHistory s @ [UserMessage x, AssistantMessage (''echo: '' @ x)]"
    using body' by (simp_all add: Let_def record_response_def sess_response_def echo_response_def fake_response_def
        run_start_def result_zero_def threadingActive_def AssistantMessage_def a')
qed

interpretation serve: factory_agents "serve_server C f" "\<lambda>a. sfDemo f \<longrightarrow> echo_agent a" for C f
proof
  show "sfDemo f \<longrightarrow> echo_agent a"
    if "srvFactory (serve_server C f) = Some g" "g c p w = (FactoryReturns cfg, w')" "New (cfg\<lparr>cfgOnEvent := h\<rparr>) = Inr a"
    for g c p w cfg w' h a
  proof -
    have "serve_factory C f c p w = (FactoryReturns cfg, w')"
      using that(1,2) by (simp add: serve_server_def NewServer_def WithServerInfo_def)
    from serve_factory_echo [OF _ this that(3)] show ?thesis by blast
  qed
qed

text \<open>
  C20: Whatever the interleaving of a connection to \<open>rimeno serve -demo\<close>, a prompt that has its session's
  mutex is answered, without an error and after one step, with the echo of its text, and the session
  has grown by the prompt and the echo.
\<close>

theorem serve_demo_echoes:
  assumes "sfDemo f" "\<And>c w. fst (envCtxErr (svEnv S) c w) = None"
    and "reach (srv_step S) (new_conn (serve_server V f) st) s"
    and "i < length (coJobs s)" "jbPhase (coJobs s ! i) = JLocked k (Some x)"
  shows "\<exists>t u sm. srv_step S (JobStep i) s = Some t \<and>
    jbPhase (coJobs t ! i) = JUnlock k (Inr (PromptResult (''echo: '' @ x) AnyNil u StopReasonStop 1 sm)) \<and>
    ssHistory (rsSess (coObjs t ! k)) =
      ssHistory (rsSess (coObjs s ! k)) @ [UserMessage x, AssistantMessage (''echo: '' @ x)]"
proof -
  let ?r = "coObjs s ! k"
  have k: "k < length (coObjs s)"
    using lock_invD(3) [OF srv.reach_inv [OF assms(3)] assms(4)] assms(5) by simp
  have a: "echo_agent (rsAgent ?r)" using serve.session_agent [OF assms(3) k] assms(1) by blast
  obtain res err sess st' where q: "run_state (Send (svEnv S) (rsAgent ?r) (rsSess ?r) (svCtx S) x) (coSt s) = (((res, err), sess), st')"
    by (metis prod.collapse)
  then have "fst (run_state (runWith (svEnv S) (rsAgent ?r) (rsSess ?r) (svCtx S) (UserMessage x) (agBudget (rsAgent ?r))) (coSt s))
      = ((res, err), sess)"
    by (simp add: Send_def)
  then obtain ts r where r: "res = rnRes r" "sess = rnSess r"
      "run_spec (svEnv S) (rsAgent ?r) (rsSess ?r) (UserMessage x) (agBudget (rsAgent ?r)) ts r err"
    by (rule runWith_turns)
  note e = echo_run [OF a assms(2) r(3)]
  show ?thesis
    using assms(4,5) k q e r(1,2) by (simp add: job_step_def session_run_def prompt_reply_def Let_def set_job_def set_obj_def)
qed

text \<open>A command line over a world that is the counter of the scripted model.\<close>

definition demo_double :: "nat double_env" where
  "demo_double = \<lparr>dvGet = (\<lambda>w. \<lparr>scIdx = w, scRequests = []\<rparr>), dvPut = (\<lambda>s w. scIdx s), dvWait = (\<lambda>d c w. (None, w))\<rparr>"

definition offline_http :: "nat http_env" where
  "offline_http = \<lparr>hxRange = (\<lambda>w xs. xs), hxNewRequest = (\<lambda>u. None), hxDo = (\<lambda>c r w. (Inl (ErrText ''offline''), w)),
     hxAcquire = (\<lambda>c w. (None, w)), hxRelease = (\<lambda>w. w), hxWait = (\<lambda>c d w. (None, w)), hxRand = (\<lambda>n w. (0, w)),
     hxUntil = (\<lambda>s w. (None, w)), hxJSONValid = (\<lambda>s. False), hxErrorEnvelope = (\<lambda>s. ([], [])), hxStatusText = (\<lambda>n. []),
     hxEncode = (\<lambda>r. Inl (ErrText [])), hxDecode = (\<lambda>s. Inl (ErrText s))\<rparr>"

definition offline_codec :: resp_codec where
  "offline_codec = \<lparr>rcEncode = (\<lambda>r. Inl (ErrText [])), rcDecode = (\<lambda>s. Inl (ErrText s)), rcEvent = (\<lambda>s. Inl (ErrText s))\<rparr>"

definition demo_cli :: "nat cli_env" where
  "demo_cli = \<lparr>cvEnv = demo_env, cvNumbers = \<lparr>npInt = (\<lambda>s. None), npDuration = (\<lambda>s. None)\<rparr>,
     cvEnviron = (\<lambda>w. Map.empty), cvSetEnviron = (\<lambda>e w. w), cvStat = (\<lambda>w p. None),
     cvGetwd = (\<lambda>w. None), cvVarOrder = (\<lambda>xs. xs),
     cvReadFile = (\<lambda>p w. (Inr [], w)), cvOpen = (\<lambda>w p. Inr ([], None)), cvWriteFile = (\<lambda>p x w. (None, w)), cvStdout = (\<lambda>x w. w), cvStderr = (\<lambda>x w. w),
     cvScript = (\<lambda>n. demo_double), cvHTTP = offline_http, cvStreamHTTP = (\<lambda>b. Inl (ErrText b)), cvRespCodec = offline_codec,
     cvServerEnv = demo_server_env, cvInterleaving = [],
     cvAddArgs = (\<lambda>r. Inr (20, 22)), cvNowArgs = (\<lambda>r. Inr ()), cvAddSchema = ''{}'', cvNowSchema = ''{}'',
     cvFloatJSON = (\<lambda>q. Inr ''42''), cvFmtFloat = (\<lambda>q. ''42''), cvRFC3339 = (\<lambda>t. []), cvMapOrder = (\<lambda>m. []),
     cvOutputOrder = (\<lambda>m. []), cvPermute = (\<lambda>xs. xs), cvTraceJSON = (\<lambda>t. Inr []), cvResultJSON = (\<lambda>r s. Inr []),
     cvFmtMillis = (\<lambda>d. []), cvFmtCost = (\<lambda>q. []), cvFmtUsage = (\<lambda>u. [])\<rparr>"

definition demo_flags :: serve_flags where
  "demo_flags = \<lparr>sfModel = [], sfBaseURL = [], sfSystem = [], sfDemoTools = False, sfDemo = True\<rparr>"

definition echo_server_env :: "nat server_env" where
  "echo_server_env = demo_server_env\<lparr>svRequest := (\<lambda>line. if line = ''N'' then Inr (demo_request ''1'' ''session/new'')
        else Inr (demo_request ''2'' ''session/prompt'')), svPromptParams := (\<lambda>r. Inr (session_id 1, ''hi''))\<rparr>"

definition echo_traffic :: "nat srv_action list" where
  "echo_traffic = [ReadLine ''N'' None None, JobStep 0, JobStep 0, JobStep 0, JobStep 0, ReadLine ''C'' None None,
     JobStep 1, JobStep 1, JobStep 1]"

lemma session_id_nonempty [simp]: "session_id n \<noteq> []"
  by (simp add: session_id_def)

lemma echo_traffic_runs:
  "\<exists>s. steps (srv_step echo_server_env) echo_traffic (new_conn (serve_server demo_cli demo_flags) demo_st) = Some s \<and>
     length (coJobs s) = 2 \<and> jbPhase (coJobs s ! 1) = JLocked 0 (Some ''hi'')"
  by (simp add: echo_traffic_def echo_server_env_def demo_server_env_def demo_trim serve_server_def NewServer_def WithServerInfo_def
      new_conn_def serve_read_def job_step_def set_job_def handleLine_def dispatch_request_def demo_request_def
      handleNewSession_def handlePrompt_def step_ops set_world_def notification_def New_def serve_factory_def demo_flags_def
      demo_tools_def plain_config_def code_defs Let_def uint64_size_def demo_st_def session_lock_def set_obj_def)

theorem serve_demo_echoes_witness:
  "\<exists>s t u sm. jbPhase (coJobs s ! 1) = JLocked 0 (Some ''hi'') \<and> srv_step echo_server_env (JobStep 1) s = Some t \<and>
     jbPhase (coJobs t ! 1) = JUnlock 0 (Inr (PromptResult ''echo: hi'' AnyNil u StopReasonStop 1 sm))"
proof -
  obtain s where "reach (srv_step echo_server_env) (new_conn (serve_server demo_cli demo_flags) demo_st) s"
    and s: "length (coJobs s) = 2" "jbPhase (coJobs s ! 1) = JLocked 0 (Some ''hi'')"
    using echo_traffic_runs reach_steps [OF reach.start] by metis
  moreover have "sfDemo demo_flags" "\<And>c w. fst (envCtxErr (svEnv echo_server_env) c w) = None"
    by (simp_all add: demo_flags_def echo_server_env_def demo_server_env_def demo_env_def)
  ultimately obtain t u sm where "srv_step echo_server_env (JobStep 1) s = Some t"
    "jbPhase (coJobs t ! 1) = JUnlock 0 (Inr (PromptResult (''echo: '' @ ''hi'') AnyNil u StopReasonStop 1 sm))"
    using serve_demo_echoes [of demo_flags echo_server_env demo_cli demo_st s 1 0 "''hi''"] by (metis one_less_numeral_iff semiring_norm(76))
  then have "jbPhase (coJobs s ! 1) = JLocked 0 (Some ''hi'') \<and> srv_step echo_server_env (JobStep 1) s = Some t \<and>
     jbPhase (coJobs t ! 1) = JUnlock 0 (Inr (PromptResult ''echo: hi'' AnyNil u StopReasonStop 1 sm))"
    using s(2) by simp
  then show ?thesis by blast
qed

end
