(* ===== verification/Spec2Isabelle.thy ===== *)
theory Spec2Isabelle
  imports Run_Own Compaction Workflow_Props Memory_Props Schema_Props Dotenv OpenAI_Props Mcp_Client
    Rpc_Server_Sessions Sandbox_Props Jev_Props Telemetry Event_Log Schema_Encoding Cli_Props
begin

text \<open>
  A verification development for \<^bold>\<open>rimeno\<close>, a Go library for agents: a model is called in a loop,
  the tools it asks for are run, and the session, the budget, the trace and the events of the run
  are kept. Around the loop there are subagents, workflows of steps, memory with two stores,
  compaction of long histories, the derivation and validation of JSON Schemas, a client for the
  OpenAI interfaces, a client for tool servers of the Model Context Protocol, a server that offers
  sessions over JSON-RPC, sandboxes for the commands of tools, a client of the Jev service, the
  loading of \<open>.env\<close> files, the export of traces to OpenTelemetry, a log of events, a scripted model for
  tests, and a command line. All paths below are under \<open>src/\<close>.

  \<^bold>\<open>How the parts interact.\<close> \<open>Session.Send\<close> (\<open>run.go\<close>) locks the session and calls \<open>runWith\<close>, which in
  each step checks the budget (\<open>budget.go\<close>), compacts the history (\<open>compaction.go\<close>,
  \<open>memory/compactor.go\<close>), builds a request, calls the model (\<open>openai/\<close>), and either returns the
  decoded answer (\<open>output.go\<close>) or runs the tool calls, one after the other or as goroutines. A tool
  may be a subagent (\<open>subagent.go\<close>), whose run has a budget derived from that of its parent and
  whose trace is grafted into the parent's (\<open>trace.go\<close>). \<open>workflow/\<close> runs agents as the steps of a graph.
  The command line (\<open>cmd/rimeno/\<close>) puts agents, workflows and the server (\<open>rpc/\<close>) together with the OpenAI
  client or the scripted model (\<open>rimenotest/\<close>); a finished trace is what \<open>otel/\<close> exports.

  \<^bold>\<open>How code is modelled.\<close> Go values are the types of \<open>Go_Prelude\<close>: strings are byte lists, \<open>int\<close> and
  \<open>int64\<close> are integers that are wrapped to 64 bits (\<open>i64\<close>) where sums of values from outside are
  formed, \<open>float64\<close> is a rational number (no rounding, no infinities), times are nanoseconds. Structs are records, interfaces are
  records of functions, errors are values of \<open>goerr\<close>. Stateful functions are computations of the
  state monad over \<open>'w st\<close> (\<open>Go_Runtime\<close>): the world, the store of spans and the log of events. What
  is not part of the program (the clock, contexts, random numbers, models, tools, the network, the
  file system, JSON codecs) acts on the world through the functions of an environment, and nothing
  is assumed about it unless a theorem says so. Goroutines are explicit phases; an arbitrary
  function of the environment chooses the goroutine that moves next, so a theorem covers all
  schedules. A Go map that is ranged over is an association list with an arbitrary permutation.

  \<^bold>\<open>The theories.\<close>
  \<^item> \<open>Go_Prelude\<close>, \<open>Go_Utf8\<close>, \<open>Go_Sha256\<close>, \<open>Go_Bufio\<close>, \<open>Go_Runtime\<close>: the parts of the language and of
    its library that the sources use, with their lemmas, and the rules of \<open>post\<close>, by which
    computations are run symbolically.
  \<^item> \<open>Core_Types\<close> (\<open>message.go\<close>, \<open>model.go\<close>, \<open>errors.go\<close>, \<open>events.go\<close>): the data.
  \<^item> \<open>Budget\<close>, \<open>Budget_Fanout\<close> (\<open>budget.go\<close>): the tracker; every operation holds the mutex and is one
    step. The reservations for children that run at the same time keep the sum of all grants
    within the cap, by rule induction on the interleavings.
  \<^item> \<open>Trace\<close>, \<open>Trace_Store\<close>, \<open>Trace_Own\<close> (\<open>trace.go\<close>, \<open>util.go\<close>): spans in a store of addresses; growth of the
    store, that what a run leaves is a tree, and which of its spans are model calls of the run itself.
  \<^item> \<open>Agent\<close> (\<open>agent.go\<close>, \<open>tool.go\<close>, \<open>output.go\<close>, \<open>session.go\<close>, \<open>persistence.go\<close>): configuration, tools,
    structured output, sessions and snapshots. \<open>Demo\<close> has the instance the witnesses use.
  \<^item> \<open>Tool_Calls\<close>, \<open>Tool_Calls_Props\<close> (\<open>run.go\<close>, \<open>subagent.go\<close>): the calls of a turn. \<open>call_step\<close> is
    one step of a goroutine, \<open>par_loop\<close> the fan-out; each goroutine run alone is the sequential call; the
    fuel of \<open>par_loop\<close> is the number of phases left, so it is never used up.
  \<^item> \<open>Run\<close>, \<open>Run_Spec\<close>, \<open>Run_Props\<close>, \<open>Run_Theorems\<close>, \<open>Run_Trace\<close>, \<open>Run_Own\<close> (\<open>run.go\<close>): the loop, its abstract
    specification as an inductive relation of turns, the refinement, and what follows from it:
    outcomes, accounting, threading, pairing of tool results, bounds, the trace. The trace records the
    usage of exactly the responses of the run, which is what the limits of the budget and the charge for a
    subagent are stated over.
  \<^item> \<open>Compaction\<close> (\<open>compaction.go\<close>, \<open>tokenizer.go\<close>): the summarizing compactor.
  \<^item> \<open>Workflow\<close>, \<open>Workflow_Props\<close> (\<open>workflow/\<close>): Kahn's algorithm accepts exactly the acyclic graphs, and
    a validated workflow completes: a log of its execution has every step once, after its dependencies. A step
    of a wave runs as one block; the commits interleave. The
    fuel of \<open>kahn\<close> is the number of steps, since each name is queued at most once.
  \<^item> \<open>Memory_Store\<close>, \<open>Memory_File\<close>, \<open>Memory_Handle\<close>, \<open>Memory_Props\<close> (\<open>memory/\<close>): records and ranking, the
    interface of a store as the locale \<open>record_store\<close> with both stores as its interpretations
    (\<open>mem\<close>, \<open>fstore\<close>), the handle, its tools, the preamble and the compactor with memory. The file
    store may fail at every system call; namespaces whose file names collide share their records, and the laws
    of the locale name the namespaces that an operation leaves alone.
  \<^item> \<open>Schema\<close>, \<open>Schema_Validate\<close>, \<open>Schema_Props\<close>, \<open>Schema_Encoding\<close> (\<open>schema/\<close>): types are a table of descriptors, which may be
    recursive; the derivation has fuel, enough of it gives a result where no chain of pointers or
    embeddings is infinite, and where one is no fuel does. Validation is equivalent to the inductive relation
    \<open>conforms\<close>, and the JSON of the values of a type (\<open>encoded\<close>) conforms to the schema of the type, where the
    derivation agrees with \<open>encoding/json\<close>; that theory lists where it does not.
  \<^item> \<open>Dotenv\<close> (\<open>dotenv/dotenv.go\<close>): parsing and loading, with readers that may fail; the environment always wins; a round trip.
  \<^item> \<open>OpenAI\<close>, \<open>OpenAI_Stream\<close>, \<open>OpenAI_Responses\<close>, \<open>OpenAI_Props\<close> (\<open>openai/\<close>): the client, its retries, the
    two wire formats and both streams, and the client as a model of an agent. The verdict over a
    sequence of answers; bounds of the waits; a stream is assembled to the response of the message
    its deltas add up to, and a streaming agent receives that response.
  \<^item> \<open>Mcp_Rpc\<close>, \<open>Mcp_Client\<close> (\<open>mcp/\<close>): the JSON-RPC connection as a step function on the shared state, with
    an invariant of all reachable states; the operations of the client, and the pagination, which is a
    partial function because a server can keep it going.
  \<^item> \<open>Go_Steps\<close>, \<open>Go_Strconv\<close>, \<open>Go_Retry\<close>: what several components share. Two locales on step functions,
    \<open>step_invariant\<close> (an invariant of all reachable states) and \<open>draining\<close> (what is begun is finished
    when no action is left), and \<open>retry_loop\<close>, a loop over attempts. Their interpretations are on the
    connections of the client (\<open>rpc\<close>) and of the server (\<open>answers\<close>, \<open>sessions\<close>, \<open>srv\<close>), and on the retries of
    the two clients (\<open>openai\<close>, \<open>jev\<close>).
  \<^item> \<open>Rpc_Server\<close>, \<open>Rpc_Server_Props\<close>, \<open>Rpc_Server_Answers\<close>, \<open>Rpc_Server_Sessions\<close> (\<open>rpc/server.go\<close>): a connection
    of the server; the goroutine of each line is a phase, and a run of a session is one action. Every request is
    answered once, the connection drains, identifiers of sessions are unique and are not used again.
  \<^item> \<open>Rpc_Server_Agents\<close>: the locale \<open>factory_agents\<close>, by which what the configurations of the host's factory
    give holds of the agent of every session; a sublocale makes it a \<open>step_invariant\<close>.
  \<^item> \<open>Sandbox\<close>, \<open>Sandbox_Shell\<close>, \<open>Sandbox_Props\<close> (\<open>sandbox/\<close>): commands on the host, in a container and in the
    persistent shell, the bound on output, the tool; the shell reports the exit code behind its own marker, and a
    POSIX shell that reads the command line back finds the arguments that were quoted.
  \<^item> \<open>Jev\<close>, \<open>Jev_Props\<close> (\<open>jev/jev.go\<close>): the client of the decision service and the labels of its answers.
  \<^item> \<open>Test_Doubles\<close> (\<open>rimenotest/model.go\<close>): the scripted model and its stream, which agree on every run.
  \<^item> \<open>Telemetry\<close> (\<open>otel/otel.go\<close>): the export of a trace to a tracer, and what a tracer that keeps its spans holds
    afterwards. \<open>Event_Log\<close> (\<open>events_slog.go\<close>): the log record of each event.
  \<^item> \<open>Go_Flag\<close>, \<open>Cli\<close>, \<open>Cli_Props\<close> (\<open>cmd/rimeno/main.go\<close>): the flags, \<open>main\<close> and its commands over the models of the library; the
    interpretation \<open>serve\<close> of \<open>factory_agents\<close> on the factory of \<open>serve -demo\<close>.

  \<^bold>\<open>What the properties say.\<close> The first group is about a run: it refines the abstract turns, its
  stop reason and error agree, it is bounded by steps and by the budget, it accounts for usage, charges a
  subagent for its own model calls, pairs tool results with calls, threads the full history and leaves a tree of spans. Then the
  fan-outs under every schedule, workflows, compaction, memory that survives restarts and failures,
  streams and retries of the clients, the server's answers and sessions, commands in sandboxes, schemas
  and \<open>.env\<close> files, the export that mirrors a run, and the demo server that echoes through all of its layers. Some theorems record behaviour that
  differs from what the comments of the code promise.

  \<^bold>\<open>Not modelled.\<close> What is outside the program is a parameter: processes and signals (the system calls of
  \<open>setPgid\<close> and \<open>killProc\<close>, the server behind \<open>NewStdioClient\<close>, the lines the reader goroutine of the shell
  delivers), the network, JSON codecs (\<open>Trace.JSON\<close> and \<open>LoadTrace\<close> only call one), the parsing
  and formatting of numbers and dates, the logger and the tracer. \<open>examples/\<close> are programs for a reader
  that wire the library together. Plain declarations such as the interfaces and the constants of protocol
  versions have no definition of their own. The memory model of Go is not
  modelled: data that the code protects by a mutex is changed in atomic steps.
\<close>

end
